(* ===== verification/Prelude.thy ===== *)
theory Prelude
  imports Complex_Main "HOL-Library.Word" "HOL-Library.Signed_Division"
begin

section \<open>Go integers, results and the shared automation\<close>

text \<open>
  What every component of the development uses: Go's \<^verbatim>\<open>int64\<close> (and the 64-bit
  \<^verbatim>\<open>int\<close>) read as a HOL \<^typ>\<open>int\<close> with the wrap-around of two's complement written
  out by \<open>wrap64\<close>; \<^verbatim>\<open>math/big\<close> integers, which are HOL integers as they stand; Go's
  division and remainder, which truncate (\<open>sdiv\<close>, \<open>smod\<close> of the library); ceiling
  division; and lemmas on lists and maps that several components share.
\<close>

named_theorems i64_defs \<open>definitions of the int64 bounds, for linear arithmetic\<close>
named_theorems go_simps \<open>facts that evaluate Go primitives\<close>

type_synonym int64 = int
type_synonym uint64 = nat
type_synonym bigint = int
type_synonym nanos = int

subsection \<open>The int64 range\<close>

definition i64_max :: int where
  "i64_max = 9223372036854775807"

definition i64_min :: int where
  "i64_min = - 9223372036854775808"

definition in_i64 :: "int \<Rightarrow> bool" where
  "in_i64 x \<longleftrightarrow> i64_min \<le> x \<and> x \<le> i64_max"

declare i64_max_def [i64_defs] i64_min_def [i64_defs] in_i64_def [i64_defs]

definition wrap64 :: "int \<Rightarrow> int" where
  "wrap64 x = (x + 9223372036854775808) mod 18446744073709551616 - 9223372036854775808"

lemma wrap64_in_i64 [simp, intro]: "in_i64 (wrap64 x)"
proof -
  have "0 \<le> (x + 9223372036854775808) mod 18446744073709551616"
    and "(x + 9223372036854775808) mod 18446744073709551616 < 18446744073709551616"
    by simp_all
  then show ?thesis by (simp add: wrap64_def i64_defs)
qed

lemma wrap64_id [simp]: "in_i64 x \<Longrightarrow> wrap64 x = x"
  by (simp add: wrap64_def i64_defs)

lemma wrap64_id_iff: "wrap64 x = x \<longleftrightarrow> in_i64 x"
  by (metis wrap64_id wrap64_in_i64)

text \<open>The model's wrap-around is the one of 64-bit words read as signed.\<close>

lemma wrap64_word: "wrap64 x = sint (word_of_int x :: 64 word)"
proof -
  have "sint (word_of_int x :: 64 word) = signed_take_bit 63 x"
    by (simp add: sint_uint signed_take_bit_eq_take_bit_shift take_bit_eq_mod unsigned_of_int
        mod_simps)
  also have "\<dots> = wrap64 x"
    by (simp add: wrap64_def signed_take_bit_eq_take_bit_shift take_bit_eq_mod)
  finally show ?thesis by simp
qed

lemma wrap64_period: "wrap64 (x + 18446744073709551616 * k) = wrap64 x"
  by (simp add: wrap64_def add.commute [of x] add.assoc)

lemma wrap64_cases:
  assumes "- 18446744073709551616 \<le> x" and "x < 18446744073709551616"
  shows "wrap64 x = (if x < i64_min then x + 18446744073709551616
                     else if x > i64_max then x - 18446744073709551616 else x)"
proof -
  consider "x < i64_min" | "in_i64 x" | "x > i64_max" by (force simp: in_i64_def)
  then show ?thesis
  proof cases
    case 1
    with assms have "in_i64 (x + 18446744073709551616 * 1)" by (simp add: i64_defs)
    with 1 wrap64_period [of x 1] show ?thesis by simp
  next
    case 2
    then show ?thesis by (simp add: in_i64_def)
  next
    case 3
    with assms have "in_i64 (x + 18446744073709551616 * (- 1))" by (simp add: i64_defs)
    with 3 wrap64_period [of x "- 1"] show ?thesis by (simp add: i64_defs)
  qed
qed

lemma in_i64_zero [simp]: "in_i64 0"
  by (simp add: i64_defs)

lemma in_i64_one [simp]: "in_i64 1"
  by (simp add: i64_defs)

lemma in_i64_between: "in_i64 a \<Longrightarrow> in_i64 b \<Longrightarrow> a \<le> x \<Longrightarrow> x \<le> b \<Longrightarrow> in_i64 x"
  by (simp add: in_i64_def)

subsection \<open>Truncated and ceiling division\<close>

lemma sdiv_nonneg: "0 \<le> a \<Longrightarrow> 0 \<le> b \<Longrightarrow> a sdiv b = a div (b::int)"
  by (cases "a = 0"; cases "b = 0") (simp_all add: signed_divide_int_def sgn_if)

lemma smod_nonneg: "0 \<le> a \<Longrightarrow> 0 \<le> b \<Longrightarrow> a smod b = a mod (b::int)"
  by (metis sdiv_nonneg minus_sdiv_mult_eq_smod minus_div_mult_eq_mod)

lemma sdiv_mult_cancel: "a \<noteq> 0 \<Longrightarrow> (b * a) sdiv a = (b :: int)"
proof -
  assume "a \<noteq> 0"
  then have "(b * a) sdiv a = sgn b * (sgn a * sgn a) * \<bar>b\<bar>"
    by (simp add: signed_divide_int_def sgn_mult abs_mult)
  also have "sgn a * sgn a = 1" using \<open>a \<noteq> 0\<close> by (simp add: sgn_if)
  finally show ?thesis by (simp add: sgn_if)
qed

definition cdiv :: "int \<Rightarrow> int \<Rightarrow> int" where
  "cdiv a b = (a + b - 1) div b"

lemma cdiv_le: "0 < b \<Longrightarrow> cdiv a b * b < a + b"
proof -
  assume b: "0 < b"
  have "(a + b - 1) div b * b \<le> a + b - 1"
    using pos_mod_sign [OF b, of "a + b - 1"] by (simp add: minus_mod_eq_div_mult [symmetric])
  then show ?thesis by (simp add: cdiv_def)
qed

lemma cdiv_ge: "0 < b \<Longrightarrow> a \<le> cdiv a b * b"
proof -
  assume b: "0 < b"
  have "(a + b - 1) = (a + b - 1) div b * b + (a + b - 1) mod b" by simp
  moreover have "(a + b - 1) mod b < b" using b by simp
  ultimately show ?thesis unfolding cdiv_def by linarith
qed

lemma cdiv_unique: "0 < b \<Longrightarrow> a \<le> q * b \<Longrightarrow> q * b < a + b \<Longrightarrow> cdiv a b = q"
proof -
  assume b: "0 < b" and 1: "a \<le> q * b" and 2: "q * b < a + b"
  have "a + b - 1 = q * b + (a + b - 1 - q * b)" by simp
  moreover have "0 \<le> a + b - 1 - q * b" "a + b - 1 - q * b < b" using 1 2 by linarith+
  ultimately have "(a + b - 1) div b = q"
    by (metis b add.commute div_mult_self3 div_pos_pos_trivial add.left_neutral less_le)
  then show ?thesis by (simp add: cdiv_def)
qed

lemma cdiv_mono: "0 < b \<Longrightarrow> a \<le> a' \<Longrightarrow> cdiv a b \<le> cdiv a' b"
  by (simp add: cdiv_def zdiv_mono1)

lemma cdiv_least: "0 < b \<Longrightarrow> a \<le> q * b \<Longrightarrow> cdiv a b \<le> q"
  using cdiv_mono [of b a "q * b"] cdiv_unique [of b "q * b" q] by simp

lemma cdiv_pos: "0 < b \<Longrightarrow> 0 < a \<Longrightarrow> 0 < cdiv a b"
  using cdiv_ge [of b a] by (smt (verit) mult_nonpos_nonneg)

lemma cdiv_nonneg: "0 < b \<Longrightarrow> 0 \<le> a \<Longrightarrow> 0 \<le> cdiv a b"
  by (cases "a = 0") (use cdiv_pos [of b a] in \<open>auto simp: cdiv_def\<close>)

lemma cdiv_zero [simp]: "0 < b \<Longrightarrow> cdiv 0 b = 0"
  by (simp add: cdiv_def)

lemma cdiv_add_le: "0 < b \<Longrightarrow> cdiv (x + y) b \<le> cdiv x b + cdiv y b"
proof -
  assume b: "0 < b"
  have "x + y \<le> (cdiv x b + cdiv y b) * b"
    using cdiv_ge [OF b, of x] cdiv_ge [OF b, of y] by (simp add: distrib_right)
  moreover have "cdiv (x + y) b * b < x + y + b" by (rule cdiv_le [OF b])
  ultimately have "cdiv (x + y) b * b < (cdiv x b + cdiv y b + 1) * b"
    by (simp add: distrib_right)
  then show ?thesis using b by (simp add: mult_less_cancel_right)
qed

subsection \<open>Lists\<close>

lemma sum_list_nonneg_int: "(\<And>x. x \<in> set xs \<Longrightarrow> 0 \<le> f x) \<Longrightarrow> 0 \<le> sum_list (map f xs)"
  for f :: "'a \<Rightarrow> int"
  by (induction xs) auto

lemma filter_length_le_map: "length (filter P (map f xs)) = length (filter (P \<circ> f) xs)"
  by (simp add: filter_map)

subsection \<open>Transition systems\<close>

text \<open>
  The interface between a component that runs as interleaved atomic steps and the proofs about
  its reachable states: an invariant holds at the start and every step keeps it. A measure of
  what has happened may only grow.
\<close>

locale transition_system =
  fixes init :: "'s \<Rightarrow> bool"
    and step :: "'s \<Rightarrow> 's \<Rightarrow> bool"
    and inv :: "'s \<Rightarrow> bool"
  assumes init_inv: "init s \<Longrightarrow> inv s"
    and step_inv: "inv s \<Longrightarrow> step s t \<Longrightarrow> inv t"
begin

lemma steps_inv: "inv s \<Longrightarrow> step\<^sup>*\<^sup>* s t \<Longrightarrow> inv t"
  by (rotate_tac, induction rule: rtranclp_induct) (auto intro: step_inv)

lemma reachable_inv: "init s \<Longrightarrow> step\<^sup>*\<^sup>* s t \<Longrightarrow> inv t"
  by (auto intro: steps_inv init_inv)

lemma stable:
  assumes "init s" "step\<^sup>*\<^sup>* s t" "P t" "\<And>u v. inv u \<Longrightarrow> P u \<Longrightarrow> step u v \<Longrightarrow> P v" "step\<^sup>*\<^sup>* t u"
  shows "P u"
proof -
  have "inv t" using assms(1,2) by (rule reachable_inv)
  from assms(5) this assms(3) have "inv u \<and> P u"
    by (induction rule: rtranclp_induct) (use assms(4) step_inv in blast)+
  then show ?thesis by simp
qed

end

end
