(* ===== verification/GoFloat.thy ===== *)
theory GoFloat
  imports Prelude "HOL-Library.Log_Nat"
begin

section \<open>Go's float64\<close>

text \<open>
  IEEE 754 binary64 as Go computes with it: a value is NaN, an infinity or a finite number,
  which is held as the rational it denotes (so the two zeros are one value; no modelled code
  tells them apart). \<open>fl\<close> rounds an exact rational result to the nearest value with a 53-bit
  significand, ties to even, with gradual underflow and overflow to the infinities;
  the arithmetic operations compute exactly and round once.
\<close>

datatype f64 = NaN | PInf | NInf | Fin rat

definition round_he :: "rat \<Rightarrow> int" where
  "round_he q = (let f = \<lfloor>q\<rfloor>; d = q - of_int f in
     if d < 1 / 2 then f else if 1 / 2 < d then f + 1 else if even f then f else f + 1)"

text \<open>The exponent of a positive rational: \<open>2 powi e \<le> q < 2 powi (e + 1)\<close>.\<close>

definition ilog2 :: "rat \<Rightarrow> int" where
  "ilog2 q = (case quotient_of q of (n, d) \<Rightarrow>
     let k = bitlen n - bitlen d in if 2 powi k \<le> q then k else k - 1)"

definition ulp_exp :: "rat \<Rightarrow> int" where
  "ulp_exp q = max (ilog2 \<bar>q\<bar> - 52) (- 1074)"

definition fl :: "rat \<Rightarrow> f64" where
  "fl q = (if q = 0 then Fin 0
     else let s = 2 powi ulp_exp q; r = of_int (round_he (q / s)) * s in
       if 2 powi 1024 \<le> r then PInf else if r \<le> - (2 powi 1024) then NInf else Fin r)"

subsection \<open>Rounding to an integer\<close>

lemma round_he_error: "\<bar>of_int (round_he q) - q\<bar> \<le> 1 / 2"
proof -
  define f where "f = \<lfloor>q\<rfloor>"
  have "of_int f \<le> q" "q < of_int f + 1" unfolding f_def by linarith+
  then show ?thesis unfolding round_he_def Let_def f_def [symmetric] by (auto simp: abs_if)
qed

lemma round_he_of_int [simp]: "round_he (of_int n) = n"
  by (simp add: round_he_def)

lemma round_he_nonneg: "0 \<le> q \<Longrightarrow> 0 \<le> round_he q"
  by (auto simp: round_he_def Let_def)

lemma round_he_le: "q \<le> of_int n \<Longrightarrow> round_he q \<le> n"
proof -
  assume q: "q \<le> of_int n"
  have "of_int (round_he q) \<le> q + 1 / 2" using round_he_error [of q] by linarith
  with q have "of_int (round_he q) < (of_int (n + 1) :: rat)" by simp
  then show ?thesis by linarith
qed

lemma round_he_ge: "of_int n \<le> q \<Longrightarrow> n \<le> round_he q"
proof -
  assume q: "of_int n \<le> q"
  have "q - 1 / 2 \<le> of_int (round_he q)" using round_he_error [of q] by linarith
  with q have "of_int (n - 1) < (of_int (round_he q) :: rat)" by simp
  then show ?thesis by linarith
qed

subsection \<open>The exponent\<close>

lemma powi_add_nz: "2 powi (a + b) = 2 powi a * (2 powi b :: rat)"
  by (simp add: power_int_add)

lemma powi_mono: "a \<le> b \<Longrightarrow> 2 powi a \<le> (2 powi b :: rat)"
  by (rule power_int_increasing) auto

lemma powi_pos [simp]: "0 < (2 powi a :: rat)"
  by (rule zero_less_power_int) auto

lemma ilog2_bounds:
  assumes "0 < q"
  shows "2 powi ilog2 q \<le> q" and "q < 2 powi (ilog2 q + 1)"
proof -
  obtain n d where nd: "quotient_of q = (n, d)" by (cases "quotient_of q")
  have d: "0 < d" using nd by (rule quotient_of_denom_pos)
  have q: "q = of_int n / of_int d" using nd by (rule quotient_of_div)
  have n: "0 < n" using assms d q by (simp add: zero_less_divide_iff)
  define k where "k = bitlen n - bitlen d"
  have bn: "2 powi (bitlen n - 1) \<le> (of_int n :: rat)" "of_int n < (2 powi bitlen n :: rat)"
    and bd: "2 powi (bitlen d - 1) \<le> (of_int d :: rat)" "of_int d < (2 powi bitlen d :: rat)"
  proof -
    have *: "2 powi (bitlen m - 1) \<le> (of_int m :: rat) \<and> of_int m < (2 powi bitlen m :: rat)"
      if m: "0 < m" for m
    proof -
      have "2 ^ nat (bitlen m - 1) \<le> m" "m < 2 ^ nat (bitlen m)"
        using bitlen_bounds [OF m] by auto
      moreover have "0 \<le> bitlen m - 1" using m by (simp add: bitlen_def floorlog_def)
      ultimately show ?thesis
        by (simp add: power_int_def bitlen_nonneg)
    qed
    show "2 powi (bitlen n - 1) \<le> (of_int n :: rat)" "of_int n < (2 powi bitlen n :: rat)"
      using * [OF n] by auto
    show "2 powi (bitlen d - 1) \<le> (of_int d :: rat)" "of_int d < (2 powi bitlen d :: rat)"
      using * [OF d] by auto
  qed
  have up: "q < 2 powi (k + 1)"
  proof -
    have "of_int n < (2 powi bitlen n :: rat)" by (rule bn(2))
    also have "\<dots> = 2 powi (k + 1) * 2 powi (bitlen d - 1)"
      by (simp flip: powi_add_nz add: k_def)
    also have "\<dots> \<le> 2 powi (k + 1) * of_int d" using bd(1) by simp
    finally show ?thesis using d by (simp add: q divide_less_eq)
  qed
  have lo: "2 powi (k - 1) \<le> q"
  proof -
    have "2 powi (k - 1) * of_int d \<le> 2 powi (k - 1) * (2 powi bitlen d :: rat)"
      using bd(2) by simp
    also have "\<dots> = 2 powi (bitlen n - 1)" by (simp flip: powi_add_nz add: k_def)
    also have "\<dots> \<le> of_int n" by (rule bn(1))
    finally show ?thesis using d by (simp add: q le_divide_eq)
  qed
  have il: "ilog2 q = (if 2 powi k \<le> q then k else k - 1)"
    by (simp add: ilog2_def nd k_def Let_def)
  show "2 powi ilog2 q \<le> q" using lo by (simp add: il)
  show "q < 2 powi (ilog2 q + 1)" using up by (auto simp: il)
qed

lemma powi_less_imp: "2 powi a < (2 powi b :: rat) \<Longrightarrow> a < b"
  using powi_mono [of b a] by force

lemma ilog2_unique: "2 powi e \<le> q \<Longrightarrow> q < 2 powi (e + 1) \<Longrightarrow> ilog2 q = e"
proof -
  assume e: "2 powi e \<le> q" "q < 2 powi (e + 1)"
  have q: "0 < q" using e(1) powi_pos [of e] by linarith
  note b = ilog2_bounds [OF q]
  have "2 powi e < (2 powi (ilog2 q + 1) :: rat)" using e(1) b(2) by linarith
  moreover have "2 powi ilog2 q < (2 powi (e + 1) :: rat)" using e(2) b(1) by linarith
  ultimately have "e < ilog2 q + 1" "ilog2 q < e + 1" using powi_less_imp by blast+
  then show ?thesis by simp
qed

subsection \<open>The rounding error\<close>

lemma fl_zero [simp]: "fl 0 = Fin 0"
  by (simp add: fl_def)

lemma fl_abs_error:
  assumes "fl q = Fin r" and "q \<noteq> 0"
  shows "\<bar>r - q\<bar> \<le> 2 powi ulp_exp q / 2"
proof -
  define s :: rat where "s = 2 powi ulp_exp q"
  have s: "0 < s" by (simp add: s_def)
  have r: "r = of_int (round_he (q / s)) * s"
    using assms by (auto simp: fl_def Let_def s_def split: if_splits)
  have "\<bar>r - q\<bar> = \<bar>of_int (round_he (q / s)) - q / s\<bar> * s"
  proof -
    have "r - q = (of_int (round_he (q / s)) - q / s) * s"
      using s by (simp add: r left_diff_distrib)
    then show ?thesis using s by (simp add: abs_mult)
  qed
  also have "\<dots> \<le> 1 / 2 * s" using round_he_error s by (intro mult_right_mono) auto
  finally show ?thesis by (simp add: s_def)
qed

text \<open>In the normal range the error is at most half a unit in the 53rd place.\<close>

lemma fl_rel_error:
  assumes "fl q = Fin r" and "2 powi (- 1022) \<le> \<bar>q\<bar>"
  shows "\<bar>r - q\<bar> \<le> \<bar>q\<bar> * 2 powi (- 53)"
proof -
  have q: "0 < \<bar>q\<bar>" using assms(2) powi_pos [of "- 1022"] by linarith
  have "2 powi (- 1022) < (2 powi (ilog2 \<bar>q\<bar> + 1) :: rat)"
    using ilog2_bounds(2) [OF q] assms(2) by linarith
  then have "- 1022 < ilog2 \<bar>q\<bar> + 1" by (rule powi_less_imp)
  then have "ulp_exp q = ilog2 \<bar>q\<bar> + (- 52)" by (simp add: ulp_exp_def)
  then have "2 powi ulp_exp q / 2 = 2 powi ilog2 \<bar>q\<bar> * 2 powi (- 52) / (2 :: rat)"
    by (simp only: powi_add_nz)
  also have "\<dots> = 2 powi ilog2 \<bar>q\<bar> * 2 powi (- 53)"
    using powi_add_nz [of "- 53" 1] by simp
  also have "\<dots> \<le> \<bar>q\<bar> * 2 powi (- 53)"
    using ilog2_bounds(1) [OF q] by (intro mult_right_mono) auto
  finally show ?thesis using fl_abs_error [OF assms(1)] q by simp
qed

text \<open>Far from the largest value nothing overflows.\<close>

lemma ulp_le: "q \<noteq> 0 \<Longrightarrow> (2 powi ulp_exp q :: rat) \<le> \<bar>q\<bar> + 1"
proof -
  assume "q \<noteq> 0"
  then have q: "0 < \<bar>q\<bar>" by simp
  have "(2 powi (ilog2 \<bar>q\<bar> - 52) :: rat) \<le> 2 powi ilog2 \<bar>q\<bar>" by (rule powi_mono) simp
  also have "\<dots> \<le> \<bar>q\<bar>" by (rule ilog2_bounds [OF q])
  finally have 1: "(2 powi (ilog2 \<bar>q\<bar> - 52) :: rat) \<le> \<bar>q\<bar>" .
  have 2: "(2 powi (- 1074) :: rat) \<le> 2 powi 0" by (rule powi_mono) simp
  show ?thesis using 1 2 by (auto simp: ulp_exp_def max_def)
qed

lemma fl_finite:
  assumes "\<bar>q\<bar> \<le> 2 powi 1000"
  obtains r where "fl q = Fin r"
proof (cases "q = 0")
  case False
  define s :: rat where "s = 2 powi ulp_exp q"
  define r where "r = of_int (round_he (q / s)) * s"
  have s: "0 < s" by (simp add: s_def)
  have "\<bar>of_int (round_he (q / s)) - q / s\<bar> * s \<le> 1 / 2 * s"
    using round_he_error s by (intro mult_right_mono) auto
  moreover have "(of_int (round_he (q / s)) - q / s) * s = r - q"
    using s by (simp add: r_def left_diff_distrib)
  then have "\<bar>of_int (round_he (q / s)) - q / s\<bar> * s = \<bar>r - q\<bar>"
    using s by (metis abs_mult abs_of_pos)
  ultimately have "\<bar>r - q\<bar> \<le> s" using s by linarith
  then have "\<bar>r\<bar> \<le> 2 * \<bar>q\<bar> + 1" using ulp_le [OF False] unfolding s_def by linarith
  also have "\<dots> \<le> 2 * 2 powi 1000 + 1" using assms by simp
  also have "\<dots> < 2 powi 1024" by (simp add: power_int_def)
  finally have "\<bar>r\<bar> < 2 powi 1024" .
  then have "\<not> 2 powi 1024 \<le> r" "\<not> r \<le> - (2 powi 1024)" by linarith+
  then have "fl q = Fin r"
    unfolding fl_def Let_def s_def [symmetric] r_def [symmetric] using False by simp
  then show ?thesis by (rule that)
qed (use that in simp)

text \<open>Integers up to \<open>2 ^ 53\<close> are represented exactly.\<close>

lemma fl_exact:
  assumes q: "q = of_int m * 2 powi ulp_exp q" and b: "\<bar>q\<bar> < 2 powi 1024"
  shows "fl q = Fin q"
proof (cases "q = 0")
  case False
  define s :: rat where "s = 2 powi ulp_exp q"
  have s: "0 < s" by (simp add: s_def)
  have qs: "q = of_int m * s" using q by (simp add: s_def)
  then have "q / s = of_int m" using s by simp
  then have r: "of_int (round_he (q / s)) * s = q" using qs by simp
  have "\<not> 2 powi 1024 \<le> q" "\<not> q \<le> - (2 powi 1024)" using b by linarith+
  then show ?thesis
    unfolding fl_def s_def [symmetric] Let_def r using False by simp
qed simp

lemma ulp_exp_int:
  fixes n :: int
  assumes n: "n \<noteq> 0" "\<bar>n\<bar> \<le> 2 ^ 53"
  shows "ulp_exp (of_int n) \<le> 0 \<or> ulp_exp (of_int n) = 1 \<and> \<bar>n\<bar> = 2 ^ 53"
proof -
  let ?q = "\<bar>of_int n\<bar> :: rat"
  have q: "0 < ?q" using n by simp
  have le: "?q \<le> 2 powi 53" using n(2) by (simp add: power_int_def flip: of_int_abs)
  have "2 powi ilog2 ?q < (2 powi 54 :: rat)"
    using ilog2_bounds(1) [OF q] le by (simp add: power_int_def)
  then have e: "ilog2 ?q < 54" by (rule powi_less_imp)
  show ?thesis
  proof (cases "ilog2 ?q = 53")
    case True
    then have "2 powi 53 \<le> ?q" using ilog2_bounds(1) [OF q] by simp
    with le have "?q = 2 powi 53" by simp
    then have "(of_int \<bar>n\<bar> :: rat) = of_int (2 ^ 53)" by (simp add: power_int_def)
    then have "\<bar>n\<bar> = 2 ^ 53" by (simp only: of_int_eq_iff)
    then show ?thesis using True by (simp add: ulp_exp_def)
  next
    case False
    with e show ?thesis by (simp add: ulp_exp_def)
  qed
qed

lemma powi_of_nat: "e \<le> 0 \<Longrightarrow> (2 powi (- e) :: rat) = of_int (2 ^ nat (- e))"
  by (simp add: power_int_def)

lemma fl_of_int:
  assumes n: "\<bar>n\<bar> \<le> 2 ^ 53"
  shows "fl (of_int n) = Fin (of_int n)"
proof (cases "n = 0")
  case False
  have b: "\<bar>of_int n :: rat\<bar> < 2 powi 1024"
  proof -
    have "(of_int \<bar>n\<bar> :: rat) \<le> of_int (2 ^ 53)" using n by (simp only: of_int_le_iff)
    then have "\<bar>of_int n :: rat\<bar> \<le> 2 powi 53" by (simp add: power_int_def)
    also have "\<dots> < 2 powi 1024" by (simp add: power_int_def)
    finally show ?thesis .
  qed
  let ?e = "ulp_exp (of_int n)"
  from ulp_exp_int [OF False n] show ?thesis
  proof
    assume e: "?e \<le> 0"
    have "(of_int n :: rat) = (of_int n * 2 powi (- ?e)) * 2 powi ?e"
      by (simp add: mult.assoc flip: powi_add_nz)
    also have "of_int n * 2 powi (- ?e) = (of_int (n * 2 ^ nat (- ?e)) :: rat)"
      using powi_of_nat [OF e] by simp
    finally show ?thesis using b by (rule fl_exact)
  next
    assume e: "?e = 1 \<and> \<bar>n\<bar> = 2 ^ 53"
    then have "n = 2 ^ 53 \<or> n = - (2 ^ 53)" by linarith
    then have "n = (n div 2) * 2" by auto
    then have "(of_int n :: rat) = of_int (n div 2) * 2 powi ?e"
      using e by (metis of_int_mult of_int_numeral power_int_1_right)
    then show ?thesis using b by (rule fl_exact)
  qed
qed simp

subsection \<open>Conversions, arithmetic, comparison\<close>

definition f64_of_int :: "int64 \<Rightarrow> f64" where
  "f64_of_int n = fl (of_int n)"

fun f64_add :: "f64 \<Rightarrow> f64 \<Rightarrow> f64" where
  "f64_add (Fin a) (Fin b) = fl (a + b)"
| "f64_add NaN _ = NaN"
| "f64_add _ NaN = NaN"
| "f64_add PInf NInf = NaN"
| "f64_add NInf PInf = NaN"
| "f64_add PInf _ = PInf"
| "f64_add _ PInf = PInf"
| "f64_add NInf _ = NInf"
| "f64_add _ NInf = NInf"

fun f64_neg :: "f64 \<Rightarrow> f64" where
  "f64_neg (Fin a) = Fin (- a)"
| "f64_neg PInf = NInf"
| "f64_neg NInf = PInf"
| "f64_neg NaN = NaN"

definition f64_sub :: "f64 \<Rightarrow> f64 \<Rightarrow> f64" where
  "f64_sub a b = f64_add a (f64_neg b)"

definition inf_sgn :: "rat \<Rightarrow> f64" where
  "inf_sgn a = (if a = 0 then NaN else if 0 < a then PInf else NInf)"

fun f64_mul :: "f64 \<Rightarrow> f64 \<Rightarrow> f64" where
  "f64_mul (Fin a) (Fin b) = fl (a * b)"
| "f64_mul NaN _ = NaN"
| "f64_mul _ NaN = NaN"
| "f64_mul (Fin a) PInf = inf_sgn a"
| "f64_mul (Fin a) NInf = inf_sgn (- a)"
| "f64_mul PInf (Fin b) = inf_sgn b"
| "f64_mul NInf (Fin b) = inf_sgn (- b)"
| "f64_mul PInf PInf = PInf"
| "f64_mul NInf NInf = PInf"
| "f64_mul _ _ = NInf"

text \<open>Division by a finite non-zero constant, the only division the modelled code makes.\<close>

fun f64_div_const :: "f64 \<Rightarrow> rat \<Rightarrow> f64" where
  "f64_div_const (Fin a) c = fl (a / c)"
| "f64_div_const NaN c = NaN"
| "f64_div_const PInf c = inf_sgn c"
| "f64_div_const NInf c = inf_sgn (- c)"

fun f64_less :: "f64 \<Rightarrow> f64 \<Rightarrow> bool" where
  "f64_less (Fin a) (Fin b) = (a < b)"
| "f64_less NaN _ = False"
| "f64_less _ NaN = False"
| "f64_less _ NInf = False"
| "f64_less PInf _ = False"
| "f64_less _ _ = True"

fun f64_le :: "f64 \<Rightarrow> f64 \<Rightarrow> bool" where
  "f64_le NaN _ = False"
| "f64_le _ NaN = False"
| "f64_le (Fin a) (Fin b) = (a \<le> b)"
| "f64_le NInf _ = True"
| "f64_le _ PInf = True"
| "f64_le _ _ = False"

fun is_nan :: "f64 \<Rightarrow> bool" where
  "is_nan NaN = True"
| "is_nan _ = False"

fun is_inf :: "f64 \<Rightarrow> bool" where
  "is_inf PInf = True"
| "is_inf NInf = True"
| "is_inf _ = False"

text \<open>\<^verbatim>\<open>math.Round\<close> rounds half away from zero and is exact on finite values;
  \<^verbatim>\<open>math.Max\<close> returns NaN when either argument is.\<close>

definition round_away :: "rat \<Rightarrow> int" where
  "round_away q = (if 0 \<le> q then \<lfloor>q + 1 / 2\<rfloor> else - \<lfloor>- q + 1 / 2\<rfloor>)"

fun math_Round :: "f64 \<Rightarrow> f64" where
  "math_Round (Fin q) = Fin (of_int (round_away q))"
| "math_Round f = f"

fun math_Max :: "f64 \<Rightarrow> f64 \<Rightarrow> f64" where
  "math_Max NaN _ = NaN"
| "math_Max _ NaN = NaN"
| "math_Max a b = (if f64_less a b then b else a)"

definition trunc_rat :: "rat \<Rightarrow> int" where
  "trunc_rat q = (if 0 \<le> q then \<lfloor>q\<rfloor> else - \<lfloor>- q\<rfloor>)"

text \<open>\<^verbatim>\<open>int64(f)\<close> truncates; out of range the language leaves the result to the
  implementation, and amd64 gives the least integer.\<close>

fun int64_of_f64 :: "f64 \<Rightarrow> int64" where
  "int64_of_f64 (Fin q) = (let n = trunc_rat q in if in_i64 n then n else i64_min)"
| "int64_of_f64 _ = i64_min"

lemma round_away_of_int [simp]: "round_away (of_int n) = n"
proof (cases "0 \<le> n")
  case True
  have "\<lfloor>of_int n + 1 / 2 :: rat\<rfloor> = n" by linarith
  with True show ?thesis by (simp add: round_away_def)
next
  case False
  have "\<lfloor>- of_int n + 1 / 2 :: rat\<rfloor> = - n" by linarith
  with False show ?thesis by (simp add: round_away_def)
qed

lemma round_away_error: "\<bar>of_int (round_away q) - q\<bar> \<le> 1 / 2"
proof (cases "0 \<le> q")
  case True
  have "\<bar>of_int \<lfloor>q + 1 / 2\<rfloor> - q\<bar> \<le> 1 / 2" by linarith
  with True show ?thesis by (simp add: round_away_def)
next
  case False
  have "\<bar>- of_int \<lfloor>- q + 1 / 2\<rfloor> - q\<bar> \<le> 1 / 2" by linarith
  with False show ?thesis by (simp add: round_away_def)
qed

lemma round_away_unique: "\<bar>q - of_int n\<bar> < 1 / 2 \<Longrightarrow> round_away q = n"
proof -
  assume n: "\<bar>q - of_int n\<bar> < 1 / 2"
  have "\<bar>of_int (round_away q) - q\<bar> \<le> 1 / 2" by (rule round_away_error)
  with n have "\<bar>of_int (round_away q) - of_int n\<bar> < (1 :: rat)" by linarith
  then have "\<bar>of_int (round_away q - n)\<bar> < (1 :: rat)" by simp
  then show ?thesis by linarith
qed

lemma trunc_rat_of_int [simp]: "trunc_rat (of_int n) = n"
  by (simp add: trunc_rat_def)

lemma int64_of_f64_of_int [simp]: "in_i64 n \<Longrightarrow> int64_of_f64 (Fin (of_int n)) = n"
  by simp

lemma f64_of_int_exact: "\<bar>n\<bar> \<le> 2 ^ 53 \<Longrightarrow> f64_of_int n = Fin (of_int n)"
  by (simp add: f64_of_int_def fl_of_int)

text \<open>The extreme integers: the greatest rounds up to \<open>2 ^ 63\<close>, which is why range checks
  against it must refuse equality; the least is exact.\<close>

lemma f64_of_int_max: "f64_of_int i64_max = Fin 9223372036854775808"
proof -
  let ?q = "9223372036854775807 :: rat"
  have "ilog2 ?q = 62" by (rule ilog2_unique) (simp_all add: power_int_def)
  then have u: "ulp_exp ?q = 10" by (simp add: ulp_exp_def)
  have "\<lfloor>9223372036854775807 / 1024 :: rat\<rfloor> = 9007199254740991"
    by (rule floor_unique) simp_all
  then have "round_he (?q / 2 powi 10) = 9007199254740992"
    by (simp add: round_he_def Let_def power_int_def)
  then show ?thesis
    by (simp add: f64_of_int_def i64_max_def fl_def u Let_def)
qed

lemma f64_of_int_min: "f64_of_int i64_min = Fin (- 9223372036854775808)"
proof -
  let ?q = "- 9223372036854775808 :: rat"
  have "ilog2 \<bar>?q\<bar> = 63" by (rule ilog2_unique) (simp_all add: power_int_def)
  then have u: "ulp_exp ?q = 11" by (simp add: ulp_exp_def)
  have "fl ?q = Fin ?q"
    by (rule fl_exact [where m = "- 4503599627370496"]) (simp_all add: u power_int_def)
  then show ?thesis by (simp add: f64_of_int_def i64_min_def)
qed

end
