(* ===== verification/GoStr.thy ===== *)
theory GoStr
  imports Prelude "HOL-Library.Sublist"
begin

section \<open>Go strings\<close>

text \<open>
  A Go string is a sequence of bytes, here a HOL \<^typ>\<open>string\<close> (a \<^typ>\<open>char\<close> is a byte).
  Modelled are the functions of \<^verbatim>\<open>strings\<close>, \<^verbatim>\<open>strconv\<close>, \<^verbatim>\<open>fmt\<close> and \<^verbatim>\<open>path\<close> that
  the components call: \<^verbatim>\<open>TrimSpace\<close> with the UTF-8 forms of the Unicode spaces,
  \<^verbatim>\<open>ToLower\<close> on the ASCII letters (letters outside ASCII are kept as they are),
  decimal printing and parsing, and \<^verbatim>\<open>path.Match\<close> as the library's own scanning algorithm,
  on byte-sized characters.
\<close>

abbreviation byte :: "char \<Rightarrow> nat" where
  "byte c \<equiv> of_char c"

subsection \<open>Trimming and case\<close>

definition space_seqs :: "string list" where
  "space_seqs =
     [[CHR 0x09], [CHR 0x0A], [CHR 0x0B], [CHR 0x0C], [CHR 0x0D], [CHR 0x20],
      [CHR 0xC2, CHR 0x85], [CHR 0xC2, CHR 0xA0], [CHR 0xE1, CHR 0x9A, CHR 0x80],
      [CHR 0xE2, CHR 0x80, CHR 0x80], [CHR 0xE2, CHR 0x80, CHR 0x81],
      [CHR 0xE2, CHR 0x80, CHR 0x82], [CHR 0xE2, CHR 0x80, CHR 0x83],
      [CHR 0xE2, CHR 0x80, CHR 0x84], [CHR 0xE2, CHR 0x80, CHR 0x85],
      [CHR 0xE2, CHR 0x80, CHR 0x86], [CHR 0xE2, CHR 0x80, CHR 0x87],
      [CHR 0xE2, CHR 0x80, CHR 0x88], [CHR 0xE2, CHR 0x80, CHR 0x89],
      [CHR 0xE2, CHR 0x80, CHR 0x8A], [CHR 0xE2, CHR 0x80, CHR 0xA8],
      [CHR 0xE2, CHR 0x80, CHR 0xA9], [CHR 0xE2, CHR 0x80, CHR 0xAF],
      [CHR 0xE2, CHR 0x81, CHR 0x9F], [CHR 0xE3, CHR 0x80, CHR 0x80]]"

fun strip_one :: "string list \<Rightarrow> string \<Rightarrow> string option" where
  "strip_one [] s = None"
| "strip_one (p # ps) s =
     (if p \<noteq> [] \<and> prefix p s then Some (drop (length p) s) else strip_one ps s)"

lemma strip_one_length: "strip_one ps s = Some t \<Longrightarrow> length t < length s"
  by (induction ps) (auto split: if_splits simp: prefix_def)

function strip_all :: "string list \<Rightarrow> string \<Rightarrow> string" where
  "strip_all ps s = (case strip_one ps s of None \<Rightarrow> s | Some t \<Rightarrow> strip_all ps t)"
  by pat_completeness auto
termination
  by (relation "measure (\<lambda>(ps, s). length s)") (auto dest: strip_one_length)

declare strip_all.simps [simp del]

definition TrimSpace :: "string \<Rightarrow> string" where
  "TrimSpace s = rev (strip_all (map rev space_seqs) (rev (strip_all space_seqs s)))"

definition lower_char :: "char \<Rightarrow> char" where
  "lower_char c = (if 65 \<le> byte c \<and> byte c \<le> 90 then char_of (byte c + 32) else c)"

definition ToLower :: "string \<Rightarrow> string" where
  "ToLower s = map lower_char s"

definition upper_char :: "char \<Rightarrow> char" where
  "upper_char c = (if 97 \<le> byte c \<and> byte c \<le> 122 then char_of (byte c - 32) else c)"

definition ToUpper :: "string \<Rightarrow> string" where
  "ToUpper s = map upper_char s"

lemma strip_all_fix: "strip_one ps (strip_all ps s) = None"
  by (induction ps s rule: strip_all.induct) (subst strip_all.simps, auto split: option.split)

lemma strip_all_none: "strip_one ps s = None \<Longrightarrow> strip_all ps s = s"
  by (subst strip_all.simps) simp

lemma TrimSpace_Nil [simp]: "TrimSpace [] = []"
  by code_simp

text \<open>A string of characters none of which begins or ends a space sequence is left alone.\<close>

definition printable :: "char \<Rightarrow> bool" where
  "printable c \<longleftrightarrow> 33 \<le> byte c \<and> byte c \<le> 126"

lemma strip_one_none_hd:
  assumes "\<And>p. p \<in> set ps \<Longrightarrow> p \<noteq> [] \<Longrightarrow> hd p \<noteq> c"
  shows "strip_one ps (c # s) = None"
  using assms by (induction ps) (force simp: prefix_Cons)+

lemma space_seq_ends:
  "p \<in> set space_seqs \<Longrightarrow> \<not> printable (hd p) \<and> \<not> printable (last p) \<and> p \<noteq> []"
  by (auto simp: space_seqs_def printable_def)

lemma strip_all_printable: "printable c \<Longrightarrow> strip_all space_seqs (c # s) = c # s"
  by (rule strip_all_none, rule strip_one_none_hd) (use space_seq_ends in blast)

lemma strip_all_rev_printable: "printable c \<Longrightarrow> strip_all (map rev space_seqs) (c # s) = c # s"
  by (rule strip_all_none, rule strip_one_none_hd) (use space_seq_ends in \<open>auto simp: hd_rev\<close>)

lemma TrimSpace_printable:
  assumes "s \<noteq> []" and "printable (hd s)" and "printable (last s)"
  shows "TrimSpace s = s"
proof -
  obtain c t where s: "s = c # t" using assms(1) by (cases s) auto
  have 1: "strip_all space_seqs s = s" using assms(2) by (simp add: s strip_all_printable)
  have "rev s = last s # tl (rev s)" using assms(1)
    by (metis hd_rev list.exhaust_sel rev_is_Nil_conv)
  then have "strip_all (map rev space_seqs) (rev s) = rev s"
    using assms(3) by (metis strip_all_rev_printable)
  with 1 show ?thesis by (simp add: TrimSpace_def)
qed

subsection \<open>Decimal numbers\<close>

definition is_digit :: "char \<Rightarrow> bool" where
  "is_digit c \<longleftrightarrow> 48 \<le> byte c \<and> byte c \<le> 57"

definition digit_val :: "char \<Rightarrow> nat" where
  "digit_val c = byte c - 48"

definition digit_char :: "nat \<Rightarrow> char" where
  "digit_char d = char_of (48 + d)"

definition digits_val :: "string \<Rightarrow> nat" where
  "digits_val s = foldl (\<lambda>a c. a * 10 + digit_val c) 0 s"

fun show_nat :: "nat \<Rightarrow> string" where
  "show_nat n = (if n < 10 then [digit_char n] else show_nat (n div 10) @ [digit_char (n mod 10)])"

declare show_nat.simps [simp del]

definition show_int :: "int \<Rightarrow> string" where
  "show_int n = (if n < 0 then CHR ''-'' # show_nat (nat (- n)) else show_nat (nat n))"

definition pad_zero :: "nat \<Rightarrow> string \<Rightarrow> string" where
  "pad_zero w s = replicate (w - length s) (CHR ''0'') @ s"

lemma byte_digit_char: "d < 10 \<Longrightarrow> byte (digit_char d) = 48 + d"
  by (simp add: digit_char_def)

lemma is_digit_char [simp]: "d < 10 \<Longrightarrow> is_digit (digit_char d)"
  by (simp add: is_digit_def byte_digit_char)

lemma digit_val_char [simp]: "d < 10 \<Longrightarrow> digit_val (digit_char d) = d"
  by (simp add: digit_val_def byte_digit_char)

lemma digits_val_snoc: "digits_val (s @ [c]) = digits_val s * 10 + digit_val c"
  by (simp add: digits_val_def)

lemma digits_val_Nil [simp]: "digits_val [] = 0"
  by (simp add: digits_val_def)

lemma digits_val_append: "digits_val (s @ t) = digits_val s * 10 ^ length t + digits_val t"
proof (induction t rule: rev_induct)
  case (snoc c t)
  have "digits_val (s @ t @ [c]) = digits_val (s @ t) * 10 + digit_val c"
    using digits_val_snoc [of "s @ t" c] by simp
  with snoc show ?case by (simp add: digits_val_snoc algebra_simps)
qed simp

lemma digits_val_replicate0 [simp]: "digits_val (replicate n (CHR ''0'')) = 0"
  by (induction n) (simp_all add: replicate_append_same [symmetric] digits_val_snoc digit_val_def)

lemma digits_val_pad [simp]: "digits_val (pad_zero w s) = digits_val s"
  by (simp add: pad_zero_def digits_val_append)

lemma show_nat_digits: "show_nat n \<noteq> [] \<and> list_all is_digit (show_nat n)"
  by (induction n rule: show_nat.induct) (subst show_nat.simps, auto)+

lemma show_nat_nonempty [simp]: "show_nat n \<noteq> []"
  and show_nat_all_digit [simp]: "list_all is_digit (show_nat n)"
  using show_nat_digits by blast+

lemma digits_val_show [simp]: "digits_val (show_nat n) = n"
proof (induction n rule: show_nat.induct)
  case (1 n)
  show ?case
  proof (cases "n < 10")
    case True
    have "digits_val ([] @ [digit_char n]) = n" using True by (subst digits_val_snoc) simp
    with True show ?thesis by (subst show_nat.simps) simp
  next
    case False
    with "1.IH" show ?thesis by (subst show_nat.simps) (simp add: digits_val_snoc)
  qed
qed

lemma length_show_nat: "n < 10 ^ Suc k \<Longrightarrow> length (show_nat n) \<le> Suc k"
proof (induction k arbitrary: n)
  case 0
  then show ?case by (subst show_nat.simps) simp
next
  case (Suc k)
  have "n div 10 < 10 ^ Suc k" using Suc.prems by (simp add: less_mult_imp_div_less)
  then have "length (show_nat (n div 10)) \<le> Suc k" by (rule Suc.IH)
  then show ?case by (subst show_nat.simps) simp
qed

lemma length_pad: "length s \<le> w \<Longrightarrow> length (pad_zero w s) = w"
  by (simp add: pad_zero_def)

lemma pad_zero_all_digit: "list_all is_digit s \<Longrightarrow> list_all is_digit (pad_zero w s)"
  by (auto simp: pad_zero_def list_all_iff is_digit_def)

lemma is_digit_printable: "is_digit c \<Longrightarrow> printable c"
  by (simp add: is_digit_def printable_def)

text \<open>\<^verbatim>\<open>strconv.ParseInt(s, 10, 64)\<close> and \<^verbatim>\<open>ParseUint(s, 10, n)\<close>: \<open>None\<close> for every error.\<close>

definition ParseDigits :: "string \<Rightarrow> nat option" where
  "ParseDigits s = (if s \<noteq> [] \<and> list_all is_digit s then Some (digits_val s) else None)"

definition ParseInt :: "nat \<Rightarrow> string \<Rightarrow> int option" where
  "ParseInt bits s =
     (let (neg, body) = (case s of c # t \<Rightarrow> if c = CHR ''-'' then (True, t)
                                        else if c = CHR ''+'' then (False, t) else (False, s)
                          | [] \<Rightarrow> (False, s))
      in case ParseDigits body of None \<Rightarrow> None
         | Some n \<Rightarrow> (if neg then if int n \<le> 2 ^ (bits - 1) then Some (- int n) else None
                     else if int n < 2 ^ (bits - 1) then Some (int n) else None))"

definition ParseUint :: "nat \<Rightarrow> string \<Rightarrow> nat option" where
  "ParseUint bits s = (case ParseDigits s of None \<Rightarrow> None
     | Some n \<Rightarrow> if n < 2 ^ bits then Some n else None)"

lemma ParseDigits_show [simp]: "ParseDigits (show_nat n) = Some n"
  by (simp add: ParseDigits_def)

lemma digit_not_sign: "is_digit c \<Longrightarrow> c \<noteq> CHR ''-'' \<and> c \<noteq> CHR ''+''"
  by (auto simp: is_digit_def)

lemma ParseInt_digits:
  assumes "s \<noteq> []" and "list_all is_digit s"
  shows "ParseInt bits s
    = (if int (digits_val s) < 2 ^ (bits - 1) then Some (int (digits_val s)) else None)"
proof -
  obtain c t where s: "s = c # t" using assms(1) by (cases s) auto
  have "is_digit c" using assms(2) s by simp
  then show ?thesis
    using assms digit_not_sign [of c] by (simp add: ParseInt_def ParseDigits_def s)
qed

lemma ParseInt_show: "in_i64 n \<Longrightarrow> ParseInt 64 (show_int n) = Some n"
proof (cases "n < 0")
  case True
  assume "in_i64 n"
  with True show ?thesis by (simp add: show_int_def ParseInt_def i64_defs)
next
  case False
  assume "in_i64 n"
  with False show ?thesis
    by (simp add: show_int_def ParseInt_digits) (simp add: i64_defs)
qed

subsection \<open>\<^verbatim>\<open>path.Match\<close>\<close>

text \<open>
  The scanning algorithm of Go's \<^verbatim>\<open>path.Match\<close>: a pattern is cut into chunks, each
  perhaps after a star; a chunk is matched at the current position or, after a star, at the
  first later position reached without passing a slash. The outcome \<open>None\<close> is
  \<^verbatim>\<open>ErrBadPattern\<close>.
\<close>

fun get_esc :: "string \<Rightarrow> (char \<times> string) option" where
  "get_esc [] = None"
| "get_esc (c # cs) =
     (if c = CHR ''-'' \<or> c = CHR '']'' then None
      else if c = CHR 0x5C then
        (case cs of [] \<Rightarrow> None | d # ds \<Rightarrow> if ds = [] then None else Some (d, ds))
      else if cs = [] then None else Some (c, cs))"

lemma get_esc_length: "get_esc s = Some (c, t) \<Longrightarrow> length t < length s \<and> t \<noteq> []"
  by (cases s) (auto split: if_splits list.splits)

function parse_ranges :: "bool \<Rightarrow> string \<Rightarrow> ((char \<times> char) list \<times> string) option" where
  "parse_ranges started chunk =
     (if started \<and> chunk \<noteq> [] \<and> hd chunk = CHR '']'' then Some ([], tl chunk)
      else case get_esc chunk of None \<Rightarrow> None
      | Some (lo, ch1) \<Rightarrow>
          (if hd ch1 = CHR ''-'' then
             (case get_esc (tl ch1) of None \<Rightarrow> None
              | Some (hi, ch2) \<Rightarrow>
                  map_option (\<lambda>(rs, rest). ((lo, hi) # rs, rest)) (parse_ranges True ch2))
           else map_option (\<lambda>(rs, rest). ((lo, lo) # rs, rest)) (parse_ranges True ch1)))"
  by pat_completeness auto
termination
  by (relation "measure (\<lambda>(b, s). length s)")
    (auto dest!: get_esc_length simp: less_trans neq_Nil_conv)

declare parse_ranges.simps [simp del]

lemma parse_ranges_length: "parse_ranges b s = Some (rs, t) \<Longrightarrow> length t < length s"
proof (induction "length s" arbitrary: b s rs t rule: less_induct)
  case less
  have IH: "length t < length s"
    if "parse_ranges True s' = Some (rs', t)" "length s' < length s" for s' rs'
    using less.hyps [OF that(2,1)] that(2) by linarith
  from less.prems show ?case
    by (subst (asm) parse_ranges.simps)
      (auto split: if_splits option.splits prod.splits dest!: get_esc_length intro: IH
        simp: neq_Nil_conv)
qed

datatype chunk_res = BadPattern | NoMatch | Rest string

definition in_ranges :: "(char \<times> char) list \<Rightarrow> char \<Rightarrow> bool" where
  "in_ranges rs c \<longleftrightarrow> list_ex (\<lambda>(lo, hi). byte lo \<le> byte c \<and> byte c \<le> byte hi) rs"

definition match_lit :: "bool \<Rightarrow> char \<Rightarrow> string \<Rightarrow> bool" where
  "match_lit failed c s \<longleftrightarrow> failed \<or> s = [] \<or> hd s \<noteq> c"

function match_chunk :: "bool \<Rightarrow> string \<Rightarrow> string \<Rightarrow> chunk_res" where
  "match_chunk failed [] s = (if failed then NoMatch else Rest s)"
| "match_chunk failed (c # cs) s =
     (let f = failed \<or> s = [] in
      if c = CHR ''['' then
        (let negated = (cs \<noteq> [] \<and> hd cs = CHR ''^''); body = (if negated then tl cs else cs) in
         case parse_ranges False body of None \<Rightarrow> BadPattern
         | Some (rs, rest) \<Rightarrow>
             if f then match_chunk True rest s
             else match_chunk (in_ranges rs (hd s) = negated) rest (tl s))
      else if c = CHR ''?'' then
        (if f then match_chunk True cs s else match_chunk (hd s = CHR ''/'') cs (tl s))
      else if c = CHR 0x5C then
        (case cs of [] \<Rightarrow> BadPattern
         | d # ds \<Rightarrow> match_chunk (match_lit f d s) ds (if f then s else tl s))
      else match_chunk (match_lit f c s) cs (if f then s else tl s))"
  by pat_completeness auto
termination
  by (relation "measure (\<lambda>(b, c, s). length c)")
    (auto dest!: parse_ranges_length split: if_splits)

declare match_chunk.simps(2) [simp del]

fun scan_len :: "bool \<Rightarrow> string \<Rightarrow> nat" where
  "scan_len inrange [] = 0"
| "scan_len inrange (c # cs) =
     (if c = CHR 0x5C then (case cs of [] \<Rightarrow> 1 | d # ds \<Rightarrow> 2 + scan_len inrange ds)
      else if c = CHR ''['' then Suc (scan_len True cs)
      else if c = CHR '']'' then Suc (scan_len False cs)
      else if c = CHR ''*'' \<and> \<not> inrange then 0
      else Suc (scan_len inrange cs))"

definition scan_chunk :: "string \<Rightarrow> bool \<times> string \<times> string" where
  "scan_chunk pat =
     (let p = dropWhile (\<lambda>c. c = CHR ''*'') pat; n = scan_len False p
      in (pat \<noteq> [] \<and> hd pat = CHR ''*'', take n p, drop n p))"

fun star_scan :: "string \<Rightarrow> bool \<Rightarrow> string \<Rightarrow> chunk_res" where
  "star_scan chunk final [] = NoMatch"
| "star_scan chunk final (c # cs) =
     (if c = CHR ''/'' then NoMatch
      else case match_chunk False chunk cs of
        BadPattern \<Rightarrow> BadPattern
      | NoMatch \<Rightarrow> star_scan chunk final cs
      | Rest t \<Rightarrow> if final \<and> t \<noteq> [] then star_scan chunk final cs else Rest t)"

lemma scan_len_pos: "p \<noteq> [] \<Longrightarrow> hd p \<noteq> CHR ''*'' \<Longrightarrow> 0 < scan_len False p"
  by (cases p) (auto split: list.splits)

lemma scan_chunk_length: "pat \<noteq> [] \<Longrightarrow> scan_chunk pat = (star, chunk, rest) \<Longrightarrow> length rest < length pat"
proof -
  assume ne: "pat \<noteq> []" and sc: "scan_chunk pat = (star, chunk, rest)"
  let ?p = "dropWhile (\<lambda>c. c = CHR ''*'') pat"
  have r: "rest = drop (scan_len False ?p) ?p" using sc by (simp add: scan_chunk_def Let_def)
  show ?thesis
  proof (cases "hd pat = CHR ''*''")
    case True
    then have "length ?p < length pat"
      using ne by (cases pat) (auto simp: length_dropWhile_le le_imp_less_Suc)
    then show ?thesis by (simp add: r less_imp_diff_less)
  next
    case False
    then have "?p = pat" using ne by (cases pat) auto
    then show ?thesis using scan_len_pos [OF ne False] ne by (simp add: r)
  qed
qed

lemma scan_chunk_less:
  "(star, chunk, rest) = scan_chunk pat \<Longrightarrow> pat \<noteq> [] \<Longrightarrow> length rest < length pat"
  by (metis scan_chunk_length)

function well_formed_rest :: "string \<Rightarrow> bool" where
  "well_formed_rest pat =
     (if pat = [] then True
      else case scan_chunk pat of (_, chunk, rest) \<Rightarrow>
        match_chunk True chunk [] \<noteq> BadPattern \<and> well_formed_rest rest)"
  by pat_completeness auto
termination
  by (relation "measure length") (auto intro: scan_chunk_less)

function path_Match :: "string \<Rightarrow> string \<Rightarrow> bool option" where
  "path_Match pat name =
     (if pat = [] then Some (name = [])
      else case scan_chunk pat of (star, chunk, rest) \<Rightarrow>
        if star \<and> chunk = [] then Some (CHR ''/'' \<notin> set name)
        else case match_chunk False chunk name of
          BadPattern \<Rightarrow> None
        | r \<Rightarrow>
          (case (case r of Rest t \<Rightarrow> if t = [] \<or> rest \<noteq> [] then Some t else None | _ \<Rightarrow> None) of
             Some t \<Rightarrow> path_Match rest t
           | None \<Rightarrow>
             (case (if star then star_scan chunk (rest = []) name else NoMatch) of
                BadPattern \<Rightarrow> None
              | Rest t \<Rightarrow> path_Match rest t
              | NoMatch \<Rightarrow> if well_formed_rest rest then Some False else None)))"
  by pat_completeness auto
termination
  by (relation "measure (\<lambda>(p, n). length p)") (auto intro: scan_chunk_less)

declare well_formed_rest.simps [simp del]
declare path_Match.simps [simp del]

text \<open>\<^verbatim>\<open>matched, _ := path.Match(p, s)\<close>: a bad pattern never matches.\<close>

definition glob :: "string \<Rightarrow> string \<Rightarrow> bool" where
  "glob p s \<longleftrightarrow> path_Match p s = Some True"

text \<open>Patterns of ordinary characters match themselves; with a final star, any slash-free
  continuation.\<close>

definition plain_char :: "char \<Rightarrow> bool" where
  "plain_char c \<longleftrightarrow> c \<notin> {CHR ''*'', CHR ''['', CHR ''?'', CHR 0x5C, CHR '']''}"

lemma match_chunk_plain_Cons:
  "plain_char c \<Longrightarrow> match_chunk f (c # cs) s
    = match_chunk (match_lit (f \<or> s = []) c s) cs (if f \<or> s = [] then s else tl s)"
  by (simp add: match_chunk.simps(2) plain_char_def Let_def)

lemma match_chunk_failed_plain:
  "list_all plain_char p \<Longrightarrow> match_chunk True p s = NoMatch"
  by (induction p arbitrary: s) (auto simp: match_chunk_plain_Cons match_lit_def)

lemma match_chunk_plain:
  "list_all plain_char p \<Longrightarrow>
    match_chunk False p s = (if prefix p s then Rest (drop (length p) s) else NoMatch)"
proof (induction p arbitrary: s)
  case Nil
  then show ?case by simp
next
  case (Cons c cs)
  then show ?case
    by (cases s; cases "hd s = c")
      (auto simp: match_chunk_plain_Cons match_lit_def match_chunk_failed_plain)
qed

lemma scan_len_plain: "list_all plain_char p \<Longrightarrow> scan_len False p = length p"
  by (induction p) (auto simp: plain_char_def)

lemma scan_len_plain_star:
  "list_all plain_char p \<Longrightarrow> scan_len False (p @ [CHR ''*'']) = length p"
  by (induction p) (auto simp: plain_char_def)

lemma dropWhile_star_plain:
  "list_all plain_char p \<Longrightarrow> p \<noteq> [] \<Longrightarrow> dropWhile (\<lambda>c. c = CHR ''*'') (p @ q) = p @ q"
  by (cases p) (auto simp: plain_char_def)

lemma hd_plain: "list_all plain_char p \<Longrightarrow> p \<noteq> [] \<Longrightarrow> hd p \<noteq> CHR ''*''"
  by (cases p) (auto simp: plain_char_def)

lemma well_formed_rest_Nil [simp]: "well_formed_rest []"
  by (simp add: well_formed_rest.simps)

lemma well_formed_rest_star [simp]: "well_formed_rest ''*''"
  by (simp add: well_formed_rest.simps scan_chunk_def)

lemma path_Match_Nil [simp]: "path_Match [] s = Some (s = [])"
  by (simp add: path_Match.simps)

lemma path_Match_star [simp]: "path_Match ''*'' s = Some (CHR ''/'' \<notin> set s)"
  by (simp add: path_Match.simps scan_chunk_def)

lemma glob_plain:
  assumes p: "list_all plain_char p"
  shows "glob p s \<longleftrightarrow> p = s"
proof (cases "p = []")
  case False
  have sc: "scan_chunk p = (False, p, [])"
    using dropWhile_star_plain [OF p False, of "[]"] hd_plain [OF p False]
    by (simp add: scan_chunk_def Let_def scan_len_plain [OF p])
  have "path_Match p s = Some (p = s)"
    using False match_chunk_plain [OF p, of s]
    by (subst path_Match.simps) (auto simp: sc prefix_def)
  then show ?thesis by (simp add: glob_def)
qed (auto simp: glob_def)

lemma glob_prefix_star:
  assumes p: "list_all plain_char p"
  shows "glob (p @ ''*'') s \<longleftrightarrow> prefix p s \<and> CHR ''/'' \<notin> set (drop (length p) s)"
proof (cases "p = []")
  case False
  have sc: "scan_chunk (p @ ''*'') = (False, p, ''*'')"
    using dropWhile_star_plain [OF p False, of "''*''"] hd_plain [OF p False] False
    by (simp add: scan_chunk_def Let_def scan_len_plain_star [OF p])
  have "path_Match (p @ ''*'') s = Some (prefix p s \<and> CHR ''/'' \<notin> set (drop (length p) s))"
    using match_chunk_plain [OF p, of s]
    by (subst path_Match.simps) (simp add: sc)
  then show ?thesis by (simp add: glob_def)
qed (auto simp: glob_def)

subsection \<open>Runes\<close>

text \<open>
  \<open>rune_len s\<close> is the length of the valid UTF-8 sequence \<open>s\<close> begins with, \<open>0\<close> where Go
  decodes \<^verbatim>\<open>RuneError\<close> from a single invalid byte. \<open>utf8_runes\<close> is what ranging over a
  string or \<^verbatim>\<open>[]rune(s)\<close> yields, each rune in its encoding, an invalid byte as U+FFFD.
\<close>

definition cont_byte :: "char \<Rightarrow> bool" where
  "cont_byte c \<longleftrightarrow> 128 \<le> byte c \<and> byte c \<le> 191"

definition second_ok :: "char \<Rightarrow> char \<Rightarrow> bool" where
  "second_ok a b \<longleftrightarrow>
     (if byte a = 224 then 160 \<le> byte b \<and> byte b \<le> 191
      else if byte a = 237 then 128 \<le> byte b \<and> byte b \<le> 159
      else if byte a = 240 then 144 \<le> byte b \<and> byte b \<le> 191
      else if byte a = 244 then 128 \<le> byte b \<and> byte b \<le> 143
      else cont_byte b)"

definition lead_len :: "char \<Rightarrow> nat" where
  "lead_len a = (if byte a < 128 then 1
     else if 194 \<le> byte a \<and> byte a \<le> 223 then 2
     else if 224 \<le> byte a \<and> byte a \<le> 239 then 3
     else if 240 \<le> byte a \<and> byte a \<le> 244 then 4 else 0)"

definition rune_len :: "string \<Rightarrow> nat" where
  "rune_len s = (case s of [] \<Rightarrow> 0 | a # t \<Rightarrow>
     let n = lead_len a in
     if n \<le> 1 then n
     else if n - 1 \<le> length t \<and> second_ok a (hd t) \<and> list_all cont_byte (take (n - 2) (tl t)) then n
     else 0)"

definition rune_error :: string where
  "rune_error = [CHR 0xEF, CHR 0xBF, CHR 0xBD]"

function utf8_runes :: "string \<Rightarrow> string list" where
  "utf8_runes s =
     (if s = [] then []
      else if rune_len s = 0 then rune_error # utf8_runes (tl s)
      else take (rune_len s) s # utf8_runes (drop (rune_len s) s))"
  by pat_completeness auto
termination
  by (relation "measure length") auto

declare utf8_runes.simps [simp del]

definition is_rune :: "string \<Rightarrow> bool" where
  "is_rune r \<longleftrightarrow> r \<noteq> [] \<and> rune_len r = length r"

lemma rune_len_le: "rune_len s \<le> length s"
  by (auto simp: rune_len_def Let_def split: list.splits)

lemma rune_len_append: "is_rune r \<Longrightarrow> rune_len (r @ s) = length r"
proof -
  assume r: "is_rune r"
  then obtain a t where at: "r = a # t" by (cases r) (auto simp: is_rune_def)
  let ?n = "lead_len a"
  have len: "rune_len (a # t) = Suc (length t)" using r at by (simp add: is_rune_def)
  then have n: "?n = Suc (length t)"
    by (auto simp: rune_len_def Let_def split: if_splits)
  show ?thesis
  proof (cases "?n \<le> 1")
    case True
    then show ?thesis using n at by (simp add: rune_len_def)
  next
    case False
    then obtain b u where t: "t = b # u" using n by (cases t) auto
    have ok: "second_ok a b" "list_all cont_byte u"
      using len n by (auto simp: rune_len_def Let_def t split: if_splits)
    then show ?thesis using n False at by (simp add: rune_len_def t)
  qed
qed

lemma take_rune: "rune_len s \<noteq> 0 \<Longrightarrow> is_rune (take (rune_len s) s)"
proof -
  assume nz: "rune_len s \<noteq> 0"
  then obtain a t where s: "s = a # t" by (cases s) (auto simp: rune_len_def)
  let ?n = "lead_len a"
  have rl: "rune_len s = ?n" and pos: "?n \<noteq> 0"
    using nz by (auto simp: rune_len_def Let_def s split: if_splits)
  show ?thesis
  proof (cases "?n = 1")
    case True
    then show ?thesis by (simp add: is_rune_def rl s) (simp add: rune_len_def)
  next
    case False
    then obtain k where k: "?n = Suc (Suc k)" using pos by (cases "?n"; cases "?n - 1") auto
    have ok: "Suc k \<le> length t" "second_ok a (hd t)" "list_all cont_byte (take k (tl t))"
      using nz k by (auto simp: rune_len_def Let_def s split: if_splits)
    then obtain b u where t: "t = b # u" by (cases t) auto
    show ?thesis using ok k by (simp add: is_rune_def rl s t) (simp add: rune_len_def k Let_def min_def)
  qed
qed

lemma is_rune_error: "is_rune rune_error"
  by (simp add: is_rune_def rune_error_def rune_len_def lead_len_def second_ok_def cont_byte_def)

lemma utf8_runes_valid: "list_all is_rune (utf8_runes s)"
proof (induction s rule: utf8_runes.induct)
  case (1 s)
  then show ?case
    by (subst utf8_runes.simps) (auto simp: is_rune_error take_rune)
qed

lemma utf8_runes_Nil [simp]: "utf8_runes [] = []"
  by (simp add: utf8_runes.simps)

lemma utf8_runes_Cons: "is_rune r \<Longrightarrow> utf8_runes (r @ s) = r # utf8_runes s"
  using rune_len_append [of r s]
  by (subst utf8_runes.simps) (auto simp: is_rune_def)

lemma utf8_runes_concat: "list_all is_rune rs \<Longrightarrow> utf8_runes (concat rs) = rs"
  by (induction rs) (auto simp: utf8_runes_Cons)

lemma utf8_runes_ascii: "list_all (\<lambda>c. byte c < 128) s \<Longrightarrow> utf8_runes s = map (\<lambda>c. [c]) s"
proof (induction s)
  case (Cons c s)
  have "is_rune [c]" using Cons.prems by (simp add: is_rune_def rune_len_def lead_len_def)
  from utf8_runes_Cons [OF this, of s] Cons show ?case by simp
qed simp

text \<open>\<^verbatim>\<open>strings.Map\<close> dropping the runes of a set, and cutting to a number of runes.\<close>

definition drop_runes :: "(string \<Rightarrow> bool) \<Rightarrow> string \<Rightarrow> string" where
  "drop_runes P s = concat (filter (\<lambda>r. \<not> P r) (utf8_runes s))"

definition take_runes :: "nat \<Rightarrow> string \<Rightarrow> string" where
  "take_runes n s = (if n < length (utf8_runes s) then concat (take n (utf8_runes s)) else s)"

definition ctl_rune :: "string \<Rightarrow> bool" where
  "ctl_rune r \<longleftrightarrow> length r = 1 \<and> (byte (hd r) < 32 \<or> byte (hd r) = 127)"

lemma utf8_runes_drop: "utf8_runes (drop_runes P s) = filter (\<lambda>r. \<not> P r) (utf8_runes s)"
  using utf8_runes_valid [of s]
  by (auto simp: drop_runes_def list_all_iff intro!: utf8_runes_concat)

lemma list_all_take: "list_all P xs \<Longrightarrow> list_all P (take n xs)"
  by (metis in_set_takeD list_all_iff)

lemma utf8_runes_take:
  "utf8_runes (take_runes n s) = take n (utf8_runes s)"
  using utf8_runes_valid [of s] by (simp add: take_runes_def utf8_runes_concat list_all_take)

lemma drop_runes_id:
  "s = concat rs \<Longrightarrow> list_all is_rune rs \<Longrightarrow> list_all (\<lambda>r. \<not> P r) rs \<Longrightarrow> drop_runes P s = s"
  by (simp add: drop_runes_def utf8_runes_concat filter_id_conv list_all_iff)

subsection \<open>Splitting and searching\<close>

fun split_on :: "char \<Rightarrow> string \<Rightarrow> string list" where
  "split_on c [] = [[]]"
| "split_on c (x # xs) =
     (if x = c then [] # split_on c xs
      else case split_on c xs of [] \<Rightarrow> [[x]] | p # ps \<Rightarrow> (x # p) # ps)"

text \<open>\<^verbatim>\<open>strings.Cut\<close> at a character: the parts before and after its first occurrence.\<close>

definition cut_at :: "char \<Rightarrow> string \<Rightarrow> string \<times> string option" where
  "cut_at c s = (takeWhile (\<lambda>x. x \<noteq> c) s,
     (case dropWhile (\<lambda>x. x \<noteq> c) s of [] \<Rightarrow> None | _ # t \<Rightarrow> Some t))"

definition hex_char :: "nat \<Rightarrow> char" where
  "hex_char d = (if d < 10 then char_of (48 + d) else char_of (87 + d))"

definition hex_encode :: "string \<Rightarrow> string" where
  "hex_encode s = concat (map (\<lambda>c. [hex_char (byte c div 16), hex_char (byte c mod 16)]) s)"

lemma length_hex_encode [simp]: "length (hex_encode s) = 2 * length s"
  by (induction s) (auto simp: hex_encode_def)

definition is_hex :: "char \<Rightarrow> bool" where
  "is_hex c \<longleftrightarrow> is_digit c \<or> (97 \<le> byte c \<and> byte c \<le> 102) \<or> (65 \<le> byte c \<and> byte c \<le> 70)"

fun escapes_ok :: "string \<Rightarrow> bool" where
  "escapes_ok [] = True"
| "escapes_ok (c # cs) =
     (if c = CHR ''%'' then (case cs of a # b # t \<Rightarrow> is_hex a \<and> is_hex b \<and> escapes_ok t | _ \<Rightarrow> False)
      else escapes_ok cs)"

end
