(* ===== verification/Store.thy ===== *)
theory Store
  imports GoFloat GoStr
begin

section \<open>The database: tables, statements, faults and transactions\<close>

text \<open>
  The tables the modelled code reads and writes, and a small error monad of database
  programs. A statement may fail: a program runs against the tables together with a schedule
  of faults, one Boolean per statement, where \<open>True\<close> makes the statement return an error and
  change nothing (an exhausted schedule is fault-free). \<open>transaction\<close> is
  \<^verbatim>\<open>database.DB.Transaction\<close>: an error of the body, or of the commit itself, restores the
  tables. Statements of one transaction are not interleaved with others, as SQLite's single
  writer guarantees. Rows soft-deleted by GORM are absent from the maps. Integer columns are
  integers; the code's guards keep them in the int64 range. Free-text columns no code reads
  back (descriptions, messages, names for display) are left out of the rows.
\<close>

subsection \<open>Rows\<close>

record user =
  u_Username :: string
  u_Role :: string
  u_Status :: int
  u_Quota :: int64
  u_PaidQuota :: int64
  u_ReferredByUserID :: nat
  u_ReferredAt :: "nanos option"
  u_BalanceConsumeEnabled :: bool
  u_BalanceConsumeLimitUSD :: int64
  u_BalanceConsumeWindowSeconds :: int
  u_BalanceConsumeWindowStartAt :: "nanos option"
  u_BalanceConsumedInWindow :: int64

record billing_entry =
  be_UserID :: nat
  be_OccurredAt :: nanos
  be_EntryType :: string
  be_BillingState :: string
  be_AmountUSD :: int64
  be_BalanceAfterUSD :: int64
  be_RelatedType :: string
  be_RelatedID :: nat
  be_ModelName :: string
  be_TokensTotal :: int
  be_RequestID :: string
  be_DeliveredBytes :: int64
  be_EstimatedInputTokens :: int
  be_EstimatedCostUSD :: int64
  be_SourceSubscriptionID :: "nat option"
  be_CurrencyOriginal :: string
  be_AmountOriginal :: int64

record user_subscription =
  sub_UserID :: nat
  sub_PackageID :: nat
  sub_PackageSnapshot :: string
  sub_StartAt :: nanos
  sub_EndAt :: nanos
  sub_CanceledAt :: "nanos option"
  sub_ConsumptionOrder :: int64
  sub_StackIndex :: int
  sub_Status :: string
  sub_IsGranted :: bool
  sub_PurchasedUnitPriceUSD :: int64
  sub_AppliedCouponID :: nat

record subscription_usage =
  us_WindowStartAt :: nanos
  us_WindowEndAt :: nanos
  us_ConsumedValue :: f64
  us_ConsumedValueMicroUSD :: int64
  us_RequestCount :: int64

type_synonym usage_key = "nat \<times> nat \<times> string"

record api_log =
  al_UserID :: nat
  al_ModelName :: string
  al_PromptTokens :: int
  al_CompletionTokens :: int
  al_CachedTokens :: int
  al_CacheWriteTokens :: int
  al_CacheWrite5mTokens :: int
  al_CacheWrite1hTokens :: int
  al_ReasoningTokens :: int
  al_Cost :: int64
  al_ChargedCost :: int64
  al_Status :: int
  al_PrecheckInputTokens :: int
  al_PrecheckRawCost :: int64
  al_PrecheckChargedCost :: int64

record usage_line =
  ul_ApiLogID :: nat
  ul_Direction :: string
  ul_Quantity :: int64
  ul_UnitPriceMicro :: int64
  ul_AmountMicroUSD :: int64

record api_revenue =
  rv_ApiLogID :: nat
  rv_Source :: string
  rv_EffectiveMicroUSD :: int64
  rv_SubscriptionID :: nat

record access_token =
  at_QuotaLimit :: int64
  at_UsedQuota :: int64

record topup_order =
  to_ID :: nat
  to_Provider :: string
  to_OutTradeNo :: string
  to_TradeNo :: string
  to_UserID :: nat
  to_PayType :: string
  to_MoneyRMB :: int64
  to_AmountUSD :: int64
  to_ExchangeRateRmbPerUsdMicros :: int64
  to_GatewayPayType :: string
  to_PayInfo :: string
  to_Status :: string
  to_RefundedAmountRMB :: int64
  to_RefundNo :: string
  to_PaidAt :: "nanos option"
  to_CreatedAt :: nanos

record webhook_receipt =
  wr_Provider :: string
  wr_Nonce :: string
  wr_OutTradeNo :: string
  wr_Status :: string

record topup_refund =
  tr_TopupOrderID :: nat
  tr_ExternalRefundRef :: string
  tr_AmountFen :: int64
  tr_AmountMicroUSD :: int64
  tr_ReclaimQuota :: bool
  tr_OperatorID :: nat

record operation_log =
  ol_TargetUserID :: nat
  ol_OperatorID :: nat
  ol_OperatorRole :: string
  ol_ActionType :: string

record QuotaPlan =
  qp_Name :: string
  qp_ModelMatch :: string
  qp_LimitUnit :: string
  qp_LimitValue :: f64
  qp_LimitValueMicroUSD :: int64
  qp_WindowSeconds :: int
  qp_WeightFactor :: string
  qp_Priority :: int
  qp_OverflowStrategy :: string
  qp_ExtraConfig :: string
  qp_Enabled :: "bool option"

record Package =
  pk_Name :: string
  pk_ProductType :: string
  pk_PriceAmount :: int64
  pk_CostFloorMicroUSD :: int64
  pk_PriceCurrency :: string
  pk_BillingPeriodSeconds :: int
  pk_Stackable :: "bool option"
  pk_MaxActivePerUser :: int
  pk_Public :: bool
  pk_Enabled :: "bool option"

record PackagePlan =
  pp_PackageID :: nat
  pp_QuotaPlanID :: nat
  pp_QuantityMultiplier :: f64
  pp_SortOrder :: int

record CouponTemplate =
  ct_ID :: nat
  ct_Name :: string
  ct_DiscountType :: string
  ct_DiscountValue :: int64
  ct_PackageIDs :: string
  ct_ValidDays :: int
  ct_Enabled :: "bool option"

record UserCoupon =
  uc_ID :: nat
  uc_UserID :: nat
  uc_TemplateID :: nat
  uc_Code :: string
  uc_Status :: string
  uc_SnapshotName :: string
  uc_SnapshotType :: string
  uc_SnapshotValue :: int64
  uc_SnapshotPackageIDs :: string
  uc_GrantedBy :: nat
  uc_GrantedAt :: nanos
  uc_ExpiresAt :: "nanos option"
  uc_UsedAt :: "nanos option"
  uc_UsedOnSubID :: "nat option"
  uc_UsedSavingUSD :: int64

text \<open>The keys of new subscriptions come from a sequence, as SQLite's \<^verbatim>\<open>AUTOINCREMENT\<close> and the
  sequences of PostgreSQL give them: \<open>sub_seq\<close> is the last one given, \<open>template_seq\<close> that of coupon templates.\<close>

record tables =
  users :: "nat \<rightharpoonup> user"
  billing :: "billing_entry list"
  subscriptions :: "nat \<rightharpoonup> user_subscription"
  usages :: "usage_key \<rightharpoonup> subscription_usage"
  api_logs :: "api_log list"
  usage_lines :: "usage_line list"
  revenues :: "api_revenue list"
  access_tokens :: "nat \<rightharpoonup> access_token"
  topup_orders :: "topup_order list"
  receipts :: "webhook_receipt list"
  refunds :: "topup_refund list"
  operation_logs :: "operation_log list"
  sub_seq :: nat
  packages :: "(nat \<times> Package) list"
  quota_plans :: "(nat \<times> QuotaPlan) list"
  package_plans :: "PackagePlan list"
  template_seq :: nat
  coupon_templates :: "CouponTemplate list"
  user_coupons :: "UserCoupon list"

definition empty_tables :: tables where
  "empty_tables = \<lparr> users = Map.empty, billing = [], subscriptions = Map.empty, usages = Map.empty,
     api_logs = [], usage_lines = [], revenues = [], access_tokens = Map.empty,
     topup_orders = [], receipts = [], refunds = [], operation_logs = [],
     sub_seq = 0, packages = [], quota_plans = [], package_plans = [],
     template_seq = 0, coupon_templates = [], user_coupons = [] \<rparr>"

lemma empty_tables_simps [simp]:
  "users empty_tables = Map.empty" "billing empty_tables = []" "subscriptions empty_tables = Map.empty"
  "usages empty_tables = Map.empty" "api_logs empty_tables = []" "topup_orders empty_tables = []"
  "receipts empty_tables = []" "refunds empty_tables = []" "operation_logs empty_tables = []"
  "sub_seq empty_tables = 0" "packages empty_tables = []" "quota_plans empty_tables = []"
  "package_plans empty_tables = []" "coupon_templates empty_tables = []" "user_coupons empty_tables = []"
  by (simp_all add: empty_tables_def)

subsection \<open>Database programs\<close>

text \<open>The state of a quota window at the moment a plan refused a request.\<close>

record precheckLimitDetail =
  pl_PlanID :: nat
  pl_ConsumedValue :: f64
  pl_Delta :: f64
  pl_LimitValue :: f64
  pl_Remaining :: f64
  pl_ConsumedMicroUSD :: int64
  pl_DeltaMicroUSD :: int64
  pl_LimitMicroUSD :: int64
  pl_RemainingMicroUSD :: int64
  pl_WindowEndAt :: "nanos option"
  pl_Unit :: string
  pl_OverflowStrategy :: string

datatype db_error = DbError | RecordNotFound | SubInactive | PlanLimitExceeded precheckLimitDetail
  | Rejected string

type_synonym world = "tables \<times> bool list"
type_synonym 'a tx = "world \<Rightarrow> (db_error + 'a) \<times> world"

definition tx_return :: "'a \<Rightarrow> 'a tx" where
  "tx_return a w = (Inr a, w)"

definition tx_throw :: "db_error \<Rightarrow> 'a tx" where
  "tx_throw e w = (Inl e, w)"

definition tx_bind :: "'a tx \<Rightarrow> ('a \<Rightarrow> 'b tx) \<Rightarrow> 'b tx" where
  "tx_bind m f w = (case m w of (Inl e, w') \<Rightarrow> (Inl e, w') | (Inr a, w') \<Rightarrow> f a w')"

definition tx_catch :: "'a tx \<Rightarrow> (db_error \<Rightarrow> 'a tx) \<Rightarrow> 'a tx" where
  "tx_catch m h w = (case m w of (Inl e, w') \<Rightarrow> h e w' | (Inr a, w') \<Rightarrow> (Inr a, w'))"

definition stmt :: "(tables \<Rightarrow> 'a \<times> tables) \<Rightarrow> 'a tx" where
  "stmt f w = (case w of (t, fs) \<Rightarrow>
     if fs \<noteq> [] \<and> hd fs then (Inl DbError, (t, tl fs))
     else case f t of (a, t') \<Rightarrow> (Inr a, (t', tl fs)))"

definition transaction :: "'a tx \<Rightarrow> 'a tx" where
  "transaction m w = (case w of (t, fs) \<Rightarrow>
     (case m w of
        (Inl e, (t', fs')) \<Rightarrow> (Inl e, (t, fs'))
      | (Inr a, (t', fs')) \<Rightarrow>
          if fs' \<noteq> [] \<and> hd fs' then (Inl DbError, (t, tl fs')) else (Inr a, (t', tl fs'))))"

text \<open>Reading one row: \<^verbatim>\<open>First\<close> reports a missing row as \<^verbatim>\<open>ErrRecordNotFound\<close>.\<close>

definition query_first :: "(tables \<Rightarrow> 'a option) \<Rightarrow> 'a tx" where
  "query_first q = tx_bind (stmt (\<lambda>t. (q t, t)))
     (\<lambda>r. case r of None \<Rightarrow> tx_throw RecordNotFound | Some a \<Rightarrow> tx_return a)"

text \<open>\<^verbatim>\<open>UPDATE ... WHERE id = ? AND cond\<close>: the result is the number of rows affected.\<close>

definition update_user_if :: "nat \<Rightarrow> (user \<Rightarrow> bool) \<Rightarrow> (user \<Rightarrow> user) \<Rightarrow> tables \<Rightarrow> nat \<times> tables" where
  "update_user_if uid cond f t =
     (case users t uid of
        Some u \<Rightarrow> if cond u then (1, t \<lparr> users := (users t)(uid \<mapsto> f u) \<rparr>) else (0, t)
      | None \<Rightarrow> (0, t))"

subsection \<open>Success and failure of programs\<close>

lemma tx_return_apply [simp]: "tx_return a w = (Inr a, w)"
  by (simp add: tx_return_def)

lemma tx_throw_apply [simp]: "tx_throw e w = (Inl e, w)"
  by (simp add: tx_throw_def)

lemma tx_bind_Inr: "tx_bind m f w = (Inr b, w'') \<longleftrightarrow> (\<exists>a w'. m w = (Inr a, w') \<and> f a w' = (Inr b, w''))"
  by (auto simp: tx_bind_def split: prod.splits sum.splits)

lemma tx_bind_Inl: "tx_bind m f w = (Inl e, w'') \<longleftrightarrow>
    m w = (Inl e, w'') \<or> (\<exists>a w'. m w = (Inr a, w') \<and> f a w' = (Inl e, w''))"
  by (auto simp: tx_bind_def split: prod.splits sum.splits)

lemma tx_catch_Inr: "tx_catch m h w = (Inr b, w'') \<longleftrightarrow>
    m w = (Inr b, w'') \<or> (\<exists>e w'. m w = (Inl e, w') \<and> h e w' = (Inr b, w''))"
  by (auto simp: tx_catch_def split: prod.splits sum.splits)

lemma stmt_Inr: "stmt f (t, fs) = (Inr a, w') \<longleftrightarrow>
    (fs = [] \<or> \<not> hd fs) \<and> a = fst (f t) \<and> w' = (snd (f t), tl fs)"
  by (auto simp: stmt_def split: prod.splits)

lemma stmt_Inl: "stmt f (t, fs) = (Inl e, w') \<longleftrightarrow> fs \<noteq> [] \<and> hd fs \<and> e = DbError \<and> w' = (t, tl fs)"
  by (auto simp: stmt_def split: prod.splits)

lemma stmt_ok [simp]: "stmt f (t, []) = (Inr (fst (f t)), (snd (f t), []))"
  by (simp add: stmt_def split: prod.split)

lemma query_first_Inr: "query_first q (t, fs) = (Inr a, w') \<longleftrightarrow>
    (fs = [] \<or> \<not> hd fs) \<and> q t = Some a \<and> w' = (t, tl fs)"
  by (auto simp: query_first_def tx_bind_Inr stmt_Inr split: option.splits)

lemma query_first_frame: "query_first q (t, fs) = (r, (t', fs')) \<Longrightarrow> t' = t"
  by (auto simp: query_first_def tx_bind_def stmt_def split: prod.splits sum.splits option.splits if_splits)

lemma query_first_ok [simp]: "query_first q (t, []) =
    (case q t of None \<Rightarrow> Inl RecordNotFound | Some a \<Rightarrow> Inr a, (t, []))"
  by (simp add: query_first_def tx_bind_def split: option.split)

lemmas tx_Inr = tx_bind_Inr stmt_Inr query_first_Inr

text \<open>A failed transaction leaves the tables as they were, whatever failed and wherever.\<close>

lemma transaction_rollback: "transaction m (t, fs) = (Inl e, (t', fs')) \<Longrightarrow> t' = t"
  by (auto simp: transaction_def split: prod.splits sum.splits if_splits)

lemma transaction_Inr: "transaction m (t, fs) = (Inr a, (t', fs'')) \<longleftrightarrow>
    (\<exists>fs'. m (t, fs) = (Inr a, (t', fs')) \<and> (fs' = [] \<or> \<not> hd fs') \<and> fs'' = tl fs')"
  by (auto simp: transaction_def split: prod.splits sum.splits)

lemma transaction_ok [simp]:
  "m (t, []) = (Inr a, (t', [])) \<Longrightarrow> transaction m (t, []) = (Inr a, (t', []))"
  by (simp add: transaction_def)

text \<open>So an invariant needs a proof for successful bodies only.\<close>

lemma transaction_inv:
  assumes "P t" and "\<And>a t' fs'. m (t, fs) = (Inr a, (t', fs')) \<Longrightarrow> P t'"
  shows "P (fst (snd (transaction m (t, fs))))"
  using assms by (auto simp: transaction_def split: prod.splits sum.splits)

lemma update_user_if_frame:
  "update_user_if uid cond f t = (n, t') \<Longrightarrow> t' = t \<lparr> users := users t' \<rparr>"
  by (auto simp: update_user_if_def split: option.splits if_splits)

lemma update_user_if_zero: "update_user_if uid cond f t = (0, t') \<Longrightarrow> t' = t"
  by (auto simp: update_user_if_def split: option.splits if_splits)

lemma update_user_if_pos: "update_user_if uid cond f t = (n, t') \<Longrightarrow> n \<noteq> 0 \<Longrightarrow>
    \<exists>u. users t uid = Some u \<and> cond u \<and> t' = t \<lparr> users := (users t)(uid \<mapsto> f u) \<rparr>"
  by (auto simp: update_user_if_def split: option.splits if_splits)

subsection \<open>Frames: what a program may change, whether it succeeds or fails\<close>

definition keeps :: "(tables \<Rightarrow> tables \<Rightarrow> bool) \<Rightarrow> 'a tx \<Rightarrow> bool" where
  "keeps R m \<longleftrightarrow> (\<forall>t fs. R t (fst (snd (m (t, fs)))))"

named_theorems keeps_intros

lemma keepsD: "keeps R m \<Longrightarrow> m (t, fs) = (r, (t', fs')) \<Longrightarrow> R t t'"
  by (metis keeps_def fst_conv snd_conv)

lemma keepsI: "(\<And>t fs r t' fs'. m (t, fs) = (r, (t', fs')) \<Longrightarrow> R t t') \<Longrightarrow> keeps R m"
  by (simp add: keeps_def) (metis prod.collapse)

lemma keeps_return [keeps_intros]: "reflp R \<Longrightarrow> keeps R (tx_return a)"
  by (simp add: keeps_def reflpD)

lemma keeps_throw [keeps_intros]: "reflp R \<Longrightarrow> keeps R (tx_throw e)"
  by (simp add: keeps_def reflpD)

lemma keeps_bind [keeps_intros]:
  assumes "transp R" "keeps R m" "\<And>a. keeps R (f a)"
  shows "keeps R (tx_bind m f)"
proof (rule keepsI)
  fix t fs r t' fs' assume *: "tx_bind m f (t, fs) = (r, (t', fs'))"
  obtain r1 t1 fs1 where m: "m (t, fs) = (r1, (t1, fs1))" by (cases "m (t, fs)") auto
  show "R t t'"
    using * m keepsD [OF assms(2) m] keepsD [OF assms(3)]
    by (cases r1) (auto simp: tx_bind_def intro: transpD [OF assms(1)])
qed

lemma keeps_catch [keeps_intros]:
  assumes "transp R" "keeps R m" "\<And>e. keeps R (h e)"
  shows "keeps R (tx_catch m h)"
proof (rule keepsI)
  fix t fs r t' fs' assume *: "tx_catch m h (t, fs) = (r, (t', fs'))"
  obtain r1 t1 fs1 where m: "m (t, fs) = (r1, (t1, fs1))" by (cases "m (t, fs)") auto
  show "R t t'"
    using * m keepsD [OF assms(2) m] keepsD [OF assms(3)]
    by (cases r1) (auto simp: tx_catch_def intro: transpD [OF assms(1)])
qed

lemma keeps_stmt [keeps_intros]:
  "reflp R \<Longrightarrow> (\<And>t. R t (snd (f t))) \<Longrightarrow> keeps R (stmt f)"
  by (auto simp: keeps_def stmt_def reflpD split: prod.split) (metis snd_conv)+

lemma keeps_query [keeps_intros]: "reflp R \<Longrightarrow> keeps R (query_first q)"
  by (rule keepsI) (auto dest: query_first_frame simp: reflpD)

lemma keeps_if [keeps_intros]: "(b \<Longrightarrow> keeps R m) \<Longrightarrow> (\<not> b \<Longrightarrow> keeps R n) \<Longrightarrow> keeps R (if b then m else n)"
  by simp

lemma keeps_transaction:
  assumes "reflp R" and "keeps R m"
  shows "keeps R (transaction m)"
proof (rule keepsI)
  fix t fs r t' fs' assume *: "transaction m (t, fs) = (r, (t', fs'))"
  obtain r1 t1 fs1 where m: "m (t, fs) = (r1, (t1, fs1))" by (cases "m (t, fs)") auto
  show "R t t'"
    using * m keepsD [OF assms(2) m] reflpD [OF assms(1)]
    by (cases r1) (auto simp: transaction_def split: if_splits)
qed

lemma keeps_update_user:
  "reflp R \<Longrightarrow> (\<And>t u. users t uid = Some u \<Longrightarrow> R t (t \<lparr> users := (users t)(uid \<mapsto> f u) \<rparr>))
    \<Longrightarrow> keeps R (stmt (update_user_if uid cond f))"
  by (rule keeps_stmt) (auto simp: update_user_if_def reflpD split: option.split)

subsection \<open>Statements that are allowed to fail\<close>

definition try_tx :: "'a tx \<Rightarrow> 'a option tx" where
  "try_tx m = tx_catch (tx_bind m (\<lambda>a. tx_return (Some a))) (\<lambda>_. tx_return None)"

subsection \<open>Without faults\<close>

text \<open>A program started without faults in the schedule meets none.\<close>

definition clean :: "'a tx \<Rightarrow> bool" where
  "clean m \<longleftrightarrow> (\<forall>t. snd (snd (m (t, []))) = [])"

named_theorems clean_intros

lemma cleanD: "clean m \<Longrightarrow> m (t, []) = (r, (t', fs')) \<Longrightarrow> fs' = []"
  by (metis clean_def snd_conv)

lemma cleanI: "(\<And>t r t' fs'. m (t, []) = (r, (t', fs')) \<Longrightarrow> fs' = []) \<Longrightarrow> clean m"
  by (simp add: clean_def) (metis prod.collapse)

lemma clean_basic [clean_intros]: "clean (tx_return a)" "clean (tx_throw e)" "clean (stmt f)" "clean (query_first q)"
  by (simp_all add: clean_def)

lemma clean_bind [clean_intros]:
  assumes "clean m" "\<And>a. clean (f a)" shows "clean (tx_bind m f)"
proof (rule cleanI)
  fix t r t' fs' assume *: "tx_bind m f (t, []) = (r, (t', fs'))"
  obtain r1 t1 fs1 where m: "m (t, []) = (r1, (t1, fs1))" by (cases "m (t, [])") auto
  then have "fs1 = []" using cleanD [OF assms(1)] by blast
  then show "fs' = []" using * m cleanD [OF assms(2)] by (cases r1) (auto simp: tx_bind_def)
qed

lemma clean_catch [clean_intros]:
  assumes "clean m" "\<And>e. clean (h e)" shows "clean (tx_catch m h)"
proof (rule cleanI)
  fix t r t' fs' assume *: "tx_catch m h (t, []) = (r, (t', fs'))"
  obtain r1 t1 fs1 where m: "m (t, []) = (r1, (t1, fs1))" by (cases "m (t, [])") auto
  then have "fs1 = []" using cleanD [OF assms(1)] by blast
  then show "fs' = []" using * m cleanD [OF assms(2)] by (cases r1) (auto simp: tx_catch_def)
qed

lemma clean_if [clean_intros]: "(b \<Longrightarrow> clean m) \<Longrightarrow> (\<not> b \<Longrightarrow> clean n) \<Longrightarrow> clean (if b then m else n)"
  by simp

lemma clean_case_option [clean_intros]:
  "clean m \<Longrightarrow> (\<And>a. clean (f a)) \<Longrightarrow> clean (case x of None \<Rightarrow> m | Some a \<Rightarrow> f a)"
  by (cases x) auto

lemma clean_transaction: "clean m \<Longrightarrow> clean (transaction m)"
  by (rule cleanI) (auto simp: transaction_def dest: cleanD split: prod.splits sum.splits if_splits)
subsection \<open>Programs that always return\<close>

definition returns :: "'a tx \<Rightarrow> bool" where
  "returns m \<longleftrightarrow> (\<forall>w. \<exists>a w'. m w = (Inr a, w'))"

named_theorems returns_intros

lemma returnsI: "(\<And>w. \<exists>a w'. m w = (Inr a, w')) \<Longrightarrow> returns m"
  by (simp add: returns_def)

lemma returns_return [returns_intros]: "returns (tx_return a)"
  by (simp add: returns_def)

lemma returns_bind [returns_intros]: "returns m \<Longrightarrow> (\<And>a. returns (f a)) \<Longrightarrow> returns (tx_bind m f)"
proof (rule returnsI)
  fix w assume m: "returns m" and f: "\<And>a. returns (f a)"
  from m obtain a w1 where "m w = (Inr a, w1)" unfolding returns_def by blast
  moreover from f obtain b w2 where "f a w1 = (Inr b, w2)" unfolding returns_def by blast
  ultimately show "\<exists>a w'. tx_bind m f w = (Inr a, w')" by (simp add: tx_bind_def)
qed

lemma returns_catch [returns_intros]: "(\<And>e. returns (h e)) \<Longrightarrow> returns (tx_catch m h)"
proof (rule returnsI)
  fix w assume h: "\<And>e. returns (h e)"
  obtain x w1 where m: "m w = (x, w1)" by (cases "m w")
  show "\<exists>a w'. tx_catch m h w = (Inr a, w')"
  proof (cases x)
    case (Inl e)
    from h obtain a w2 where "h e w1 = (Inr a, w2)" unfolding returns_def by blast
    then show ?thesis using m Inl by (simp add: tx_catch_def)
  qed (simp add: tx_catch_def m)
qed

lemma returns_if [returns_intros]: "(b \<Longrightarrow> returns m) \<Longrightarrow> (\<not> b \<Longrightarrow> returns n) \<Longrightarrow> returns (if b then m else n)"
  by simp

lemma returns_case_option [returns_intros]:
  "returns m \<Longrightarrow> (\<And>a. returns (f a)) \<Longrightarrow> returns (case x of None \<Rightarrow> m | Some a \<Rightarrow> f a)"
  by (cases x) auto

lemma returns_try [returns_intros]: "returns (try_tx m)"
  unfolding try_tx_def by (intro returns_intros)

end
