(* ===== verification/Ledger.thy ===== *)
theory Ledger
  imports Store
begin

section \<open>The billing ledger (\<^verbatim>\<open>database/billing_schema.go\<close>, \<^verbatim>\<open>database/billing_helper.go\<close>)\<close>

text \<open>
  The append-only table of billing entries, with its unique index on the type and the related
  row (\<^verbatim>\<open>database/sqlite.go\<close>), and its single writer. The accounting law the code
  maintains is stated here: a user's balance is the opening balance plus the sum of the amounts
  booked for the user. \<open>account_book\<close> is the interface of a ledger: whatever posts an amount
  to a balance and books it keeps the law, in any number of postings.
\<close>

definition known_states :: "string list" where
  "known_states = [''settled'', ''pending_reconcile'', ''upstream_unmetered'']"

definition IsKnownBillingState :: "string \<Rightarrow> bool" where
  "IsKnownBillingState s \<longleftrightarrow> s \<in> set known_states"

definition IsKnownBillingType :: "string \<Rightarrow> bool" where
  "IsKnownBillingType t \<longleftrightarrow> t \<in> {''topup'', ''purchase_sub'', ''bonus_credit'', ''refund_sub'',
     ''refund_topup'', ''admin_adjust'', ''admin_grant_sub'', ''admin_revoke_grant'',
     ''api_consume_balance'', ''api_usage_sub'', ''api_usage_pending_reconcile''}"

definition IsZeroAmountBillingType :: "string \<Rightarrow> bool" where
  "IsZeroAmountBillingType t \<longleftrightarrow> t \<in> {''api_usage_sub'', ''api_usage_pending_reconcile'',
     ''admin_grant_sub'', ''admin_revoke_grant''}"

definition IsApiUsageType :: "string \<Rightarrow> bool" where
  "IsApiUsageType t \<longleftrightarrow> t = ''api_usage_sub''"

definition IsCreditEntry :: "billing_entry \<Rightarrow> bool" where
  "IsCreditEntry b \<longleftrightarrow> 0 < be_AmountUSD b"

definition IsConsumeEntry :: "billing_entry \<Rightarrow> bool" where
  "IsConsumeEntry b \<longleftrightarrow> be_EntryType b \<in> {''purchase_sub'', ''api_consume_balance''}"

text \<open>A \<^verbatim>\<open>BillingEntryInput\<close> is the row to be; its zero time (\<open>0\<close>) stands for now and its empty
  state for settled.\<close>

definition blank_entry :: billing_entry where
  "blank_entry = \<lparr> be_UserID = 0, be_OccurredAt = 0, be_EntryType = '''', be_BillingState = '''',
     be_AmountUSD = 0, be_BalanceAfterUSD = 0, be_RelatedType = '''', be_RelatedID = 0,
     be_ModelName = '''', be_TokensTotal = 0, be_RequestID = '''', be_DeliveredBytes = 0,
     be_EstimatedInputTokens = 0, be_EstimatedCostUSD = 0, be_SourceSubscriptionID = None,
     be_CurrencyOriginal = '''', be_AmountOriginal = 0 \<rparr>"

text \<open>The unique index \<^verbatim>\<open>idx_billing_related_unique\<close> of \<^verbatim>\<open>database/sqlite.go\<close>: no two entries about
  the same related row have the same type.\<close>

definition related_taken :: "billing_entry \<Rightarrow> tables \<Rightarrow> bool" where
  "related_taken e t \<longleftrightarrow> 0 < be_RelatedID e
     \<and> list_ex (\<lambda>x. be_RelatedType x = be_RelatedType e \<and> be_RelatedID x = be_RelatedID e
         \<and> be_EntryType x = be_EntryType e) (billing t)"

definition errUnique :: db_error where
  "errUnique = Rejected ''UNIQUE constraint failed''"

definition insert_entry :: "billing_entry \<Rightarrow> unit tx" where
  "insert_entry e = tx_bind (stmt (\<lambda>t. if related_taken e t then (True, t)
       else (False, t \<lparr> billing := billing t @ [e] \<rparr>)))
     (\<lambda>dup. if dup then tx_throw errUnique else tx_return ())"

definition WriteBillingEntry :: "nanos \<Rightarrow> billing_entry \<Rightarrow> unit tx" where
  "WriteBillingEntry now inp =
     (if be_UserID inp = 0 then tx_throw (Rejected ''UserID required'')
      else if be_EntryType inp = '''' then tx_throw (Rejected ''EntryType required'')
      else if \<not> IsKnownBillingType (be_EntryType inp) then tx_throw (Rejected ''unknown EntryType'')
      else let st = (if be_BillingState inp = '''' then ''settled'' else be_BillingState inp) in
        if \<not> IsKnownBillingState st then tx_throw (Rejected ''unknown BillingState'')
        else if IsZeroAmountBillingType (be_EntryType inp) \<and> be_AmountUSD inp \<noteq> 0
             then tx_throw (Rejected ''entries require AmountUSD=0'')
        else let occurredAt = (if be_OccurredAt inp = 0 then now else be_OccurredAt inp);
                 entry = inp \<lparr> be_BillingState := st, be_OccurredAt := occurredAt \<rparr>
             in insert_entry entry)"

text \<open>Outside a transaction the insert is a statement of its own.\<close>

definition WriteBillingEntryNonFatal :: "nanos \<Rightarrow> billing_entry \<Rightarrow> unit tx" where
  "WriteBillingEntryNonFatal now inp = WriteBillingEntry now inp"

text \<open>Three attempts; the caller goes on either way, and the result says whether one succeeded.\<close>

fun write_billing_attempts :: "nat \<Rightarrow> nanos \<Rightarrow> billing_entry \<Rightarrow> bool tx" where
  "write_billing_attempts 0 now e = tx_return False"
| "write_billing_attempts (Suc n) now e =
     tx_catch (tx_bind (WriteBillingEntryNonFatal now e) (\<lambda>_. tx_return True))
       (\<lambda>_. write_billing_attempts n now e)"

definition writeBillingWithRetry :: "nanos \<Rightarrow> billing_entry \<Rightarrow> bool tx" where
  "writeBillingWithRetry now e = write_billing_attempts 3 now e"

subsection \<open>What the writer accepts\<close>

definition entry_ok :: "billing_entry \<Rightarrow> bool" where
  "entry_ok e \<longleftrightarrow> be_UserID e \<noteq> 0 \<and> IsKnownBillingType (be_EntryType e)
     \<and> IsKnownBillingState (be_BillingState e)
     \<and> (IsZeroAmountBillingType (be_EntryType e) \<longrightarrow> be_AmountUSD e = 0)"

definition booked :: "nanos \<Rightarrow> billing_entry \<Rightarrow> billing_entry" where
  "booked now e = e \<lparr> be_BillingState := (if be_BillingState e = '''' then ''settled'' else be_BillingState e),
     be_OccurredAt := (if be_OccurredAt e = 0 then now else be_OccurredAt e) \<rparr>"

lemma booked_simps [simp]:
  "be_UserID (booked now e) = be_UserID e" "be_AmountUSD (booked now e) = be_AmountUSD e"
  "be_EntryType (booked now e) = be_EntryType e"
  "be_BalanceAfterUSD (booked now e) = be_BalanceAfterUSD e"
  "be_RelatedType (booked now e) = be_RelatedType e" "be_RelatedID (booked now e) = be_RelatedID e"
  by (simp_all add: booked_def)

lemma related_taken_booked [simp]: "related_taken (booked now e) t \<longleftrightarrow> related_taken e t"
  by (simp add: related_taken_def)

lemma related_taken_frame [simp]:
  "related_taken e (t \<lparr> users := us \<rparr>) \<longleftrightarrow> related_taken e t"
  "related_taken e (t \<lparr> billing := es @ [x] \<rparr>) \<longleftrightarrow> related_taken e (t \<lparr> billing := es \<rparr>)
     \<or> 0 < be_RelatedID e \<and> be_RelatedType x = be_RelatedType e \<and> be_RelatedID x = be_RelatedID e
       \<and> be_EntryType x = be_EntryType e"
  "related_taken e (t \<lparr> billing := billing t \<rparr>) \<longleftrightarrow> related_taken e t"
  by (auto simp: related_taken_def)

lemma insert_entry_Inr: "insert_entry e (t, fs) = (Inr a, (t', fs')) \<longleftrightarrow>
    \<not> related_taken e t \<and> (fs = [] \<or> \<not> hd fs) \<and> t' = t \<lparr> billing := billing t @ [e] \<rparr> \<and> fs' = tl fs"
  by (auto simp: insert_entry_def tx_Inr split: if_splits)

lemma insert_entry_Inl: "insert_entry e (t, fs) = (Inl r, (t', fs')) \<Longrightarrow> t' = t"
  by (auto simp: insert_entry_def tx_bind_Inl stmt_Inl stmt_Inr split: if_splits)

lemma insert_entry_ok: "\<not> related_taken e t \<Longrightarrow>
    insert_entry e (t, []) = (Inr (), (t \<lparr> billing := billing t @ [e] \<rparr>, []))"
  by (simp add: insert_entry_def tx_bind_def)

lemma clean_insert_entry [clean_intros]: "clean (insert_entry e)"
  unfolding insert_entry_def by (intro clean_intros)

lemma WriteBillingEntry_unfold:
  "WriteBillingEntry now e w = (if entry_ok (booked now e) then insert_entry (booked now e) w
     else (Inl (case fst (WriteBillingEntry now e w) of Inl r \<Rightarrow> r), w))"
  by (auto simp: WriteBillingEntry_def entry_ok_def booked_def Let_def IsKnownBillingType_def)

lemma WriteBillingEntry_Inr:
  "WriteBillingEntry now e (t, fs) = (Inr a, (t', fs')) \<longleftrightarrow>
    entry_ok (booked now e) \<and> \<not> related_taken e t \<and> (fs = [] \<or> \<not> hd fs)
    \<and> t' = t \<lparr> billing := billing t @ [booked now e] \<rparr> \<and> fs' = tl fs"
  by (subst WriteBillingEntry_unfold) (auto simp: insert_entry_Inr)

lemma WriteBillingEntry_Inl:
  "WriteBillingEntry now e (t, fs) = (Inl r, (t', fs')) \<Longrightarrow> t' = t"
  by (subst (asm) WriteBillingEntry_unfold) (auto dest: insert_entry_Inl split: if_splits)

lemma WriteBillingEntry_ok:
  "entry_ok (booked now e) \<Longrightarrow> \<not> related_taken e t \<Longrightarrow>
    WriteBillingEntry now e (t, []) = (Inr (), (t \<lparr> billing := billing t @ [booked now e] \<rparr>, []))"
  by (simp add: WriteBillingEntry_Inr)

lemma write_attempts_cases:
  "write_billing_attempts n now e (t, fs) = (r, (t', fs')) \<Longrightarrow>
    (r = Inr True \<and> entry_ok (booked now e) \<and> \<not> related_taken e t
       \<and> t' = t \<lparr> billing := billing t @ [booked now e] \<rparr>)
    \<or> (r = Inr False \<and> t' = t)"
proof (induction n arbitrary: fs)
  case (Suc n)
  show ?case
  proof -
    obtain r1 t1 fs1 where W: "WriteBillingEntry now e (t, fs) = (r1, (t1, fs1))"
      by (cases "WriteBillingEntry now e (t, fs)") auto
    show ?thesis
    proof (cases r1)
      case (Inl err)
      then have "t1 = t" using W WriteBillingEntry_Inl by blast
      moreover have "write_billing_attempts n now e (t1, fs1) = (r, (t', fs'))"
        using Suc.prems W Inl
        by (simp add: tx_catch_def tx_bind_def WriteBillingEntryNonFatal_def)
      ultimately show ?thesis using Suc.IH by simp
    next
      case (Inr u)
      then show ?thesis using Suc.prems W
        by (auto simp: tx_catch_def tx_bind_def WriteBillingEntryNonFatal_def WriteBillingEntry_Inr)
    qed
  qed
qed simp

lemma write_attempts_faults:
  assumes "entry_ok (booked now e)" and "\<not> related_taken e t"
    and "0 < n" and "\<exists>i < n. length fs \<le> i \<or> \<not> fs ! i"
  shows "fst (write_billing_attempts n now e (t, fs)) = Inr True"
  using assms(3,4)
proof (induction n arbitrary: fs)
  case (Suc n)
  show ?case
  proof (cases "fs \<noteq> [] \<and> hd fs")
    case True
    then obtain gs where fs: "fs = True # gs" by (cases fs) auto
    from Suc.prems obtain i where i: "i < Suc n" "length fs \<le> i \<or> \<not> fs ! i" by blast
    then obtain j where j: "i = Suc j" using fs by (cases i) auto
    have "fst (write_billing_attempts n now e (t, gs)) = Inr True"
      using i fs j by (intro Suc.IH) auto
    moreover have "\<exists>r. WriteBillingEntry now e (t, fs) = (Inl r, (t, gs))"
      using assms(1) by (subst WriteBillingEntry_unfold) (simp add: fs insert_entry_def tx_bind_def stmt_def)
    ultimately show ?thesis
      by (auto simp: tx_catch_def tx_bind_def WriteBillingEntryNonFatal_def)
  next
    case False
    have "\<exists>w. WriteBillingEntry now e (t, fs) = (Inr (), w)"
      using assms(1,2) False by (simp add: WriteBillingEntry_Inr)
    then show ?thesis by (auto simp: tx_catch_def tx_bind_def WriteBillingEntryNonFatal_def)
  qed
qed simp

subsection \<open>The accounting law\<close>

definition booked_sum :: "nat \<Rightarrow> billing_entry list \<Rightarrow> int" where
  "booked_sum uid es = sum_list (map be_AmountUSD (filter (\<lambda>e. be_UserID e = uid) es))"

lemma booked_sum_Nil [simp]: "booked_sum uid [] = 0"
  by (simp add: booked_sum_def)

lemma booked_sum_snoc [simp]:
  "booked_sum uid (es @ [e]) = booked_sum uid es + (if be_UserID e = uid then be_AmountUSD e else 0)"
  by (simp add: booked_sum_def)

definition balance_of :: "tables \<Rightarrow> nat \<Rightarrow> int option" where
  "balance_of t uid = map_option u_Quota (users t uid)"

definition reconciled :: "(nat \<Rightarrow> int) \<Rightarrow> tables \<Rightarrow> bool" where
  "reconciled opening t \<longleftrightarrow>
     (\<forall>uid u. users t uid = Some u \<longrightarrow> u_Quota u = opening uid + booked_sum uid (billing t))"

definition relation_of :: "billing_entry \<Rightarrow> string \<times> nat \<times> string" where
  "relation_of e = (be_RelatedType e, be_RelatedID e, be_EntryType e)"

definition ledger_ok :: "tables \<Rightarrow> bool" where
  "ledger_ok t \<longleftrightarrow> list_all entry_ok (billing t)
     \<and> distinct (map relation_of (filter (\<lambda>e. 0 < be_RelatedID e) (billing t)))"

lemma related_once_snoc: "\<not> related_taken e t \<Longrightarrow>
    distinct (map relation_of (filter (\<lambda>e. 0 < be_RelatedID e) (billing t))) \<Longrightarrow> 0 < be_RelatedID e \<Longrightarrow>
    relation_of e \<notin> relation_of ` {x \<in> set (billing t). 0 < be_RelatedID x}"
  by (auto simp: related_taken_def relation_of_def list_ex_iff)

text \<open>The interface: \<open>post k d\<close> adds \<open>d\<close> to account \<open>k\<close> and books \<open>d\<close> for it.\<close>

locale account_book =
  fixes has :: "'s \<Rightarrow> 'k \<Rightarrow> bool"
    and bal :: "'s \<Rightarrow> 'k \<Rightarrow> int"
    and book :: "'s \<Rightarrow> 'k \<Rightarrow> int"
    and post :: "'k \<Rightarrow> int \<Rightarrow> 's \<Rightarrow> 's"
  assumes has_post: "has (post k d s) k' = has s k'"
    and bal_post: "has s k \<Longrightarrow> bal (post k d s) k' = bal s k' + (if k = k' then d else 0)"
    and book_post: "has s k \<Longrightarrow> book (post k d s) k' = book s k' + (if k = k' then d else 0)"
    and post_absent: "\<not> has s k \<Longrightarrow> post k d s = s"
begin

lemma post_difference: "bal (post k d s) k' - book (post k d s) k' = bal s k' - book s k'"
  by (cases "has s k") (simp_all add: bal_post book_post post_absent)

lemma posts_difference:
  "bal (fold (\<lambda>(k, d). post k d) ps s) k' - book (fold (\<lambda>(k, d). post k d) ps s) k'
    = bal s k' - book s k'"
  by (induction ps arbitrary: s) (auto simp: post_difference)

lemma posts_balance:
  "\<forall>p \<in> set ps. has s (fst p) \<Longrightarrow>
    bal (fold (\<lambda>(k, d). post k d) ps s) k' = bal s k' + sum_list (map snd (filter (\<lambda>p. fst p = k') ps))"
  by (induction ps arbitrary: s) (auto simp: bal_post has_post)

end

text \<open>On the model: adding to a balance column and booking the entry; an update of an absent
  user affects no row.\<close>

definition bal_col :: "tables \<Rightarrow> nat \<Rightarrow> int" where
  "bal_col t uid = (case users t uid of None \<Rightarrow> 0 | Some u \<Rightarrow> u_Quota u)"

definition adjust_entry :: "nat \<Rightarrow> int \<Rightarrow> billing_entry" where
  "adjust_entry uid d = blank_entry \<lparr> be_UserID := uid, be_EntryType := ''admin_adjust'', be_AmountUSD := d \<rparr>"

definition post_entry :: "billing_entry \<Rightarrow> tables \<Rightarrow> tables" where
  "post_entry e t = (case users t (be_UserID e) of None \<Rightarrow> t
     | Some u \<Rightarrow> t \<lparr> users := (users t)(be_UserID e \<mapsto> u \<lparr> u_Quota := u_Quota u + be_AmountUSD e \<rparr>),
                   billing := billing t @ [e] \<rparr>)"

interpretation ledger: account_book "\<lambda>t uid. users t uid \<noteq> None" bal_col
  "\<lambda>t uid. booked_sum uid (billing t)" "\<lambda>uid d. post_entry (adjust_entry uid d)"
  by unfold_locales (auto simp: post_entry_def adjust_entry_def bal_col_def split: option.splits)

lemma reconciled_cong:
  "reconciled opening t \<Longrightarrow> billing t' = billing t \<Longrightarrow>
    (\<And>uid u'. users t' uid = Some u' \<Longrightarrow> \<exists>u. users t uid = Some u \<and> u_Quota u' = u_Quota u)
    \<Longrightarrow> reconciled opening t'"
  by (force simp: reconciled_def)

lemma reconciled_post:
  assumes r: "reconciled opening t" and u: "users t (be_UserID e) = Some u"
    and b: "billing t' = billing t @ [e]"
    and q: "\<And>uid u'. users t' uid = Some u' \<Longrightarrow> \<exists>v. users t uid = Some v
      \<and> u_Quota u' = u_Quota v + (if uid = be_UserID e then be_AmountUSD e else 0)"
  shows "reconciled opening t'"
  unfolding reconciled_def
proof (intro allI impI)
  fix uid u' assume "users t' uid = Some u'"
  from q [OF this] obtain v where v: "users t uid = Some v"
    "u_Quota u' = u_Quota v + (if uid = be_UserID e then be_AmountUSD e else 0)" by blast
  with r b show "u_Quota u' = opening uid + booked_sum uid (billing t')"
    by (auto simp: reconciled_def)
qed

lemma reconciled_zero_entry:
  "reconciled opening t \<Longrightarrow> be_AmountUSD e = 0 \<Longrightarrow> reconciled opening (t \<lparr> billing := billing t @ [e] \<rparr>)"
  by (auto simp: reconciled_def)

lemma reconciled_write_attempts:
  assumes "reconciled opening t" and "be_AmountUSD e = 0"
  shows "reconciled opening (fst (snd (write_billing_attempts n now e (t, fs))))"
proof -
  obtain r t' fs' where w: "write_billing_attempts n now e (t, fs) = (r, (t', fs'))"
    by (cases "write_billing_attempts n now e (t, fs)") auto
  from write_attempts_cases [OF w] assms show ?thesis
    by (auto simp: w intro!: reconciled_zero_entry)
qed

subsection \<open>Properties\<close>

text \<open>C27: The writer of the ledger is total and strict: it appends exactly the normalised entry when
  the entry has a user, a known type, a known state and, for the types that only record usage,
  a zero amount, and no entry of the same type about the same row is there yet; otherwise it
  reports an error and leaves the tables as they were. Whatever it does, a ledger of valid
  entries stays one, and one without two entries of a type about a row stays so.\<close>

theorem WriteBillingEntry_strict:
  shows "(fst (WriteBillingEntry now e (t, [])) = Inr () \<longleftrightarrow> entry_ok (booked now e) \<and> \<not> related_taken e t)
    \<and> fst (snd (WriteBillingEntry now e (t, fs)))
      = (if entry_ok (booked now e) \<and> \<not> related_taken e t \<and> (fs = [] \<or> \<not> hd fs)
         then t \<lparr> billing := billing t @ [booked now e] \<rparr> else t)
    \<and> (ledger_ok t \<longrightarrow> ledger_ok (fst (snd (WriteBillingEntry now e (t, fs)))))"
proof -
  obtain r t' fs' where w: "WriteBillingEntry now e (t, fs) = (r, (t', fs'))"
    by (cases "WriteBillingEntry now e (t, fs)") auto
  have eq: "t' = (if entry_ok (booked now e) \<and> \<not> related_taken e t \<and> (fs = [] \<or> \<not> hd fs)
         then t \<lparr> billing := billing t @ [booked now e] \<rparr> else t)"
  proof (cases r)
    case (Inl x)
    have "\<nexists>w. WriteBillingEntry now e (t, fs) = (Inr (), w)" by (simp add: w Inl)
    then have "\<not> (entry_ok (booked now e) \<and> \<not> related_taken e t \<and> (fs = [] \<or> \<not> hd fs))"
      by (simp add: split_paired_all WriteBillingEntry_Inr)
    then show ?thesis using w Inl WriteBillingEntry_Inl by auto
  qed (use w in \<open>simp add: WriteBillingEntry_Inr\<close>)
  have "fst (WriteBillingEntry now e (t, [])) = Inr () \<longleftrightarrow> entry_ok (booked now e) \<and> \<not> related_taken e t"
    by (metis WriteBillingEntry_Inr WriteBillingEntry_ok fst_conv prod.collapse)
  with eq show ?thesis by (auto simp: ledger_ok_def w related_once_snoc)
qed

theorem WriteBillingEntry_strict_witness:
  "ledger_ok (fst (snd (WriteBillingEntry 5 (adjust_entry 3 40) (empty_tables, [])))) \<and> ledger_ok empty_tables"
  using WriteBillingEntry_strict [of 5 "adjust_entry 3 40" empty_tables "[]"]
  by (simp add: ledger_ok_def empty_tables_def)

text \<open>C28: The retried write survives transient faults: a valid entry is booked, exactly once, as soon
  as one of the three attempts meets no fault, and nothing is booked twice or changed
  otherwise.\<close>

theorem writeBillingWithRetry_once:
  assumes "entry_ok (booked now e)" and "\<not> related_taken e t"
  shows "fst (snd (writeBillingWithRetry now e (t, fs)))
    = (if \<exists>i < 3. length fs \<le> i \<or> \<not> fs ! i then t \<lparr> billing := billing t @ [booked now e] \<rparr> else t)"
proof -
  obtain r t' fs' where w: "write_billing_attempts 3 now e (t, fs) = (r, (t', fs'))"
    by (cases "write_billing_attempts 3 now e (t, fs)") auto
  show ?thesis
  proof (cases "\<exists>i < 3. length fs \<le> i \<or> \<not> fs ! i")
    case True
    with write_attempts_faults [OF assms, of 3 fs] write_attempts_cases [OF w] w show ?thesis
      by (auto simp: writeBillingWithRetry_def)
  next
    case False
    then have "\<And>i. i < 3 \<Longrightarrow> i < length fs \<and> fs ! i" by (simp add: not_le)
    from this [of 0] this [of 1] this [of 2] have "3 \<le> length fs" "fs ! 0" "fs ! 1" "fs ! 2" by simp_all
    then obtain gs where "fs = True # True # True # gs"
      by (cases fs; cases "tl fs"; cases "tl (tl fs)") (auto simp: numeral_3_eq_3 numeral_2_eq_2)
    moreover have "WriteBillingEntryNonFatal now e (t, True # hs) = (Inl DbError, (t, hs))" for hs
      unfolding WriteBillingEntryNonFatal_def
      by (subst WriteBillingEntry_unfold) (simp add: assms insert_entry_def tx_bind_def stmt_def)
    ultimately show ?thesis using False
      by (simp add: writeBillingWithRetry_def numeral_3_eq_3 tx_catch_def tx_bind_def)
  qed
qed

theorem writeBillingWithRetry_once_witness:
  "length (billing (fst (snd (writeBillingWithRetry 5 (adjust_entry 3 40) (empty_tables, [True, True]))))) = 1"
proof -
  have ok: "entry_ok (booked 5 (adjust_entry 3 40))"
    by (simp add: entry_ok_def booked_def adjust_entry_def blank_entry_def IsKnownBillingType_def
        IsKnownBillingState_def known_states_def IsZeroAmountBillingType_def)
  have "\<exists>i < 3. length [True, True] \<le> i \<or> \<not> [True, True] ! i" by (rule exI [of _ 2]) simp
  moreover have "\<not> related_taken (adjust_entry 3 40) empty_tables" by (simp add: related_taken_def)
  ultimately show ?thesis
    unfolding writeBillingWithRetry_once [OF ok \<open>\<not> related_taken (adjust_entry 3 40) empty_tables\<close>]
    by (simp only: if_True) (simp add: empty_tables_def)
qed

end
