(* ===== verification/Money.thy ===== *)
theory Money
  imports GoFloat GoStr
begin

section \<open>Money units and checked arithmetic (\<^verbatim>\<open>database/money.go\<close>)\<close>

text \<open>
  Amounts are \<^verbatim>\<open>int64\<close> micro-USD and fen. A Go result \<^verbatim>\<open>(v, true)\<close> is \<open>Some v\<close> and
  \<^verbatim>\<open>(0, false)\<close> is \<open>None\<close>. The lemmas show that the checked operations detect exactly the
  overflows, that the conversions never leave the int64 range, and that formatting loses
  nothing.
\<close>

definition MicroPerUSD :: int64 where
  "MicroPerUSD = 1000000"

definition FenPerRMB :: int64 where
  "FenPerRMB = 100"

text \<open>The common shape of \<open>USDToMicro\<close> and \<open>RMBToFen\<close>: scale, round, range check.\<close>

definition scaled_to_int64 :: "int64 \<Rightarrow> f64 \<Rightarrow> int64 option" where
  "scaled_to_int64 unit f =
     (if is_nan f \<or> is_inf f then None
      else let r = math_Round (f64_mul f (f64_of_int unit)) in
        if f64_le (f64_of_int i64_max) r \<or> f64_le r (f64_of_int i64_min) then None
        else Some (int64_of_f64 r))"

definition USDToMicro :: "f64 \<Rightarrow> int64 option" where
  "USDToMicro usd = scaled_to_int64 MicroPerUSD usd"

definition MicroToUSD :: "int64 \<Rightarrow> f64" where
  "MicroToUSD micro = f64_div_const (f64_of_int micro) (of_int MicroPerUSD)"

definition RMBToFen :: "f64 \<Rightarrow> int64 option" where
  "RMBToFen rmb = scaled_to_int64 FenPerRMB rmb"

definition FenToRMB :: "int64 \<Rightarrow> f64" where
  "FenToRMB fen = f64_div_const (f64_of_int fen) (of_int FenPerRMB)"

definition FormatMicroUSD :: "int64 \<Rightarrow> string" where
  "FormatMicroUSD micro =
     (if micro = i64_min then ''-9223372036854.775808''
      else let neg = micro < 0; m = (if neg then - micro else micro);
               whole = m sdiv MicroPerUSD; frac = m smod MicroPerUSD
           in (if neg then ''-'' else '''') @ show_int whole @ ''.'' @ pad_zero 6 (show_int frac))"

definition FormatFen :: "int64 \<Rightarrow> string" where
  "FormatFen fen =
     (if fen = i64_min then ''-92233720368547758.08''
      else let neg = fen < 0; m = (if neg then - fen else fen);
               whole = m sdiv FenPerRMB; frac = m smod FenPerRMB
           in (if neg then ''-'' else '''') @ show_int whole @ ''.'' @ pad_zero 2 (show_int frac))"

definition CheckedMulInt64 :: "int64 \<Rightarrow> int64 \<Rightarrow> int64 option" where
  "CheckedMulInt64 a b =
     (if a = 0 \<or> b = 0 then Some 0
      else let c = wrap64 (a * b) in
        if a \<noteq> 0 \<and> wrap64 (c sdiv a) \<noteq> b then None
        else if (a = i64_min \<and> b = - 1) \<or> (b = i64_min \<and> a = - 1) then None
        else Some c)"

definition CheckedAddInt64 :: "int64 \<Rightarrow> int64 \<Rightarrow> int64 option" where
  "CheckedAddInt64 a b =
     (let c = wrap64 (a + b) in
      if (0 < a \<and> 0 < b \<and> c < 0) \<or> (a < 0 \<and> b < 0 \<and> 0 \<le> c) then None else Some c)"

fun checked_sum_from :: "int64 \<Rightarrow> int64 list \<Rightarrow> int64 option" where
  "checked_sum_from s [] = Some s"
| "checked_sum_from s (x # xs) =
     (case CheckedAddInt64 s x of None \<Rightarrow> None | Some v \<Rightarrow> checked_sum_from v xs)"

definition CheckedSumInt64 :: "int64 list \<Rightarrow> int64 option" where
  "CheckedSumInt64 xs = checked_sum_from 0 xs"

subsection \<open>Checked arithmetic is exact\<close>

lemma CheckedAddInt64_eq:
  assumes a: "in_i64 a" and b: "in_i64 b"
  shows "CheckedAddInt64 a b = (if in_i64 (a + b) then Some (a + b) else None)"
proof -
  have "wrap64 (a + b) = (if a + b < i64_min then a + b + 18446744073709551616
     else if a + b > i64_max then a + b - 18446744073709551616 else a + b)"
    using a b by (intro wrap64_cases) (auto simp: i64_defs)
  then show ?thesis using a b by (auto simp: CheckedAddInt64_def Let_def i64_defs)
qed

lemma wrap64_congr: "\<exists>k. wrap64 x = x + 18446744073709551616 * k"
proof
  show "wrap64 x = x + 18446744073709551616 * (- ((x + 9223372036854775808) div 18446744073709551616))"
    by (simp add: wrap64_def minus_mult_div_eq_mod [symmetric])
qed

lemma mul_check_sound:
  assumes a: "in_i64 a" "a \<noteq> 0" and b: "in_i64 b" and q: "wrap64 (a * b) sdiv a = b"
  shows "wrap64 (a * b) = a * b"
proof -
  obtain k where k: "wrap64 (a * b) = a * b + 18446744073709551616 * k" using wrap64_congr by blast
  have "wrap64 (a * b) = b * a + wrap64 (a * b) smod a"
    using sdiv_mult_smod_eq [of "wrap64 (a * b)" a] q by simp
  then have "wrap64 (a * b) smod a = 18446744073709551616 * k" using k by (simp add: mult.commute)
  moreover have "\<bar>wrap64 (a * b) smod a\<bar> < \<bar>a\<bar>"
    using a(2) by (simp add: signed_modulo_int_def abs_mult)
  moreover have "\<bar>a\<bar> \<le> 9223372036854775808" using a(1) by (auto simp: i64_defs abs_le_iff)
  ultimately have "\<bar>18446744073709551616 * k\<bar> < 9223372036854775808" by linarith
  then have "k = 0" by (simp add: abs_mult)
  then show ?thesis using k by simp
qed

lemma CheckedMulInt64_eq:
  assumes a: "in_i64 a" and b: "in_i64 b"
  shows "CheckedMulInt64 a b = (if in_i64 (a * b) then Some (a * b) else None)"
proof (cases "a = 0 \<or> b = 0")
  case True
  then show ?thesis by (auto simp: CheckedMulInt64_def)
next
  case nz: False
  show ?thesis
  proof (cases "in_i64 (a * b)")
    case True
    then have c: "wrap64 (a * b) = a * b" by simp
    have "\<not> (a = i64_min \<and> b = - 1)" "\<not> (b = i64_min \<and> a = - 1)"
      using True by (auto simp: i64_defs)
    moreover have "wrap64 ((a * b) sdiv a) = b"
      using nz b by (simp add: mult.commute [of a] sdiv_mult_cancel)
    ultimately show ?thesis using True nz c by (simp add: CheckedMulInt64_def Let_def)
  next
    case False
    have "CheckedMulInt64 a b = None"
    proof (rule ccontr)
      assume "CheckedMulInt64 a b \<noteq> None"
      then have q: "wrap64 (wrap64 (a * b) sdiv a) = b"
        and e: "\<not> (b = i64_min \<and> a = - 1)"
        using nz by (auto simp: CheckedMulInt64_def Let_def split: if_splits)
      have in_q: "in_i64 (wrap64 (a * b) sdiv a)"
      proof (rule ccontr)
        assume n: "\<not> in_i64 (wrap64 (a * b) sdiv a)"
        have "\<bar>wrap64 (a * b) sdiv a\<bar> \<le> \<bar>wrap64 (a * b)\<bar>"
          using sdiv_int_range [of "wrap64 (a * b)" a] by auto
        moreover have "in_i64 (wrap64 (a * b))" by simp
        ultimately have s: "wrap64 (a * b) sdiv a = 9223372036854775808"
          "wrap64 (a * b) = i64_min"
          using n by (auto simp: i64_defs)
        then have "wrap64 (a * b) sdiv a = - wrap64 (a * b)" by (simp add: i64_defs)
        moreover have "wrap64 (a * b) \<noteq> 0" using s by (simp add: i64_defs)
        ultimately have "a = - 1" using int_sdiv_negated_is_minus1 by blast
        moreover have "b = wrap64 9223372036854775808" using q s(1) by metis
        then have "b = i64_min" by (simp add: wrap64_def i64_min_def)
        ultimately show False using e by simp
      qed
      then have "wrap64 (a * b) sdiv a = b" using q by simp
      then have "wrap64 (a * b) = a * b" using a nz b by (intro mul_check_sound) auto
      then show False using False by (metis wrap64_in_i64)
    qed
    with False show ?thesis by simp
  qed
qed

lemma CheckedAdd_Some: "in_i64 a \<Longrightarrow> in_i64 b \<Longrightarrow> CheckedAddInt64 a b = Some c \<Longrightarrow> c = a + b \<and> in_i64 c"
  by (auto simp: CheckedAddInt64_eq split: if_splits)

lemma CheckedMul_Some: "in_i64 a \<Longrightarrow> in_i64 b \<Longrightarrow> CheckedMulInt64 a b = Some c \<Longrightarrow> c = a * b \<and> in_i64 c"
  by (auto simp: CheckedMulInt64_eq split: if_splits)

lemma checked_sum_from_sound:
  assumes "in_i64 s" and "list_all in_i64 xs" and "checked_sum_from s xs = Some v"
  shows "v = s + sum_list xs \<and> in_i64 v"
  using assms
proof (induction xs arbitrary: s)
  case (Cons x xs)
  then obtain u where u: "CheckedAddInt64 s x = Some u" "checked_sum_from u xs = Some v"
    by (auto split: option.splits)
  with Cons.prems have us: "u = s + x" "in_i64 u" using CheckedAdd_Some [of s x u] by auto
  have "list_all in_i64 xs" using Cons.prems by simp
  from Cons.IH [OF us(2) this u(2)] have "v = u + sum_list xs" "in_i64 v" by blast+
  then show ?case using us(1) by simp
qed simp

lemma checked_sum_from_nonneg:
  assumes "in_i64 s" and "0 \<le> s" and "list_all (\<lambda>x. in_i64 x \<and> 0 \<le> x) xs"
  shows "checked_sum_from s xs = (if in_i64 (s + sum_list xs) then Some (s + sum_list xs) else None)"
  using assms
proof (induction xs arbitrary: s)
  case Nil
  then show ?case by simp
next
  case (Cons x xs)
  have nn: "0 \<le> sum_list xs" using Cons.prems(3) by (induction xs) auto
  show ?case
  proof (cases "in_i64 (s + x)")
    case True
    with Cons show ?thesis by (simp add: CheckedAddInt64_eq add.assoc)
  next
    case False
    with nn Cons.prems have "\<not> in_i64 (s + (x + sum_list xs))" by (simp add: i64_defs)
    with False Cons.prems show ?thesis by (simp add: CheckedAddInt64_eq)
  qed
qed

subsection \<open>Conversions\<close>

lemma fl_not_NaN: "fl x \<noteq> NaN"
  by (simp add: fl_def Let_def)

lemma f64_mul_NaN: "\<not> is_nan f \<Longrightarrow> \<not> is_inf f \<Longrightarrow> u \<noteq> 0 \<Longrightarrow> f64_mul f (Fin u) \<noteq> NaN"
  by (cases f) (auto simp: fl_not_NaN)

text \<open>Whatever float comes in, a converted amount is in range, and it is the rounding of the
  float product, not a wrapped or saturated value.\<close>

lemma scaled_to_int64_range:
  assumes "scaled_to_int64 unit f = Some m" and u: "f64_of_int unit = Fin u" "u \<noteq> 0"
  shows "in_i64 m \<and> math_Round (f64_mul f (f64_of_int unit)) = Fin (of_int m)"
proof -
  let ?p = "f64_mul f (f64_of_int unit)"
  have c: "\<not> f64_le (f64_of_int i64_max) (math_Round ?p)"
    "\<not> f64_le (math_Round ?p) (f64_of_int i64_min)" "m = int64_of_f64 (math_Round ?p)"
    and fin: "\<not> is_nan f" "\<not> is_inf f"
    using assms(1) by (auto simp: scaled_to_int64_def Let_def split: if_splits)
  have "?p \<noteq> NaN" using f64_mul_NaN [OF fin u(2)] u(1) by simp
  then show ?thesis
  proof (cases ?p)
    case (Fin q)
    define n where "n = round_away q"
    have r: "math_Round ?p = Fin (of_int n)" by (simp add: Fin n_def)
    have "n < 9223372036854775808" "- 9223372036854775808 < n"
      using c(1,2) by (simp_all add: r f64_of_int_max f64_of_int_min)
    then have n: "in_i64 n" by (simp add: i64_defs)
    then have "m = n" using c(3) by (simp add: r)
    with r n show ?thesis by simp
  qed (use c f64_of_int_max f64_of_int_min in simp_all)
qed

text \<open>Micro-USD to float and back is the identity up to \<open>2 ^ 50\<close> (over a billion dollars).\<close>

lemma roundtrip_bound:
  fixes m c :: int
  assumes m: "m \<noteq> 0" "\<bar>m\<bar> \<le> 2 ^ 50" and c: "1 \<le> c" "c \<le> 10 ^ 6"
  obtains r1 r2 where "fl (of_int m / of_int c) = Fin r1" and "fl (r1 * of_int c) = Fin r2"
    and "\<bar>r2 - of_int m\<bar> < 1 / 2"
proof -
  define M C :: rat where "M = of_int m" and "C = of_int c"
  have C: "1 \<le> C" "C \<le> 10 ^ 6"
    using c of_int_le_iff [where ?'a = rat, of c "10 ^ 6"] by (simp_all add: C_def)
  have "1 \<le> \<bar>m\<bar>" using m(1) by simp
  then have M: "1 \<le> \<bar>M\<bar>" "\<bar>M\<bar> \<le> 2 ^ 50"
    using m(2) of_int_le_iff [where ?'a = rat, of 1 "\<bar>m\<bar>"]
      of_int_le_iff [where ?'a = rat, of "\<bar>m\<bar>" "2 ^ 50"] by (simp_all add: M_def)
  define q where "q = M / C"
  have aq: "\<bar>q\<bar> * C = \<bar>M\<bar>" using C by (simp add: q_def abs_divide)
  have q: "1 / 10 ^ 6 \<le> \<bar>q\<bar>" "\<bar>q\<bar> \<le> 2 ^ 50"
  proof -
    have "1 \<le> \<bar>q\<bar> * 10 ^ 6"
      using M(1) aq C mult_left_mono [OF C(2), of "\<bar>q\<bar>"] by simp
    then show "1 / 10 ^ 6 \<le> \<bar>q\<bar>" by simp
    have "\<bar>q\<bar> * 1 \<le> \<bar>q\<bar> * C" by (rule mult_left_mono) (use C in auto)
    then show "\<bar>q\<bar> \<le> 2 ^ 50" using aq M(2) by simp
  qed
  have small: "(2 powi (- 1022) :: rat) \<le> 2 powi (- 20)" by (rule powi_mono) simp
  have small': "(2 powi (- 20) :: rat) \<le> 1 / 10 ^ 6" by (simp add: power_int_def power_one_over)
  have big: "(2 ^ 51 :: rat) \<le> 2 powi 1000" by (simp add: power_int_def)
  have p53: "(2 powi (- 53) :: rat) = 1 / 2 ^ 53" by (simp add: power_int_def power_one_over)
  have "(2 ^ 50 :: rat) \<le> 2 ^ 51" by simp
  then have "\<bar>q\<bar> \<le> 2 powi 1000" using q(2) big by (meson order_trans)
  then obtain r1 where r1: "fl q = Fin r1" by (rule fl_finite)
  have e1: "\<bar>r1 - q\<bar> \<le> \<bar>q\<bar> * 2 powi (- 53)"
    by (rule fl_rel_error [OF r1]) (use q small small' in linarith)
  have "r1 * C - M = (r1 - q) * C" using C by (simp add: q_def left_diff_distrib)
  then have "\<bar>r1 * C - M\<bar> = \<bar>r1 - q\<bar> * C" using C by (simp add: abs_mult)
  also have "\<dots> \<le> \<bar>q\<bar> * 2 powi (- 53) * C" by (rule mult_right_mono [OF e1]) (use C in simp)
  also have "\<dots> = \<bar>M\<bar> * (1 / 2 ^ 53)" using aq by (simp add: p53 ac_simps)
  also have "\<dots> \<le> 1 / 8" using M(2) by simp
  finally have e2: "\<bar>r1 * C - M\<bar> \<le> 1 / 8" .
  have p: "1 / 2 \<le> \<bar>r1 * C\<bar>" "\<bar>r1 * C\<bar> \<le> 2 ^ 51" using e2 M by (auto simp: abs_if split: if_splits)
  have "\<bar>r1 * C\<bar> \<le> 2 powi 1000" using p(2) big by (rule order_trans)
  then obtain r2 where r2: "fl (r1 * C) = Fin r2" by (rule fl_finite)
  have "(1 / 10 ^ 6 :: rat) \<le> 1 / 2" by simp
  then have "2 powi (- 1022) \<le> \<bar>r1 * C\<bar>" using p small small' by linarith
  with r2 have "\<bar>r2 - r1 * C\<bar> \<le> \<bar>r1 * C\<bar> * 2 powi (- 53)" by (rule fl_rel_error)
  also have "\<dots> \<le> 2 ^ 51 * (1 / 2 ^ 53)" unfolding p53 by (rule mult_right_mono [OF p(2)]) simp
  also have "\<dots> = 1 / 4" by simp
  finally have "\<bar>r2 - r1 * C\<bar> \<le> 1 / 4" .
  with e2 have "\<bar>r2 - M\<bar> < 1 / 2" by linarith
  with r1 r2 show ?thesis by (intro that [of r1 r2]) (simp_all add: q_def M_def C_def)
qed

lemma scaled_roundtrip:
  assumes "\<bar>m\<bar> \<le> 2 ^ 50" and "1 \<le> c" and "c \<le> 10 ^ 6"
  shows "scaled_to_int64 c (f64_div_const (f64_of_int m) (of_int c)) = Some m"
proof -
  have fm: "f64_of_int m = Fin (of_int m)" and fc: "f64_of_int c = Fin (of_int c)"
    using assms by (auto intro!: f64_of_int_exact)
  have m: "in_i64 m" "m < 9223372036854775808" "- 9223372036854775808 < m"
    using assms(1) by (auto simp: i64_defs)
  have "\<exists>r1 r2. fl (of_int m / of_int c) = Fin r1 \<and> fl (r1 * of_int c) = Fin r2 \<and> round_away r2 = m"
  proof (cases "m = 0")
    case True
    then have "round_away 0 = m" using round_away_of_int [of 0] by simp
    with True show ?thesis by simp
  next
    case False
    then show ?thesis using roundtrip_bound [OF False assms] round_away_unique by metis
  qed
  then obtain r1 r2 where r: "fl (of_int m / of_int c) = Fin r1" "fl (r1 * of_int c) = Fin r2"
    "round_away r2 = m" by blast
  then show ?thesis using m
    by (simp add: scaled_to_int64_def fm fc Let_def f64_of_int_max f64_of_int_min)
qed

subsection \<open>Formatting\<close>

lemma filter_digits_id: "list_all is_digit s \<Longrightarrow> filter is_digit s = s"
  by (simp add: filter_id_conv list_all_iff)

lemma filter_digits_simps [simp]:
  "filter is_digit (''-'' @ s) = filter is_digit s"
  "filter is_digit (''.'' @ s) = filter is_digit s"
  by (simp_all add: is_digit_def)

definition fixed_point :: "nat \<Rightarrow> int \<Rightarrow> string" where
  "fixed_point k m = show_int (m sdiv 10 ^ k) @ ''.'' @ pad_zero k (show_int (m smod 10 ^ k))"

lemma fixed_point_parts:
  assumes "0 \<le> m" and "0 < k"
  shows "fixed_point k m
    = show_nat (nat m div 10 ^ k) @ ''.'' @ pad_zero k (show_nat (nat m mod 10 ^ k))"
proof -
  have "nat (m div 10 ^ k) = nat m div 10 ^ k" "nat (m mod 10 ^ k) = nat m mod 10 ^ k"
    using assms by (simp_all add: nat_div_distrib nat_mod_distrib nat_power_eq)
  moreover have "\<not> m div 10 ^ k < 0" "\<not> m mod 10 ^ k < 0"
    using assms by (simp_all add: pos_imp_zdiv_nonneg_iff not_less)
  ultimately show ?thesis using assms
    by (simp add: fixed_point_def show_int_def sdiv_nonneg smod_nonneg)
qed

lemma length_frac: "0 < k \<Longrightarrow> length (pad_zero k (show_nat (n mod 10 ^ k))) = k"
proof -
  assume "0 < k"
  then obtain j where k: "k = Suc j" by (cases k) auto
  have "n mod 10 ^ k < 10 ^ Suc j" by (simp add: k)
  then have "length (show_nat (n mod 10 ^ k)) \<le> k" unfolding k by (rule length_show_nat)
  then show ?thesis by (rule length_pad)
qed

lemma fixed_point_digits:
  assumes "0 \<le> m" and "0 < k"
  shows "digits_val (filter is_digit (fixed_point k m)) = nat m"
proof -
  let ?w = "show_nat (nat m div 10 ^ k)" and ?f = "pad_zero k (show_nat (nat m mod 10 ^ k))"
  have "filter is_digit (fixed_point k m) = ?w @ ?f"
    using assms
    by (simp add: fixed_point_parts filter_digits_id pad_zero_all_digit is_digit_def [of "CHR ''.''"])
  then have "digits_val (filter is_digit (fixed_point k m)) = digits_val ?w * 10 ^ k + digits_val ?f"
    using length_frac [OF assms(2)] by (simp only: digits_val_append)
  then show ?thesis by (simp add: div_mult_mod_eq)
qed

lemma FormatMicroUSD_fixed:
  "m \<noteq> i64_min \<Longrightarrow> FormatMicroUSD m = (if m < 0 then ''-'' else '''') @ fixed_point 6 \<bar>m\<bar>"
  by (simp add: FormatMicroUSD_def fixed_point_def MicroPerUSD_def Let_def)

lemma FormatFen_fixed:
  "m \<noteq> i64_min \<Longrightarrow> FormatFen m = (if m < 0 then ''-'' else '''') @ fixed_point 2 \<bar>m\<bar>"
  by (simp add: FormatFen_def fixed_point_def FenPerRMB_def Let_def)

lemma hd_fixed_point: "0 \<le> m \<Longrightarrow> 0 < k \<Longrightarrow> hd (fixed_point k m) \<noteq> CHR ''-''"
proof -
  assume m: "0 \<le> m" "0 < k"
  obtain c t where c: "show_nat (nat m div 10 ^ k) = c # t" by (meson list.exhaust show_nat_nonempty)
  moreover have "is_digit c" using show_nat_all_digit [of "nat m div 10 ^ k"] c by simp
  ultimately show ?thesis using m by (auto simp: fixed_point_parts is_digit_def)
qed

text \<open>The digits and the sign of a formatted amount give the amount back, the least integer
  included, for which the code has a literal.\<close>

lemma FormatMicroUSD_value:
  "in_i64 m \<Longrightarrow> int (digits_val (filter is_digit (FormatMicroUSD m))) = \<bar>m\<bar>
    \<and> (hd (FormatMicroUSD m) = CHR ''-'' \<longleftrightarrow> m < 0)"
proof (cases "m = i64_min")
  case True
  have "digits_val (filter is_digit ''-9223372036854.775808'') = 9223372036854775808"
    by (simp add: digits_val_def is_digit_def digit_val_def)
  then show ?thesis by (simp add: True FormatMicroUSD_def) (simp add: i64_min_def)
next
  case False
  then show ?thesis using hd_fixed_point [of m 6] fixed_point_digits [of "\<bar>m\<bar>" 6]
    by (auto simp: FormatMicroUSD_fixed is_digit_def [of "CHR ''-''"])
qed

subsection \<open>Properties\<close>

text \<open>C30: The checked int64 addition and product return the exact result when it fits in an int64
  and report an overflow otherwise; a checked sum of amounts is the exact sum or an overflow.\<close>

theorem checked_arithmetic_exact:
  assumes "in_i64 a" and "in_i64 b" and "list_all (\<lambda>x. in_i64 x \<and> 0 \<le> x) xs"
  shows "CheckedMulInt64 a b = (if in_i64 (a * b) then Some (a * b) else None)
    \<and> CheckedAddInt64 a b = (if in_i64 (a + b) then Some (a + b) else None)
    \<and> CheckedSumInt64 xs = (if in_i64 (sum_list xs) then Some (sum_list xs) else None)"
proof -
  have "in_i64 0" by (simp add: i64_defs)
  then show ?thesis using assms checked_sum_from_nonneg [of 0 xs]
    by (simp add: CheckedMulInt64_eq CheckedAddInt64_eq CheckedSumInt64_def)
qed

theorem checked_arithmetic_exact_witness:
  "CheckedMulInt64 4294967296 4294967296 = None \<and> CheckedMulInt64 (-3) 7 = Some (-21)
    \<and> CheckedAddInt64 9223372036854775807 1 = None \<and> CheckedSumInt64 [1, 2, 3] = Some 6"
  using checked_arithmetic_exact [of 4294967296 4294967296 "[1, 2, 3]"]
    checked_arithmetic_exact [of "-3" 7 "[]"] checked_arithmetic_exact [of 9223372036854775807 1 "[]"]
  by (simp add: i64_defs)

text \<open>Amounts of at most 2^50 units survive the conversion to a float and back: showing a
  balance as dollars (or an order as yuan) and reading it again gives the same integer.\<close>

theorem money_float_roundtrip:
  assumes "\<bar>m\<bar> \<le> 2 ^ 50"
  shows "USDToMicro (MicroToUSD m) = Some m \<and> RMBToFen (FenToRMB m) = Some m"
  using assms scaled_roundtrip [of m 1000000] scaled_roundtrip [of m 100]
  by (simp add: USDToMicro_def MicroToUSD_def RMBToFen_def FenToRMB_def MicroPerUSD_def FenPerRMB_def)

theorem money_float_roundtrip_witness: "USDToMicro (MicroToUSD (-123456789012345)) = Some (-123456789012345)"
  using money_float_roundtrip [of "-123456789012345"] by simp

text \<open>A float accepted by the conversion to micro-dollars gives an in-range integer that is the
  rounding of the scaled float; not-a-number, the infinities and every product outside the
  int64 range are refused, never wrapped or saturated.\<close>

theorem USDToMicro_safe:
  shows "(USDToMicro f = Some m \<longrightarrow> in_i64 m
      \<and> math_Round (f64_mul f (f64_of_int MicroPerUSD)) = Fin (of_int m))
    \<and> USDToMicro NaN = None \<and> USDToMicro PInf = None \<and> USDToMicro NInf = None"
  using scaled_to_int64_range [of MicroPerUSD f m 1000000] f64_of_int_exact [of MicroPerUSD]
  by (auto simp: USDToMicro_def scaled_to_int64_def MicroPerUSD_def)

theorem USDToMicro_safe_witness: "USDToMicro (Fin 1) = Some 1000000 \<and> in_i64 1000000"
proof -
  have "USDToMicro (Fin 1) = Some 1000000"
    using scaled_roundtrip [of 1000000 1000000] f64_of_int_exact [of 1000000] fl_of_int [of 1]
    by (simp add: USDToMicro_def MicroPerUSD_def)
  then show ?thesis using USDToMicro_safe [of "Fin 1" 1000000] by simp
qed

text \<open>The printed form of a micro-dollar amount, read as digits with the point dropped, is the
  absolute value of the amount, for every int64 (the least one included), and a minus sign is
  printed for negative amounts only.\<close>

theorem FormatMicroUSD_faithful:
  assumes "in_i64 m"
  shows "int (digits_val (filter is_digit (FormatMicroUSD m))) = \<bar>m\<bar>
    \<and> (hd (FormatMicroUSD m) = CHR ''-'' \<longleftrightarrow> m < 0)"
  using assms by (rule FormatMicroUSD_value)

theorem FormatMicroUSD_faithful_witness:
  "int (digits_val (filter is_digit (FormatMicroUSD (-9223372036854775808)))) = 9223372036854775808"
  using FormatMicroUSD_faithful [of "-9223372036854775808"] by (simp add: i64_defs)

end
