(* ===== verification/SysConfig.thy ===== *)
theory SysConfig
  imports GoStr
begin

section \<open>The configuration cache and its readers\<close>

text \<open>
  \<^verbatim>\<open>proxy.SysConfigCache\<close> is a map from keys to decrypted values, read under a lock; a
  missing key reads as the empty string. The typed readers of
  \<^verbatim>\<open>controller/topup_money.go\<close> and the two engine switches of
  \<^verbatim>\<open>proxy/subscription_engine.go\<close> are modelled over such a map.
\<close>

type_synonym sysconfig = "string \<rightharpoonup> string"

definition sysConfigValue :: "sysconfig \<Rightarrow> string \<Rightarrow> string" where
  "sysConfigValue cfg key = (case cfg key of None \<Rightarrow> '''' | Some v \<Rightarrow> v)"

definition readStringConfig :: "sysconfig \<Rightarrow> string \<Rightarrow> string \<Rightarrow> string" where
  "readStringConfig cfg key d = (let v = TrimSpace (sysConfigValue cfg key) in if v = '''' then d else v)"

definition readBoolConfig :: "sysconfig \<Rightarrow> string \<Rightarrow> bool \<Rightarrow> bool" where
  "readBoolConfig cfg key d =
     (let v = readStringConfig cfg key '''' in
      if v = '''' then d
      else if ToLower v \<in> {''true'', ''1'', ''yes'', ''on''} then True
      else if ToLower v \<in> {''false'', ''0'', ''no'', ''off''} then False
      else d)"

definition readInt64Config :: "sysconfig \<Rightarrow> string \<Rightarrow> int64 \<Rightarrow> int64" where
  "readInt64Config cfg key d =
     (let v = readStringConfig cfg key '''' in
      if v = '''' then d
      else case ParseInt 64 v of None \<Rightarrow> d | Some i \<Rightarrow> i)"

definition readMicroUSDConfig :: "sysconfig \<Rightarrow> string \<Rightarrow> int64 \<Rightarrow> int64" where
  "readMicroUSDConfig cfg key d =
     (let v = readStringConfig cfg key '''' in
      if v = '''' then d
      else case ParseInt 64 v of None \<Rightarrow> d | Some micro \<Rightarrow> if micro < 0 then d else micro)"

definition safeExchangeRateRmbPerUsdMicros :: "sysconfig \<Rightarrow> int64" where
  "safeExchangeRateRmbPerUsdMicros cfg =
     (let rate = readInt64Config cfg ''exchange_rate_rmb_per_usd_micros'' 7200000 in
      if rate \<le> 0 then 7200000 else rate)"

definition engineFallbackToQuota :: "sysconfig \<Rightarrow> bool" where
  "engineFallbackToQuota cfg \<longleftrightarrow>
     TrimSpace (sysConfigValue cfg ''subscription_engine_fallback_to_quota'') \<noteq> ''false''"

lemma ParseInt_range: "ParseInt 64 s = Some i \<Longrightarrow> in_i64 i"
  by (auto simp: ParseInt_def ParseDigits_def Let_def i64_defs split: if_splits option.splits prod.splits)

lemma safeExchangeRate_pos:
  "0 < safeExchangeRateRmbPerUsdMicros cfg \<and> in_i64 (safeExchangeRateRmbPerUsdMicros cfg)"
proof -
  have d: "in_i64 7200000" by (simp add: i64_defs)
  have "in_i64 (readInt64Config cfg k 7200000)" for k
    using d by (simp add: readInt64Config_def Let_def ParseInt_range split: option.split)
  with d show ?thesis by (simp add: safeExchangeRateRmbPerUsdMicros_def Let_def)
qed

end
