(* ===== verification/TopupMoney.thy ===== *)
theory TopupMoney
  imports Money SysConfig
begin

section \<open>Top-up money helpers (\<^verbatim>\<open>controller/topup_money.go\<close>)\<close>

text \<open>
  The pure helpers of the recharge flow: order numbers, cleaning of references typed by an
  administrator, exchange of fen into micro-USD, strict parsing of RMB strings, the check of
  return paths and the proration of refunds. The time and the random bytes of an order number
  are parameters.
\<close>

definition generateOutTradeNo :: "nat \<Rightarrow> int64 \<Rightarrow> string \<Rightarrow> string" where
  "generateOutTradeNo userID unixMilli r = ''tp'' @ show_nat userID @ show_int unixMilli @ hex_encode r"

definition sanitizeExternalRef :: "string \<Rightarrow> string" where
  "sanitizeExternalRef s = (if s = '''' then '''' else take_runes 64 (drop_runes ctl_rune s))"

definition usdMicroFromFenAndRate :: "int64 \<Rightarrow> int64 \<Rightarrow> int64 option" where
  "usdMicroFromFenAndRate fen rate =
     (if fen \<le> 0 \<or> rate \<le> 0 then None
      else let product = fen * 10000000000; result = product sdiv rate in
        if \<not> in_i64 result \<or> result \<le> 0 then None else Some result)"

definition csvContains :: "string \<Rightarrow> string \<Rightarrow> bool" where
  "csvContains csv val = list_ex (\<lambda>s. TrimSpace s = val) (split_on (CHR '','') csv)"

text \<open>On a string that starts with one slash, \<^verbatim>\<open>url.Parse\<close> finds no scheme, host or user; it
  fails on control bytes and on malformed escapes of the path or the fragment.\<close>

definition url_path_error :: "string \<Rightarrow> bool" where
  "url_path_error s =
     (let (u, frag) = cut_at (CHR ''#'') s; (p, query) = cut_at (CHR ''?'') u in
      list_ex (\<lambda>c. byte c < 32 \<or> byte c = 127) u
      \<or> \<not> escapes_ok p \<or> (case frag of None \<Rightarrow> False | Some f \<Rightarrow> \<not> escapes_ok f))"

definition isSafeReturnPath :: "string \<Rightarrow> bool" where
  "isSafeReturnPath p =
     (let s = TrimSpace p in
      if s = '''' then False
      else if list_ex (\<lambda>c. c \<in> {CHR 0x0D, CHR 0x0A, CHR 0x09}) s then False
      else if prefix ''//'' s then False
      else if \<not> prefix ''/'' s then False
      else \<not> url_path_error s)"

fun pad_right_two :: "string \<Rightarrow> string" where
  "pad_right_two [] = ''00''"
| "pad_right_two [a] = [a, CHR ''0'']"
| "pad_right_two s = s"

definition parseRMBStringToFen :: "string \<Rightarrow> int64 option" where
  "parseRMBStringToFen s0 =
     (let s = TrimSpace s0 in
      if s = '''' \<or> prefix ''-'' s then None
      else let (intPart, frac) = cut_at (CHR ''.'') s;
               fracPart = (case frac of None \<Rightarrow> '''' | Some f \<Rightarrow> f) in
        if frac \<noteq> None \<and> CHR ''.'' \<in> set fracPart then None
        else if frac \<noteq> None \<and> fracPart = '''' then None
        else if intPart = '''' then None
        else if \<not> list_all is_digit intPart then None
        else if 2 < length fracPart then None
        else if \<not> list_all is_digit fracPart then None
        else ParseInt 64 (intPart @ pad_right_two fracPart))"

definition proratedTopupRefundMicro :: "int64 \<Rightarrow> int64 \<Rightarrow> int64 \<Rightarrow> int64 option" where
  "proratedTopupRefundMicro amountMicro moneyFen refundedFen =
     (if amountMicro \<le> 0 \<or> moneyFen \<le> 0 \<or> refundedFen < 0 \<or> moneyFen < refundedFen then None
      else if refundedFen = 0 then Some 0
      else if refundedFen = moneyFen then Some amountMicro
      else let numerator = amountMicro * refundedFen * 2 + moneyFen;
               denominator = moneyFen * 2;
               quotient = numerator sdiv denominator
           in if in_i64 quotient then Some quotient else None)"

subsection \<open>Refund proration\<close>

text \<open>The cumulative refund of \<open>r\<close> fen out of \<open>F\<close>, rounded half up.\<close>

definition prorate :: "int \<Rightarrow> int \<Rightarrow> int \<Rightarrow> int" where
  "prorate a F r = (2 * a * r + F) div (2 * F)"

lemma prorate_zero [simp]: "0 < F \<Longrightarrow> prorate a F 0 = 0"
  by (simp add: prorate_def)

lemma prorate_full [simp]: "0 < F \<Longrightarrow> prorate a F F = a"
proof -
  assume F: "0 < F"
  have "2 * a * F + F = F + a * (2 * F)" by simp
  then have "prorate a F F = a + F div (2 * F)"
    unfolding prorate_def using F by (simp only: div_mult_self3 mult_eq_0_iff) simp
  then show ?thesis using F by simp
qed

lemma prorate_mono: "0 \<le> a \<Longrightarrow> 0 < F \<Longrightarrow> r \<le> r' \<Longrightarrow> prorate a F r \<le> prorate a F r'"
  by (simp add: prorate_def zdiv_mono1 mult_left_mono)

lemma prorate_bounds: "0 \<le> a \<Longrightarrow> 0 < F \<Longrightarrow> 0 \<le> r \<Longrightarrow> r \<le> F \<Longrightarrow> 0 \<le> prorate a F r \<and> prorate a F r \<le> a"
  using prorate_mono [of a F 0 r] prorate_mono [of a F r F] by simp

lemma prorated_eq:
  assumes a: "0 < a" "in_i64 a" and F: "0 < F" and r: "0 \<le> r" "r \<le> F"
  shows "proratedTopupRefundMicro a F r = Some (prorate a F r)"
proof -
  have b: "0 \<le> prorate a F r" "prorate a F r \<le> a" using prorate_bounds [of a F r] a F r by auto
  have "(a * r * 2 + F) sdiv (F * 2) = prorate a F r"
    using a F r by (simp add: sdiv_nonneg prorate_def ac_simps)
  moreover have "in_i64 (prorate a F r)" using a(2) b by (simp add: i64_defs)
  ultimately show ?thesis using a F r by (auto simp: proratedTopupRefundMicro_def Let_def)
qed

lemma prorated_error:
  assumes F: "0 < F"
  shows "\<bar>2 * (prorate a F r * F - a * r)\<bar> \<le> F"
proof -
  have "(2 * a * r + F) = prorate a F r * (2 * F) + (2 * a * r + F) mod (2 * F)"
    unfolding prorate_def by (rule div_mult_mod_eq [symmetric])
  moreover have "0 \<le> (2 * a * r + F) mod (2 * F)" "(2 * a * r + F) mod (2 * F) < 2 * F"
    using F by simp_all
  ultimately show ?thesis by (simp add: abs_le_iff algebra_simps)
qed

text \<open>The amounts taken back by a run of partial refunds, each the difference of two targets.\<close>

fun refund_steps :: "int64 \<Rightarrow> int64 \<Rightarrow> int64 \<Rightarrow> int64 list \<Rightarrow> int64 list option" where
  "refund_steps amount money done [] = Some []"
| "refund_steps amount money done (x # xs) =
     (case (proratedTopupRefundMicro amount money done, proratedTopupRefundMicro amount money (done + x)) of
        (Some old, Some new) \<Rightarrow> map_option (\<lambda>ds. (new - old) # ds) (refund_steps amount money (done + x) xs)
      | _ \<Rightarrow> None)"

lemma refund_steps_sum:
  assumes a: "0 < a" "in_i64 a" and F: "0 < F" and "0 \<le> d" "list_all (\<lambda>x. 0 < x) xs" "d + sum_list xs \<le> F"
  shows "\<exists>ds. refund_steps a F d xs = Some ds \<and> list_all (\<lambda>x. 0 \<le> x) ds
    \<and> sum_list ds = prorate a F (d + sum_list xs) - prorate a F d"
  using assms(4-6)
proof (induction xs arbitrary: d)
  case Nil
  then show ?case by simp
next
  case (Cons x xs)
  have nn: "0 \<le> sum_list xs" using Cons.prems(2) by (induction xs) auto
  have x: "0 < x" "d + x \<le> F" using Cons.prems nn by auto
  obtain ds where ds: "refund_steps a F (d + x) xs = Some ds" "list_all (\<lambda>x. 0 \<le> x) ds"
    "sum_list ds = prorate a F (d + x + sum_list xs) - prorate a F (d + x)"
    using Cons.IH [of "d + x"] Cons.prems x by (auto simp: add.assoc)
  have p: "proratedTopupRefundMicro a F d = Some (prorate a F d)"
    "proratedTopupRefundMicro a F (d + x) = Some (prorate a F (d + x))"
    using Cons.prems x nn by (auto intro!: prorated_eq a F)
  have "prorate a F d \<le> prorate a F (d + x)" using x a F by (intro prorate_mono) auto
  with ds p show ?case by (simp add: add.assoc)
qed

subsection \<open>Exchange\<close>

lemma usdMicro_Some:
  assumes "usdMicroFromFenAndRate fen rate = Some m"
  shows "0 < m \<and> in_i64 m \<and> m * rate \<le> fen * 10000000000 \<and> fen * 10000000000 < (m + 1) * rate"
proof -
  have c: "0 < fen" "0 < rate" "m = fen * 10000000000 div rate" "in_i64 m" "0 < m"
    using assms by (auto simp: usdMicroFromFenAndRate_def Let_def sdiv_nonneg split: if_splits)
  have "fen * 10000000000 = m * rate + fen * 10000000000 mod rate"
    unfolding c(3) by (rule div_mult_mod_eq [symmetric])
  moreover have "0 \<le> fen * 10000000000 mod rate" "fen * 10000000000 mod rate < rate"
    using c(2) by simp_all
  ultimately have "m * rate \<le> fen * 10000000000" "fen * 10000000000 < m * rate + rate"
    by linarith+
  then show ?thesis using c(4,5) by (simp add: distrib_right)
qed

subsection \<open>Parsing and cleaning\<close>

lemma cut_at_split: "c \<notin> set a \<Longrightarrow> cut_at c (a @ c # b) = (a, Some b)"
  by (simp add: cut_at_def takeWhile_append dropWhile_append)

lemma parse_fixed_point:
  assumes fen: "0 \<le> fen" "in_i64 fen"
  shows "parseRMBStringToFen (fixed_point 2 fen) = Some fen"
proof -
  let ?w = "show_nat (nat fen div 10 ^ 2)" and ?f = "pad_zero 2 (show_nat (nat fen mod 10 ^ 2))"
  have fp: "fixed_point 2 fen = ?w @ CHR ''.'' # ?f" using fen by (simp add: fixed_point_parts)
  have w: "list_all is_digit ?w" "?w \<noteq> []" and f: "list_all is_digit ?f" "length ?f = 2"
    using length_frac [of 2 "nat fen"] by (simp_all add: pad_zero_all_digit)
  then obtain a b where ab: "?f = [a, b]" by (metis length_0_conv length_Suc_conv numeral_2_eq_2)
  have "TrimSpace (fixed_point 2 fen) = fixed_point 2 fen"
  proof (rule TrimSpace_printable)
    show "printable (hd (fixed_point 2 fen))"
      using w by (metis fp hd_append2 hd_in_set is_digit_printable list_all_iff)
    show "printable (last (fixed_point 2 fen))"
      using f(1) unfolding fp ab by (simp add: is_digit_printable)
  qed (simp add: fp)
  moreover have dot: "CHR ''.'' \<notin> set ?w" "CHR ''.'' \<notin> set ?f"
    using w f by (auto simp: list_all_iff is_digit_def)
  moreover have "\<not> prefix ''-'' (fixed_point 2 fen)"
    using hd_fixed_point [of fen 2] fen by (cases "fixed_point 2 fen") (auto simp del: fixed_point_parts)
  moreover have "ParseInt 64 (?w @ ?f) = Some fen"
  proof -
    have "digits_val (?w @ ?f) = nat fen div 10 ^ 2 * 10 ^ 2 + nat fen mod 10 ^ 2"
      using f(2) by (simp only: digits_val_append digits_val_show digits_val_pad)
    also have "\<dots> = nat fen" by (rule div_mult_mod_eq)
    finally have "int (digits_val (?w @ ?f)) = fen" using fen by simp
    moreover have "fen < 2 ^ (64 - 1)" using fen(2) by (simp add: i64_defs)
    ultimately show ?thesis using w f by (subst ParseInt_digits) auto
  qed
  moreover have "pad_right_two ?f = ?f" unfolding ab by simp
  moreover have "?f \<noteq> []" unfolding ab by simp
  ultimately show ?thesis using w f fp
    by (simp add: parseRMBStringToFen_def cut_at_split Let_def)
qed

lemma ctl_free: "list_all (\<lambda>r. \<not> ctl_rune r) (utf8_runes (sanitizeExternalRef s))"
  by (auto simp: sanitizeExternalRef_def utf8_runes_take utf8_runes_drop list_all_iff dest!: in_set_takeD)

lemma sanitize_length: "length (utf8_runes (sanitizeExternalRef s)) \<le> 64"
  by (simp add: sanitizeExternalRef_def utf8_runes_take)

lemma sanitize_concat: "s \<noteq> '''' \<Longrightarrow>
  sanitizeExternalRef s = concat (take 64 (filter (\<lambda>r. \<not> ctl_rune r) (utf8_runes s)))"
  by (auto simp: sanitizeExternalRef_def take_runes_def utf8_runes_drop) (simp add: drop_runes_def)

lemma sanitize_idem: "sanitizeExternalRef (sanitizeExternalRef s) = sanitizeExternalRef s"
proof (cases "s = '''' \<or> sanitizeExternalRef s = ''''")
  case False
  define R where "R = take 64 (filter (\<lambda>r. \<not> ctl_rune r) (utf8_runes s))"
  have U: "utf8_runes (sanitizeExternalRef s) = R"
    using False by (simp add: R_def sanitizeExternalRef_def utf8_runes_take utf8_runes_drop)
  have F: "filter (\<lambda>r. \<not> ctl_rune r) R = R"
    using ctl_free [of s] unfolding U list_all_iff by (rule filter_True)
  have T: "take 64 R = R" by (simp add: R_def)
  have "sanitizeExternalRef (sanitizeExternalRef s) = concat R"
    using sanitize_concat [of "sanitizeExternalRef s"] False unfolding U F T by blast
  also have "\<dots> = sanitizeExternalRef s"
    using sanitize_concat [of s] False unfolding R_def by simp
  finally show ?thesis .
qed (auto simp: sanitizeExternalRef_def)

subsection \<open>Properties\<close>

text \<open>Partial refunds lose nothing: when the fen refunded in any number of steps add up to the
  whole payment, the micro-dollars taken back, each step the difference of two rounded
  targets, are never negative and add up to exactly the credited amount.\<close>

theorem partial_refunds_exact:
  assumes "0 < amount" and "in_i64 amount" and "0 < money" and "list_all (\<lambda>x. 0 < x) xs"
    and "sum_list xs = money"
  shows "\<exists>ds. refund_steps amount money 0 xs = Some ds \<and> list_all (\<lambda>d. 0 \<le> d) ds \<and> sum_list ds = amount"
  using assms refund_steps_sum [of amount money 0 xs] by simp

theorem partial_refunds_exact_witness:
  "\<exists>ds. refund_steps 1000000 7 0 [3, 2, 2] = Some ds \<and> list_all (\<lambda>d. 0 \<le> d) ds \<and> sum_list ds = 1000000"
  using partial_refunds_exact [of 1000000 7 "[3, 2, 2]"] by (simp add: i64_defs)

text \<open>One refund target is the exact proportional amount rounded half up: it differs from
  \<open>amount * refunded / money\<close> by at most half a micro-dollar and lies between zero and the
  amount, and the computation succeeds for every valid order.\<close>

theorem refund_target_rounding:
  assumes "0 < amount" and "in_i64 amount" and "0 < money" and "0 \<le> refunded" and "refunded \<le> money"
  shows "\<exists>q. proratedTopupRefundMicro amount money refunded = Some q \<and> 0 \<le> q \<and> q \<le> amount
    \<and> \<bar>2 * (q * money - amount * refunded)\<bar> \<le> money"
  using assms prorated_eq prorate_bounds [of amount money refunded] prorated_error [of money amount refunded]
  by auto

theorem refund_target_rounding_witness:
  "\<exists>q. proratedTopupRefundMicro 10 4 1 = Some q \<and> 0 \<le> q \<and> q \<le> 10 \<and> \<bar>2 * (q * 4 - 10 * 1)\<bar> \<le> 4"
  using refund_target_rounding [of 10 4 1] by (simp add: i64_defs)

text \<open>C29: A payment amount printed in yuan with two decimals is parsed back to the same number of
  fen, for every non-negative int64.\<close>

theorem fen_print_parse:
  assumes "0 \<le> fen" and "in_i64 fen"
  shows "parseRMBStringToFen (FormatFen fen) = Some fen"
proof -
  have "fen \<noteq> i64_min" using assms(1) by (auto simp: i64_min_def)
  with assms parse_fixed_point [of fen] show ?thesis by (simp add: FormatFen_fixed)
qed

theorem fen_print_parse_witness: "parseRMBStringToFen (FormatFen 1234567) = Some 1234567"
  using fen_print_parse [of 1234567] by (simp add: i64_defs)

text \<open>The dollars bought by a payment are the quotient by the exchange rate rounded down, to
  the micro-dollar, and the configured rate is positive whatever is stored for it.\<close>

theorem exchange_rounds_down:
  shows "(usdMicroFromFenAndRate fen (safeExchangeRateRmbPerUsdMicros cfg) = Some m \<longrightarrow>
      0 < m \<and> in_i64 m \<and> m * safeExchangeRateRmbPerUsdMicros cfg \<le> fen * 10000000000
      \<and> fen * 10000000000 < (m + 1) * safeExchangeRateRmbPerUsdMicros cfg)
    \<and> 0 < safeExchangeRateRmbPerUsdMicros cfg"
  using usdMicro_Some safeExchangeRate_pos by blast

theorem exchange_rounds_down_witness:
  "usdMicroFromFenAndRate 10000 7200000 = Some 13888888
    \<and> 13888888 * 7200000 \<le> (100000000000000 :: int)"
proof -
  have r: "safeExchangeRateRmbPerUsdMicros Map.empty = 7200000"
    by code_simp
  have "usdMicroFromFenAndRate 10000 7200000 = Some 13888888"
    by (simp add: usdMicroFromFenAndRate_def sdiv_nonneg i64_defs)
  then show ?thesis using exchange_rounds_down [of 10000 Map.empty 13888888] unfolding r by simp
qed

text \<open>Cleaning an external reference drops control characters and keeps at most 64 runes, and
  cleaning twice is cleaning once.\<close>

theorem external_ref_clean:
  "list_all (\<lambda>r. \<not> ctl_rune r) (utf8_runes (sanitizeExternalRef s))
    \<and> length (utf8_runes (sanitizeExternalRef s)) \<le> 64
    \<and> sanitizeExternalRef (sanitizeExternalRef s) = sanitizeExternalRef s"
  using ctl_free sanitize_length sanitize_idem by blast

end
