(* ===== verification/TopupOrders.thy ===== *)
theory TopupOrders
  imports Ledger TopupMoney
begin

section \<open>Top-up orders (\<^verbatim>\<open>database/topup_schema.go\<close>, \<^verbatim>\<open>controller/topup_admin.go\<close>, \<^verbatim>\<open>controller/tx_helpers.go\<close>)\<close>

text \<open>
  The life of a recharge order in the database: created, marked failed, paid by a callback of
  the payment gateway or by an administrator, refunded in one or more parts, or canceled by the
  sweep of \<^verbatim>\<open>proxy/subscription_cron.go\<close> when it waited too long. Orders are a table
  in the order of their keys; an \<^verbatim>\<open>UPDATE ... WHERE\<close> is a map over the table. Handlers work on
  copies of orders they read earlier, so the operations take such a copy. A violated unique
  index is a result of the insert. Responses are a status and a message code. The SHA-256 of
  the receipts, addresses of clients and texts for display are left out.
\<close>

type_synonym response = "int \<times> string"

subsection \<open>Statements\<close>

definition update_orders :: "(topup_order \<Rightarrow> bool) \<Rightarrow> (topup_order \<Rightarrow> topup_order) \<Rightarrow> nat tx" where
  "update_orders c f = stmt (\<lambda>t. (length (filter c (topup_orders t)),
     t \<lparr> topup_orders := map (\<lambda>r. if c r then f r else r) (topup_orders t) \<rparr>))"

definition first_order :: "(topup_order \<Rightarrow> bool) \<Rightarrow> topup_order tx" where
  "first_order c = query_first (\<lambda>t. find c (topup_orders t))"

text \<open>On SQLite the lock is an update that changes nothing; it fails when the user is missing.\<close>

definition lockUserForUpdate :: "nat \<Rightarrow> unit tx" where
  "lockUserForUpdate uid =
     tx_bind (stmt (\<lambda>t. (users t uid = None, t))) (\<lambda>missing.
       if missing then tx_throw (Rejected ''user not found'') else tx_return ())"

text \<open>Inserting a receipt; the result says whether the unique index of provider and nonce is hit.\<close>

definition receipt_used :: "string \<Rightarrow> string \<Rightarrow> tables \<Rightarrow> bool" where
  "receipt_used p n t \<longleftrightarrow> list_ex (\<lambda>r. wr_Provider r = p \<and> wr_Nonce r = n) (receipts t)"

definition insert_receipt :: "webhook_receipt \<Rightarrow> bool tx" where
  "insert_receipt r = stmt (\<lambda>t.
     if receipt_used (wr_Provider r) (wr_Nonce r) t then (True, t)
     else (False, t \<lparr> receipts := receipts t @ [r] \<rparr>))"

definition LogOperationByTxReturning :: "nat \<Rightarrow> nat \<Rightarrow> string \<Rightarrow> string \<Rightarrow> nat tx" where
  "LogOperationByTxReturning operatorID targetUserID operatorRole actionType =
     stmt (\<lambda>t. (Suc (length (operation_logs t)), t \<lparr> operation_logs := operation_logs t @
       [\<lparr> ol_TargetUserID = targetUserID, ol_OperatorID = operatorID, ol_OperatorRole = operatorRole,
          ol_ActionType = actionType \<rparr>] \<rparr>))"

definition LogOperationByTx :: "nat \<Rightarrow> nat \<Rightarrow> string \<Rightarrow> string \<Rightarrow> unit tx" where
  "LogOperationByTx operatorID targetUserID operatorRole actionType =
     tx_bind (LogOperationByTxReturning operatorID targetUserID operatorRole actionType) (\<lambda>_. tx_return ())"

subsection \<open>Creating an order (\<^verbatim>\<open>CreateTopup\<close>)\<close>

text \<open>The row; the unique index on the order number fails the insert.\<close>

definition new_order :: "nat \<Rightarrow> string \<Rightarrow> string \<Rightarrow> nat \<Rightarrow> string \<Rightarrow> int64 \<Rightarrow> int64 \<Rightarrow> int64 \<Rightarrow> nanos \<Rightarrow> topup_order" where
  "new_order oid provider outTradeNo uid payType fen micro rate now =
     \<lparr> to_ID = oid, to_Provider = provider, to_OutTradeNo = outTradeNo, to_TradeNo = '''', to_UserID = uid,
       to_PayType = payType, to_MoneyRMB = fen, to_AmountUSD = micro, to_ExchangeRateRmbPerUsdMicros = rate,
       to_GatewayPayType = '''', to_PayInfo = '''', to_Status = ''created'', to_RefundedAmountRMB = 0,
       to_RefundNo = '''', to_PaidAt = None, to_CreatedAt = now \<rparr>"

definition insert_order :: "string \<Rightarrow> string \<Rightarrow> nat \<Rightarrow> string \<Rightarrow> int64 \<Rightarrow> int64 \<Rightarrow> int64 \<Rightarrow> nanos \<Rightarrow> topup_order option tx" where
  "insert_order provider outTradeNo uid payType fen micro rate now =
     stmt (\<lambda>t. if list_ex (\<lambda>r. to_OutTradeNo r = outTradeNo) (topup_orders t) then (None, t)
       else let r = new_order (Suc (length (topup_orders t))) provider outTradeNo uid payType fen micro rate now
            in (Some r, t \<lparr> topup_orders := topup_orders t @ [r] \<rparr>))"

text \<open>Marking the order failed, and storing what the gateway answered, address the row by its key
  alone.\<close>

definition mark_failed :: "topup_order \<Rightarrow> nat tx" where
  "mark_failed ord = update_orders (\<lambda>r. to_ID r = to_ID ord) (\<lambda>r. r \<lparr> to_Status := ''failed'' \<rparr>)"

definition persist_gateway :: "topup_order \<Rightarrow> string \<Rightarrow> string \<Rightarrow> string \<Rightarrow> nat tx" where
  "persist_gateway ord tradeNo gatewayPayType payInfo =
     update_orders (\<lambda>r. to_ID r = to_ID ord)
       (\<lambda>r. r \<lparr> to_TradeNo := tradeNo, to_GatewayPayType := gatewayPayType, to_PayInfo := payInfo \<rparr>)"

subsection \<open>Orders nobody pays (\<^verbatim>\<open>proxy/subscription_cron.go\<close>)\<close>

text \<open>Every minute the orders older than the configured time are canceled. A failed statement is
  only logged.\<close>

definition readTopupExpireMinutes :: "sysconfig \<Rightarrow> int64" where
  "readTopupExpireMinutes cfg =
     (case ParseInt 64 (TrimSpace (sysConfigValue cfg ''topup_order_expire_minutes'')) of
        None \<Rightarrow> 30 | Some n \<Rightarrow> if n < 5 then 30 else n)"

text \<open>The cutoff is computed on durations of 64 bits, so an enormous setting wraps around.\<close>

definition expire_cutoff :: "sysconfig \<Rightarrow> nanos \<Rightarrow> nanos" where
  "expire_cutoff cfg now = now + wrap64 (- readTopupExpireMinutes cfg * 60000000000)"

definition expireStaleTopupOrders :: "sysconfig \<Rightarrow> nanos \<Rightarrow> unit tx" where
  "expireStaleTopupOrders cfg now =
     tx_bind (try_tx (update_orders (\<lambda>r. to_Status r = ''created'' \<and> to_CreatedAt r < expire_cutoff cfg now)
       (\<lambda>r. r \<lparr> to_Status := ''canceled'' \<rparr>))) (\<lambda>_. tx_return ())"

subsection \<open>Crediting an order\<close>

definition add_quota :: "nat \<Rightarrow> int64 \<Rightarrow> nat tx" where
  "add_quota uid a = stmt (update_user_if uid (\<lambda>_. True)
     (\<lambda>u. u \<lparr> u_Quota := u_Quota u + a, u_PaidQuota := u_PaidQuota u + a \<rparr>))"

definition topup_entry :: "nanos \<Rightarrow> nat \<Rightarrow> int64 \<Rightarrow> int64 \<Rightarrow> nat \<Rightarrow> string \<Rightarrow> int64 \<Rightarrow> billing_entry" where
  "topup_entry now uid amount balance oid currency original =
     blank_entry \<lparr> be_UserID := uid, be_OccurredAt := now, be_EntryType := ''topup'', be_AmountUSD := amount,
       be_BalanceAfterUSD := balance, be_RelatedType := ''topup_order'', be_RelatedID := oid,
       be_CurrencyOriginal := currency, be_AmountOriginal := original \<rparr>"

text \<open>What both ways of crediting share: the balance, the paid-in floor and the ledger entry.\<close>

definition credit_order :: "nanos \<Rightarrow> topup_order \<Rightarrow> string \<Rightarrow> int64 \<Rightarrow> unit tx" where
  "credit_order now ord currency original =
     tx_bind (add_quota (to_UserID ord) (to_AmountUSD ord)) (\<lambda>_.
       tx_bind (query_first (\<lambda>t. users t (to_UserID ord))) (\<lambda>fresh.
         WriteBillingEntry now (topup_entry now (to_UserID ord) (to_AmountUSD ord) (u_Quota fresh)
           (to_ID ord) currency original)))"

record webhook_event =
  we_Kind :: string
  we_OutTradeNo :: string
  we_ExternalTradeNo :: string
  we_Nonce :: string
  we_AmountKind :: string
  we_AmountRaw :: int64
  we_CurrencyOriginal :: string

definition webhookCurrencyOriginal :: "string \<Rightarrow> string" where
  "webhookCurrencyOriginal kind =
     (if kind = ''fen_cny'' then ''CNY'' else if kind = ''micro_usd'' then ''USDT'' else '''')"

definition errTopupDuplicate :: db_error where
  "errTopupDuplicate = Rejected ''topup notify duplicate''"

definition pay_row :: "nanos \<Rightarrow> string \<Rightarrow> topup_order \<Rightarrow> topup_order" where
  "pay_row now tradeNo r = r \<lparr> to_Status := ''paid'', to_TradeNo := tradeNo, to_PaidAt := Some now \<rparr>"

definition finalizePaidTopupTransaction :: "nanos \<Rightarrow> topup_order \<Rightarrow> webhook_event \<Rightarrow> unit tx" where
  "finalizePaidTopupTransaction now ord ev = transaction
     (tx_bind (update_orders (\<lambda>r. to_OutTradeNo r = we_OutTradeNo ev \<and> to_Status r = ''created'')
         (pay_row now (take 128 (we_ExternalTradeNo ev)))) (\<lambda>n.
       if n = 0 then tx_throw errTopupDuplicate
       else credit_order now ord
         (if we_CurrencyOriginal ev = '''' then webhookCurrencyOriginal (we_AmountKind ev) else we_CurrencyOriginal ev)
         (we_AmountRaw ev)))"

subsection \<open>An administrator marks an order paid (\<^verbatim>\<open>AdminMarkTopupPaid\<close>)\<close>

definition errAdminMarkRaced :: db_error where
  "errAdminMarkRaced = Rejected ''topup order state changed during manual mark''"

definition errManualPaidRefDuplicate :: db_error where
  "errManualPaidRefDuplicate = Rejected ''manual paid reference already used''"

definition manual_currency :: "topup_order \<Rightarrow> string \<times> int64" where
  "manual_currency r = (if to_Provider r = ''epusdt'' then (''USDT'', to_AmountUSD r) else (''CNY'', to_MoneyRMB r))"

definition mark_paid_body :: "nanos \<Rightarrow> nat \<Rightarrow> topup_order \<Rightarrow> string \<Rightarrow> unit tx" where
  "mark_paid_body now opID ord externalRef =
     tx_bind (lockUserForUpdate (to_UserID ord)) (\<lambda>_.
       tx_bind (first_order (\<lambda>r. to_ID r = to_ID ord)) (\<lambda>fresh.
         if to_Status fresh \<noteq> ''created'' then tx_throw errAdminMarkRaced
         else tx_bind (insert_receipt \<lparr> wr_Provider = ''manual_paid'', wr_Nonce = externalRef,
             wr_OutTradeNo = to_OutTradeNo fresh, wr_Status = ''accepted_manual'' \<rparr>) (\<lambda>dup.
           if dup then tx_throw errManualPaidRefDuplicate
           else tx_bind (update_orders (\<lambda>r. to_ID r = to_ID fresh \<and> to_Status r = ''created'')
               (pay_row now externalRef)) (\<lambda>n.
             if n = 0 then tx_throw errAdminMarkRaced
             else tx_bind (credit_order now fresh (fst (manual_currency fresh)) (snd (manual_currency fresh))) (\<lambda>_.
               LogOperationByTx opID (to_UserID fresh) ''admin'' ''TOPUP_MANUAL_MARK_PAID'')))))"

text \<open>The checks of the request: the key in the path, the body, the reference and the reason.\<close>

definition IsControl :: "string \<Rightarrow> bool" where
  "IsControl r \<longleftrightarrow> ctl_rune r \<or> (length r = 2 \<and> byte (hd r) = 0xC2 \<and> byte (r ! 1) < 0xA0)"

definition validateAdminReason :: "string \<Rightarrow> string option" where
  "validateAdminReason reason =
     (if 500 < length (utf8_runes reason) then Some ''ERR_REASON_TOO_LONG''
      else if list_ex IsControl (utf8_runes reason) then Some ''ERR_REASON_CTRL_CHAR'' else None)"

definition path_id :: "string \<Rightarrow> nat option" where
  "path_id s = (case ParseInt 64 s of None \<Rightarrow> None | Some i \<Rightarrow> if i \<le> 0 then None else Some (nat i))"

text \<open>The external reference and the reason of a parsed body.\<close>

record mark_paid_request =
  mp_ExternalTradeRef :: string
  mp_Reason :: string

definition check_mark_paid ::
  "nat option \<Rightarrow> string \<Rightarrow> mark_paid_request option \<Rightarrow> response + (nat \<times> nat \<times> string)" where
  "check_mark_paid opID idParam body =
     (case opID of None \<Rightarrow> Inl (401, ''ERR_NO_AUTH'')
      | Some op \<Rightarrow>
     (case path_id idParam of None \<Rightarrow> Inl (400, ''ERR_INVALID_PARAMS'')
      | Some i \<Rightarrow>
     (case body of None \<Rightarrow> Inl (400, ''ERR_BAD_REQUEST'')
      | Some req \<Rightarrow>
       (let externalRef = sanitizeExternalRef (TrimSpace (mp_ExternalTradeRef req)) in
        if externalRef = '''' then Inl (400, ''ERR_EXTERNAL_REF_REQUIRED'')
        else case validateAdminReason (TrimSpace (mp_Reason req)) of
            Some code \<Rightarrow> Inl (400, code)
          | None \<Rightarrow> Inr (op, i, externalRef)))))"

definition mark_paid_response :: "(db_error + unit) \<Rightarrow> response" where
  "mark_paid_response r = (case r of Inr _ \<Rightarrow> (200, ''SUCCESS_TOPUP_MANUAL_PAID'')
     | Inl e \<Rightarrow> if e = errAdminMarkRaced then (409, ''ERR_TOPUP_NOT_PENDING'')
         else if e = errManualPaidRefDuplicate then (409, ''ERR_TOPUP_MANUAL_REF_DUPLICATE'')
         else (500, ''ERR_DB_TRANSACTION''))"

definition attempt :: "'a tx \<Rightarrow> (db_error + 'a) tx" where
  "attempt m = tx_catch (tx_bind m (\<lambda>a. tx_return (Inr a))) (\<lambda>e. tx_return (Inl e))"

definition AdminMarkTopupPaid ::
  "nanos \<Rightarrow> nat option \<Rightarrow> string \<Rightarrow> mark_paid_request option \<Rightarrow> response tx" where
  "AdminMarkTopupPaid now opID idParam body =
     (case check_mark_paid opID idParam body of
        Inl resp \<Rightarrow> tx_return resp
      | Inr (op, i, externalRef) \<Rightarrow>
          tx_bind (attempt (first_order (\<lambda>r. to_ID r = i))) (\<lambda>found.
            case found of
              Inl _ \<Rightarrow> tx_return (404, ''ERR_NOT_FOUND'')
            | Inr ord \<Rightarrow>
                if to_Status ord \<noteq> ''created'' then tx_return (409, ''ERR_TOPUP_NOT_PENDING'')
                else tx_bind (attempt (transaction (mark_paid_body now op ord externalRef))) (\<lambda>r.
                  tx_return (mark_paid_response r))))"

subsection \<open>Refunding an order (\<^verbatim>\<open>AdminRefundTopup\<close>)\<close>

definition errRefundAmountInvalid :: db_error where
  "errRefundAmountInvalid = Rejected ''refund amount invalid in fresh tx''"

definition errRefundRefDuplicate :: db_error where
  "errRefundRefDuplicate = Rejected ''external_refund_ref already used''"

definition errReclaimBlocked :: db_error where
  "errReclaimBlocked = Rejected ''reclaim blocked by unrefunded subscriptions''"

definition refund_ref_used :: "string \<Rightarrow> tables \<Rightarrow> bool" where
  "refund_ref_used ref t \<longleftrightarrow> list_ex (\<lambda>r. tr_ExternalRefundRef r = ref) (refunds t)"

text \<open>A subscription the user paid for and that was not refunded; granted ones do not count.\<close>

definition unrefunded_sub :: "nat \<Rightarrow> tables \<Rightarrow> bool" where
  "unrefunded_sub uid t \<longleftrightarrow>
     (\<exists>s \<in> ran (subscriptions t). sub_UserID s = uid \<and> sub_Status s \<noteq> ''refunded'' \<and> \<not> sub_IsGranted s)"

text \<open>How much this refund is, in fen and in micro-dollars, from the order as it is now.\<close>

definition refund_amounts :: "topup_order \<Rightarrow> int64 \<Rightarrow> db_error + (int64 \<times> int64)" where
  "refund_amounts fresh requestedFen =
     (let remainingFen = to_MoneyRMB fresh - to_RefundedAmountRMB fresh;
          refundFen = (if 0 < requestedFen then requestedFen else remainingFen)
      in if refundFen \<le> 0 \<or> remainingFen < refundFen then Inl errRefundAmountInvalid
         else let newRefundedFen = to_RefundedAmountRMB fresh + refundFen in
           if to_MoneyRMB fresh < newRefundedFen then Inl errAdminMarkRaced
           else case proratedTopupRefundMicro (to_AmountUSD fresh) (to_MoneyRMB fresh) (to_RefundedAmountRMB fresh) of
               None \<Rightarrow> Inl errRefundAmountInvalid
             | Some prev \<Rightarrow>
           (case proratedTopupRefundMicro (to_AmountUSD fresh) (to_MoneyRMB fresh) newRefundedFen of
               None \<Rightarrow> Inl errRefundAmountInvalid
             | Some new \<Rightarrow> if new < prev then Inl errRefundAmountInvalid else Inr (refundFen, new - prev)))"

definition refund_row :: "int64 \<Rightarrow> string \<Rightarrow> topup_order \<Rightarrow> topup_order" where
  "refund_row newRefundedFen ref r = r \<lparr> to_RefundedAmountRMB := newRefundedFen,
     to_Status := (if newRefundedFen = to_MoneyRMB r then ''refunded'' else ''paid''), to_RefundNo := ref \<rparr>"

text \<open>The paid-in floor falls by the refunded amount, not below zero; the balance only when the
  quota is reclaimed, and then it may become negative.\<close>

definition reclassify :: "nat \<Rightarrow> int64 \<Rightarrow> bool \<Rightarrow> nat tx" where
  "reclassify uid usd reclaim = stmt (update_user_if uid (\<lambda>_. True) (\<lambda>u. u
     \<lparr> u_PaidQuota := (if usd \<le> u_PaidQuota u then u_PaidQuota u - usd else 0),
       u_Quota := (if reclaim then u_Quota u - usd else u_Quota u) \<rparr>))"

definition refund_entry :: "nanos \<Rightarrow> nat \<Rightarrow> int64 \<Rightarrow> int64 \<Rightarrow> nat \<Rightarrow> int64 \<Rightarrow> billing_entry" where
  "refund_entry now uid amount balance oid fen =
     blank_entry \<lparr> be_UserID := uid, be_OccurredAt := now, be_EntryType := ''refund_topup'', be_AmountUSD := amount,
       be_BalanceAfterUSD := balance, be_RelatedType := ''topup_order'', be_RelatedID := oid,
       be_CurrencyOriginal := ''CNY'', be_AmountOriginal := - fen \<rparr>"

definition insert_refund :: "topup_refund \<Rightarrow> bool tx" where
  "insert_refund r = stmt (\<lambda>t. if refund_ref_used (tr_ExternalRefundRef r) t then (True, t)
     else (False, t \<lparr> refunds := refunds t @ [r] \<rparr>))"

definition book_refund :: "nanos \<Rightarrow> nat \<Rightarrow> topup_order \<Rightarrow> int64 \<Rightarrow> int64 \<Rightarrow> bool \<Rightarrow> string \<Rightarrow> unit tx" where
  "book_refund now opID ord fen usd reclaim ref =
     tx_bind (reclassify (to_UserID ord) usd reclaim) (\<lambda>_.
       tx_bind (query_first (\<lambda>t. users t (to_UserID ord))) (\<lambda>fresh.
         tx_bind (WriteBillingEntry now (refund_entry now (to_UserID ord) (if reclaim then - usd else 0)
             (u_Quota fresh) (to_ID ord) fen)) (\<lambda>_.
           tx_bind (insert_refund \<lparr> tr_TopupOrderID = to_ID ord, tr_ExternalRefundRef = ref, tr_AmountFen = fen,
               tr_AmountMicroUSD = usd, tr_ReclaimQuota = reclaim, tr_OperatorID = opID \<rparr>) (\<lambda>dup.
             if dup then tx_throw errRefundRefDuplicate
             else LogOperationByTx opID (to_UserID ord) ''admin'' ''REFUND_TOPUP''))))"

definition refund_body :: "nanos \<Rightarrow> nat \<Rightarrow> topup_order \<Rightarrow> int64 \<Rightarrow> bool \<Rightarrow> string \<Rightarrow> (int64 \<times> int64) tx" where
  "refund_body now opID ord requestedFen reclaim ref =
     tx_bind (lockUserForUpdate (to_UserID ord)) (\<lambda>_.
       tx_bind (stmt (\<lambda>t. (refund_ref_used ref t, t))) (\<lambda>used.
         if used then tx_throw errRefundRefDuplicate
         else tx_bind (if reclaim then stmt (\<lambda>t. (unrefunded_sub (to_UserID ord) t, t)) else tx_return False) (\<lambda>blocked.
           if blocked then tx_throw errReclaimBlocked
           else tx_bind (first_order (\<lambda>r. to_ID r = to_ID ord)) (\<lambda>fresh.
             case refund_amounts fresh requestedFen of
               Inl e \<Rightarrow> tx_throw e
             | Inr (fen, usd) \<Rightarrow>
                 tx_bind (update_orders (\<lambda>r. to_ID r = to_ID ord \<and> to_Status r = ''paid''
                       \<and> to_RefundedAmountRMB r = to_RefundedAmountRMB fresh)
                     (refund_row (to_RefundedAmountRMB fresh + fen) ref)) (\<lambda>n.
                   if n = 0 then tx_throw errAdminMarkRaced
                   else tx_bind (book_refund now opID ord fen usd reclaim ref) (\<lambda>_. tx_return (fen, usd)))))))"

record refund_request =
  rq_MoneyFen :: int64
  rq_ReclaimQuota :: bool
  rq_ExternalRefundRef :: string

definition refund_response :: "(db_error + (int64 \<times> int64)) \<Rightarrow> response" where
  "refund_response r = (case r of Inr _ \<Rightarrow> (200, ''SUCCESS_REFUNDED'')
     | Inl e \<Rightarrow> if e = errAdminMarkRaced then (409, ''ERR_REFUND_RACED'')
         else if e = errRefundRefDuplicate then (409, ''ERR_REFUND_REF_DUPLICATED'')
         else if e = errRefundAmountInvalid then (400, ''ERR_REFUND_AMOUNT_INVALID'')
         else if e = errReclaimBlocked then (409, ''ERR_USER_HAS_UNREFUNDED_SUBSCRIPTIONS'')
         else (500, ''ERR_DB_TRANSACTION''))"

definition refund_checked :: "nanos \<Rightarrow> nat \<Rightarrow> topup_order \<Rightarrow> refund_request option \<Rightarrow> response tx" where
  "refund_checked now op ord body =
     (if to_Status ord \<noteq> ''paid'' then tx_return (400, ''ERR_NOT_PAID'')
      else case body of None \<Rightarrow> tx_return (400, ''ERR_BAD_REQUEST'')
      | Some req \<Rightarrow>
        (let ref = sanitizeExternalRef (TrimSpace (rq_ExternalRefundRef req)) in
         if ref = '''' then tx_return (400, ''ERR_EXTERNAL_REF_REQUIRED'')
         else if rq_MoneyFen req < 0 then tx_return (400, ''ERR_REFUND_AMOUNT_INVALID'')
         else tx_bind (attempt (transaction (refund_body now op ord (rq_MoneyFen req) (rq_ReclaimQuota req) ref)))
                (\<lambda>r. tx_return (refund_response r))))"

definition AdminRefundTopup ::
  "nanos \<Rightarrow> nat option \<Rightarrow> string \<Rightarrow> refund_request option \<Rightarrow> response tx" where
  "AdminRefundTopup now opID idParam body =
     (case opID of None \<Rightarrow> tx_return (401, ''ERR_NO_AUTH'')
      | Some op \<Rightarrow>
     (case path_id idParam of None \<Rightarrow> tx_return (400, ''ERR_INVALID_PARAMS'')
      | Some i \<Rightarrow>
          tx_bind (attempt (first_order (\<lambda>r. to_ID r = i))) (\<lambda>found.
            case found of
              Inl _ \<Rightarrow> tx_return (404, ''ERR_NOT_FOUND'')
            | Inr ord \<Rightarrow> refund_checked now op ord body)))"

subsection \<open>Payments outside the platform (\<^verbatim>\<open>AdminCreateOfflineTopup\<close> of \<^verbatim>\<open>controller/user.go\<close>)\<close>

definition MaxAdminQuotaUSD :: rat where
  "MaxAdminQuotaUSD = 1000000000"

definition validateAdminQuotaInput :: "f64 \<Rightarrow> bool" where
  "validateAdminQuotaInput v = (case v of Fin x \<Rightarrow> \<bar>x\<bar> \<le> MaxAdminQuotaUSD | _ \<Rightarrow> False)"

definition normalizeOfflineTopupMethod :: "string \<Rightarrow> string option" where
  "normalizeOfflineTopupMethod method =
     (let m0 = ToLower (TrimSpace method); m = (if m0 = '''' then ''wechat'' else m0) in
      if m \<in> {''wechat'', ''alipay'', ''bank'', ''paypal'', ''other''} then Some m else None)"

record offline_request =
  of_AmountUSD :: f64
  of_MoneyFen :: int64
  of_CurrencyOriginal :: string
  of_PaymentMethod :: string
  of_ExternalTradeRef :: string
  of_Reason :: string

definition offline_currency :: "string \<Rightarrow> string" where
  "offline_currency s = (let c = ToUpper (TrimSpace s) in if c = '''' \<or> c = ''RMB'' then ''CNY'' else c)"

text \<open>The checked amount, currency and reference of a request.\<close>

definition check_offline :: "offline_request \<Rightarrow> response + (int64 \<times> string \<times> string)" where
  "check_offline req =
     (case (if validateAdminQuotaInput (of_AmountUSD req) \<and> \<not> f64_le (of_AmountUSD req) (Fin 0)
            then USDToMicro (of_AmountUSD req) else None) of
        None \<Rightarrow> Inl (400, ''ERR_OFFLINE_TOPUP_AMOUNT_REQUIRED'')
      | Some micro \<Rightarrow>
        (let currency = offline_currency (of_CurrencyOriginal req) in
         if micro \<le> 0 then Inl (400, ''ERR_OFFLINE_TOPUP_AMOUNT_REQUIRED'')
         else if currency \<noteq> ''CNY'' \<and> currency \<noteq> ''USD'' then Inl (400, ''ERR_CURRENCY_INVALID'')
         else if currency = ''CNY'' \<and> of_MoneyFen req \<le> 0 \<or> of_MoneyFen req < 0
              then Inl (400, ''ERR_OFFLINE_TOPUP_ORIGINAL_AMOUNT_REQUIRED'')
         else if normalizeOfflineTopupMethod (of_PaymentMethod req) = None
              then Inl (400, ''ERR_PAYMENT_METHOD_INVALID'')
         else let ref = sanitizeExternalRef (TrimSpace (of_ExternalTradeRef req)) in
           if ref = '''' then Inl (400, ''ERR_EXTERNAL_REF_REQUIRED'')
           else case validateAdminReason (TrimSpace (of_Reason req)) of
               Some code \<Rightarrow> Inl (400, code) | None \<Rightarrow> Inr (micro, currency, ref)))"

definition errPriceOverflow :: db_error where
  "errPriceOverflow = Rejected ''price * qty overflow int64''"

definition errOfflineTopupTarget :: db_error where
  "errOfflineTopupTarget = Rejected ''offline topup target must be normal user''"

definition errOfflineTopupDuplicate :: db_error where
  "errOfflineTopupDuplicate = Rejected ''offline topup payment reference already used''"

definition offline_entry :: "nanos \<Rightarrow> nat \<Rightarrow> int64 \<Rightarrow> int64 \<Rightarrow> nat \<Rightarrow> string \<Rightarrow> int64 \<Rightarrow> billing_entry" where
  "offline_entry now uid amount balance logID currency original =
     blank_entry \<lparr> be_UserID := uid, be_OccurredAt := now, be_EntryType := ''topup'', be_AmountUSD := amount,
       be_BalanceAfterUSD := balance, be_RelatedType := ''operation_log'', be_RelatedID := logID,
       be_CurrencyOriginal := currency, be_AmountOriginal := original \<rparr>"

text \<open>The new balance and floor are computed here and written as values.\<close>

definition offline_body ::
  "nanos \<Rightarrow> nat \<Rightarrow> nat \<Rightarrow> offline_request \<Rightarrow> int64 \<Rightarrow> string \<Rightarrow> string \<Rightarrow> unit tx" where
  "offline_body now opID uid req micro currency ref =
     tx_bind (lockUserForUpdate uid) (\<lambda>_.
       tx_bind (query_first (\<lambda>t. users t uid)) (\<lambda>target.
         if u_Role target \<noteq> ''user'' then tx_throw errOfflineTopupTarget
         else case (CheckedAddInt64 (u_Quota target) micro, CheckedAddInt64 (u_PaidQuota target) micro) of
             (Some nextQuota, Some nextPaidQuota) \<Rightarrow>
               tx_bind (insert_receipt \<lparr> wr_Provider = ''manual_paid'', wr_Nonce = ref,
                   wr_OutTradeNo = ''off:u'' @ show_nat uid @ '':'' @ show_int now, wr_Status = ''accepted_manual'' \<rparr>) (\<lambda>dup.
                 if dup then tx_throw errOfflineTopupDuplicate
                 else tx_bind (stmt (update_user_if uid (\<lambda>_. True)
                     (\<lambda>u. u \<lparr> u_Quota := nextQuota, u_PaidQuota := nextPaidQuota \<rparr>))) (\<lambda>_.
                   tx_bind (LogOperationByTxReturning opID uid ''admin'' ''OFFLINE_TOPUP'') (\<lambda>logID.
                     WriteBillingEntry now (offline_entry now uid micro nextQuota logID currency
                       (if currency = ''CNY'' then of_MoneyFen req else micro)))))
           | _ \<Rightarrow> tx_throw errPriceOverflow))"

definition offline_response :: "(db_error + unit) \<Rightarrow> response" where
  "offline_response r = (case r of Inr _ \<Rightarrow> (200, ''SUCCESS_OFFLINE_TOPUP_RECORDED'')
     | Inl e \<Rightarrow> if e = errOfflineTopupDuplicate then (409, ''ERR_OFFLINE_TOPUP_REF_DUPLICATE'')
         else if e = errOfflineTopupTarget then (400, ''ERR_TARGET_NOT_USER'')
         else if e = errPriceOverflow then (400, ''ERR_PRICE_OVERFLOW'')
         else (500, ''ERR_DB_TRANSACTION''))"

definition AdminCreateOfflineTopup ::
  "nanos \<Rightarrow> nat option \<Rightarrow> string \<Rightarrow> offline_request option \<Rightarrow> response tx" where
  "AdminCreateOfflineTopup now opID idParam body =
     (case opID of None \<Rightarrow> tx_return (401, ''ERR_NO_AUTH'')
      | Some op \<Rightarrow>
     (case path_id idParam of None \<Rightarrow> tx_return (400, ''ERR_INVALID_PARAMS'')
      | Some uid \<Rightarrow>
     (case body of None \<Rightarrow> tx_return (400, ''ERR_BAD_REQUEST'')
      | Some req \<Rightarrow>
     (case check_offline req of
        Inl resp \<Rightarrow> tx_return resp
      | Inr (micro, currency, ref) \<Rightarrow>
          tx_bind (attempt (transaction (offline_body now op uid req micro currency ref))) (\<lambda>r.
            tx_return (offline_response r))))))"

text \<open>The lock of a row succeeds only when the row is there, and changes nothing.\<close>

lemma lock_Inr: "lockUserForUpdate uid (t, fs) = (Inr a, (t', fs')) \<longleftrightarrow>
    (fs = [] \<or> \<not> hd fs) \<and> users t uid \<noteq> None \<and> t' = t \<and> fs' = tl fs"
  by (auto simp: lockUserForUpdate_def tx_Inr)

subsection \<open>Calls whose error is looked at\<close>

lemma attempt_Inr: "attempt m w = (Inr r, w') \<longleftrightarrow> (case r of Inl e \<Rightarrow> m w = (Inl e, w') | Inr a \<Rightarrow> m w = (Inr a, w'))"
  by (auto simp: attempt_def tx_catch_def tx_bind_def split: prod.splits sum.splits)

lemma attempt_returns: "\<exists>r w'. attempt m w = (Inr r, w')"
  by (cases "m w"; cases "fst (m w)") (auto simp: attempt_def tx_catch_def tx_bind_def)

lemma try_attempt: "try_tx m w = (Inr r, w') \<longleftrightarrow> (case r of None \<Rightarrow> \<exists>e. m w = (Inl e, w') | Some a \<Rightarrow> m w = (Inr a, w'))"
  by (auto simp: try_tx_def tx_catch_def tx_bind_def split: prod.splits sum.splits option.splits)

lemma bind_attempt: "tx_bind (attempt m) f w = (case attempt m w of (Inr r, w') \<Rightarrow> f r w' | (Inl e, w') \<Rightarrow> (Inl e, w'))"
  by (simp add: tx_bind_def split: prod.split sum.split)

lemma find_row: "find c os = Some r \<Longrightarrow> r \<in> set os \<and> c r"
  by (auto simp: find_Some_iff)

lemma attempt_result: obtains x t' fs' where "attempt m w = (Inr x, (t', fs'))"
  using attempt_returns [of m w] by auto

lemma attempt_read: "attempt (query_first q) (t, fs) = (Inr x, (t', fs')) \<Longrightarrow> t' = t"
  by (cases x) (auto simp: attempt_Inr dest: query_first_frame)

lemma attempt_transaction: "attempt (transaction m) (t, fs) = (Inr x, (t', fs')) \<Longrightarrow>
    (case x of Inl _ \<Rightarrow> t' = t | Inr a \<Rightarrow> \<exists>f. m (t, fs) = (Inr a, (t', f)))"
  by (cases x) (auto simp: attempt_Inr transaction_Inr dest: transaction_rollback)

end
