(* ===== verification/Served.thy ===== *)
theory Served
  imports TopupOrders
begin

section \<open>Programs over the steps of a machine\<close>

text \<open>
  A handler reads rows, keeps copies of them, and runs transactions; any number of handlers run at
  once. The states of the machines of the orders and of the subscriptions are the tables with the
  set of copies the handlers hold. \<open>served_by step P m Q\<close> says that the program \<open>m\<close> is always answered and
  moves the tables by steps only, from copies that satisfy \<open>P\<close> to an answer and copies that satisfy
  \<open>Q\<close>. The locale \<open>server\<close> is what a machine promises its handlers: an invariant of its steps, balanced books,
  and that nothing need happen between two statements.
\<close>

definition served_by :: "(tables \<times> 'c set \<Rightarrow> tables \<times> 'c set \<Rightarrow> bool) \<Rightarrow> ('c set \<Rightarrow> bool) \<Rightarrow> 'a tx \<Rightarrow> ('a \<Rightarrow> 'c set \<Rightarrow> bool) \<Rightarrow> bool" where
  "served_by step P m Q \<longleftrightarrow> (\<forall>S t fs r t' fs'. P S \<longrightarrow> m (t, fs) = (r, (t', fs')) \<longrightarrow>
     (\<exists>a S'. r = Inr a \<and> S \<subseteq> S' \<and> Q a S' \<and> step\<^sup>*\<^sup>* (t, S) (t', S')))"

named_theorems served_intros

lemma servedI: "(\<And>S t fs r t' fs'. P S \<Longrightarrow> m (t, fs) = (r, (t', fs')) \<Longrightarrow>
     \<exists>a S'. r = Inr a \<and> S \<subseteq> S' \<and> Q a S' \<and> step\<^sup>*\<^sup>* (t, S) (t', S')) \<Longrightarrow> served_by step P m Q"
  by (simp add: served_by_def)

lemma servedD: "served_by step P m Q \<Longrightarrow> P S \<Longrightarrow> m (t, fs) = (r, (t', fs')) \<Longrightarrow>
     \<exists>a S'. r = Inr a \<and> S \<subseteq> S' \<and> Q a S' \<and> step\<^sup>*\<^sup>* (t, S) (t', S')"
  unfolding served_by_def by blast

lemma served_return [served_intros]: "(\<And>S. P S \<Longrightarrow> Q a S) \<Longrightarrow> served_by step P (tx_return a) Q"
  by (auto simp: served_by_def)

lemma served_bind:
  assumes m: "served_by step P m R" and f: "\<And>a. served_by step (R a) (f a) Q"
  shows "served_by step P (tx_bind m f) Q"
proof (rule servedI)
  fix S t fs r t' fs' assume S: "P S" and run: "tx_bind m f (t, fs) = (r, (t', fs'))"
  obtain r1 t1 fs1 where 1: "m (t, fs) = (r1, (t1, fs1))" by (metis prod.collapse)
  from servedD [OF m S 1] obtain a S1 where a: "r1 = Inr a" "S \<subseteq> S1" "R a S1" "step\<^sup>*\<^sup>* (t, S) (t1, S1)" by blast
  with run 1 have "f a (t1, fs1) = (r, (t', fs'))" by (simp add: tx_bind_def)
  from servedD [OF f a(3) this] obtain b S2 where "r = Inr b" "S1 \<subseteq> S2" "Q b S2" "step\<^sup>*\<^sup>* (t1, S1) (t', S2)" by blast
  with a show "\<exists>a S'. r = Inr a \<and> S \<subseteq> S' \<and> Q a S' \<and> step\<^sup>*\<^sup>* (t, S) (t', S')"
    by (intro exI [of _ b] exI [of _ S2]) auto
qed

lemma served_if [served_intros]: "(b \<Longrightarrow> served_by step P m Q) \<Longrightarrow> (\<not> b \<Longrightarrow> served_by step P n Q) \<Longrightarrow> served_by step P (if b then m else n) Q"
  by simp

lemma served_option [served_intros]:
  "(x = None \<Longrightarrow> served_by step P m Q) \<Longrightarrow> (\<And>a. x = Some a \<Longrightarrow> served_by step P (f a) Q) \<Longrightarrow> served_by step P (case x of None \<Rightarrow> m | Some a \<Rightarrow> f a) Q"
  by (cases x) auto

lemma served_sum [served_intros]:
  "(\<And>e. x = Inl e \<Longrightarrow> served_by step P (f e) Q) \<Longrightarrow> (\<And>a. x = Inr a \<Longrightarrow> served_by step P (g a) Q) \<Longrightarrow> served_by step P (case x of Inl e \<Rightarrow> f e | Inr a \<Rightarrow> g a) Q"
  by (cases x) auto

lemma served_prod [served_intros]: "(\<And>a b. x = (a, b) \<Longrightarrow> served_by step P (f a b) Q) \<Longrightarrow> served_by step P (case x of (a, b) \<Rightarrow> f a b) Q"
  by (cases x) auto

text \<open>A call whose error is looked at: a read, a step.\<close>

lemma served_read: "served_by step P (attempt (query_first q)) (\<lambda>_. P)"
proof (rule servedI)
  fix S t fs r t' fs' assume S: "P S" and run: "attempt (query_first q) (t, fs) = (r, (t', fs'))"
  obtain x t1 fs1 where "attempt (query_first q) (t, fs) = (Inr x, (t1, fs1))" by (rule attempt_result)
  with attempt_read [OF this] run S show "\<exists>a S'. r = Inr a \<and> S \<subseteq> S' \<and> P S' \<and> step\<^sup>*\<^sup>* (t, S) (t', S')" by auto
qed

lemma served_step:
  assumes "\<And>S t fs x t' fs'. P S \<Longrightarrow> m (t, fs) = (x, (t', fs')) \<Longrightarrow> step (t, S) (t', S)"
  shows "served_by step P (attempt m) (\<lambda>_. P)"
proof (rule servedI)
  fix S t fs r t' fs' assume S: "P S" and run: "attempt m (t, fs) = (r, (t', fs'))"
  obtain x t1 fs1 where a: "attempt m (t, fs) = (Inr x, (t1, fs1))" by (rule attempt_result)
  then obtain y where "m (t, fs) = (y, (t1, fs1))" by (cases x) (auto simp: attempt_Inr)
  from assms [OF S this] run a S show "\<exists>a S'. r = Inr a \<and> S \<subseteq> S' \<and> P S' \<and> step\<^sup>*\<^sup>* (t, S) (t', S')"
    by (intro exI [of _ x] exI [of _ S]) auto
qed

lemma served_weaken: "served_by step P m Q \<Longrightarrow> (\<And>S. P' S \<Longrightarrow> P S) \<Longrightarrow> (\<And>a S. Q a S \<Longrightarrow> Q' a S) \<Longrightarrow> served_by step P' m Q'"
  unfolding served_by_def by meson

lemma try_is_attempt: "try_tx m = tx_bind (attempt m) (\<lambda>x. tx_return (case x of Inl _ \<Rightarrow> None | Inr a \<Rightarrow> Some a))"
  by (rule ext) (auto simp: try_tx_def attempt_def tx_catch_def tx_bind_def split: prod.splits sum.splits)

lemma served_try:
  assumes "\<And>S t fs x t' fs'. P S \<Longrightarrow> m (t, fs) = (x, (t', fs')) \<Longrightarrow> step (t, S) (t', S)"
  shows "served_by step P (try_tx m) (\<lambda>_. P)"
  unfolding try_is_attempt by (rule served_bind [OF served_step]) (auto intro: assms served_return)

abbreviation "anyway \<equiv> \<lambda>_. True"
abbreviation "answered_by step m \<equiv> served_by step anyway m (\<lambda>_. anyway)"

lemma answered_any: "answered_by step m \<Longrightarrow> served_by step P m (\<lambda>_. anyway)"
  by (rule served_weaken) auto

lemma answered_return: "served_by step P (tx_return a) (\<lambda>_. anyway)"
  by (rule served_return) simp

lemma answered_read: "(\<And>r. answered_by step (f r)) \<Longrightarrow> answered_by step (tx_bind (attempt (query_first q)) f)"
  by (rule served_bind [OF served_read])

lemma answered_step:
  "(\<And>S t fs x t' fs'. m (t, fs) = (x, (t', fs')) \<Longrightarrow> step (t, S) (t', S)) \<Longrightarrow> (\<And>r. answered_by step (f r))
    \<Longrightarrow> answered_by step (tx_bind (attempt m) f)"
  by (rule served_bind [OF served_step]) auto

lemma answered_try:
  "(\<And>S t fs x t' fs'. m (t, fs) = (x, (t', fs')) \<Longrightarrow> step (t, S) (t', S)) \<Longrightarrow> answered_by step (try_tx m)"
  by (rule served_try)

subsection \<open>What a machine promises\<close>

locale server = transition_system init step inv
  for init :: "tables \<times> 'c set \<Rightarrow> bool" and step :: "tables \<times> 'c set \<Rightarrow> tables \<times> 'c set \<Rightarrow> bool" and inv +
  assumes idle: "step w w"
    and books: "inv v \<Longrightarrow> step v w \<Longrightarrow> reconciled opening (fst v) \<Longrightarrow> reconciled opening (fst w)"
begin

lemma reachable_books:
  assumes "init v" "step\<^sup>*\<^sup>* v w" "reconciled opening (fst v)"
  shows "reconciled opening (fst w)"
  by (rule stable [where P = "\<lambda>w. reconciled opening (fst w)", OF assms(1) rtranclp.rtrancl_refl assms(3) _ assms(2)]) (rule books)

lemma served_idle:
  assumes "\<And>t fs r t' fs'. m (t, fs) = (r, (t', fs')) \<Longrightarrow> t' = t"
  shows "served_by step P (attempt m) (\<lambda>_. P)"
  by (rule served_step) (use assms idle in blast)

lemma answered_idle:
  "(\<And>t fs r t' fs'. m (t, fs) = (r, (t', fs')) \<Longrightarrow> t' = t) \<Longrightarrow> (\<And>r. answered_by step (f r))
    \<Longrightarrow> answered_by step (tx_bind (attempt m) f)"
  by (rule served_bind [OF served_idle]) auto

text \<open>A request in a reachable state is answered in a reachable state.\<close>

lemma answered_reachable:
  assumes "answered_by step m" and "init w" "step\<^sup>*\<^sup>* w (t, S)" and "m (t, fs) = (r, (t', fs'))"
  obtains a S' where "r = Inr a" "S \<subseteq> S'" "step\<^sup>*\<^sup>* w (t', S')" "inv (t', S')"
proof -
  from servedD [OF assms(1) TrueI assms(4)] obtain a S' where a: "r = Inr a" "S \<subseteq> S'" "step\<^sup>*\<^sup>* (t, S) (t', S')" by blast
  then have "step\<^sup>*\<^sup>* w (t', S')" using assms(3) by (meson rtranclp_trans)
  with a that reachable_inv [OF assms(2)] show thesis by blast
qed

end

end
