(* ===== verification/TopupAccounts.thy ===== *)
theory TopupAccounts
  imports Served
begin

section \<open>Accounting for top-up orders\<close>

text \<open>
  Proofs about \<open>TopupOrders\<close>. The step relation interleaves, in any order, the database
  operations of any number of requests at once: creating orders, reading them, marking them
  failed, callbacks, manual marks and refunds on copies read at any earlier time, each under
  any schedule of faults, and whatever else the server does to the other tables. Its invariant
  says that each order is credited at most once and refunded at most in full.
\<close>

subsection \<open>What the ledger says of an order\<close>

definition credits :: "tables \<Rightarrow> nat \<Rightarrow> billing_entry list" where
  "credits t oid = filter (\<lambda>e. be_EntryType e = ''topup'' \<and> be_RelatedType e = ''topup_order'' \<and> be_RelatedID e = oid) (billing t)"

definition reclaims :: "tables \<Rightarrow> nat \<Rightarrow> billing_entry list" where
  "reclaims t oid = filter (\<lambda>e. be_EntryType e = ''refund_topup'' \<and> be_RelatedType e = ''topup_order'' \<and> be_RelatedID e = oid) (billing t)"

definition refunds_of :: "tables \<Rightarrow> nat \<Rightarrow> topup_refund list" where
  "refunds_of t oid = filter (\<lambda>r. tr_TopupOrderID r = oid) (refunds t)"

definition credit_of :: "topup_order \<Rightarrow> billing_entry \<Rightarrow> bool" where
  "credit_of r e \<longleftrightarrow> be_UserID e = to_UserID r \<and> be_AmountUSD e = to_AmountUSD r"

definition reclaimed :: "topup_refund \<Rightarrow> int64" where
  "reclaimed r = (if tr_ReclaimQuota r then - tr_AmountMicroUSD r else 0)"

definition payable :: "topup_order \<Rightarrow> bool" where
  "payable r \<longleftrightarrow> 0 < to_AmountUSD r \<and> in_i64 (to_AmountUSD r) \<and> 0 < to_MoneyRMB r
     \<and> 0 \<le> to_RefundedAmountRMB r \<and> to_RefundedAmountRMB r \<le> to_MoneyRMB r"

definition paid_once :: "topup_order \<Rightarrow> billing_entry list \<Rightarrow> bool" where
  "paid_once r es \<longleftrightarrow> (es = [] \<or> (\<exists>e. es = [e] \<and> credit_of r e))
     \<and> (to_Status r \<in> {''created'', ''canceled''} \<longrightarrow> es = []) \<and> (to_Status r \<in> {''paid'', ''refunded''} \<longrightarrow> es \<noteq> [])
     \<and> to_Status r \<in> {''created'', ''canceled'', ''failed'', ''paid'', ''refunded''}"

definition refunded_exactly :: "topup_order \<Rightarrow> topup_refund list \<Rightarrow> bool" where
  "refunded_exactly r rs \<longleftrightarrow> sum_list (map tr_AmountFen rs) = to_RefundedAmountRMB r
     \<and> sum_list (map tr_AmountMicroUSD rs) = prorate (to_AmountUSD r) (to_MoneyRMB r) (to_RefundedAmountRMB r)
     \<and> list_all (\<lambda>x. 0 < tr_AmountFen x \<and> 0 \<le> tr_AmountMicroUSD x) rs
     \<and> (to_Status r = ''refunded'' \<longrightarrow> to_RefundedAmountRMB r = to_MoneyRMB r)"

definition order_ok :: "tables \<Rightarrow> topup_order \<Rightarrow> bool" where
  "order_ok t r \<longleftrightarrow> payable r \<and> paid_once r (credits t (to_ID r)) \<and> refunded_exactly r (refunds_of t (to_ID r))
     \<and> (credits t (to_ID r) = [] \<longrightarrow> refunds_of t (to_ID r) = [])
     \<and> map be_AmountUSD (reclaims t (to_ID r)) = map reclaimed (refunds_of t (to_ID r))"

text \<open>The columns that never change identify a copy of an order with its row.\<close>

definition ident :: "topup_order \<Rightarrow> nat \<times> string \<times> nat \<times> int64 \<times> int64" where
  "ident r = (to_ID r, to_OutTradeNo r, to_UserID r, to_AmountUSD r, to_MoneyRMB r)"

definition orders_inv :: "tables \<Rightarrow> topup_order set \<Rightarrow> bool" where
  "orders_inv t S \<longleftrightarrow> map to_ID (topup_orders t) = [1..<Suc (length (topup_orders t))]
     \<and> distinct (map to_OutTradeNo (topup_orders t))
     \<and> ident ` S \<subseteq> ident ` set (topup_orders t)
     \<and> (\<forall>r \<in> set (topup_orders t). order_ok t r)
     \<and> (\<forall>oid. oid \<notin> to_ID ` set (topup_orders t) \<longrightarrow> credits t oid = [] \<and> reclaims t oid = [] \<and> refunds_of t oid = [])
     \<and> distinct (map tr_ExternalRefundRef (refunds t))"

subsection \<open>The steps\<close>

inductive topup_step :: "tables \<times> topup_order set \<Rightarrow> tables \<times> topup_order set \<Rightarrow> bool" where
  create: "insert_order provider outTradeNo uid payType fen micro rate now (t, fs) = (Inr (Some ord), (t', fs')) \<Longrightarrow>
    usdMicroFromFenAndRate fen rate = Some micro \<Longrightarrow> topup_step (t, S) (t', insert ord S)"
| look: "ord \<in> set (topup_orders t) \<Longrightarrow> topup_step (t, S) (t, insert ord S)"
| failed: "ord \<in> S \<Longrightarrow> mark_failed ord (t, fs) = (r, (t', fs')) \<Longrightarrow> topup_step (t, S) (t', S)"
| expire: "expireStaleTopupOrders cfg now (t, fs) = (r, (t', fs')) \<Longrightarrow> topup_step (t, S) (t', S)"
| gateway: "ord \<in> S \<Longrightarrow> persist_gateway ord tradeNo payType payInfo (t, fs) = (r, (t', fs')) \<Longrightarrow> topup_step (t, S) (t', S)"
| callback: "ord \<in> S \<Longrightarrow> to_OutTradeNo ord = we_OutTradeNo ev \<Longrightarrow>
    finalizePaidTopupTransaction now ord ev (t, fs) = (r, (t', fs')) \<Longrightarrow> topup_step (t, S) (t', S)"
| manual: "ord \<in> S \<Longrightarrow> transaction (mark_paid_body now opID ord ref) (t, fs) = (r, (t', fs')) \<Longrightarrow> topup_step (t, S) (t', S)"
| refund: "ord \<in> S \<Longrightarrow> transaction (refund_body now opID ord requested reclaim ref) (t, fs) = (r', (t', fs'))
    \<Longrightarrow> topup_step (t, S) (t', S)"
| other: "topup_orders t' = topup_orders t \<Longrightarrow> refunds t' = refunds t \<Longrightarrow> billing t' = billing t @ es \<Longrightarrow>
    list_all (\<lambda>e. be_RelatedType e \<noteq> ''topup_order'') es \<Longrightarrow> (\<And>opening. reconciled opening t \<Longrightarrow> reconciled opening t')
    \<Longrightarrow> topup_step (t, S) (t', S)"

inductive_cases topup_stepE: "topup_step (t, S) (t', S')"

text \<open>A database in which no order was placed yet.\<close>

definition no_orders :: "tables \<Rightarrow> bool" where
  "no_orders t \<longleftrightarrow> topup_orders t = [] \<and> refunds t = [] \<and> list_all (\<lambda>e. be_RelatedType e \<noteq> ''topup_order'') (billing t)"

lemma no_orders_inv: "no_orders t \<Longrightarrow> orders_inv t {}"
  by (auto simp: no_orders_def orders_inv_def credits_def reclaims_def refunds_of_def filter_empty_conv list_all_iff)

subsection \<open>What the operations do\<close>

lemma update_orders_Inr: "update_orders c f (t, fs) = (Inr n, (t', fs')) \<longleftrightarrow>
    (fs = [] \<or> \<not> hd fs) \<and> n = length (filter c (topup_orders t)) \<and> fs' = tl fs
    \<and> t' = t \<lparr> topup_orders := map (\<lambda>r. if c r then f r else r) (topup_orders t) \<rparr>"
  by (auto simp: update_orders_def stmt_Inr)

lemma update_orders_Inl: "update_orders c f (t, fs) = (Inl e, (t', fs')) \<Longrightarrow> t' = t"
  by (auto simp: update_orders_def stmt_Inl)

lemma first_order_Inr: "first_order c (t, fs) = (Inr r, (t', fs')) \<longleftrightarrow>
    (fs = [] \<or> \<not> hd fs) \<and> find c (topup_orders t) = Some r \<and> t' = t \<and> fs' = tl fs"
  by (auto simp: first_order_def query_first_Inr)



text \<open>The account after a credit: balance and floor rise by the amount, and one entry books it.\<close>

definition credited :: "topup_order \<Rightarrow> tables \<Rightarrow> tables \<Rightarrow> bool" where
  "credited r t t' \<longleftrightarrow> (\<exists>u e. users t (to_UserID r) = Some u \<and> billing t' = billing t @ [e]
     \<and> users t' = (users t)(to_UserID r \<mapsto> u \<lparr> u_Quota := u_Quota u + to_AmountUSD r,
          u_PaidQuota := u_PaidQuota u + to_AmountUSD r \<rparr>)
     \<and> credit_of r e \<and> be_EntryType e = ''topup'' \<and> be_RelatedType e = ''topup_order'' \<and> be_RelatedID e = to_ID r)"

lemma credit_order_Inr:
  assumes "credit_order now r cur orig (t, fs) = (Inr a, (t', fs'))"
  shows "credited r t t' \<and> topup_orders t' = topup_orders t \<and> refunds t' = refunds t \<and> receipts t' = receipts t"
proof -
  let ?up = "\<lambda>u. u \<lparr> u_Quota := u_Quota u + to_AmountUSD r, u_PaidQuota := u_PaidQuota u + to_AmountUSD r \<rparr>"
  obtain n t1 u fs1 fs2 where s: "stmt (update_user_if (to_UserID r) (\<lambda>_. True) ?up) (t, fs) = (Inr n, (t1, fs1))"
    and u: "users t1 (to_UserID r) = Some u"
    and w: "WriteBillingEntry now (topup_entry now (to_UserID r) (to_AmountUSD r) (u_Quota u) (to_ID r) cur orig) (t1, fs2)
      = (Inr (), (t', fs'))"
    using assms unfolding credit_order_def add_quota_def tx_bind_Inr by (auto simp: query_first_Inr)
  obtain v where v: "users t (to_UserID r) = Some v" "t1 = t \<lparr> users := (users t)(to_UserID r \<mapsto> ?up v) \<rparr>"
    using s u unfolding stmt_Inr update_user_if_def by (auto split: option.splits)
  define e where "e = booked now (topup_entry now (to_UserID r) (to_AmountUSD r) (u_Quota u) (to_ID r) cur orig)"
  have t': "t' = t1 \<lparr> billing := billing t1 @ [e] \<rparr>"
    using w unfolding WriteBillingEntry_Inr e_def by blast
  have e: "credit_of r e" "be_EntryType e = ''topup''" "be_RelatedType e = ''topup_order''" "be_RelatedID e = to_ID r"
    by (simp_all add: e_def credit_of_def topup_entry_def booked_def)
  have b: "billing t' = billing t @ [e]" "topup_orders t' = topup_orders t" "refunds t' = refunds t"
    "receipts t' = receipts t" "users t' = (users t)(to_UserID r \<mapsto> ?up v)"
    by (simp_all add: t' v(2))
  have "credited r t t'"
    unfolding credited_def by (rule exI [of _ v], rule exI [of _ e], intro conjI) (rule v(1) b e)+
  with b show ?thesis by blast
qed

lemma credited_reconciled: "credited r t t' \<Longrightarrow> reconciled opening t \<Longrightarrow> reconciled opening t'"
proof -
  assume c: "credited r t t'" and rec: "reconciled opening t"
  obtain u :: user and e :: billing_entry where u: "users t (to_UserID r) = Some u" and e: "billing t' = billing t @ [e]"
    "be_UserID e = to_UserID r" "be_AmountUSD e = to_AmountUSD r"
    and us: "users t' = (users t)(to_UserID r \<mapsto> u \<lparr> u_Quota := u_Quota u + to_AmountUSD r,
          u_PaidQuota := u_PaidQuota u + to_AmountUSD r \<rparr>)"
    using c unfolding credited_def credit_of_def by blast
  show "reconciled opening t'"
    by (rule reconciled_post [OF rec _ e(1), of u]) (use u e(2,3) in \<open>auto simp: us split: if_splits\<close>)
qed

lemma reconciled_orders [simp]: "reconciled opening (t \<lparr> topup_orders := os \<rparr>) = reconciled opening t"
  "reconciled opening (t \<lparr> receipts := rc \<rparr>) = reconciled opening t"
  "reconciled opening (t \<lparr> refunds := rf \<rparr>) = reconciled opening t"
  "reconciled opening (t \<lparr> operation_logs := ol \<rparr>) = reconciled opening t"
  by (simp_all add: reconciled_def)

lemma credited_orders [simp]: "credited r (t \<lparr> topup_orders := os \<rparr>) t' = credited r t t'"
  "credited r (t \<lparr> receipts := rc \<rparr>) t' = credited r t t'"
  "credited r t (t' \<lparr> operation_logs := ol \<rparr>) = credited r t t'"
  by (simp_all add: credited_def)

lemma finalize_Inr:
  assumes "finalizePaidTopupTransaction now ord ev (t, fs) = (Inr a, (t', fs'))"
  shows "credited ord t t' \<and> refunds t' = refunds t
    \<and> (\<exists>r \<in> set (topup_orders t). to_OutTradeNo r = we_OutTradeNo ev \<and> to_Status r = ''created'')
    \<and> topup_orders t' = map (\<lambda>r. if to_OutTradeNo r = we_OutTradeNo ev \<and> to_Status r = ''created''
          then pay_row now (take 128 (we_ExternalTradeNo ev)) r else r) (topup_orders t)"
  using assms
  by (auto simp: finalizePaidTopupTransaction_def transaction_Inr tx_bind_Inr update_orders_Inr filter_empty_conv
      split: if_splits dest!: credit_order_Inr)

lemma mark_paid_Inr:
  assumes "mark_paid_body now opID ord ref (t, fs) = (Inr a, (t', fs'))"
  shows "\<exists>fresh. find (\<lambda>r. to_ID r = to_ID ord) (topup_orders t) = Some fresh \<and> credited fresh t t' \<and> refunds t' = refunds t
    \<and> to_Status fresh = ''created''
    \<and> topup_orders t' = map (\<lambda>r. if to_ID r = to_ID fresh \<and> to_Status r = ''created''
          then pay_row now ref r else r) (topup_orders t)"
proof -
  obtain fresh dup n t2 t3 fs1 fs2 fs3 fs4 where f: "find (\<lambda>r. to_ID r = to_ID ord) (topup_orders t) = Some fresh"
    and st: "to_Status fresh = ''created''"
    and ir: "insert_receipt \<lparr> wr_Provider = ''manual_paid'', wr_Nonce = ref,
             wr_OutTradeNo = to_OutTradeNo fresh, wr_Status = ''accepted_manual'' \<rparr> (t, fs1) = (Inr dup, (t2, fs2))"
    and up: "(if dup then tx_throw errManualPaidRefDuplicate
           else tx_bind (update_orders (\<lambda>r. to_ID r = to_ID fresh \<and> to_Status r = ''created'')
               (pay_row now ref)) (\<lambda>n.
             if n = 0 then tx_throw errAdminMarkRaced
             else tx_bind (credit_order now fresh (fst (manual_currency fresh)) (snd (manual_currency fresh))) (\<lambda>_.
               LogOperationByTx opID (to_UserID fresh) ''admin'' ''TOPUP_MANUAL_MARK_PAID''))) (t2, fs2) = (Inr a, (t', fs'))"
    using assms unfolding mark_paid_body_def tx_bind_Inr [of "lockUserForUpdate _"] tx_bind_Inr [of "first_order _"]
      tx_bind_Inr [of "insert_receipt _"] if_distrib [of "\<lambda>m. m _"]
    by (auto simp: lock_Inr first_order_Inr tx_bind_Inr [of "insert_receipt _"] split: if_splits)
  have t2: "t2 = t \<lparr> receipts := receipts t2 \<rparr>"
    using ir unfolding insert_receipt_def stmt_Inr by (auto split: if_splits)
  let ?t3 = "t2 \<lparr> topup_orders := map (\<lambda>r. if to_ID r = to_ID fresh \<and> to_Status r = ''created''
          then pay_row now ref r else r) (topup_orders t2) \<rparr>"
  obtain t4 fs4 where cr: "credit_order now fresh (fst (manual_currency fresh)) (snd (manual_currency fresh)) (?t3, tl fs2) = (Inr (), (t4, fs4))"
    and lg: "LogOperationByTx opID (to_UserID fresh) ''admin'' ''TOPUP_MANUAL_MARK_PAID'' (t4, fs4) = (Inr a, (t', fs'))"
    using up unfolding tx_bind_Inr update_orders_Inr by (auto simp: tx_bind_Inr update_orders_Inr split: if_splits)
  have t': "t' = t4 \<lparr> operation_logs := operation_logs t' \<rparr>"
    using lg unfolding LogOperationByTx_def LogOperationByTxReturning_def tx_bind_Inr stmt_Inr by auto
  have "credited fresh ?t3 t4" "topup_orders t4 = topup_orders ?t3" "refunds t4 = refunds ?t3"
    using credit_order_Inr [OF cr] by blast+
  then have "credited fresh t t'" "refunds t' = refunds t" "topup_orders t' = topup_orders ?t3"
    by (subst t', subst (asm) t2, simp)+
  moreover have "topup_orders t2 = topup_orders t" by (subst t2) simp
  ultimately show ?thesis using f st by simp
qed

text \<open>The account after a refund: one entry and one row of the facts table.\<close>

definition refund_booked :: "topup_order \<Rightarrow> int64 \<Rightarrow> int64 \<Rightarrow> bool \<Rightarrow> string \<Rightarrow> tables \<Rightarrow> tables \<Rightarrow> bool" where
  "refund_booked r fen usd reclaim ref t t' \<longleftrightarrow> (\<exists>u e x. users t (to_UserID r) = Some u
     \<and> billing t' = billing t @ [e] \<and> refunds t' = refunds t @ [x]
     \<and> users t' = (users t)(to_UserID r \<mapsto> u
         \<lparr> u_PaidQuota := (if usd \<le> u_PaidQuota u then u_PaidQuota u - usd else 0),
           u_Quota := (if reclaim then u_Quota u - usd else u_Quota u) \<rparr>)
     \<and> be_UserID e = to_UserID r \<and> be_AmountUSD e = reclaimed x \<and> be_EntryType e = ''refund_topup''
     \<and> be_RelatedType e = ''topup_order'' \<and> be_RelatedID e = to_ID r
     \<and> tr_TopupOrderID x = to_ID r \<and> tr_AmountFen x = fen \<and> tr_AmountMicroUSD x = usd
     \<and> tr_ReclaimQuota x = reclaim \<and> tr_ExternalRefundRef x = ref \<and> ref \<notin> tr_ExternalRefundRef ` set (refunds t)
     \<and> (0 < to_ID r \<longrightarrow> reclaims t (to_ID r) = []))"

lemma refund_booked_orders [simp]:
  "refund_booked r fen usd reclaim ref (t \<lparr> topup_orders := os \<rparr>) t' = refund_booked r fen usd reclaim ref t t'"
  by (simp add: refund_booked_def reclaims_def)

lemma book_refund_Inr:
  assumes "book_refund now opID r fen usd reclaim ref (t, fs) = (Inr a, (t', fs'))"
  shows "refund_booked r fen usd reclaim ref t t' \<and> topup_orders t' = topup_orders t \<and> receipts t' = receipts t"
proof -
  define up :: "user \<Rightarrow> user" where "up = (\<lambda>u. u
     \<lparr> u_PaidQuota := (if usd \<le> u_PaidQuota u then u_PaidQuota u - usd else 0),
       u_Quota := (if reclaim then u_Quota u - usd else u_Quota u) \<rparr>)"
  define x where "x = \<lparr> tr_TopupOrderID = to_ID r, tr_ExternalRefundRef = ref, tr_AmountFen = fen,
               tr_AmountMicroUSD = usd, tr_ReclaimQuota = reclaim, tr_OperatorID = opID \<rparr>"
  obtain n t1 u t2 dup t3 fs1 fs2 fs3 fs4 fs5
    where s: "stmt (update_user_if (to_UserID r) (\<lambda>_. True) up) (t, fs) = (Inr n, (t1, fs1))"
    and u: "users t1 (to_UserID r) = Some u"
    and w: "WriteBillingEntry now (refund_entry now (to_UserID r) (if reclaim then - usd else 0) (u_Quota u) (to_ID r) fen)
        (t1, fs2) = (Inr (), (t2, fs3))"
    and ins: "insert_refund x (t2, fs3) = (Inr dup, (t3, fs4))"
    and lg: "(if dup then tx_throw errRefundRefDuplicate
      else LogOperationByTx opID (to_UserID r) ''admin'' ''REFUND_TOPUP'') (t3, fs4) = (Inr a, (t', fs'))"
    using assms unfolding book_refund_def reclassify_def tx_bind_Inr x_def up_def by (auto simp: query_first_Inr)
  obtain v where v: "users t (to_UserID r) = Some v" "t1 = t \<lparr> users := (users t)(to_UserID r \<mapsto> up v) \<rparr>"
    using s u unfolding stmt_Inr update_user_if_def by (auto split: option.splits)
  define e where "e = booked now (refund_entry now (to_UserID r) (if reclaim then - usd else 0) (u_Quota u) (to_ID r) fen)"
  have t2: "t2 = t1 \<lparr> billing := billing t1 @ [e] \<rparr>"
    using w unfolding WriteBillingEntry_Inr e_def by blast
  have "\<not> related_taken (refund_entry now (to_UserID r) (if reclaim then - usd else 0) (u_Quota u) (to_ID r) fen) t1"
    using w unfolding WriteBillingEntry_Inr by blast
  then have first: "0 < to_ID r \<longrightarrow> reclaims t (to_ID r) = []"
    by (auto simp: v(2) related_taken_def reclaims_def refund_entry_def list_ex_iff filter_empty_conv)
  have d: "\<not> dup" using lg by (auto split: if_splits)
  have t3: "t3 = t2 \<lparr> refunds := refunds t2 @ [x] \<rparr>" and new: "\<not> refund_ref_used (tr_ExternalRefundRef x) t2"
    using ins d unfolding insert_refund_def stmt_Inr by (auto split: if_splits)
  have t': "\<exists>ol. t' = t3 \<lparr> operation_logs := ol \<rparr>"
    using lg d unfolding LogOperationByTx_def LogOperationByTxReturning_def by (auto simp: tx_bind_Inr stmt_Inr)
  have b: "billing t' = billing t @ [e]" "refunds t' = refunds t @ [x]" "users t' = (users t)(to_UserID r \<mapsto> up v)"
    "topup_orders t' = topup_orders t" "receipts t' = receipts t"
    using t' by (auto simp: t3 t2 v(2))
  have e: "be_UserID e = to_UserID r" "be_AmountUSD e = reclaimed x" "be_EntryType e = ''refund_topup''"
     "be_RelatedType e = ''topup_order''" "be_RelatedID e = to_ID r"
    by (simp_all add: e_def x_def refund_entry_def booked_def reclaimed_def)
  have x: "tr_TopupOrderID x = to_ID r" "tr_AmountFen x = fen" "tr_AmountMicroUSD x = usd"
     "tr_ReclaimQuota x = reclaim" "tr_ExternalRefundRef x = ref" by (simp_all add: x_def)
  have n: "ref \<notin> tr_ExternalRefundRef ` set (refunds t)"
    using new unfolding t2 v(2) x(5) by (auto simp: refund_ref_used_def list_ex_iff)
  have "refund_booked r fen usd reclaim ref t t'"
    unfolding refund_booked_def
    by (rule exI [of _ v], rule exI [of _ e], rule exI [of _ x], intro conjI)
      (rule v(1) b b(3) [unfolded up_def] e x n first)+
  with b show ?thesis by blast
qed

lemma refund_Inr:
  assumes "refund_body now opID ord requested reclaim ref (t, fs) = (Inr (fen, usd), (t', fs'))"
  shows "\<exists>fresh. find (\<lambda>r. to_ID r = to_ID ord) (topup_orders t) = Some fresh
    \<and> refund_amounts fresh requested = Inr (fen, usd) \<and> refund_booked ord fen usd reclaim ref t t'
    \<and> (\<exists>r \<in> set (topup_orders t). to_ID r = to_ID ord \<and> to_Status r = ''paid'' \<and> to_RefundedAmountRMB r = to_RefundedAmountRMB fresh)
    \<and> topup_orders t' = map (\<lambda>r. if to_ID r = to_ID ord \<and> to_Status r = ''paid''
          \<and> to_RefundedAmountRMB r = to_RefundedAmountRMB fresh
          then refund_row (to_RefundedAmountRMB fresh + fen) ref r else r) (topup_orders t)
    \<and> (reclaim \<longrightarrow> \<not> unrefunded_sub (to_UserID ord) t)"
proof -
  let ?c = "\<lambda>fresh r. to_ID r = to_ID ord \<and> to_Status r = ''paid'' \<and> to_RefundedAmountRMB r = to_RefundedAmountRMB fresh"
  obtain fresh fs1 where f: "find (\<lambda>r. to_ID r = to_ID ord) (topup_orders t) = Some fresh"
    and rc: "reclaim \<longrightarrow> \<not> unrefunded_sub (to_UserID ord) t"
    and m: "(case refund_amounts fresh requested of Inl e \<Rightarrow> tx_throw e
             | Inr (fen, usd) \<Rightarrow>
                 tx_bind (update_orders (?c fresh) (refund_row (to_RefundedAmountRMB fresh + fen) ref)) (\<lambda>n.
                   if n = 0 then tx_throw errAdminMarkRaced
                   else tx_bind (book_refund now opID ord fen usd reclaim ref) (\<lambda>_. tx_return (fen, usd)))) (t, fs1)
      = (Inr (fen, usd), (t', fs'))"
    using assms unfolding refund_body_def
    by (auto simp: tx_bind_Inr [of "lockUserForUpdate _"] tx_bind_Inr [of "first_order _"] tx_bind_Inr [of "stmt _"]
        tx_bind_Inr [of "if _ then _ else _"] lock_Inr first_order_Inr stmt_Inr split: if_splits)
  from m obtain fs2 where a: "refund_amounts fresh requested = Inr (fen, usd)"
    and n: "length (filter (?c fresh) (topup_orders t)) \<noteq> 0"
    and b: "book_refund now opID ord fen usd reclaim ref (t \<lparr> topup_orders := map (\<lambda>r. if ?c fresh r
          then refund_row (to_RefundedAmountRMB fresh + fen) ref r else r) (topup_orders t) \<rparr>, fs2) = (Inr (), (t', fs'))"
    by (auto simp: tx_bind_Inr update_orders_Inr split: sum.splits if_splits)
  from n have "\<exists>r \<in> set (topup_orders t). ?c fresh r" by (auto simp: filter_empty_conv)
  with f rc a book_refund_Inr [OF b] show ?thesis by auto
qed

subsection \<open>The invariant\<close>

lemma ident_simps [simp]: "ident (pay_row now tn r) = ident r" "ident (refund_row n ref r) = ident r"
  "ident (r \<lparr> to_Status := s \<rparr>) = ident r"
  "ident (r \<lparr> to_TradeNo := a, to_GatewayPayType := b, to_PayInfo := d \<rparr>) = ident r"
  by (simp_all add: ident_def pay_row_def refund_row_def)

lemma ident_parts: "ident r = ident s \<Longrightarrow> to_ID r = to_ID s \<and> to_OutTradeNo r = to_OutTradeNo s
    \<and> to_UserID r = to_UserID s \<and> to_AmountUSD r = to_AmountUSD s \<and> to_MoneyRMB r = to_MoneyRMB s"
  by (simp add: ident_def)

lemma inv_unique_id: "orders_inv t S \<Longrightarrow> r \<in> set (topup_orders t) \<Longrightarrow> s \<in> set (topup_orders t) \<Longrightarrow> to_ID r = to_ID s \<Longrightarrow> r = s"
proof -
  assume i: "orders_inv t S" "r \<in> set (topup_orders t)" "s \<in> set (topup_orders t)" "to_ID r = to_ID s"
  have "distinct (map to_ID (topup_orders t))" using i(1) unfolding orders_inv_def by (metis distinct_upt)
  then show "r = s" using i by (auto simp: distinct_map dest: inj_onD)
qed

lemma inv_unique_no: "orders_inv t S \<Longrightarrow> r \<in> set (topup_orders t) \<Longrightarrow> s \<in> set (topup_orders t)
    \<Longrightarrow> to_OutTradeNo r = to_OutTradeNo s \<Longrightarrow> r = s"
  by (auto simp: orders_inv_def distinct_map dest: inj_onD)

lemma inv_seen: "orders_inv t S \<Longrightarrow> ord \<in> S \<Longrightarrow> \<exists>r \<in> set (topup_orders t). ident r = ident ord"
  unfolding orders_inv_def by (metis (no_types, lifting) image_iff image_subset_iff)

lemma inv_ok: "orders_inv t S \<Longrightarrow> r \<in> set (topup_orders t) \<Longrightarrow> order_ok t r"
  by (simp add: orders_inv_def)

text \<open>An update of rows that keeps the identifying columns.\<close>

lemma orders_inv_rows:
  assumes inv: "orders_inv t S" and os: "topup_orders t' = map (\<lambda>r. if c r then f r else r) (topup_orders t)"
    and id: "\<And>r. ident (f r) = ident r"
    and ok: "\<And>r. r \<in> set (topup_orders t) \<Longrightarrow> order_ok t' (if c r then f r else r)"
    and rest: "\<And>oid. oid \<notin> to_ID ` set (topup_orders t) \<Longrightarrow> credits t' oid = [] \<and> reclaims t' oid = [] \<and> refunds_of t' oid = []"
    and refs: "distinct (map tr_ExternalRefundRef (refunds t'))"
  shows "orders_inv t' S"
proof -
  have i: "ident (if c r then f r else r) = ident r" for r using id by simp
  have m: "map to_ID (topup_orders t') = map to_ID (topup_orders t)"
    "map to_OutTradeNo (topup_orders t') = map to_OutTradeNo (topup_orders t)"
    "map ident (topup_orders t') = map ident (topup_orders t)"
    unfolding os map_map using i by (auto simp: ident_def o_def)
  have s: "ident ` set (topup_orders t') = ident ` set (topup_orders t)" using m(3) by (metis list.set_map)
  have s': "to_ID ` set (topup_orders t') = to_ID ` set (topup_orders t)" using m(1) by (metis list.set_map)
  have l: "length (topup_orders t') = length (topup_orders t)" by (simp add: os)
  have "\<forall>r \<in> set (topup_orders t'). order_ok t' r" unfolding os using ok by (metis (no_types, lifting) image_iff list.set_map)
  then show ?thesis
    using inv rest refs unfolding orders_inv_def m s s' l by blast
qed

text \<open>Entries and refunds of one order leave the others alone.\<close>

lemma filter_snoc_other: "\<not> P e \<Longrightarrow> filter P (es @ [e]) = filter P es"
  by simp

lemma order_ok_frame:
  assumes "order_ok t r" "credits t' (to_ID r) = credits t (to_ID r)" "reclaims t' (to_ID r) = reclaims t (to_ID r)"
    "refunds_of t' (to_ID r) = refunds_of t (to_ID r)"
  shows "order_ok t' r"
  using assms by (simp add: order_ok_def)

lemma credit_columns:
  assumes "credited r t t'" and "refunds t' = refunds t"
  shows "oid \<noteq> to_ID r \<Longrightarrow> credits t' oid = credits t oid" "reclaims t' oid = reclaims t oid" "refunds_of t' oid = refunds_of t oid"
    and "\<exists>e. credits t' (to_ID r) = credits t (to_ID r) @ [e] \<and> credit_of r e"
  using assms unfolding credited_def credits_def reclaims_def refunds_of_def by (elim exE conjE; simp; blast)+

lemma credit_inv:
  assumes inv: "orders_inv t S" and r: "r \<in> set (topup_orders t)" "to_Status r = ''created''"
    and cr: "credited ord t t'" and id: "ident r = ident ord" and rf: "refunds t' = refunds t"
    and os: "topup_orders t' = map (\<lambda>x. if c x then pay_row now tn x else x) (topup_orders t)"
    and c: "\<And>x. x \<in> set (topup_orders t) \<Longrightarrow> c x \<longleftrightarrow> x = r"
  shows "orders_inv t' S"
proof (rule orders_inv_rows [OF inv os])
  have i: "to_ID r = to_ID ord" using id by (simp add: ident_def)
  obtain e where e: "credits t' (to_ID r) = credits t (to_ID r) @ [e]" "credit_of ord e"
    using credit_columns(4) [OF cr rf] i by auto
  have e': "credit_of r e" using e(2) id by (simp add: credit_of_def ident_def)
  have ok: "order_ok t r" by (rule inv_ok [OF inv r(1)])
  then have n: "credits t (to_ID r) = []" "refunds_of t (to_ID r) = []" using r(2) by (simp_all add: order_ok_def paid_once_def)
  define p where "p = pay_row now tn r"
  have p: "to_ID p = to_ID r" "payable p = payable r" "to_Status p = ''paid''" "credit_of p e"
    "to_AmountUSD p = to_AmountUSD r" "to_MoneyRMB p = to_MoneyRMB r" "to_RefundedAmountRMB p = to_RefundedAmountRMB r"
    using e' by (simp_all add: p_def pay_row_def payable_def credit_of_def)
  have paid: "paid_once p [e]" using p(3,4) by (simp add: paid_once_def)
  have rr: "refunds_of t' (to_ID r) = []" "reclaims t' (to_ID r) = reclaims t (to_ID r)" "credits t' (to_ID r) = [e]"
    using n e(1) credit_columns(2,3) [OF cr rf] by simp_all
  have ref: "refunded_exactly p []"
    using ok p(3,5,6,7) n(2) by (auto simp: order_ok_def refunded_exactly_def payable_def)
  have pok: "order_ok t' p"
    unfolding order_ok_def p(1) rr using ok p(2) paid ref n(2) by (simp add: order_ok_def)
  fix x assume x: "x \<in> set (topup_orders t)"
  show "order_ok t' (if c x then pay_row now tn x else x)"
  proof (cases "x = r")
    case True
    then show ?thesis using c x pok by (simp add: p_def)
  next
    case False
    then have "to_ID x \<noteq> to_ID ord" using inv_unique_id [OF inv x r(1)] i by auto
    then have "order_ok t' x"
      by (intro order_ok_frame [OF inv_ok [OF inv x]] credit_columns [OF cr rf])
    then show ?thesis using False c x by simp
  qed
next
  fix oid assume o: "oid \<notin> to_ID ` set (topup_orders t)"
  then have "oid \<noteq> to_ID ord" using imageI [OF r(1), of to_ID] ident_parts [OF id] by metis
  then show "credits t' oid = [] \<and> reclaims t' oid = [] \<and> refunds_of t' oid = []"
    using inv o credit_columns [OF cr rf] by (auto simp: orders_inv_def)
qed (use inv rf in \<open>auto simp: orders_inv_def\<close>)

lemma refund_amounts_Inr:
  assumes p: "payable r" and a: "refund_amounts r requested = Inr (fen, usd)"
  shows "0 < fen \<and> to_RefundedAmountRMB r + fen \<le> to_MoneyRMB r \<and> 0 \<le> usd
    \<and> usd = prorate (to_AmountUSD r) (to_MoneyRMB r) (to_RefundedAmountRMB r + fen)
          - prorate (to_AmountUSD r) (to_MoneyRMB r) (to_RefundedAmountRMB r)"
proof -
  have f: "0 < fen" "fen \<le> to_MoneyRMB r - to_RefundedAmountRMB r"
    using a by (auto simp: refund_amounts_def Let_def split: if_splits option.splits)
  have q: "proratedTopupRefundMicro (to_AmountUSD r) (to_MoneyRMB r) x = Some (prorate (to_AmountUSD r) (to_MoneyRMB r) x)"
    if "0 \<le> x" "x \<le> to_MoneyRMB r" for x using p that by (intro prorated_eq) (auto simp: payable_def)
  have b: "0 \<le> to_RefundedAmountRMB r" "to_RefundedAmountRMB r \<le> to_MoneyRMB r" using p by (simp_all add: payable_def)
  let ?rf = "if 0 < requested then requested else to_MoneyRMB r - to_RefundedAmountRMB r"
  have rf: "fen = ?rf"
    using a by (auto simp: refund_amounts_def Let_def split: if_splits option.splits)
  have q1: "proratedTopupRefundMicro (to_AmountUSD r) (to_MoneyRMB r) (to_RefundedAmountRMB r)
      = Some (prorate (to_AmountUSD r) (to_MoneyRMB r) (to_RefundedAmountRMB r))" using q b by simp
  have q2: "proratedTopupRefundMicro (to_AmountUSD r) (to_MoneyRMB r) (to_RefundedAmountRMB r + ?rf)
      = Some (prorate (to_AmountUSD r) (to_MoneyRMB r) (to_RefundedAmountRMB r + ?rf))"
    using q [of "to_RefundedAmountRMB r + ?rf"] b f unfolding rf by simp
  have "usd = prorate (to_AmountUSD r) (to_MoneyRMB r) (to_RefundedAmountRMB r + fen)
          - prorate (to_AmountUSD r) (to_MoneyRMB r) (to_RefundedAmountRMB r) \<and> 0 \<le> usd"
    using a unfolding refund_amounts_def Let_def q1 q2 option.case rf
    by (simp split: if_split_asm)
  then show ?thesis using f by simp
qed

lemma refund_columns:
  assumes bk: "refund_booked r fen usd reclaim ref t t'"
  shows "oid \<noteq> to_ID r \<Longrightarrow> refunds_of t' oid = refunds_of t oid" "oid \<noteq> to_ID r \<Longrightarrow> reclaims t' oid = reclaims t oid"
    "credits t' oid = credits t oid"
    and "\<exists>x e. refunds_of t' (to_ID r) = refunds_of t (to_ID r) @ [x] \<and> reclaims t' (to_ID r) = reclaims t (to_ID r) @ [e]
       \<and> be_AmountUSD e = reclaimed x \<and> tr_AmountFen x = fen \<and> tr_AmountMicroUSD x = usd"
    and "distinct (map tr_ExternalRefundRef (refunds t)) \<Longrightarrow> distinct (map tr_ExternalRefundRef (refunds t'))"
proof -
  obtain e :: billing_entry and x :: topup_refund where b: "billing t' = billing t @ [e]" "refunds t' = refunds t @ [x]"
    and e: "be_AmountUSD e = reclaimed x" "be_EntryType e = ''refund_topup''" "be_RelatedType e = ''topup_order''" "be_RelatedID e = to_ID r"
    and x: "tr_TopupOrderID x = to_ID r" "tr_AmountFen x = fen" "tr_AmountMicroUSD x = usd" "tr_ExternalRefundRef x \<notin> tr_ExternalRefundRef ` set (refunds t)"
    using bk unfolding refund_booked_def by blast
  show "oid \<noteq> to_ID r \<Longrightarrow> refunds_of t' oid = refunds_of t oid" "oid \<noteq> to_ID r \<Longrightarrow> reclaims t' oid = reclaims t oid"
    "credits t' oid = credits t oid"
    using e x by (simp_all add: credits_def reclaims_def refunds_of_def b)
  show "\<exists>x e. refunds_of t' (to_ID r) = refunds_of t (to_ID r) @ [x] \<and> reclaims t' (to_ID r) = reclaims t (to_ID r) @ [e]
       \<and> be_AmountUSD e = reclaimed x \<and> tr_AmountFen x = fen \<and> tr_AmountMicroUSD x = usd"
    by (rule exI [of _ x], rule exI [of _ e]) (use e x in \<open>simp add: reclaims_def refunds_of_def b\<close>)
  show "distinct (map tr_ExternalRefundRef (refunds t)) \<Longrightarrow> distinct (map tr_ExternalRefundRef (refunds t'))"
    using x(4) by (simp add: b)
qed

lemma refund_inv:
  assumes inv: "orders_inv t S" and r: "r \<in> set (topup_orders t)" "to_Status r = ''paid''"
    and am: "refund_amounts r requested = Inr (fen, usd)"
    and bk: "refund_booked ord fen usd reclaim ref t t'" and id: "ident r = ident ord"
    and os: "topup_orders t' = map (\<lambda>x. if c x then refund_row (to_RefundedAmountRMB r + fen) ref x else x) (topup_orders t)"
    and c: "\<And>x. x \<in> set (topup_orders t) \<Longrightarrow> c x \<longleftrightarrow> x = r"
  shows "orders_inv t' S"
proof (rule orders_inv_rows [OF inv os])
  have i: "to_ID r = to_ID ord" using id by (simp add: ident_def)
  have ok: "order_ok t r" by (rule inv_ok [OF inv r(1)])
  obtain y e where y: "refunds_of t' (to_ID r) = refunds_of t (to_ID r) @ [y]" "reclaims t' (to_ID r) = reclaims t (to_ID r) @ [e]"
       "be_AmountUSD e = reclaimed y" "tr_AmountFen y = fen" "tr_AmountMicroUSD y = usd"
    using refund_columns(4) [OF bk] unfolding i by blast
  have amt: "0 < fen" "to_RefundedAmountRMB r + fen \<le> to_MoneyRMB r" "0 \<le> usd"
    "usd = prorate (to_AmountUSD r) (to_MoneyRMB r) (to_RefundedAmountRMB r + fen)
          - prorate (to_AmountUSD r) (to_MoneyRMB r) (to_RefundedAmountRMB r)"
    using refund_amounts_Inr [OF _ am] ok by (auto simp: order_ok_def)
  define p where "p = refund_row (to_RefundedAmountRMB r + fen) ref r"
  have p: "to_ID p = to_ID r" "to_UserID p = to_UserID r" "to_AmountUSD p = to_AmountUSD r" "to_MoneyRMB p = to_MoneyRMB r"
    "to_RefundedAmountRMB p = to_RefundedAmountRMB r + fen"
    "to_Status p = (if to_RefundedAmountRMB r + fen = to_MoneyRMB r then ''refunded'' else ''paid'')"
    by (simp_all add: p_def refund_row_def)
  have o: "payable r" "paid_once r (credits t (to_ID r))" "refunded_exactly r (refunds_of t (to_ID r))"
    "map be_AmountUSD (reclaims t (to_ID r)) = map reclaimed (refunds_of t (to_ID r))"
    using ok by (simp_all add: order_ok_def)
  have st: "to_Status p \<in> {''paid'', ''refunded''}" by (simp add: p(6))
  have cr: "\<exists>e. credits t (to_ID r) = [e] \<and> credit_of r e" using o(2) r(2) by (auto simp: paid_once_def)
  have "payable p" using o(1) amt by (simp add: payable_def p)
  moreover have "paid_once p (credits t (to_ID r))"
    using cr st by (auto simp: paid_once_def credit_of_def p(2,3))
  moreover have "refunded_exactly p (refunds_of t (to_ID r) @ [y])"
    using o(3) amt y(4,5) unfolding refunded_exactly_def p by simp
  moreover have "credits t (to_ID r) \<noteq> []" using cr by auto
  moreover have "map be_AmountUSD (reclaims t (to_ID r) @ [e]) = map reclaimed (refunds_of t (to_ID r) @ [y])"
    using o(4) y(3) by simp
  ultimately have pok: "order_ok t' p"
    unfolding order_ok_def p(1) y(1,2) refund_columns(3) [OF bk] by blast
  fix x assume x: "x \<in> set (topup_orders t)"
  show "order_ok t' (if c x then refund_row (to_RefundedAmountRMB r + fen) ref x else x)"
  proof (cases "x = r")
    case True
    then show ?thesis using c x pok by (simp add: p_def)
  next
    case False
    then have "to_ID x \<noteq> to_ID ord" using inv_unique_id [OF inv x r(1)] i by auto
    then have "order_ok t' x"
      by (intro order_ok_frame [OF inv_ok [OF inv x]] refund_columns(1-3) [OF bk])
    then show ?thesis using False c x by simp
  qed
next
  fix oid assume o: "oid \<notin> to_ID ` set (topup_orders t)"
  then have "oid \<noteq> to_ID ord" using imageI [OF r(1), of to_ID] ident_parts [OF id] by metis
  then show "credits t' oid = [] \<and> reclaims t' oid = [] \<and> refunds_of t' oid = []"
    using inv o refund_columns [OF bk] by (auto simp: orders_inv_def)
qed (use inv refund_columns(5) [OF bk] in \<open>auto simp: orders_inv_def\<close>)

text \<open>Steps that only change columns no account depends on.\<close>

lemma column_inv:
  assumes inv: "orders_inv t S" and t': "t' = t \<lparr> topup_orders := map (\<lambda>r. if c r then f r else r) (topup_orders t) \<rparr>"
    and id: "\<And>r. ident (f r) = ident r"
    and ok: "\<And>r. c r \<Longrightarrow> order_ok t r \<Longrightarrow> order_ok t (f r)"
  shows "orders_inv t' S"
proof (rule orders_inv_rows [OF inv _ id])
  have cols: "credits t' = credits t" "reclaims t' = reclaims t" "refunds_of t' = refunds_of t" "refunds t' = refunds t"
    by (simp_all add: t' credits_def reclaims_def refunds_of_def fun_eq_iff)
  have eq: "order_ok t' = order_ok t" by (simp add: order_ok_def fun_eq_iff cols)
  show "order_ok t' (if c r then f r else r)" if "r \<in> set (topup_orders t)" for r
    unfolding eq using inv_ok [OF inv that] ok by simp
  show "credits t' oid = [] \<and> reclaims t' oid = [] \<and> refunds_of t' oid = []"
    if "oid \<notin> to_ID ` set (topup_orders t)" for oid
    using inv that unfolding cols by (simp add: orders_inv_def)
  show "distinct (map tr_ExternalRefundRef (refunds t'))" using inv unfolding cols by (simp add: orders_inv_def)
qed (simp add: t')

lemma failed_ok: "order_ok t r \<Longrightarrow> order_ok t (r \<lparr> to_Status := ''failed'' \<rparr>)"
  by (auto simp: order_ok_def payable_def paid_once_def refunded_exactly_def credit_of_def)

lemma canceled_ok: "to_Status r = ''created'' \<Longrightarrow> order_ok t r \<Longrightarrow> order_ok t (r \<lparr> to_Status := ''canceled'' \<rparr>)"
  by (auto simp: order_ok_def payable_def paid_once_def refunded_exactly_def credit_of_def)

lemma expire_Inr:
  assumes "expireStaleTopupOrders cfg now (t, fs) = (r, (t', fs'))"
  shows "t' = t \<or> t' = t \<lparr> topup_orders := map (\<lambda>r. if to_Status r = ''created'' \<and> to_CreatedAt r < expire_cutoff cfg now
    then r \<lparr> to_Status := ''canceled'' \<rparr> else r) (topup_orders t) \<rparr>"
  using assms by (auto simp: expireStaleTopupOrders_def try_tx_def tx_bind_def tx_catch_def update_orders_def stmt_def
      split: prod.splits sum.splits if_splits)

lemma gateway_ok: "order_ok t r \<Longrightarrow> order_ok t (r \<lparr> to_TradeNo := a, to_GatewayPayType := b, to_PayInfo := d \<rparr>)"
  by (simp add: order_ok_def payable_def paid_once_def refunded_exactly_def credit_of_def)

lemma create_inv:
  assumes inv: "orders_inv t S" and x: "usdMicroFromFenAndRate fen rate = Some micro"
    and ins: "insert_order provider outTradeNo uid payType fen micro rate now (t, fs) = (Inr (Some ord), (t', fs'))"
  shows "orders_inv t' (insert ord S)"
proof -
  define n where "n = Suc (length (topup_orders t))"
  have o: "ord = new_order n provider outTradeNo uid payType fen micro rate now"
    and fresh: "outTradeNo \<notin> to_OutTradeNo ` set (topup_orders t)"
    and t': "t' = t \<lparr> topup_orders := topup_orders t @ [ord] \<rparr>"
    using ins by (auto simp: insert_order_def stmt_Inr Let_def n_def list_ex_iff split: if_splits)
  have cols: "credits t' = credits t" "reclaims t' = reclaims t" "refunds_of t' = refunds_of t" "refunds t' = refunds t"
    by (simp_all add: t' credits_def reclaims_def refunds_of_def fun_eq_iff)
  have oks: "order_ok t' = order_ok t" by (simp add: order_ok_def fun_eq_iff cols)
  have ids: "map to_ID (topup_orders t) = [1..<n]" using inv by (simp add: orders_inv_def n_def)
  then have idset: "to_ID ` set (topup_orders t) = {1..<n}" by (metis list.set_map set_upt)
  then have none: "credits t n = []" "reclaims t n = []" "refunds_of t n = []"
    using inv by (auto simp: orders_inv_def)
  have "0 < fen" using x by (auto simp: usdMicroFromFenAndRate_def split: if_splits)
  then have "order_ok t ord"
    using none usdMicro_Some [OF x] unfolding o
    by (simp add: order_ok_def new_order_def payable_def paid_once_def refunded_exactly_def)
  moreover have "map to_ID (topup_orders t') = [1..<Suc (length (topup_orders t'))]"
    using ids by (simp add: t' o new_order_def n_def)
  moreover have "distinct (map to_OutTradeNo (topup_orders t'))"
    using inv fresh by (auto simp: t' o new_order_def orders_inv_def)
  moreover have "ident ` insert ord S \<subseteq> ident ` set (topup_orders t')"
    using inv by (auto simp: t' orders_inv_def)
  ultimately show ?thesis
    using inv unfolding orders_inv_def oks cols by (simp add: t')
qed

lemma other_inv:
  assumes inv: "orders_inv t S" and "topup_orders t' = topup_orders t" "refunds t' = refunds t" "billing t' = billing t @ es"
    "list_all (\<lambda>e. be_RelatedType e \<noteq> ''topup_order'') es"
  shows "orders_inv t' S"
proof -
  have cols: "credits t' = credits t" "reclaims t' = reclaims t" "refunds_of t' = refunds_of t"
    using assms(3-5) by (auto simp: credits_def reclaims_def refunds_of_def fun_eq_iff list_all_iff intro: filter_False)
  have oks: "order_ok t' = order_ok t" by (simp add: order_ok_def fun_eq_iff cols)
  show ?thesis using inv unfolding orders_inv_def oks cols assms(2,3) .
qed

lemma callback_inv:
  assumes inv: "orders_inv t S" and ord: "ord \<in> S" "to_OutTradeNo ord = we_OutTradeNo ev"
    and fin: "finalizePaidTopupTransaction now ord ev (t, fs) = (Inr a, (t', fs'))"
  shows "orders_inv t' S"
proof -
  let ?c = "\<lambda>r. to_OutTradeNo r = we_OutTradeNo ev \<and> to_Status r = ''created''"
  obtain r where r: "r \<in> set (topup_orders t)" "?c r" and cr: "credited ord t t'" and rf: "refunds t' = refunds t"
    and os: "topup_orders t' = map (\<lambda>x. if ?c x then pay_row now (take 128 (we_ExternalTradeNo ev)) x else x) (topup_orders t)"
    using finalize_Inr [OF fin] by blast
  obtain s where s: "s \<in> set (topup_orders t)" "ident s = ident ord" using inv_seen [OF inv ord(1)] by blast
  have "s = r" using inv_unique_no [OF inv s(1) r(1)] ident_parts [OF s(2)] ord(2) r(2) by simp
  then have id: "ident r = ident ord" using s(2) by simp
  show ?thesis
  proof (rule credit_inv [OF inv r(1) _ cr id rf os])
    show "to_Status r = ''created''" using r(2) by simp
    fix x assume "x \<in> set (topup_orders t)"
    then show "?c x = (x = r)" using inv_unique_no [OF inv _ r(1), of x] r(2) by metis
  qed
qed

lemma manual_inv:
  assumes inv: "orders_inv t S" and fin: "transaction (mark_paid_body now opID ord ref) (t, fs) = (Inr a, (t', fs'))"
  shows "orders_inv t' S"
proof -
  obtain fs1 where m: "mark_paid_body now opID ord ref (t, fs) = (Inr a, (t', fs1))"
    using fin unfolding transaction_Inr by blast
  obtain r where f: "find (\<lambda>r. to_ID r = to_ID ord) (topup_orders t) = Some r"
    and cr: "credited r t t'" and rf: "refunds t' = refunds t" and st: "to_Status r = ''created''"
    and os: "topup_orders t' = map (\<lambda>x. if to_ID x = to_ID r \<and> to_Status x = ''created''
          then pay_row now ref x else x) (topup_orders t)"
    using mark_paid_Inr [OF m] by blast
  have r: "r \<in> set (topup_orders t)" using find_row [OF f] by blast
  show ?thesis
  proof (rule credit_inv [OF inv r st cr refl rf os])
    fix x assume "x \<in> set (topup_orders t)"
    then show "(to_ID x = to_ID r \<and> to_Status x = ''created'') = (x = r)" using inv_unique_id [OF inv _ r, of x] st by metis
  qed
qed

lemma refund_step_inv:
  assumes inv: "orders_inv t S" and ord: "ord \<in> S"
    and fin: "transaction (refund_body now opID ord requested reclaim ref) (t, fs) = (Inr a, (t', fs'))"
  shows "orders_inv t' S"
proof -
  obtain fen usd fs1 where m: "refund_body now opID ord requested reclaim ref (t, fs) = (Inr (fen, usd), (t', fs1))"
    using fin unfolding transaction_Inr by (cases a) blast
  obtain r s where f: "find (\<lambda>r. to_ID r = to_ID ord) (topup_orders t) = Some r"
    and am: "refund_amounts r requested = Inr (fen, usd)" and bk: "refund_booked ord fen usd reclaim ref t t'"
    and s: "s \<in> set (topup_orders t)" "to_ID s = to_ID ord" "to_Status s = ''paid''" "to_RefundedAmountRMB s = to_RefundedAmountRMB r"
    and os: "topup_orders t' = map (\<lambda>x. if to_ID x = to_ID ord \<and> to_Status x = ''paid''
          \<and> to_RefundedAmountRMB x = to_RefundedAmountRMB r
          then refund_row (to_RefundedAmountRMB r + fen) ref x else x) (topup_orders t)"
    using refund_Inr [OF m] by blast
  have r: "r \<in> set (topup_orders t)" "to_ID r = to_ID ord" using find_row [OF f] by blast+
  have sr: "s = r" using inv_unique_id [OF inv s(1) r(1)] s(2) r(2) by simp
  obtain q where q: "q \<in> set (topup_orders t)" "ident q = ident ord" using inv_seen [OF inv ord] by blast
  have "q = r" using inv_unique_id [OF inv q(1) r(1)] ident_parts [OF q(2)] r(2) by simp
  then have id: "ident r = ident ord" using q(2) by simp
  show ?thesis
  proof (rule refund_inv [OF inv r(1) _ am bk id os])
    show st: "to_Status r = ''paid''" using s(3) sr by simp
    fix x assume "x \<in> set (topup_orders t)"
    then show "(to_ID x = to_ID ord \<and> to_Status x = ''paid'' \<and> to_RefundedAmountRMB x = to_RefundedAmountRMB r) = (x = r)"
      using inv_unique_id [OF inv _ r(1), of x] r(2) st by metis
  qed
qed

text \<open>A failed program of one statement or one transaction changes nothing.\<close>

lemma finalize_Inl: "finalizePaidTopupTransaction now ord ev (t, fs) = (Inl e, (t', fs')) \<Longrightarrow> t' = t"
  unfolding finalizePaidTopupTransaction_def by (rule transaction_rollback)

lemma topup_step_inv:
  assumes "topup_step w w'" and "orders_inv (fst w) (snd w)"
  shows "orders_inv (fst w') (snd w')"
  using assms
proof (induction rule: topup_step.induct)
  case (create provider outTradeNo uid payType fen micro rate now t fs ord t' fs' S)
  from create_inv [of t S, OF _ create.hyps(2,1)] create.prems show ?case by simp
next
  case (look ord t S)
  then show ?case by (auto simp: orders_inv_def)
next
  case (failed ord S t fs r t' fs')
  then show ?case
    by (cases r) (auto simp: mark_failed_def update_orders_Inr failed_ok dest: update_orders_Inl intro: column_inv)
next
  case (expire cfg now t fs r t' fs' S)
  from expire_Inr [OF expire.hyps] expire.prems show ?case by (auto intro: column_inv canceled_ok)
next
  case (gateway ord S tradeNo payType payInfo t fs r t' fs')
  then show ?case
    by (cases r) (auto simp: persist_gateway_def update_orders_Inr gateway_ok dest: update_orders_Inl intro: column_inv)
next
  case (callback ord S ev now t fs r t' fs')
  then show ?case by (cases r) (auto dest: finalize_Inl intro: callback_inv)
next
  case (manual ord S now opID ref t fs r t' fs')
  then show ?case by (cases r) (auto dest: transaction_rollback intro: manual_inv)
next
  case (refund ord S now opID requested reclaim ref t fs r' t' fs')
  then show ?case by (cases r') (auto dest: transaction_rollback intro: refund_step_inv)
next
  case (other t' t es S)
  from other_inv [OF _ other.hyps(1-4)] other.prems show ?case by simp
qed

text \<open>The books.\<close>

lemma refund_reconciled:
  assumes bk: "refund_booked r fen usd reclaim ref t t'" and rec: "reconciled opening t"
  shows "reconciled opening t'"
proof -
  obtain u :: user and e :: billing_entry and x :: topup_refund where u: "users t (to_UserID r) = Some u"
    and e: "billing t' = billing t @ [e]" "be_UserID e = to_UserID r" "be_AmountUSD e = reclaimed x"
    and x: "tr_AmountMicroUSD x = usd" "tr_ReclaimQuota x = reclaim"
    and us: "users t' = (users t)(to_UserID r \<mapsto> u
         \<lparr> u_PaidQuota := (if usd \<le> u_PaidQuota u then u_PaidQuota u - usd else 0),
           u_Quota := (if reclaim then u_Quota u - usd else u_Quota u) \<rparr>)"
    using bk unfolding refund_booked_def by blast
  have a: "be_AmountUSD e = (if reclaim then - usd else 0)" using e(3) x by (simp add: reclaimed_def)
  show ?thesis
    by (rule reconciled_post [OF rec _ e(1), of u]) (use u e(2) a in \<open>auto simp: us split: if_splits\<close>)
qed

lemma topup_step_reconciled:
  assumes "topup_step w w'" and "reconciled opening (fst w)"
  shows "reconciled opening (fst w')"
  using assms
proof (induction rule: topup_step.induct)
  case (create provider outTradeNo uid payType fen micro rate now t fs ord t' fs' S)
  then show ?case by (auto simp: insert_order_def stmt_Inr Let_def split: if_splits)
next
  case (failed ord S t fs r t' fs')
  then show ?case by (cases r) (auto simp: mark_failed_def update_orders_Inr dest: update_orders_Inl)
next
  case (expire cfg now t fs r t' fs' S)
  from expire_Inr [OF expire.hyps] expire.prems show ?case by auto
next
  case (gateway ord S tradeNo payType payInfo t fs r t' fs')
  then show ?case by (cases r) (auto simp: persist_gateway_def update_orders_Inr dest: update_orders_Inl)
next
  case (callback ord S ev now t fs r t' fs')
  then show ?case by (cases r) (auto dest: finalize_Inl finalize_Inr intro: credited_reconciled)
next
  case (manual ord S now opID ref t fs r t' fs')
  then show ?case
    by (cases r) (auto simp: transaction_Inr dest: transaction_rollback dest!: mark_paid_Inr intro: credited_reconciled)
next
  case (refund ord S now opID requested reclaim ref t fs r' t' fs')
  then show ?case
    by (cases r') (auto simp: transaction_Inr dest: transaction_rollback dest!: refund_Inr intro: refund_reconciled)
qed auto

text \<open>The machine of the orders.\<close>

interpretation orders: server "\<lambda>w. no_orders (fst w) \<and> snd w = {}" topup_step "\<lambda>w. orders_inv (fst w) (snd w)"
proof unfold_locales
  fix w show "topup_step w w"
    by (cases w) (auto intro: topup_step.other [where es = "[]"])
qed (auto dest: no_orders_inv intro: topup_step_inv topup_step_reconciled)

lemmas orders_reachable = orders.reachable_inv [of "(t0, {})" "(t, S)" for t0 t S, simplified]

subsection \<open>Properties\<close>

text \<open>C3: Each order is credited at most once. However callbacks, manual marks, failure marks,
  refunds and the sweep of old orders interleave, on copies of orders as stale as they like and
  with any statements failing, the ledger never holds two credits of an order; it holds none
  while the order waits or is canceled, and exactly one while the order is paid or refunded,
  always for the amount and the user of the order. The only other status is failed, and an order
  marked failed may have been credited before: the mark has no guard on the status, see
  \<open>paid_order_marked_failed\<close> below. And whoever's opening balances the ledger accounted for,
  it still does.\<close>

theorem order_credited_once:
  assumes "no_orders t0" and "topup_step\<^sup>*\<^sup>* (t0, {}) (t, S)" and "r \<in> set (topup_orders t)"
  shows "length (credits t (to_ID r)) \<le> 1 \<and> list_all (credit_of r) (credits t (to_ID r))
    \<and> to_Status r \<in> {''created'', ''canceled'', ''failed'', ''paid'', ''refunded''}
    \<and> (to_Status r \<in> {''created'', ''canceled''} \<longrightarrow> credits t (to_ID r) = [])
    \<and> (to_Status r \<in> {''paid'', ''refunded''} \<longrightarrow> length (credits t (to_ID r)) = 1)
    \<and> (reconciled opening t0 \<longrightarrow> reconciled opening t)"
proof -
  have "orders_inv t S" by (rule orders_reachable [OF assms(1,2)])
  then have "paid_once r (credits t (to_ID r))" using inv_ok assms(3) by (auto simp: order_ok_def)
  then have "length (credits t (to_ID r)) \<le> 1 \<and> list_all (credit_of r) (credits t (to_ID r))
    \<and> to_Status r \<in> {''created'', ''canceled'', ''failed'', ''paid'', ''refunded''}
    \<and> (to_Status r \<in> {''created'', ''canceled''} \<longrightarrow> credits t (to_ID r) = [])
    \<and> (to_Status r \<in> {''paid'', ''refunded''} \<longrightarrow> length (credits t (to_ID r)) = 1)"
    unfolding paid_once_def by auto
  moreover have "reconciled opening t0 \<longrightarrow> reconciled opening t"
    using orders.reachable_books [OF _ assms(2)] assms(1) by simp
  ultimately show ?thesis by blast
qed

definition order_user :: user where
  "order_user = \<lparr> u_Username = ''ann'', u_Role = ''user'', u_Status = 1, u_Quota = 50, u_PaidQuota = 0,
     u_ReferredByUserID = 0, u_ReferredAt = None, u_BalanceConsumeEnabled = True, u_BalanceConsumeLimitUSD = 0,
     u_BalanceConsumeWindowSeconds = 0, u_BalanceConsumeWindowStartAt = None, u_BalanceConsumedInWindow = 0 \<rparr>"

definition orders_start :: tables where
  "orders_start = empty_tables \<lparr> users := [3 \<mapsto> order_user] \<rparr>"

definition demo_order :: topup_order where
  "demo_order = new_order 1 ''yifut'' ''tp3'' 3 ''alipay'' 10000 13888888 7200000 0"

definition demo_event :: webhook_event where
  "demo_event = \<lparr> we_Kind = ''paid'', we_OutTradeNo = ''tp3'', we_ExternalTradeNo = ''y1'', we_Nonce = ''yifut:tp3:ab'',
     we_AmountKind = ''fen_cny'', we_AmountRaw = 10000, we_CurrencyOriginal = ''CNY'' \<rparr>"

definition orders_placed :: tables where
  "orders_placed = orders_start \<lparr> topup_orders := [demo_order] \<rparr>"

definition orders_paid :: tables where
  "orders_paid = fst (snd (finalizePaidTopupTransaction 7 demo_order demo_event (orders_placed, [])))"

lemma demo_placed: "topup_step (orders_start, {}) (orders_placed, {demo_order})"
proof -
  have "insert_order ''yifut'' ''tp3'' 3 ''alipay'' 10000 13888888 7200000 0 (orders_start, [])
      = (Inr (Some demo_order), (orders_placed, []))"
    by (simp add: insert_order_def orders_start_def orders_placed_def demo_order_def Let_def)
  moreover have "usdMicroFromFenAndRate 10000 7200000 = Some 13888888"
    by (simp add: usdMicroFromFenAndRate_def sdiv_nonneg i64_defs)
  ultimately show ?thesis by (rule topup_step.create)
qed

lemma demo_paid: "finalizePaidTopupTransaction 7 demo_order demo_event (orders_placed, []) = (Inr (), (orders_paid, []))"
proof -
  have "fst (finalizePaidTopupTransaction 7 demo_order demo_event (orders_placed, [])) = Inr ()"
    "snd (snd (finalizePaidTopupTransaction 7 demo_order demo_event (orders_placed, []))) = []"
    by (simp_all add: finalizePaidTopupTransaction_def transaction_def tx_bind_def update_orders_def credit_order_def
        add_quota_def update_user_if_def orders_placed_def orders_start_def demo_order_def new_order_def demo_event_def
        topup_entry_def WriteBillingEntry_def insert_entry_def related_taken_def tx_bind_def blank_entry_def IsKnownBillingType_def IsKnownBillingState_def
        known_states_def IsZeroAmountBillingType_def Let_def)
  then show ?thesis unfolding orders_paid_def by (metis prod.collapse)
qed

lemma demo_run: "topup_step\<^sup>*\<^sup>* (orders_start, {}) (orders_paid, {demo_order})"
proof -
  have "topup_step (orders_placed, {demo_order}) (orders_paid, {demo_order})"
    by (rule topup_step.callback [OF _ _ demo_paid]) (simp_all add: demo_order_def new_order_def demo_event_def)
  with demo_placed show ?thesis by (meson r_into_rtranclp rtranclp.rtrancl_into_rtrancl)
qed

lemma demo_rows: "topup_orders orders_paid = [pay_row 7 ''y1'' demo_order]" "no_orders orders_start"
  using finalize_Inr [OF demo_paid]
  by (simp_all add: orders_placed_def demo_order_def new_order_def demo_event_def orders_start_def no_orders_def)

theorem order_credited_once_witness:
  "length (credits orders_paid 1) = 1 \<and> reconciled (\<lambda>_. 50) orders_paid"
proof -
  have r: "pay_row 7 ''y1'' demo_order \<in> set (topup_orders orders_paid)" by (simp add: demo_rows(1))
  have "reconciled (\<lambda>_. 50) orders_start"
    by (simp add: reconciled_def orders_start_def order_user_def)
  with order_credited_once [OF demo_rows(2) demo_run r, of "\<lambda>_. 50"] show ?thesis
    by (simp add: pay_row_def demo_order_def new_order_def)
qed

text \<open>The share of the credit that belongs to the refunded part of a payment, rounded half up: the
  integer that the two inequalities pin down.\<close>

lemma share_unique:
  assumes "0 < F"
  shows "(2 * F * s \<le> 2 * (a * r) + F \<and> 2 * (a * r) + F < 2 * F * (s + 1)) \<longleftrightarrow> s = prorate a F r"
proof -
  define n where "n = 2 * (a * r) + F"
  have q: "prorate a F r = n div (2 * F)" by (simp add: prorate_def n_def mult.assoc)
  have "(2 * F * s \<le> n \<and> n < 2 * F * (s + 1)) \<longleftrightarrow> s = n div (2 * F)"
  proof
    assume "2 * F * s \<le> n \<and> n < 2 * F * (s + 1)"
    then show "s = n div (2 * F)"
      using int_div_pos_eq [of n "2 * F" s "n - 2 * F * s"] by (simp add: algebra_simps)
  next
    assume s: "s = n div (2 * F)"
    have "n = 2 * F * s + n mod (2 * F)" unfolding s by (simp only: mult_div_mod_eq)
    moreover have "0 \<le> n mod (2 * F)" "n mod (2 * F) < 2 * F" using assms by simp_all
    moreover have "2 * F * (s + 1) = 2 * F * s + 2 * F" by (simp add: algebra_simps)
    ultimately show "2 * F * s \<le> n \<and> n < 2 * F * (s + 1)" by linarith
  qed
  then show ?thesis unfolding q n_def .
qed

text \<open>C10: Refunds are exact and bounded. In every reachable state the refunds registered for an order
  add up to its refunded amount, at most the payment. The micro-dollars attributed to them add up,
  after every partial refund, to the proportional share of the credit, amount times refunded over
  paid, rounded half up (\<open>s\<close> is that integer exactly when \<open>2 F s \<le> 2 a r + F < 2 F (s + 1)\<close>);
  so to at most what was credited, and to all of it once the order is refunded. What was taken
  back from the balance is exactly the part of the refunds that asked for it; no refund exists
  without a credit, and no reference is used twice.\<close>

theorem refunds_exact:
  assumes "no_orders t0" and "topup_step\<^sup>*\<^sup>* (t0, {}) (t, S)" and "r \<in> set (topup_orders t)"
  shows "sum_list (map tr_AmountFen (refunds_of t (to_ID r))) = to_RefundedAmountRMB r
    \<and> to_RefundedAmountRMB r \<le> to_MoneyRMB r
    \<and> 2 * to_MoneyRMB r * sum_list (map tr_AmountMicroUSD (refunds_of t (to_ID r)))
        \<le> 2 * (to_AmountUSD r * to_RefundedAmountRMB r) + to_MoneyRMB r
    \<and> 2 * (to_AmountUSD r * to_RefundedAmountRMB r) + to_MoneyRMB r
        < 2 * to_MoneyRMB r * (sum_list (map tr_AmountMicroUSD (refunds_of t (to_ID r))) + 1)
    \<and> sum_list (map tr_AmountMicroUSD (refunds_of t (to_ID r))) \<le> to_AmountUSD r
    \<and> (to_Status r = ''refunded'' \<longrightarrow> sum_list (map tr_AmountMicroUSD (refunds_of t (to_ID r))) = to_AmountUSD r)
    \<and> map be_AmountUSD (reclaims t (to_ID r)) = map reclaimed (refunds_of t (to_ID r))
    \<and> (credits t (to_ID r) = [] \<longrightarrow> refunds_of t (to_ID r) = [])
    \<and> distinct (map tr_ExternalRefundRef (refunds t))"
proof -
  have inv: "orders_inv t S" by (rule orders_reachable [OF assms(1,2)])
  have ok: "order_ok t r" by (rule inv_ok [OF inv assms(3)])
  then have p: "payable r" and x: "refunded_exactly r (refunds_of t (to_ID r))" by (simp_all add: order_ok_def)
  have "prorate (to_AmountUSD r) (to_MoneyRMB r) (to_RefundedAmountRMB r) \<le> to_AmountUSD r"
    using p prorate_bounds [of "to_AmountUSD r" "to_MoneyRMB r" "to_RefundedAmountRMB r"] by (simp add: payable_def)
  moreover have "distinct (map tr_ExternalRefundRef (refunds t))" using inv by (simp add: orders_inv_def)
  moreover have "sum_list (map tr_AmountMicroUSD (refunds_of t (to_ID r)))
      = prorate (to_AmountUSD r) (to_MoneyRMB r) (to_RefundedAmountRMB r)"
    using x by (simp add: refunded_exactly_def)
  moreover note share_unique [of "to_MoneyRMB r" "sum_list (map tr_AmountMicroUSD (refunds_of t (to_ID r)))"
      "to_AmountUSD r" "to_RefundedAmountRMB r"]
  ultimately show ?thesis using ok p x by (simp add: order_ok_def payable_def refunded_exactly_def)
qed

definition orders_refunded :: tables where
  "orders_refunded = fst (snd (transaction (refund_body 9 1 demo_order 4000 True ''r1'') (orders_paid, [])))"

lemma demo_refunded: "transaction (refund_body 9 1 demo_order 4000 True ''r1'') (orders_paid, [])
    = (Inr (4000, 5555555), (orders_refunded, []))"
proof -
  obtain u :: user and e :: billing_entry where u: "users orders_paid 3 = Some u"
    and b: "billing orders_paid = [e]" "be_EntryType e = ''topup''"
    using demo_paid
    by (auto dest!: finalize_Inr simp: credited_def demo_order_def new_order_def orders_placed_def orders_start_def)
  have p: "proratedTopupRefundMicro 13888888 10000 0 = Some 0" "proratedTopupRefundMicro 13888888 10000 4000 = Some 5555555"
    by (simp_all add: prorated_eq i64_defs prorate_def)
  have sub: "subscriptions orders_paid = Map.empty" "refunds orders_paid = []"
    by (simp_all add: orders_paid_def finalizePaidTopupTransaction_def transaction_def tx_bind_def update_orders_def credit_order_def
        add_quota_def update_user_if_def orders_placed_def orders_start_def demo_order_def new_order_def demo_event_def
        topup_entry_def WriteBillingEntry_def insert_entry_def related_taken_def tx_bind_def blank_entry_def IsKnownBillingType_def IsKnownBillingState_def
        known_states_def IsZeroAmountBillingType_def Let_def)
  have "fst (transaction (refund_body 9 1 demo_order 4000 True ''r1'') (orders_paid, [])) = Inr (4000, 5555555)"
    "snd (snd (transaction (refund_body 9 1 demo_order 4000 True ''r1'') (orders_paid, []))) = []"
    by (simp_all add: transaction_def refund_body_def tx_bind_def lockUserForUpdate_def u b first_order_def demo_rows(1) p
        refund_amounts_def Let_def pay_row_def demo_order_def new_order_def refund_ref_used_def unrefunded_sub_def sub
        update_orders_def book_refund_def reclassify_def update_user_if_def refund_entry_def WriteBillingEntry_def insert_entry_def related_taken_def
        blank_entry_def IsKnownBillingType_def IsKnownBillingState_def known_states_def IsZeroAmountBillingType_def
        insert_refund_def LogOperationByTx_def LogOperationByTxReturning_def)
  then show ?thesis unfolding orders_refunded_def by (metis prod.collapse)
qed

lemma demo_refund_run:
  "topup_step\<^sup>*\<^sup>* (orders_start, {}) (orders_refunded, {demo_order})
    \<and> topup_orders orders_refunded = [refund_row 4000 ''r1'' (pay_row 7 ''y1'' demo_order)]
    \<and> refunds_of orders_refunded 1 \<noteq> []"
proof -
  have s: "topup_step (orders_paid, {demo_order}) (orders_refunded, {demo_order})"
    by (rule topup_step.refund [OF _ demo_refunded]) simp
  have run: "topup_step\<^sup>*\<^sup>* (orders_start, {}) (orders_refunded, {demo_order})"
    using demo_run s by (rule rtranclp.rtrancl_into_rtrancl)
  obtain fs1 where m: "refund_body 9 1 demo_order 4000 True ''r1'' (orders_paid, []) = (Inr (4000, 5555555), (orders_refunded, fs1))"
    using demo_refunded unfolding transaction_Inr by blast
  have rows: "topup_orders orders_refunded = [refund_row 4000 ''r1'' (pay_row 7 ''y1'' demo_order)]"
    using refund_Inr [OF m] by (auto simp: demo_rows(1) pay_row_def demo_order_def new_order_def)
  have "refunds_of orders_refunded 1 \<noteq> []"
    using refund_Inr [OF m] by (auto simp: refund_booked_def refunds_of_def demo_order_def new_order_def)
  with run rows show ?thesis by blast
qed

theorem refunds_exact_witness:
  "\<exists>r \<in> set (topup_orders orders_refunded).
      sum_list (map tr_AmountFen (refunds_of orders_refunded (to_ID r))) = 4000 \<and> to_RefundedAmountRMB r = 4000
      \<and> to_MoneyRMB r = 10000 \<and> to_AmountUSD r = 13888888
      \<and> sum_list (map tr_AmountMicroUSD (refunds_of orders_refunded (to_ID r))) = 5555555"
proof -
  have run: "topup_step\<^sup>*\<^sup>* (orders_start, {}) (orders_refunded, {demo_order})"
    and rows: "topup_orders orders_refunded = [refund_row 4000 ''r1'' (pay_row 7 ''y1'' demo_order)]"
    using demo_refund_run by blast+
  define r where "r = refund_row 4000 ''r1'' (pay_row 7 ''y1'' demo_order)"
  have r: "r \<in> set (topup_orders orders_refunded)" by (simp add: rows r_def)
  have a: "to_RefundedAmountRMB r = 4000" "to_MoneyRMB r = 10000" "to_AmountUSD r = 13888888"
    by (simp_all add: r_def refund_row_def pay_row_def demo_order_def new_order_def)
  show ?thesis
    by (rule bexI [OF _ r]) (use refunds_exact [OF demo_rows(2) run r] a in simp)
qed

text \<open>What marking failed by the key alone does to a paid order. A request whose gateway call fails
  or times out marks the order it created as failed, whatever happened to the order meanwhile:
  when the payment was reported first, the order ends as failed while its credit stays in the
  ledger and on the balance, and no refund is possible any more.\<close>

theorem paid_order_marked_failed:
  assumes "no_orders t0" and "topup_step\<^sup>*\<^sup>* (t0, {}) (t, S)" and "r \<in> set (topup_orders t)"
    and "to_Status r = ''paid''" and "ord \<in> S" and "to_ID ord = to_ID r"
  shows "\<exists>n t'. mark_failed ord (t, []) = (Inr n, (t', [])) \<and> topup_step\<^sup>*\<^sup>* (t0, {}) (t', S)
    \<and> r \<lparr> to_Status := ''failed'' \<rparr> \<in> set (topup_orders t') \<and> length (credits t' (to_ID r)) = 1
    \<and> users t' = users t"
proof -
  define t' where "t' = t \<lparr> topup_orders := map (\<lambda>x. if to_ID x = to_ID ord then x \<lparr> to_Status := ''failed'' \<rparr> else x)
    (topup_orders t) \<rparr>"
  have inv: "orders_inv t S" by (rule orders_reachable [OF assms(1,2)])
  have m: "mark_failed ord (t, []) = (Inr (length (filter (\<lambda>r. to_ID r = to_ID ord) (topup_orders t))), (t', []))"
    by (simp add: mark_failed_def update_orders_Inr t'_def)
  have "topup_step\<^sup>*\<^sup>* (t0, {}) (t', S)"
    by (rule rtranclp.rtrancl_into_rtrancl [OF assms(2) topup_step.failed [OF assms(5) m]])
  moreover have "r \<lparr> to_Status := ''failed'' \<rparr> \<in> set (topup_orders t')"
    using assms(3,6) by (force simp: t'_def)
  moreover have "length (credits t' (to_ID r)) = 1"
    using inv_ok [OF inv assms(3)] assms(4) by (auto simp: order_ok_def paid_once_def credits_def t'_def)
  ultimately show ?thesis using m by (auto simp: t'_def)
qed

theorem paid_order_marked_failed_witness:
  "\<exists>n t'. mark_failed demo_order (orders_paid, []) = (Inr n, (t', []))
    \<and> pay_row 7 ''y1'' demo_order \<lparr> to_Status := ''failed'' \<rparr> \<in> set (topup_orders t') \<and> length (credits t' 1) = 1"
  using paid_order_marked_failed [OF demo_rows(2) demo_run, of "pay_row 7 ''y1'' demo_order" demo_order]
  by (auto simp: demo_rows(1) pay_row_def demo_order_def new_order_def)

end
