(* ===== verification/GoNet.thy ===== *)
theory GoNet
  imports GoStr
begin

section \<open>IP addresses and prefixes of Go\<close>

text \<open>
  The parts of the library packages \<^verbatim>\<open>net\<close> and \<^verbatim>\<open>net/netip\<close> the code relies on:
  \<^verbatim>\<open>ParseIP\<close> (dotted decimal and IPv6 with one ellipsis and an embedded IPv4 tail),
  \<^verbatim>\<open>ParseCIDR\<close> and \<^verbatim>\<open>Contains\<close>. An address is a number below \<open>2 ^ 128\<close>, with an IPv4
  address in its IPv6-mapped form, as \<^verbatim>\<open>net.IP\<close> stores it.
\<close>

definition v4_prefix :: nat where
  "v4_prefix = 0xFFFF * 2 ^ 32"

definition is_v4 :: "nat \<Rightarrow> bool" where
  "is_v4 a \<longleftrightarrow> a div 2 ^ 32 = 0xFFFF"

subsection \<open>Parsing\<close>

definition parse_octet :: "string \<Rightarrow> nat option" where
  "parse_octet s = (if s = '''' \<or> \<not> list_all is_digit s then None
     else if hd s = CHR ''0'' \<and> 1 < length s then None
     else if 255 < digits_val s then None else Some (digits_val s))"

definition parse_v4 :: "string \<Rightarrow> nat option" where
  "parse_v4 s = (case map parse_octet (split_on (CHR ''.'') s) of
      [Some a, Some b, Some c, Some d] \<Rightarrow> Some (((a * 256 + b) * 256 + c) * 256 + d)
    | _ \<Rightarrow> None)"

definition hex_digit :: "char \<Rightarrow> nat" where
  "hex_digit c = (if is_digit c then byte c - 48 else if 97 \<le> byte c then byte c - 87 else byte c - 55)"

definition hex_group :: "string \<Rightarrow> nat" where
  "hex_group s = foldl (\<lambda>a c. a * 16 + hex_digit c) 0 s"

text \<open>The loop over the groups of an IPv6 address: the groups so far, the place of the ellipsis,
  and the rest of the string; the result is the groups of sixteen bits and the ellipsis. At
  most eight rounds are made; a string that is not used up then is refused.\<close>

fun v6_loop :: "nat \<Rightarrow> nat list \<Rightarrow> nat option \<Rightarrow> string \<Rightarrow> (nat list \<times> nat option) option" where
  "v6_loop 0 gs e s = (if s = '''' then Some (gs, e) else None)"
| "v6_loop (Suc n) gs e s =
     (let h = takeWhile is_hex s; r = dropWhile is_hex s in
      if h = '''' \<or> 4 < length h then None
      else if r \<noteq> '''' \<and> hd r = CHR ''.'' then
        (if e = None \<and> length gs \<noteq> 6 \<or> 6 < length gs then None
         else case parse_v4 s of None \<Rightarrow> None
           | Some a \<Rightarrow> Some (gs @ [a div 65536, a mod 65536], e))
      else let gs' = gs @ [hex_group h] in
        if r = '''' then Some (gs', e)
        else if hd r \<noteq> CHR '':'' \<or> tl r = '''' then None
        else let t = tl r in
          if hd t = CHR '':'' then
            (if e \<noteq> None then None
             else if tl t = '''' then Some (gs', Some (length gs'))
             else v6_loop n gs' (Some (length gs')) (tl t))
          else v6_loop n gs' e t)"

definition groups_addr :: "nat list \<Rightarrow> nat" where
  "groups_addr gs = foldl (\<lambda>a g. a * 65536 + g) 0 gs"

definition parse_v6 :: "string \<Rightarrow> nat option" where
  "parse_v6 s =
     (let lead = take 2 s = ''::'' in
      if lead \<and> length s = 2 then Some 0
      else case v6_loop 8 [] (if lead then Some 0 else None) (if lead then drop 2 s else s) of
          None \<Rightarrow> None
        | Some (gs, e) \<Rightarrow>
            if length gs < 8 then
              (case e of None \<Rightarrow> None
               | Some i \<Rightarrow> Some (groups_addr (take i gs @ replicate (8 - length gs) 0 @ drop i gs)))
            else if e \<noteq> None then None else Some (groups_addr gs))"

text \<open>The first of the characters dot, colon and percent decides; a zone is refused by
  \<^verbatim>\<open>net.ParseIP\<close> and, with an address of either kind, needs the percent sign.\<close>

definition ParseIP :: "string \<Rightarrow> nat option" where
  "ParseIP s =
     (if CHR ''%'' \<in> set s then None
      else case dropWhile (\<lambda>c. c \<noteq> CHR ''.'' \<and> c \<noteq> CHR '':'') s of
          [] \<Rightarrow> None
        | c # _ \<Rightarrow> if c = CHR ''.'' then map_option ((+) v4_prefix) (parse_v4 s) else parse_v6 s)"

subsection \<open>Networks\<close>

text \<open>A network: whether it was written in IPv4, its address and the number of fixed bits.\<close>

type_synonym ip_net = "bool \<times> nat \<times> nat"

definition ParseCIDR :: "string \<Rightarrow> ip_net option" where
  "ParseCIDR s =
     (case cut_at (CHR ''/'') s of
        (_, None) \<Rightarrow> None
      | (a, Some m) \<Rightarrow>
          (case (ParseIP a, if m \<noteq> '''' \<and> list_all is_digit m then Some (digits_val m) else None) of
             (Some ip, Some n) \<Rightarrow>
               (let v4 = (CHR '':'' \<notin> set a) in
                if (if v4 then 32 else 128) < n then None else Some (v4, ip, n))
           | _ \<Rightarrow> None))"

text \<open>The network of an address in the mapped range written in IPv6 keeps the last four bytes of
  its address and mask only.\<close>

definition net_Contains :: "ip_net \<Rightarrow> nat \<Rightarrow> bool" where
  "net_Contains net ip = (case net of (v4, a, n) \<Rightarrow>
     let masked = (if v4 then a else a div 2 ^ (128 - n) * 2 ^ (128 - n));
         short = is_v4 masked;
         bits = (if v4 then n else if short then n - 96 else n);
         width = (if short then 32 else 128)
     in short = is_v4 ip \<and> ip div 2 ^ (width - bits) = masked div 2 ^ (width - bits))"

lemma v4_contains:
  assumes "a < 2 ^ 32" and "b < 2 ^ 32" and "n \<le> 32"
  shows "net_Contains (True, v4_prefix + a, n) (v4_prefix + b) \<longleftrightarrow> a div 2 ^ (32 - n) = b div 2 ^ (32 - n)"
proof -
  have v: "is_v4 (v4_prefix + x)" if "x < 2 ^ 32" for x using that by (simp add: is_v4_def v4_prefix_def)
  have e: "v4_prefix = (0xFFFF * 2 ^ n) * 2 ^ (32 - n)"
    using assms(3) by (simp add: v4_prefix_def mult.assoc power_add [symmetric])
  have d: "(v4_prefix + x) div 2 ^ (32 - n) = 0xFFFF * 2 ^ n + x div 2 ^ (32 - n)" for x
    unfolding e by (rule div_mult_self3) simp
  show ?thesis using v [OF assms(1)] v [OF assms(2)] by (auto simp: net_Contains_def Let_def d)
qed

end
