(* ===== verification/GoJson.thy ===== *)
theory GoJson
  imports GoFloat GoStr
begin

section \<open>Go JSON decoding\<close>

text \<open>
  \<^verbatim>\<open>encoding/json\<close> as the components use it: a parser of JSON text into values, with numbers
  kept as their literals, and the decoding of scalars into Go fields. Object members keep
  their order, since a later duplicate overwrites an earlier one. The parser counts down a
  fuel of twice the length of the text, which every call of it consumes more slowly than the
  text. The decoder's nesting limit of ten thousand is not modelled.
\<close>

datatype json = JNull | JBool bool | JNum string | JStr string
  | JArr "json list" | JObj "(string \<times> json) list"

subsection \<open>Strings\<close>

definition hex_val :: "char \<Rightarrow> nat" where
  "hex_val c = (if is_digit c then byte c - 48 else if byte c < 97 then byte c - 55 else byte c - 87)"

definition utf8_encode :: "nat \<Rightarrow> string" where
  "utf8_encode n =
     (if n < 0x80 then [char_of n]
      else if n < 0x800 then [char_of (0xC0 + n div 64), char_of (0x80 + n mod 64)]
      else if n < 0x10000
      then [char_of (0xE0 + n div 4096), char_of (0x80 + n div 64 mod 64), char_of (0x80 + n mod 64)]
      else [char_of (0xF0 + n div 262144), char_of (0x80 + n div 4096 mod 64),
            char_of (0x80 + n div 64 mod 64), char_of (0x80 + n mod 64)])"

text \<open>Four hexadecimal digits at the head of a string.\<close>

definition hex4 :: "string \<Rightarrow> nat option" where
  "hex4 s = (if 4 \<le> length s \<and> list_all is_hex (take 4 s)
     then Some (foldl (\<lambda>n c. n * 16 + hex_val c) 0 (take 4 s)) else None)"

text \<open>What follows a backslash: the bytes it stands for, and the rest. A lone surrogate stands
  for U+FFFD.\<close>

definition escape_step :: "string \<Rightarrow> (string \<times> string) option" where
  "escape_step s = (case s of [] \<Rightarrow> None | e # t \<Rightarrow>
     if e \<in> {CHR 0x22, CHR 0x5C, CHR 0x2F} then Some ([e], t)
     else if e = CHR ''b'' then Some ([CHR 0x08], t)
     else if e = CHR ''f'' then Some ([CHR 0x0C], t)
     else if e = CHR ''n'' then Some ([CHR 0x0A], t)
     else if e = CHR ''r'' then Some ([CHR 0x0D], t)
     else if e = CHR ''t'' then Some ([CHR 0x09], t)
     else if e = CHR ''u'' then
       (case hex4 t of None \<Rightarrow> None
        | Some a \<Rightarrow> let t' = drop 4 t in
            if 0xD800 \<le> a \<and> a < 0xE000 then
              (case (if a < 0xDC00 \<and> prefix [CHR 0x5C, CHR ''u''] t' then hex4 (drop 2 t') else None) of
                 Some b \<Rightarrow> if 0xDC00 \<le> b \<and> b < 0xE000
                           then Some (utf8_encode (0x10000 + (a - 0xD800) * 0x400 + (b - 0xDC00)), drop 6 t')
                           else Some (rune_error, t')
               | None \<Rightarrow> Some (rune_error, t'))
            else Some (utf8_encode a, t'))
     else None)"

lemma escape_step_length: "escape_step s = Some (b, t) \<Longrightarrow> length t < length s"
  by (auto simp: escape_step_def Let_def split: list.splits if_splits option.splits)

function unquote_raw :: "string \<Rightarrow> (string \<times> string) option" where
  "unquote_raw s = (case s of [] \<Rightarrow> None | c # t \<Rightarrow>
     if c = CHR 0x22 then Some ([], t)
     else if c = CHR 0x5C then
       (case escape_step t of None \<Rightarrow> None
        | Some (b, t') \<Rightarrow> map_option (\<lambda>(r, u). (b @ r, u)) (unquote_raw t'))
     else if byte c < 32 then None
     else map_option (\<lambda>(r, u). (c # r, u)) (unquote_raw t))"
  by pat_completeness auto
termination
  by (relation "measure length") (auto dest: escape_step_length)

declare unquote_raw.simps [simp del]

definition unquote :: "string \<Rightarrow> (string \<times> string) option" where
  "unquote s = map_option (\<lambda>(r, u). (concat (utf8_runes r), u)) (unquote_raw s)"

subsection \<open>Numbers\<close>

definition span_digits :: "string \<Rightarrow> string \<times> string" where
  "span_digits s = (takeWhile is_digit s, dropWhile is_digit s)"

definition number_parts :: "string \<Rightarrow> (string \<times> string \<times> string \<times> string) option" where
  "number_parts s =
     (let (sg, s1) = (if prefix ''-'' s then (''-'', tl s) else ('''', s));
          (ip, s2) = (if prefix ''0'' s1 then (''0'', tl s1) else span_digits s1)
      in if ip = '''' then None
         else if prefix ''.'' s2 \<and> fst (span_digits (tl s2)) = '''' then None
         else let (fp, s3) = (if prefix ''.'' s2 then span_digits (tl s2) else ('''', s2)) in
           if prefix ''e'' s3 \<or> prefix ''E'' s3
           then let es = (if prefix ''-'' (tl s3) then ''-'' else '''');
                    s4 = (if prefix ''-'' (tl s3) \<or> prefix ''+'' (tl s3) then tl (tl s3) else tl s3);
                    (ed, s5) = span_digits s4
                in if ed = '''' then None else Some (sg @ ip, fp, es @ ed, s5)
           else Some (sg @ ip, fp, '''', s3))"

definition number_rat :: "string \<Rightarrow> rat" where
  "number_rat lit = (case number_parts lit of None \<Rightarrow> 0
     | Some (ip, fp, ex, _) \<Rightarrow>
         let neg = prefix ''-'' ip;
             m = int (digits_val ((if neg then tl ip else ip) @ fp));
             e = (if prefix ''-'' ex then - int (digits_val (tl ex)) else int (digits_val ex)) - int (length fp)
         in (if neg then -1 else 1) * of_int m * (if 0 \<le> e then 10 ^ nat e else 1 / 10 ^ nat (- e)))"

text \<open>\<^verbatim>\<open>strconv.ParseFloat\<close> of a literal; out of range is an error.\<close>

definition number_f64 :: "string \<Rightarrow> f64 option" where
  "number_f64 lit = (case fl (number_rat lit) of Fin r \<Rightarrow> Some (Fin r) | _ \<Rightarrow> None)"

subsection \<open>Values\<close>

definition skip_ws :: "string \<Rightarrow> string" where
  "skip_ws s = dropWhile (\<lambda>c. c \<in> {CHR 0x20, CHR 0x09, CHR 0x0A, CHR 0x0D}) s"

definition parse_number :: "string \<Rightarrow> (json \<times> string) option" where
  "parse_number s = (case number_parts s of None \<Rightarrow> None
     | Some (_, _, _, r) \<Rightarrow> Some (JNum (take (length s - length r) s), r))"

fun parse_value :: "nat \<Rightarrow> string \<Rightarrow> (json \<times> string) option"
  and parse_elems :: "nat \<Rightarrow> string \<Rightarrow> (json list \<times> string) option"
  and parse_members :: "nat \<Rightarrow> string \<Rightarrow> ((string \<times> json) list \<times> string) option" where
  "parse_value 0 s0 = None"
| "parse_value (Suc f) s0 =
     (let s = skip_ws s0 in
      if prefix ''{'' s
      then if prefix ''}'' (skip_ws (tl s)) then Some (JObj [], tl (skip_ws (tl s)))
           else map_option (\<lambda>(ms, r). (JObj ms, r)) (parse_members f (tl s))
      else if prefix ''['' s
      then if prefix '']'' (skip_ws (tl s)) then Some (JArr [], tl (skip_ws (tl s)))
           else map_option (\<lambda>(vs, r). (JArr vs, r)) (parse_elems f (tl s))
      else if prefix [CHR 0x22] s then map_option (\<lambda>(b, r). (JStr b, r)) (unquote (tl s))
      else if prefix ''true'' s then Some (JBool True, drop 4 s)
      else if prefix ''false'' s then Some (JBool False, drop 5 s)
      else if prefix ''null'' s then Some (JNull, drop 4 s)
      else parse_number s)"
| "parse_elems 0 s = None"
| "parse_elems (Suc f) s =
     (case parse_value f s of None \<Rightarrow> None
      | Some (v, r) \<Rightarrow>
          if prefix '','' (skip_ws r)
          then map_option (\<lambda>(vs, r'). (v # vs, r')) (parse_elems f (tl (skip_ws r)))
          else if prefix '']'' (skip_ws r) then Some ([v], tl (skip_ws r)) else None)"
| "parse_members 0 s = None"
| "parse_members (Suc f) s =
     (if \<not> prefix [CHR 0x22] (skip_ws s) then None
      else case unquote (tl (skip_ws s)) of None \<Rightarrow> None
      | Some (k, r) \<Rightarrow>
          if \<not> prefix '':'' (skip_ws r) then None
          else case parse_value f (tl (skip_ws r)) of None \<Rightarrow> None
          | Some (v, r2) \<Rightarrow>
              if prefix '','' (skip_ws r2)
              then map_option (\<lambda>(ms, r'). ((k, v) # ms, r')) (parse_members f (tl (skip_ws r2)))
              else if prefix ''}'' (skip_ws r2) then Some ([(k, v)], tl (skip_ws r2)) else None)"

definition json_parse :: "string \<Rightarrow> json option" where
  "json_parse s = (case parse_value (2 * length s + 2) s of None \<Rightarrow> None
     | Some (v, r) \<Rightarrow> if skip_ws r = '''' then Some v else None)"

subsection \<open>Decoding into Go values\<close>

text \<open>Decoding a scalar over the field's present value: \<open>null\<close> leaves it, a value of another type
  is an error.\<close>

definition into_string :: "json \<Rightarrow> string \<Rightarrow> string option" where
  "into_string j old = (case j of JStr s \<Rightarrow> Some s | JNull \<Rightarrow> Some old | _ \<Rightarrow> None)"

definition into_f64 :: "json \<Rightarrow> f64 \<Rightarrow> f64 option" where
  "into_f64 j old = (case j of JNum l \<Rightarrow> number_f64 l | JNull \<Rightarrow> Some old | _ \<Rightarrow> None)"

definition into_bool :: "json \<Rightarrow> bool \<Rightarrow> bool option" where
  "into_bool j old = (case j of JBool b \<Rightarrow> Some b | JNull \<Rightarrow> Some old | _ \<Rightarrow> None)"

definition into_int :: "nat \<Rightarrow> json \<Rightarrow> int \<Rightarrow> int option" where
  "into_int bits j old = (case j of JNum l \<Rightarrow> ParseInt bits l | JNull \<Rightarrow> Some old | _ \<Rightarrow> None)"

definition into_uint :: "nat \<Rightarrow> json \<Rightarrow> nat \<Rightarrow> nat option" where
  "into_uint bits j old = (case j of JNum l \<Rightarrow> ParseUint bits l | JNull \<Rightarrow> Some old | _ \<Rightarrow> None)"

text \<open>Members are applied in order; \<open>step\<close> decodes one member into the record, by its key in lower
  case (a key that is no field is skipped).\<close>

fun into_fields :: "(string \<Rightarrow> json \<Rightarrow> 'r \<Rightarrow> 'r option) \<Rightarrow> (string \<times> json) list \<Rightarrow> 'r \<Rightarrow> 'r option" where
  "into_fields step [] r = Some r"
| "into_fields step ((k, v) # ms) r =
     (case step (ToLower k) v r of None \<Rightarrow> None | Some r' \<Rightarrow> into_fields step ms r')"

definition into_struct :: "(string \<Rightarrow> json \<Rightarrow> 'r \<Rightarrow> 'r option) \<Rightarrow> 'r \<Rightarrow> json \<Rightarrow> 'r option" where
  "into_struct step zero j = (case j of JObj ms \<Rightarrow> into_fields step ms zero | JNull \<Rightarrow> Some zero | _ \<Rightarrow> None)"

fun into_list :: "(json \<Rightarrow> 'r option) \<Rightarrow> json list \<Rightarrow> 'r list option" where
  "into_list f [] = Some []"
| "into_list f (j # js) = (case f j of None \<Rightarrow> None
     | Some r \<Rightarrow> map_option (\<lambda>rs. r # rs) (into_list f js))"

definition into_slice :: "(json \<Rightarrow> 'r option) \<Rightarrow> json \<Rightarrow> 'r list option" where
  "into_slice f j = (case j of JArr js \<Rightarrow> into_list f js | JNull \<Rightarrow> Some [] | _ \<Rightarrow> None)"

text \<open>The last member with a key, as in a decoded \<^verbatim>\<open>map[string]any\<close>.\<close>

definition json_get :: "string \<Rightarrow> (string \<times> json) list \<Rightarrow> json option" where
  "json_get k ms = map_of (rev ms) k"

subsection \<open>More fuel does not change a result\<close>

lemma parse_fuel:
  "(\<forall>s x. parse_value f s = Some x \<longrightarrow> parse_value (Suc f) s = Some x)
    \<and> (\<forall>s y. parse_elems f s = Some y \<longrightarrow> parse_elems (Suc f) s = Some y)
    \<and> (\<forall>s z. parse_members f s = Some z \<longrightarrow> parse_members (Suc f) s = Some z)"
proof (induction f)
  case (Suc f)
  then have v: "parse_value f s = Some x \<Longrightarrow> parse_value (Suc f) s = Some x"
    and e: "parse_elems f s = Some y \<Longrightarrow> parse_elems (Suc f) s = Some y"
    and m: "parse_members f s = Some z \<Longrightarrow> parse_members (Suc f) s = Some z" for s x y z by blast+
  have V: "parse_value (Suc (Suc f)) s = Some x" if "parse_value (Suc f) s = Some x" for s x
    using that by (subst parse_value.simps, subst (asm) parse_value.simps)
      (auto simp: Let_def dest!: e m simp del: parse_elems.simps parse_members.simps split: if_splits)
  have E: "parse_elems (Suc (Suc f)) s = Some y" if "parse_elems (Suc f) s = Some y" for s y
    using that by (subst parse_elems.simps, subst (asm) parse_elems.simps)
      (auto dest!: v e simp del: parse_value.simps parse_elems.simps split: option.splits if_splits)
  have M: "parse_members (Suc (Suc f)) s = Some z" if "parse_members (Suc f) s = Some z" for s z
    using that by (subst parse_members.simps, subst (asm) parse_members.simps)
      (auto dest!: v m simp del: parse_value.simps parse_members.simps split: option.splits if_splits)
  show ?case using V E M by blast
qed simp

lemma parse_value_mono: "parse_value f s = Some x \<Longrightarrow> f \<le> g \<Longrightarrow> parse_value g s = Some x"
  by (rotate_tac, induction g rule: dec_induct) (use parse_fuel in blast)+

end
