(* ===== verification/PaymentGateways.thy ===== *)
theory PaymentGateways
  imports TopupOrders GoNet GoJson "HOL-Library.List_Lexorder" "HOL-Library.Char_ord"
begin

section \<open>Payment gateways (\<^verbatim>\<open>proxy/yifut_signer.go\<close>, \<^verbatim>\<open>proxy/yifut_client.go\<close>, \<^verbatim>\<open>proxy/epusdt_client.go\<close>,
  \<^verbatim>\<open>controller/payment_provider_yifut.go\<close>, \<^verbatim>\<open>controller/payment_provider_epusdt.go\<close>)\<close>

text \<open>
  The two gateways: their configuration, the strings that are signed, and how a callback is
  verified and turned into an event. RSA, MD5, PEM keys and the printing of nested JSON values
  are functions of a record \<open>crypto\<close>; the clock is a parameter. A parameter map of Go is an
  association list with distinct keys.
\<close>

record crypto =
  cy_priv_ok :: "string \<Rightarrow> bool"
  cy_pub_ok :: "string \<Rightarrow> bool"
  cy_rsa_verify :: "string \<Rightarrow> string \<Rightarrow> string \<Rightarrow> bool"
  cy_md5_hex :: "string \<Rightarrow> string"
  cy_show_any :: "json \<Rightarrow> string"

type_synonym params = "(string \<times> string) list"

definition param :: "params \<Rightarrow> string \<Rightarrow> string" where
  "param ps k = (case map_of ps k of None \<Rightarrow> '''' | Some v \<Rightarrow> v)"

subsection \<open>Strings to be signed\<close>

fun join :: "string \<Rightarrow> string list \<Rightarrow> string" where
  "join sep [] = ''''"
| "join sep [x] = x"
| "join sep (x # y # ys) = x @ sep @ join sep (y # ys)"

definition signed_keys :: "params \<Rightarrow> string list" where
  "signed_keys ps = map fst (filter (\<lambda>(k, v). k \<noteq> ''sign'' \<and> k \<noteq> ''sign_type'' \<and> v \<noteq> '''') ps)"

definition buildSignString :: "params \<Rightarrow> string" where
  "buildSignString ps = join ''&'' (map (\<lambda>k. k @ ''='' @ param ps k) (sort (signed_keys ps)))"

definition VerifyYifutRSA :: "crypto \<Rightarrow> string \<Rightarrow> params \<Rightarrow> bool" where
  "VerifyYifutRSA cy pub ps =
     (let sig = TrimSpace (param ps ''sign'') in
      sig \<noteq> '''' \<and> cy_rsa_verify cy pub (buildSignString ps) sig)"

definition FormatMoneyFen :: "int64 \<Rightarrow> string" where
  "FormatMoneyFen fen0 =
     (let fen = (if fen0 < 0 then wrap64 (- fen0) else fen0) in fixed_point 2 fen)"

text \<open>Six decimals, correctly rounded, without trailing zeros.\<close>

definition rstrip :: "char \<Rightarrow> string \<Rightarrow> string" where
  "rstrip c s = rev (dropWhile (\<lambda>x. x = c) (rev s))"

definition sprintf_f :: "rat \<Rightarrow> string" where
  "sprintf_f x = (let n = round_he (\<bar>x\<bar> * 1000000) in
     (if x < 0 then ''-'' else '''') @ show_nat (nat n div 1000000) @ ''.'' @ pad_zero 6 (show_nat (nat n mod 1000000)))"

definition fmtFloat :: "f64 \<Rightarrow> string" where
  "fmtFloat v = (let s = rstrip (CHR ''.'') (rstrip (CHR ''0'')
       (case v of Fin x \<Rightarrow> sprintf_f x | NaN \<Rightarrow> ''NaN'' | PInf \<Rightarrow> ''+Inf'' | NInf \<Rightarrow> ''-Inf''))
     in if s = '''' \<or> s = ''-'' then ''0'' else s)"

definition json_f64 :: "json \<Rightarrow> f64 option" where
  "json_f64 j = (case j of JNum l \<Rightarrow> number_f64 l | _ \<Rightarrow> None)"

definition epusdtStringifyValue :: "crypto \<Rightarrow> json \<Rightarrow> string" where
  "epusdtStringifyValue cy v = (case v of
      JStr s \<Rightarrow> s
    | JNum l \<Rightarrow> (case number_f64 l of Some f \<Rightarrow> fmtFloat f | None \<Rightarrow> '''')
    | JBool b \<Rightarrow> (if b then ''true'' else ''false'')
    | _ \<Rightarrow> cy_show_any cy v)"

text \<open>The object as a Go map: the last member with a key counts.\<close>

definition members :: "(string \<times> json) list \<Rightarrow> (string \<times> json) list" where
  "members ms = map (\<lambda>k. (k, the (json_get k ms))) (remdups (map fst ms))"

definition SignEpusdtMD5 :: "crypto \<Rightarrow> (string \<times> json) list \<Rightarrow> string \<Rightarrow> string" where
  "SignEpusdtMD5 cy ms secretKey =
     (let pairs = map (\<lambda>(k, v). k @ ''='' @ epusdtStringifyValue cy v)
            (filter (\<lambda>(k, v). k \<noteq> ''signature'' \<and> v \<noteq> JNull \<and> epusdtStringifyValue cy v \<noteq> '''') (members ms))
      in cy_md5_hex cy (join ''&'' (sort pairs) @ secretKey))"

definition VerifyEpusdtSignature :: "crypto \<Rightarrow> (string \<times> json) list \<Rightarrow> string \<Rightarrow> string \<Rightarrow> bool" where
  "VerifyEpusdtSignature cy ms signature secretKey \<longleftrightarrow>
     signature \<noteq> '''' \<and> secretKey \<noteq> '''' \<and> SignEpusdtMD5 cy ms secretKey = signature"

subsection \<open>Configuration\<close>

definition cfg_trim :: "sysconfig \<Rightarrow> string \<Rightarrow> string" where
  "cfg_trim cfg k = TrimSpace (sysConfigValue cfg k)"

record YifutConfig =
  yc_PID :: string
  yc_Gateway :: string
  yc_MerchantPrivateKey :: "string option"
  yc_PlatformPublicKey :: "string option"

definition LoadYifutConfig :: "crypto \<Rightarrow> sysconfig \<Rightarrow> YifutConfig" where
  "LoadYifutConfig cy cfg =
     (let priv = cfg_trim cfg ''yifut_merchant_private_key''; pub = cfg_trim cfg ''yifut_platform_public_key'' in
      \<lparr> yc_PID = cfg_trim cfg ''yifut_pid'', yc_Gateway = rstrip (CHR ''/'') (cfg_trim cfg ''yifut_gateway''),
        yc_MerchantPrivateKey = (if priv \<noteq> '''' \<and> cy_priv_ok cy priv then Some priv else None),
        yc_PlatformPublicKey = (if pub \<noteq> '''' \<and> cy_pub_ok cy pub then Some pub else None) \<rparr>)"

definition yifut_IsConfigured :: "YifutConfig \<Rightarrow> bool" where
  "yifut_IsConfigured c \<longleftrightarrow> yc_PID c \<noteq> '''' \<and> yc_Gateway c \<noteq> '''' \<and> yc_MerchantPrivateKey c \<noteq> None
     \<and> yc_PlatformPublicKey c \<noteq> None"

record EpusdtManualAddresses =
  ma_TRC20 :: string
  ma_ERC20 :: string
  ma_BEP20 :: string
  ma_Polygon :: string

record EpusdtConfig =
  ec_Mode :: string
  ec_Endpoint :: string
  ec_PID :: int64
  ec_SecretKey :: string
  ec_ManualAddresses :: EpusdtManualAddresses
  ec_ManualAdminEmail :: string

definition LoadEpusdtConfig :: "sysconfig \<Rightarrow> EpusdtConfig" where
  "LoadEpusdtConfig cfg =
     (let m = ToLower (cfg_trim cfg ''epusdt_mode'') in
      \<lparr> ec_Mode = (if m = ''auto'' then ''auto'' else ''manual''),
        ec_Endpoint = rstrip (CHR ''/'') (cfg_trim cfg ''epusdt_endpoint''),
        ec_PID = (case ParseInt 64 (cfg_trim cfg ''epusdt_pid'') of None \<Rightarrow> 0 | Some p \<Rightarrow> p),
        ec_SecretKey = cfg_trim cfg ''epusdt_secret_key'',
        ec_ManualAddresses = \<lparr> ma_TRC20 = cfg_trim cfg ''epusdt_manual_address_trc20'',
          ma_ERC20 = cfg_trim cfg ''epusdt_manual_address_erc20'', ma_BEP20 = cfg_trim cfg ''epusdt_manual_address_bep20'',
          ma_Polygon = cfg_trim cfg ''epusdt_manual_address_polygon'' \<rparr>,
        ec_ManualAdminEmail = cfg_trim cfg ''epusdt_manual_admin_email'' \<rparr>)"

definition HasAnyAddress :: "EpusdtManualAddresses \<Rightarrow> bool" where
  "HasAnyAddress a \<longleftrightarrow> ma_TRC20 a \<noteq> '''' \<or> ma_ERC20 a \<noteq> '''' \<or> ma_BEP20 a \<noteq> '''' \<or> ma_Polygon a \<noteq> ''''"

definition AddressFor :: "EpusdtManualAddresses \<Rightarrow> string \<Rightarrow> string" where
  "AddressFor a network = (let n = ToLower (TrimSpace network) in
     if n = ''tron'' then ma_TRC20 a else if n = ''ethereum'' then ma_ERC20 a
     else if n = ''bsc'' then ma_BEP20 a else if n = ''polygon'' then ma_Polygon a else '''')"

definition EnabledNetworks :: "EpusdtManualAddresses \<Rightarrow> string list" where
  "EnabledNetworks a = (if ma_TRC20 a \<noteq> '''' then [''tron''] else []) @ (if ma_ERC20 a \<noteq> '''' then [''ethereum''] else [])
     @ (if ma_BEP20 a \<noteq> '''' then [''bsc''] else []) @ (if ma_Polygon a \<noteq> '''' then [''polygon''] else [])"

definition epusdt_IsConfigured :: "EpusdtConfig \<Rightarrow> bool" where
  "epusdt_IsConfigured c =
     (if ec_Mode c = ''auto'' then ec_Endpoint c \<noteq> '''' \<and> 0 < ec_PID c \<and> ec_SecretKey c \<noteq> ''''
      else if ec_Mode c = ''manual'' then ec_ManualAdminEmail c \<noteq> '''' \<and> HasAnyAddress (ec_ManualAddresses c)
      else False)"

text \<open>The two patterns of receiving addresses.\<close>

definition base58_char :: "char \<Rightarrow> bool" where
  "base58_char c \<longleftrightarrow> (CHR ''1'' \<le> c \<and> c \<le> CHR ''9'') \<or> (CHR ''A'' \<le> c \<and> c \<le> CHR ''H'') \<or> (CHR ''J'' \<le> c \<and> c \<le> CHR ''N'')
     \<or> (CHR ''P'' \<le> c \<and> c \<le> CHR ''Z'') \<or> (CHR ''a'' \<le> c \<and> c \<le> CHR ''k'') \<or> (CHR ''m'' \<le> c \<and> c \<le> CHR ''z'')"

definition ValidateEpusdtAddress :: "string \<Rightarrow> string \<Rightarrow> bool" where
  "ValidateEpusdtAddress network address =
     (let a = TrimSpace address; n = ToLower (TrimSpace network) in
      a = '''' \<or> n = ''tron'' \<and> hd a = CHR ''T'' \<and> length a = 34 \<and> list_all base58_char (tl a)
      \<or> n \<in> {''ethereum'', ''bsc'', ''polygon''} \<and> take 2 a = ''0x'' \<and> length a = 42 \<and> list_all is_hex (drop 2 a))"

definition parseEpusdtMethod :: "string \<Rightarrow> (string \<times> string) option" where
  "parseEpusdtMethod method = (let m = ToLower (TrimSpace method) in
     if m = ''trc20-usdt'' then Some (''usdt'', ''tron'') else if m = ''erc20-usdt'' then Some (''usdt'', ''ethereum'')
     else if m = ''bep20-usdt'' then Some (''usdt'', ''bsc'') else if m = ''polygon-usdt'' then Some (''usdt'', ''polygon'')
     else None)"

definition chainToMethod :: "string \<Rightarrow> string" where
  "chainToMethod chain = (let n = ToLower (TrimSpace chain) in
     if n = ''tron'' then ''trc20-usdt'' else if n = ''ethereum'' then ''erc20-usdt''
     else if n = ''bsc'' then ''bep20-usdt'' else if n = ''polygon'' then ''polygon-usdt'' else '''')"

definition splitCSV :: "string \<Rightarrow> string list" where
  "splitCSV s = filter (\<lambda>p. p \<noteq> '''') (map TrimSpace (split_on (CHR '','') s))"

definition parsePositiveInt64Helper :: "string \<Rightarrow> int64 option" where
  "parsePositiveInt64Helper s = (case ParseInt 64 (TrimSpace s) of None \<Rightarrow> None | Some v \<Rightarrow> if v \<le> 0 then None else Some v)"

text \<open>What a gateway offers: its limits in fen, its presets and its methods.\<close>

record provider_options =
  po_Configured :: bool
  po_Presets :: "int64 list"
  po_MinAmountFen :: int64
  po_MaxAmountFen :: int64
  po_Methods :: "string list"

definition allowedPayTypes :: "string list" where
  "allowedPayTypes = [''alipay'', ''wxpay'', ''qqpay'', ''bank'', ''jdpay'', ''paypal'', ''douyinpay'']"

definition default_presets :: string where
  "default_presets = ''1000,3000,5000,10000,30000,50000''"

definition yifut_PublicOptions :: "crypto \<Rightarrow> sysconfig \<Rightarrow> provider_options" where
  "yifut_PublicOptions cy cfg =
     \<lparr> po_Configured = yifut_IsConfigured (LoadYifutConfig cy cfg),
       po_Presets = [v . s \<leftarrow> splitCSV (readStringConfig cfg ''yifut_preset_amounts_fen'' default_presets),
          v \<leftarrow> (case ParseInt 64 s of Some v \<Rightarrow> if 0 < v then [v] else [] | None \<Rightarrow> [])],
       po_MinAmountFen = readInt64Config cfg ''yifut_min_amount_fen'' 100,
       po_MaxAmountFen = readInt64Config cfg ''yifut_max_amount_fen'' 1000000,
       po_Methods = filter (\<lambda>m. m \<in> set allowedPayTypes)
         (splitCSV (readStringConfig cfg ''yifut_enabled_methods'' ''alipay,wxpay'')) \<rparr>"

definition epusdt_PublicOptions :: "sysconfig \<Rightarrow> provider_options" where
  "epusdt_PublicOptions cfg =
     (let c = LoadEpusdtConfig cfg;
          nets = (if ec_Mode c = ''manual'' then EnabledNetworks (ec_ManualAddresses c)
                  else splitCSV (readStringConfig cfg ''epusdt_enabled_chains'' ''tron'')) in
      \<lparr> po_Configured = epusdt_IsConfigured c,
        po_Presets = List.map_filter parsePositiveInt64Helper (splitCSV (readStringConfig cfg ''epusdt_preset_amounts_fen''
          (readStringConfig cfg ''yifut_preset_amounts_fen'' default_presets))),
        po_MinAmountFen = readInt64Config cfg ''epusdt_min_amount_fen'' (readInt64Config cfg ''yifut_min_amount_fen'' 100),
        po_MaxAmountFen = readInt64Config cfg ''epusdt_max_amount_fen'' (readInt64Config cfg ''yifut_max_amount_fen'' 1000000),
        po_Methods = filter (\<lambda>m. m \<noteq> '''') (map chainToMethod nets) \<rparr>)"

subsection \<open>Callbacks\<close>

record webhook_input =
  wi_QueryParams :: params
  wi_Body :: string
  wi_RemoteIP :: string

datatype webhook_error = ProviderNotConfigured | WebhookUnsupported | SignatureInvalid | PIDMismatch
  | TimestampDrift | Malformed

definition notifyTimestampSkewSeconds :: int64 where
  "notifyTimestampSkewSeconds = 300"

text \<open>The distance of two times in seconds is computed on int64, so negating the least integer
  gives it back.\<close>

definition within_skew :: "int64 \<Rightarrow> int64 \<Rightarrow> bool" where
  "within_skew now ts = (let d = wrap64 (now - ts); a = (if d < 0 then wrap64 (- d) else d) in a \<le> notifyTimestampSkewSeconds)"

definition yifutVerifyTimestamp :: "int64 \<Rightarrow> string \<Rightarrow> bool" where
  "yifutVerifyTimestamp now s = (case ParseInt 64 (TrimSpace s) of None \<Rightarrow> False | Some ts \<Rightarrow> within_skew now ts)"

definition checkYifutTimestamp :: "int64 \<Rightarrow> string \<Rightarrow> bool" where
  "checkYifutTimestamp now s = (case ParseInt 64 s of None \<Rightarrow> False | Some ts \<Rightarrow> within_skew now ts)"

definition verifyYifutResponseTimestamp :: "int64 \<Rightarrow> string \<Rightarrow> bool" where
  "verifyYifutResponseTimestamp now s = (case ParseInt 64 s of None \<Rightarrow> False
     | Some ts \<Rightarrow> let delta = wrap64 (now - ts) in - 300 \<le> delta \<and> delta \<le> 300)"

definition webhookNonce :: "string \<Rightarrow> params \<Rightarrow> string" where
  "webhookNonce provider ps =
     (let sign = take 16 (TrimSpace (param ps ''sign'')) in
      provider @ '':'' @ TrimSpace (param ps ''out_trade_no'') @ '':'' @ (if sign = '''' then ''no_sign'' else sign))"

definition yifut_event :: "params \<Rightarrow> int64 \<Rightarrow> webhook_event" where
  "yifut_event ps fen = \<lparr> we_Kind = (if param ps ''trade_status'' = ''TRADE_SUCCESS'' then ''paid'' else ''non_terminal''),
     we_OutTradeNo = TrimSpace (param ps ''out_trade_no''), we_ExternalTradeNo = take 128 (param ps ''trade_no''),
     we_Nonce = webhookNonce ''yifut'' ps, we_AmountKind = ''fen_cny'', we_AmountRaw = fen, we_CurrencyOriginal = ''CNY'' \<rparr>"

definition yifut_ParseAndVerifyWebhook ::
  "crypto \<Rightarrow> sysconfig \<Rightarrow> int64 \<Rightarrow> webhook_input \<Rightarrow> webhook_error + webhook_event" where
  "yifut_ParseAndVerifyWebhook cy cfg now inp =
     (let c = LoadYifutConfig cy cfg; ps = wi_QueryParams inp in
      if \<not> yifut_IsConfigured c then Inl ProviderNotConfigured
      else if ps = [] then Inl Malformed
      else if \<not> VerifyYifutRSA cy (the (yc_PlatformPublicKey c)) ps then Inl SignatureInvalid
      else if yc_PID c = '''' \<or> param ps ''pid'' \<noteq> yc_PID c then Inl PIDMismatch
      else if \<not> yifutVerifyTimestamp now (param ps ''timestamp'') then Inl TimestampDrift
      else case parseRMBStringToFen (param ps ''money'') of
          None \<Rightarrow> Inl Malformed
        | Some fen \<Rightarrow> if TrimSpace (param ps ''out_trade_no'') = '''' then Inl Malformed else Inr (yifut_event ps fen))"

text \<open>Decoding into \<^verbatim>\<open>any\<close> fails on a number outside the range of the floats.\<close>

fun nums_ok :: "json \<Rightarrow> bool" where
  "nums_ok (JNum l) \<longleftrightarrow> number_f64 l \<noteq> None"
| "nums_ok (JArr js) \<longleftrightarrow> list_all nums_ok js"
| "nums_ok (JObj ms) \<longleftrightarrow> list_all (\<lambda>m. nums_ok (snd m)) ms"
| "nums_ok _ \<longleftrightarrow> True"

definition payload_of :: "string \<Rightarrow> (string \<times> json) list option" where
  "payload_of body = (case json_parse body of
      Some (JObj ms) \<Rightarrow> if nums_ok (JObj ms) then Some ms else None
    | Some JNull \<Rightarrow> Some []
    | _ \<Rightarrow> None)"

definition json_str :: "json option \<Rightarrow> string" where
  "json_str j = (case j of Some (JStr s) \<Rightarrow> s | _ \<Rightarrow> '''')"

definition epusdt_amount :: "f64 \<Rightarrow> int64" where
  "epusdt_amount f = int64_of_f64 (f64_add (f64_mul f (Fin 1000000)) (Fin (1 / 2)))"

definition epusdt_kind :: "f64 \<Rightarrow> string" where
  "epusdt_kind f = (if int64_of_f64 f = 2 then ''paid'' else if int64_of_f64 f = 3 then ''failed'' else ''non_terminal'')"

definition epusdt_event :: "(string \<times> json) list \<Rightarrow> f64 \<Rightarrow> f64 \<Rightarrow> webhook_event" where
  "epusdt_event ms amount status =
     (let orderID = json_str (json_get ''order_id'' ms); tradeID = take 128 (json_str (json_get ''trade_id'' ms));
          token = ToUpper (TrimSpace (json_str (json_get ''token'' ms))) in
      \<lparr> we_Kind = epusdt_kind status, we_OutTradeNo = orderID, we_ExternalTradeNo = tradeID,
        we_Nonce = ''epusdt:'' @ orderID @ '':'' @ tradeID, we_AmountKind = ''micro_usd'',
        we_AmountRaw = epusdt_amount amount, we_CurrencyOriginal = (if token = '''' then ''USDT'' else token) \<rparr>)"

definition epusdt_ParseAndVerifyWebhook ::
  "crypto \<Rightarrow> sysconfig \<Rightarrow> int64 \<Rightarrow> webhook_input \<Rightarrow> webhook_error + webhook_event" where
  "epusdt_ParseAndVerifyWebhook cy cfg now inp =
     (let c = LoadEpusdtConfig cfg in
      if \<not> epusdt_IsConfigured c then Inl ProviderNotConfigured
      else if ec_Mode c = ''manual'' then Inl WebhookUnsupported
      else if wi_Body inp = '''' then Inl Malformed
      else case payload_of (wi_Body inp) of None \<Rightarrow> Inl Malformed
      | Some ms \<Rightarrow>
        (let sig = json_str (json_get ''signature'' ms) in
         if sig = '''' then Inl Malformed
         else if \<not> VerifyEpusdtSignature cy (filter (\<lambda>(k, v). k \<noteq> ''signature'') ms) sig (ec_SecretKey c)
              then Inl SignatureInvalid
         else case Option.bind (json_get ''pid'' ms) json_f64 of None \<Rightarrow> Inl Malformed
         | Some pid \<Rightarrow>
           if int64_of_f64 pid \<noteq> ec_PID c then Inl PIDMismatch
           else if TrimSpace (json_str (json_get ''order_id'' ms)) = '''' then Inl Malformed
           else if TrimSpace (json_str (json_get ''trade_id'' ms)) = '''' then Inl Malformed
           else case Option.bind (json_get ''amount'' ms) json_f64 of None \<Rightarrow> Inl Malformed
           | Some amount \<Rightarrow>
             if f64_le amount (Fin 0) then Inl Malformed
             else (case Option.bind (json_get ''status'' ms) json_f64 of None \<Rightarrow> Inl Malformed
             | Some status \<Rightarrow> Inr (epusdt_event ms amount status))))"

text \<open>The addresses the callbacks may come from.\<close>

definition isRemoteIPInCIDRs :: "string \<Rightarrow> string \<Rightarrow> bool" where
  "isRemoteIPInCIDRs remoteIP csv =
     (case ParseIP (TrimSpace remoteIP) of None \<Rightarrow> False
      | Some ip \<Rightarrow> foldr (\<lambda>raw found. let cidr = TrimSpace raw in
            if cidr = '''' then found
            else case ParseCIDR cidr of None \<Rightarrow> False | Some net \<Rightarrow> net_Contains net ip \<or> found)
          (split_on (CHR '','') csv) False)"

definition validateYifutNotifyCIDRConfig :: "sysconfig \<Rightarrow> bool" where
  "validateYifutNotifyCIDRConfig cfg \<longleftrightarrow>
     list_all (\<lambda>raw. TrimSpace raw = '''' \<or> ParseCIDR (TrimSpace raw) \<noteq> None)
       (split_on (CHR '','') (readStringConfig cfg ''yifut_notify_allowed_cidrs'' ''''))"

definition checkYifutNotifyIPAllowed :: "sysconfig \<Rightarrow> string \<Rightarrow> bool" where
  "checkYifutNotifyIPAllowed cfg remoteIP =
     (let csv = readStringConfig cfg ''yifut_notify_allowed_cidrs'' '''' in csv = '''' \<or> isRemoteIPInCIDRs remoteIP csv)"

definition AllowedRemoteIPCIDRs :: "sysconfig \<Rightarrow> string \<Rightarrow> string" where
  "AllowedRemoteIPCIDRs cfg provider =
     (if provider = ''yifut'' then readStringConfig cfg ''yifut_notify_allowed_cidrs'' ''''
      else readStringConfig cfg ''epusdt_notify_allowed_cidrs'' ''127.0.0.1/32,::1/128'')"

text \<open>Addresses the clients of the gateways refuse to connect to.\<close>

definition nets :: "string list \<Rightarrow> ip_net list" where
  "nets = List.map_filter ParseCIDR"

definition yifutAlwaysDenyPrefixes :: "string list" where
  "yifutAlwaysDenyPrefixes = [''169.254.0.0/16'', ''168.63.129.16/32'', ''100.100.100.200/32'', ''fd00::/8'', ''fe80::/10'',
     ''192.0.2.0/24'', ''10.0.0.0/8'', ''172.16.0.0/12'', ''192.168.0.0/16'', ''127.0.0.0/8'', ''::1/128'']"

definition yifutProxyEgressPrefixes :: "string list" where
  "yifutProxyEgressPrefixes = [''100.64.0.0/10'', ''198.18.0.0/15'', ''2002::/16'', ''2001::/32'']"

definition yifutAllowEgressProxyRanges :: "sysconfig \<Rightarrow> bool" where
  "yifutAllowEgressProxyRanges cfg \<longleftrightarrow> cfg_trim cfg ''yifut_allow_egress_proxy_ranges'' = ''1''
     \<or> ToLower (cfg_trim cfg ''yifut_allow_egress_proxy_ranges'') = ''true''"

definition isUnsafeYifutIP :: "sysconfig \<Rightarrow> nat \<Rightarrow> bool" where
  "isUnsafeYifutIP cfg ip \<longleftrightarrow> list_ex (\<lambda>n. net_Contains n ip) (nets yifutAlwaysDenyPrefixes)
     \<or> \<not> yifutAllowEgressProxyRanges cfg \<and> list_ex (\<lambda>n. net_Contains n ip) (nets yifutProxyEgressPrefixes)"

definition epusdtBlockedPrefixes :: "string list" where
  "epusdtBlockedPrefixes = [''169.254.169.254/32'', ''100.100.100.200/32'', ''168.63.129.16/32'', ''169.254.0.0/16'',
     ''fe80::/10'', ''fd00::/8'']"

definition isEpusdtBlockedIP :: "nat option \<Rightarrow> bool" where
  "isEpusdtBlockedIP ip = (case ip of None \<Rightarrow> True | Some a \<Rightarrow> list_ex (\<lambda>n. net_Contains n a) (nets epusdtBlockedPrefixes))"

subsection \<open>Properties\<close>

text \<open>A string joined at a separator it does not contain splits back into its parts.\<close>

lemma split_on_single: "c \<notin> set x \<Longrightarrow> split_on c x = [x]"
  by (induction x) auto

lemma split_on_append: "c \<notin> set x \<Longrightarrow> split_on c (x @ c # s) = x # split_on c s"
  by (induction x) auto

lemma split_join: "xs \<noteq> [] \<Longrightarrow> \<forall>x \<in> set xs. c \<notin> set x \<Longrightarrow> split_on c (join [c] xs) = xs"
  by (induction "[c]" xs rule: join.induct) (auto simp: split_on_single split_on_append)

lemma join_eq_Nil: "\<forall>x \<in> set xs. x \<noteq> [] \<Longrightarrow> join sep xs = [] \<longleftrightarrow> xs = []"
  by (cases "(sep, xs)" rule: join.cases) auto

lemma join_inj:
  assumes "join [c] xs = join [c] ys" and "\<forall>x \<in> set xs \<union> set ys. c \<notin> set x \<and> x \<noteq> []"
  shows "xs = ys"
proof (cases "xs = []")
  case True
  then show ?thesis using assms join_eq_Nil [of ys "[c]"] by auto
next
  case False
  then have "join [c] xs \<noteq> []" using assms(2) join_eq_Nil [of xs "[c]"] by auto
  then have "ys \<noteq> []" using assms(1) by auto
  have "xs = split_on c (join [c] xs)" by (rule split_join [symmetric]) (use False assms(2) in auto)
  also have "\<dots> = ys" unfolding assms(1) by (rule split_join) (use \<open>ys \<noteq> []\<close> assms(2) in auto)
  finally show ?thesis .
qed

definition signed :: "params \<Rightarrow> params" where
  "signed ps = filter (\<lambda>(k, v). k \<noteq> ''sign'' \<and> k \<noteq> ''sign_type'' \<and> v \<noteq> '''') ps"

definition plain_params :: "params \<Rightarrow> bool" where
  "plain_params ps \<longleftrightarrow> distinct (map fst ps)
     \<and> list_all (\<lambda>(k, v). CHR ''&'' \<notin> set k \<and> CHR ''='' \<notin> set k \<and> CHR ''&'' \<notin> set v) ps"

lemma signed_parts:
  assumes "plain_params ps"
  shows "set (signed ps) = (\<lambda>x. (fst (cut_at (CHR ''='') x), the (snd (cut_at (CHR ''='') x))))
      ` set (map (\<lambda>k. k @ ''='' @ param ps k) (sort (signed_keys ps)))"
proof -
  have p: "param ps k = v" if "(k, v) \<in> set ps" for k v
    using that assms by (simp add: param_def plain_params_def)
  define g where "g = (\<lambda>x. (fst (cut_at (CHR ''='') x), the (snd (cut_at (CHR ''='') x))))"
  have e: "g (fst m @ ''='' @ param ps (fst m)) = m" if m: "m \<in> set ps" for m
  proof -
    obtain k v where kv: "m = (k, v)" by (cases m)
    have "CHR ''='' \<notin> set k" using assms m kv by (auto simp: plain_params_def list_all_iff)
    then have "cut_at (CHR ''='') (k @ CHR ''='' # v) = (k, Some v)" by (rule cut_at_split)
    then show ?thesis using p m by (simp add: g_def kv)
  qed
  have "(\<lambda>m. g (fst m @ ''='' @ param ps (fst m))) ` set (signed ps) = id ` set (signed ps)"
    by (rule image_cong) (use e in \<open>auto simp: signed_def\<close>)
  moreover have "set (map (\<lambda>k. k @ ''='' @ param ps k) (sort (signed_keys ps)))
      = (\<lambda>m. fst m @ ''='' @ param ps (fst m)) ` set (signed ps)"
    by (simp add: signed_def signed_keys_def image_image)
  ultimately show ?thesis unfolding g_def [symmetric] by (simp add: image_image)
qed

lemma signed_param:
  assumes "plain_params ps" and "k \<in> set (signed_keys ps)"
  shows "(k, param ps k) \<in> set (signed ps)"
  using assms by (auto simp: signed_keys_def signed_def plain_params_def param_def)

lemma signed_string:
  assumes "plain_params ps" and "plain_params qs" and "set (signed ps) = set (signed qs)"
  shows "buildSignString ps = buildSignString qs"
proof -
  have keys: "signed_keys ps = map fst (signed ps)" for ps by (simp add: signed_keys_def signed_def)
  have d: "distinct (signed_keys ps)" if "plain_params ps" for ps
    using that by (auto simp: keys signed_def plain_params_def intro: distinct_map_filter)
  have s: "set (signed_keys ps) = set (signed_keys qs)" using assms(3) by (simp add: keys)
  then have srt: "sort (signed_keys ps) = sort (signed_keys qs)"
    using d [OF assms(1)] d [OF assms(2)] by (intro sorted_distinct_set_unique) simp_all
  have "param ps k = param qs k" if k: "k \<in> set (signed_keys qs)" for k
  proof -
    have "(k, param ps k) \<in> set (signed qs)" using signed_param [OF assms(1), of k] k s assms(3) by simp
    then show ?thesis using assms(2) by (auto simp: signed_def plain_params_def param_def)
  qed
  then have "map (\<lambda>k. k @ ''='' @ param ps k) (sort (signed_keys qs)) = map (\<lambda>k. k @ ''='' @ param qs k) (sort (signed_keys qs))"
    by (intro map_cong) simp_all
  then show ?thesis unfolding buildSignString_def srt by (rule arg_cong)
qed

text \<open>Without that condition the string is ambiguous, because the values are decoded before they
  are joined and nothing escapes them again: an ampersand inside of a value reads like the
  start of the next parameter, and both readings carry the same signature.\<close>

theorem sign_string_ambiguous:
  assumes "k < l" and "k \<notin> {''sign'', ''sign_type''}" and "l \<notin> {''sign'', ''sign_type''}"
    and "v \<noteq> ''''" and "w \<noteq> ''''"
  shows "VerifyYifutRSA cy pub [(k, v @ ''&'' @ l @ ''='' @ w), (''sign'', sig)]
    = VerifyYifutRSA cy pub [(k, v), (l, w), (''sign'', sig)]"
proof -
  have "k \<noteq> l" "k \<le> l" "\<not> l \<le> k" using assms(1) by auto
  then show ?thesis
    using assms(2-5) by (auto simp: VerifyYifutRSA_def buildSignString_def signed_keys_def param_def Let_def)
qed

theorem sign_string_ambiguous_witness:
  "VerifyYifutRSA cy pub [(''a'', ''1&b=2''), (''sign'', ''s'')]
    = VerifyYifutRSA cy pub [(''a'', ''1''), (''b'', ''2''), (''sign'', ''s'')]"
  using sign_string_ambiguous [of "''a''" "''b''" "''1''" "''2''" cy pub "''s''"] by simp

text \<open>C16: The signed string binds the parameters, provided that no name contains an ampersand or
  an equals sign and no value an ampersand: two such parameter maps have the same signed string
  exactly when they have the same signed parameters, whatever their order, so a verified
  callback fixes every non-empty field but the signature's own. The values are decoded before
  they are signed, so the proviso is not void; \<open>sign_string_ambiguous\<close> shows what happens
  without it.\<close>

theorem sign_string_binds:
  assumes "plain_params ps" and "plain_params qs"
  shows "buildSignString ps = buildSignString qs \<longleftrightarrow> set (signed ps) = set (signed qs)"
proof
  assume eq: "buildSignString ps = buildSignString qs"
  let ?f = "\<lambda>ps. map (\<lambda>k. k @ ''='' @ param ps k) (sort (signed_keys ps))"
  have c: "\<forall>x \<in> set (?f ps). CHR ''&'' \<notin> set x \<and> x \<noteq> []" if "plain_params ps" for ps
    using that by (auto simp: signed_keys_def plain_params_def param_def list_all_iff)
  have "?f ps = ?f qs"
    using join_inj [of "CHR ''&''" "?f ps" "?f qs"] eq c [OF assms(1)] c [OF assms(2)]
    unfolding buildSignString_def by blast
  then show "set (signed ps) = set (signed qs)"
    unfolding signed_parts [OF assms(1)] signed_parts [OF assms(2)] by simp
qed (rule signed_string [OF assms])

theorem sign_string_binds_witness:
  "set (signed [(''pid'', ''7''), (''money'', ''1.00''), (''sign'', ''x'')])
      = set (signed [(''money'', ''1.00''), (''sign_type'', ''RSA''), (''pid'', ''7'')])
    \<and> buildSignString [(''pid'', ''7''), (''money'', ''1.00'')] \<noteq> buildSignString [(''pid'', ''7''), (''money'', ''9.00'')]"
proof
  have "plain_params [(''pid'', ''7''), (''money'', ''1.00''), (''sign'', ''x'')]"
    "plain_params [(''money'', ''1.00''), (''sign_type'', ''RSA''), (''pid'', ''7'')]"
    by code_simp+
  then show "set (signed [(''pid'', ''7''), (''money'', ''1.00''), (''sign'', ''x'')])
      = set (signed [(''money'', ''1.00''), (''sign_type'', ''RSA''), (''pid'', ''7'')])"
    by (subst sign_string_binds [symmetric]) (assumption+, code_simp)
  have "plain_params [(''pid'', ''7''), (''money'', ''1.00'')]" "plain_params [(''pid'', ''7''), (''money'', ''9.00'')]"
    by code_simp+
  then show "buildSignString [(''pid'', ''7''), (''money'', ''1.00'')] \<noteq> buildSignString [(''pid'', ''7''), (''money'', ''9.00'')]"
    by (subst sign_string_binds) (assumption+, code_simp)
qed

lemma skew_overflow:
  assumes "0 \<le> now" and "now < 2 ^ 62" and "in_i64 ts" and "2 ^ 63 \<le> now - ts"
  shows "wrap64 (now - ts) = now - ts - 2 ^ 64"
    "wrap64 (- (now - ts - 2 ^ 64)) = (if ts = now - 2 ^ 63 then - (2 ^ 63) else - (now - ts - 2 ^ 64))"
proof -
  have "(now - ts + 2 ^ 63) mod 2 ^ 64 = (now - ts + 2 ^ 63 - 2 ^ 64) mod 2 ^ 64" by (rule minus_mod_self2 [symmetric])
  also have "\<dots> = now - ts + 2 ^ 63 - 2 ^ 64" using assms by (intro mod_pos_pos_trivial) (auto simp: i64_defs)
  finally show "wrap64 (now - ts) = now - ts - 2 ^ 64" by (simp add: wrap64_def)
  show "wrap64 (- (now - ts - 2 ^ 64)) = (if ts = now - 2 ^ 63 then - (2 ^ 63) else - (now - ts - 2 ^ 64))"
    using assms by (auto simp: wrap64_def i64_defs)
qed

lemma skew_plain:
  assumes "0 \<le> now" and "now < 2 ^ 62" and "in_i64 ts" and "now - ts < 2 ^ 63"
  shows "wrap64 (now - ts) = now - ts" "now - ts < 0 \<Longrightarrow> wrap64 (- (now - ts)) = - (now - ts)"
  using assms by (simp_all add: wrap64_def i64_defs)

lemma within_skew_iff:
  assumes "0 \<le> now" and "now < 2 ^ 62" and "in_i64 ts"
  shows "within_skew now ts \<longleftrightarrow> \<bar>now - ts\<bar> \<le> 300 \<or> ts = now - 2 ^ 63"
proof (cases "now - ts < 2 ^ 63")
  case True
  with skew_plain [OF assms] show ?thesis using assms
    by (auto simp: within_skew_def Let_def notifyTimestampSkewSeconds_def i64_defs)
next
  case False
  with skew_overflow [OF assms] show ?thesis using assms
    by (auto simp: within_skew_def Let_def notifyTimestampSkewSeconds_def i64_defs)
qed

lemma response_skew_iff:
  assumes "0 \<le> now" and "now < 2 ^ 62" and "in_i64 ts"
  shows "(let delta = wrap64 (now - ts) in - 300 \<le> delta \<and> delta \<le> 300) \<longleftrightarrow> \<bar>now - ts\<bar> \<le> 300"
proof (cases "now - ts < 2 ^ 63")
  case True
  with skew_plain [OF assms] show ?thesis using assms by (auto simp: Let_def)
next
  case False
  with skew_overflow(1) [OF assms] show ?thesis using assms by (auto simp: Let_def i64_defs)
qed

text \<open>C17: A callback is fresh when it carries a number at most five minutes from the server's clock,
  with one exception: the time exactly \<open>2 ^ 63\<close> seconds before the server's passes as well,
  because the distance overflows and its negation is negative. The check of the gateway's
  answers, which compares the signed distance with both bounds, has no such exception. (The
  clock is taken to be between 1970 and \<open>2 ^ 62\<close> seconds later.)\<close>

theorem timestamp_window:
  assumes "0 \<le> now" and "now < 2 ^ 62"
  shows "(yifutVerifyTimestamp now s \<longleftrightarrow> (\<exists>ts. ParseInt 64 (TrimSpace s) = Some ts
        \<and> (\<bar>now - ts\<bar> \<le> 300 \<or> ts = now - 2 ^ 63)))
    \<and> (verifyYifutResponseTimestamp now s \<longleftrightarrow> (\<exists>ts. ParseInt 64 s = Some ts \<and> \<bar>now - ts\<bar> \<le> 300))"
proof (intro conjI)
  show "yifutVerifyTimestamp now s \<longleftrightarrow> (\<exists>ts. ParseInt 64 (TrimSpace s) = Some ts
      \<and> (\<bar>now - ts\<bar> \<le> 300 \<or> ts = now - 2 ^ 63))"
    using within_skew_iff [OF assms ParseInt_range]
    by (cases "ParseInt 64 (TrimSpace s)") (simp_all add: yifutVerifyTimestamp_def)
  show "verifyYifutResponseTimestamp now s \<longleftrightarrow> (\<exists>ts. ParseInt 64 s = Some ts \<and> \<bar>now - ts\<bar> \<le> 300)"
    using response_skew_iff [OF assms ParseInt_range]
    by (cases "ParseInt 64 s") (simp_all add: verifyYifutResponseTimestamp_def)
qed

theorem timestamp_window_witness:
  "yifutVerifyTimestamp 1700000000 '' -9223372035154775808'' \<and> \<not> yifutVerifyTimestamp 1700000000 ''1699999000''"
proof -
  have w: "yifutVerifyTimestamp 1700000000 a \<and> \<not> yifutVerifyTimestamp 1700000000 b"
    if "ParseInt 64 (TrimSpace a) = Some (- 9223372035154775808)" "ParseInt 64 (TrimSpace b) = Some 1699999000" for a b
    using timestamp_window [of 1700000000 a] timestamp_window [of 1700000000 b] that by simp
  have "TrimSpace '' -9223372035154775808'' = ''-9223372035154775808''" "TrimSpace ''1699999000'' = ''1699999000''"
    by code_simp+
  moreover have "ParseInt 64 ''-9223372035154775808'' = Some (- 9223372035154775808)"
    "ParseInt 64 ''1699999000'' = Some 1699999000"
    by (simp_all add: ParseInt_def ParseDigits_def digits_val_def is_digit_def digit_val_def)
  ultimately show ?thesis by (intro w) simp_all
qed

end
