(* ===== verification/PaymentWebhook.thy ===== *)
theory PaymentWebhook
  imports TopupAccounts PaymentGateways
begin

section \<open>Placing orders and processing callbacks (\<^verbatim>\<open>controller/topup.go\<close>, \<^verbatim>\<open>controller/payment_webhook.go\<close>,
  \<^verbatim>\<open>controller/topup_webhook.go\<close>)\<close>

text \<open>
  The request handlers around the order operations. The call of a gateway and the random order
  number are parameters. Refreshed caches, notifications and the log are left out.
\<close>

definition provider_keys :: "string list" where
  "provider_keys = [''yifut'', ''epusdt'']"

definition GetPaymentProvider ::
  "crypto \<Rightarrow> sysconfig \<Rightarrow> nanos \<Rightarrow> string \<Rightarrow> (webhook_input \<Rightarrow> webhook_error + webhook_event) option" where
  "GetPaymentProvider cy cfg now key =
     (if key = ''yifut'' then Some (yifut_ParseAndVerifyWebhook cy cfg (now div 1000000000))
      else if key = ''epusdt'' then Some (epusdt_ParseAndVerifyWebhook cy cfg (now div 1000000000)) else None)"

definition provider_public_options :: "crypto \<Rightarrow> sysconfig \<Rightarrow> string \<Rightarrow> provider_options" where
  "provider_public_options cy cfg key = (if key = ''yifut'' then yifut_PublicOptions cy cfg else epusdt_PublicOptions cfg)"

definition ListConfiguredPaymentProviderOptions :: "crypto \<Rightarrow> sysconfig \<Rightarrow> (string \<times> provider_options) list" where
  "ListConfiguredPaymentProviderOptions cy cfg =
     map (\<lambda>k. (k, provider_public_options cy cfg k))
       (filter (\<lambda>k. po_Configured (provider_public_options cy cfg k)) (sort provider_keys))"

subsection \<open>Receipts\<close>

definition persistWebhookReceiptAccepted :: "string \<Rightarrow> string \<Rightarrow> string \<Rightarrow> bool tx" where
  "persistWebhookReceiptAccepted provider nonce outTradeNo =
     insert_receipt \<lparr> wr_Provider = provider, wr_Nonce = nonce, wr_OutTradeNo = outTradeNo, wr_Status = ''accepted'' \<rparr>"

definition recordWebhookReceiptOnce :: "string \<Rightarrow> params \<Rightarrow> string \<Rightarrow> bool tx" where
  "recordWebhookReceiptOnce provider ps outTradeNo =
     persistWebhookReceiptAccepted provider (webhookNonce provider ps) outTradeNo"

definition recordWebhookReceiptForEvent :: "string \<Rightarrow> webhook_event \<Rightarrow> bool tx" where
  "recordWebhookReceiptForEvent provider ev = persistWebhookReceiptAccepted provider (we_Nonce ev) (we_OutTradeNo ev)"

definition recordWebhookReceipt :: "string \<Rightarrow> params \<Rightarrow> string \<Rightarrow> string \<Rightarrow> unit tx" where
  "recordWebhookReceipt provider ps outTradeNo status =
     tx_bind (try_tx (insert_receipt \<lparr> wr_Provider = provider, wr_Nonce = webhookNonce provider ps @ '':'' @ status,
        wr_OutTradeNo = outTradeNo, wr_Status = status \<rparr>)) (\<lambda>_. tx_return ())"

subsection \<open>Processing a callback\<close>

definition handleWebhookError :: "string \<Rightarrow> string \<Rightarrow> webhook_input \<Rightarrow> webhook_error \<Rightarrow> response tx" where
  "handleWebhookError provider logKey inp e = (case e of
      ProviderNotConfigured \<Rightarrow> tx_return (503, ''not_configured'')
    | WebhookUnsupported \<Rightarrow> tx_return (405, ''method_not_allowed'')
    | SignatureInvalid \<Rightarrow> tx_return (403, ''sign_invalid'')
    | PIDMismatch \<Rightarrow> tx_bind (recordWebhookReceipt provider (wi_QueryParams inp) logKey ''rejected_pid'')
        (\<lambda>_. tx_return (403, ''pid_mismatch''))
    | TimestampDrift \<Rightarrow> tx_bind (recordWebhookReceipt provider (wi_QueryParams inp) logKey ''rejected_timestamp'')
        (\<lambda>_. tx_return (403, ''timestamp_invalid''))
    | Malformed \<Rightarrow> tx_return (400, ''bad_payload''))"

definition validateWebhookAmount :: "webhook_event \<Rightarrow> topup_order \<Rightarrow> bool" where
  "validateWebhookAmount ev ord \<longleftrightarrow>
     (if we_AmountKind ev = ''fen_cny'' then we_AmountRaw ev = to_MoneyRMB ord
      else if we_AmountKind ev = ''micro_usd'' then we_AmountRaw ev = to_AmountUSD ord else False)"

definition settle_order :: "nanos \<Rightarrow> string \<Rightarrow> webhook_event \<Rightarrow> topup_order \<Rightarrow> response tx" where
  "settle_order now provider ev ord =
     (if to_Provider ord \<noteq> provider then tx_return (403, ''provider_mismatch'')
      else if \<not> validateWebhookAmount ev ord then tx_return (400, ''money_mismatch'')
      else tx_bind (attempt (finalizePaidTopupTransaction now ord ev)) (\<lambda>r.
        tx_return (case r of Inr _ \<Rightarrow> (200, ''success'')
          | Inl e \<Rightarrow> if e = errTopupDuplicate then (200, ''success'') else (500, ''tx_failed''))))"

text \<open>The verified event: the receipt first, in a statement of its own, then the order.\<close>

definition settle_event :: "nanos \<Rightarrow> string \<Rightarrow> webhook_event \<Rightarrow> response tx" where
  "settle_event now provider ev =
     tx_bind (attempt (recordWebhookReceiptForEvent provider ev)) (\<lambda>rec. case rec of
       Inl _ \<Rightarrow> tx_return (500, ''receipt_failed'')
     | Inr duplicate \<Rightarrow>
         if duplicate then tx_return (200, ''success'')
         else if we_Kind ev \<noteq> ''paid'' then tx_return (200, ''success'')
         else tx_bind (attempt (first_order (\<lambda>r. to_OutTradeNo r = we_OutTradeNo ev))) (\<lambda>found. case found of
             Inl _ \<Rightarrow> tx_return (500, ''order_not_found_retry'')
           | Inr ord \<Rightarrow> settle_order now provider ev ord))"

definition MaxWebhookBodyBytes :: nat where
  "MaxWebhookBodyBytes = 65536"

definition ProcessPaymentWebhook :: "crypto \<Rightarrow> sysconfig \<Rightarrow> nanos \<Rightarrow> string \<Rightarrow> webhook_input \<Rightarrow> response tx" where
  "ProcessPaymentWebhook cy cfg now provider inp =
     (case GetPaymentProvider cy cfg now provider of None \<Rightarrow> tx_return (404, ''provider_unknown'')
      | Some parse \<Rightarrow>
        (let otn = param (wi_QueryParams inp) ''out_trade_no''; logKey = (if otn = '''' then ''<empty>'' else otn);
             cidrs = TrimSpace (AllowedRemoteIPCIDRs cfg provider) in
         if MaxWebhookBodyBytes < length (wi_Body inp) then tx_return (413, ''payload_too_large'')
         else if cidrs \<noteq> '''' \<and> \<not> isRemoteIPInCIDRs (wi_RemoteIP inp) cidrs then tx_return (403, ''ip_not_allowed'')
         else case parse inp of
             Inl e \<Rightarrow> handleWebhookError provider logKey inp e
           | Inr ev \<Rightarrow> settle_event now provider ev))"

subsection \<open>The return page\<close>

text \<open>Where the browser is sent after paying; \<open>enc\<close> is the encoding of query values.\<close>

definition return_path :: "sysconfig \<Rightarrow> string" where
  "return_path cfg =
     (let p = readStringConfig cfg ''yifut_return_path'' ''/topup-result'';
          p1 = (if prefix ''/#topup_result'' p then ''/topup-result'' else p)
      in if isSafeReturnPath p1 then p1 else ''/topup-result'')"

definition return_status :: "crypto \<Rightarrow> sysconfig \<Rightarrow> nanos \<Rightarrow> params \<Rightarrow> string \<times> string" where
  "return_status cy cfg now ps =
     (let c = LoadYifutConfig cy cfg; otn = param ps ''out_trade_no'' in
      if \<not> yifut_IsConfigured c then (''unavailable'', '''')
      else if \<not> VerifyYifutRSA cy (the (yc_PlatformPublicKey c)) ps then (''sign_invalid'', otn)
      else if yc_PID c = '''' \<or> param ps ''pid'' \<noteq> yc_PID c then (''pid_mismatch'', otn)
      else if \<not> checkYifutTimestamp (now div 1000000000) (param ps ''timestamp'') then (''timestamp_invalid'', otn)
      else if param ps ''trade_status'' = ''TRADE_SUCCESS'' then (''success'', otn) else (''pending'', otn))"

definition YifutReturn :: "(string \<Rightarrow> string) \<Rightarrow> crypto \<Rightarrow> sysconfig \<Rightarrow> nanos \<Rightarrow> params \<Rightarrow> string" where
  "YifutReturn enc cy cfg now ps =
     (let (status, otn) = return_status cy cfg now ps; p = return_path cfg in
      p @ (if CHR ''?'' \<in> set p then ''&'' else ''?'')
        @ (if otn = '''' then '''' else ''out_trade_no='' @ enc otn @ ''&'') @ ''status='' @ enc status)"

definition buildAbsoluteURL :: "sysconfig \<Rightarrow> string \<Rightarrow> string option" where
  "buildAbsoluteURL cfg path =
     (let base = readStringConfig cfg ''server_address'' '''' in
      if base = '''' then None
      else if readBoolConfig cfg ''server_address_require_https'' True \<and> \<not> prefix ''https://'' (ToLower base) then None
      else Some (rstrip (CHR ''/'') base @ path))"

subsection \<open>Placing an order\<close>

record topup_request =
  tq_Provider :: string
  tq_AmountFen :: int64
  tq_PayType :: string

datatype gateway_error = GatewayInternal | GatewayNotConfigured | GatewayRejected

definition check_create :: "crypto \<Rightarrow> sysconfig \<Rightarrow> topup_request \<Rightarrow> response + (string \<times> int64)" where
  "check_create cy cfg req =
     (let key = (if tq_Provider req = '''' then ''yifut'' else tq_Provider req);
          opts = provider_public_options cy cfg key; fen = tq_AmountFen req in
      if key \<notin> set provider_keys then Inl (400, ''ERR_PAYMENT_PROVIDER_UNKNOWN'')
      else if \<not> po_Configured opts then Inl (503, ''ERR_PAYMENT_UNAVAILABLE'')
      else if fen \<le> 0 then Inl (400, ''ERR_AMOUNT_INVALID'')
      else if fen < po_MinAmountFen opts \<or> po_MaxAmountFen opts < fen then Inl (400, ''ERR_AMOUNT_OUT_OF_RANGE'')
      else if key = ''yifut'' \<and> tq_PayType req \<notin> set allowedPayTypes then Inl (400, ''ERR_PAY_TYPE_INVALID'')
      else if key = ''yifut'' \<and> \<not> csvContains (readStringConfig cfg ''yifut_enabled_methods'' ''alipay,wxpay'') (tq_PayType req)
           then Inl (400, ''ERR_PAY_TYPE_DISABLED'')
      else case usdMicroFromFenAndRate fen (safeExchangeRateRmbPerUsdMicros cfg) of
          None \<Rightarrow> Inl (400, ''ERR_INVALID_AMOUNT'')
        | Some micro \<Rightarrow> Inr (key, micro))"

definition gateway_response :: "gateway_error \<Rightarrow> response" where
  "gateway_response e = (case e of GatewayInternal \<Rightarrow> (400, ''ERR_PAY_TYPE_INVALID'')
     | GatewayNotConfigured \<Rightarrow> (503, ''ERR_PAYMENT_UNAVAILABLE'') | GatewayRejected \<Rightarrow> (502, ''ERR_GATEWAY_REJECT''))"

text \<open>After the row is there: ask the gateway, store its answer; the row is marked failed when
  either step fails, and that mark may fail too.\<close>

definition finish_create :: "(topup_order \<Rightarrow> gateway_error + (string \<times> string \<times> string)) \<Rightarrow> topup_order \<Rightarrow> response tx" where
  "finish_create gw ord =
     (case gw ord of
        Inl e \<Rightarrow> tx_bind (try_tx (mark_failed ord)) (\<lambda>_. tx_return (gateway_response e))
      | Inr (tradeNo, payType, payInfo) \<Rightarrow>
          tx_bind (try_tx (persist_gateway ord tradeNo payType payInfo)) (\<lambda>r.
            if r = None then tx_bind (try_tx (mark_failed ord)) (\<lambda>_. tx_return (500, ''ERR_PERSIST_GATEWAY_RESP''))
            else tx_return (200, ''ok'')))"

definition CreateTopup ::
  "crypto \<Rightarrow> sysconfig \<Rightarrow> (topup_order \<Rightarrow> gateway_error + (string \<times> string \<times> string)) \<Rightarrow> nanos \<Rightarrow> string option
    \<Rightarrow> nat option \<Rightarrow> topup_request option \<Rightarrow> response tx" where
  "CreateTopup cy cfg gw now outTradeNo userID body =
     (case userID of None \<Rightarrow> tx_return (401, ''ERR_NO_AUTH'')
      | Some uid \<Rightarrow>
     (case body of None \<Rightarrow> tx_return (400, ''ERR_BAD_REQUEST'')
      | Some req \<Rightarrow>
     (case check_create cy cfg req of Inl resp \<Rightarrow> tx_return resp
      | Inr (key, micro) \<Rightarrow>
     (case outTradeNo of None \<Rightarrow> tx_return (500, ''ERR_INTERNAL'')
      | Some otn \<Rightarrow>
        if buildAbsoluteURL cfg (''/api/payment/notify/'' @ key) = None
        then tx_return (503, ''ERR_SERVER_ADDRESS_NOT_CONFIGURED'')
        else tx_bind (attempt (insert_order key otn uid (tq_PayType req) (tq_AmountFen req) micro
               (safeExchangeRateRmbPerUsdMicros cfg) now)) (\<lambda>r. case r of
             Inr (Some ord) \<Rightarrow> finish_create gw ord
           | _ \<Rightarrow> tx_return (500, ''ERR_DB_INSERT''))))))"

subsection \<open>Requests as sequences of steps\<close>

text \<open>A row that is read becomes a copy to act on.\<close>

abbreviation "placing \<equiv> served_by topup_step"
abbreviation "placed \<equiv> answered_by topup_step"

lemma served_assume: "(C \<Longrightarrow> served_by step P m Q) \<Longrightarrow> served_by step (\<lambda>S. P S \<and> C) m Q"
  by (auto simp: served_by_def)

lemma served_first_order:
  "placing anyway (attempt (first_order c)) (\<lambda>r S. case r of Inl _ \<Rightarrow> True | Inr ord \<Rightarrow> ord \<in> S \<and> c ord)"
proof (rule servedI)
  fix S t fs r t' fs' assume run: "attempt (first_order c) (t, fs) = (r, (t', fs'))"
  obtain x t1 fs1 where a: "attempt (first_order c) (t, fs) = (Inr x, (t1, fs1))" by (rule attempt_result)
  have t: "t1 = t" using attempt_read [OF a [unfolded first_order_def]] .
  show "\<exists>a S'. r = Inr a \<and> S \<subseteq> S' \<and> (case a of Inl _ \<Rightarrow> True | Inr ord \<Rightarrow> ord \<in> S' \<and> c ord) \<and> topup_step\<^sup>*\<^sup>* (t, S) (t', S')"
  proof (cases x)
    case (Inl e)
    with a t run show ?thesis by auto
  next
    case (Inr ord)
    then have "ord \<in> set (topup_orders t)" "c ord" using a by (auto simp: attempt_Inr first_order_Inr dest: find_row)
    with topup_step.look [of ord t S] a t run Inr show ?thesis
      by (intro exI [of _ "Inr ord"] exI [of _ "insert ord S"]) auto
  qed
qed

lemma placed_first_order:
  assumes "\<And>e. placed (f (Inl e))" "\<And>ord. c ord \<Longrightarrow> placing (\<lambda>S. ord \<in> S) (f (Inr ord)) (\<lambda>_. anyway)"
  shows "placed (tx_bind (attempt (first_order c)) f)"
proof (rule served_bind [OF served_first_order])
  fix a show "placing (\<lambda>S. case a of Inl _ \<Rightarrow> True | Inr ord \<Rightarrow> ord \<in> S \<and> c ord) (f a) (\<lambda>_. anyway)"
    by (cases a) (auto intro: assms served_assume)
qed

lemma receipt_cases:
  "insert_receipt r (t, fs) = (x, (t', fs')) \<Longrightarrow> x \<noteq> Inr False \<Longrightarrow> t' = t"
  "insert_receipt r (t, fs) = (Inr False, (t', fs')) \<Longrightarrow> t' = t \<lparr> receipts := receipts t @ [r] \<rparr>"
  by (cases x; auto simp: insert_receipt_def stmt_Inr stmt_Inl split: if_splits)
    (auto simp: insert_receipt_def stmt_Inr split: if_splits)

lemma receipt_step: "insert_receipt r (t, fs) = (x, (t', fs')) \<Longrightarrow> topup_step (t, S) (t', S)"
  by (rule topup_step.other [where es = "[]"]; cases x)
    (auto simp: insert_receipt_def stmt_Inr stmt_Inl split: if_splits)

lemmas placing_intros = served_if served_option served_sum served_prod answered_return
  served_step [THEN served_bind] served_try [THEN served_bind]

subsection \<open>Callbacks\<close>

lemma placed_settle_order:
  assumes "to_OutTradeNo ord = we_OutTradeNo ev"
  shows "placing (\<lambda>S. ord \<in> S) (settle_order now provider ev ord) (\<lambda>_. anyway)"
  unfolding settle_order_def by (intro placing_intros) (rule topup_step.callback [OF _ assms])

lemma placed_settle_event: "placed (settle_event now provider ev)"
  unfolding settle_event_def
  by (intro placed_first_order placed_settle_order placing_intros)
    (auto simp: recordWebhookReceiptForEvent_def persistWebhookReceiptAccepted_def intro: receipt_step placed_settle_order)

lemma placed_webhook_error: "placed (handleWebhookError provider l inp e)"
proof -
  have "placed (recordWebhookReceipt provider ps n st)" for ps n st
    unfolding recordWebhookReceipt_def by (intro placing_intros) (rule receipt_step)
  then have "placed (tx_bind (recordWebhookReceipt provider ps n st) (\<lambda>_. tx_return resp))" for ps n st resp
    by (rule served_bind) (rule answered_return)
  then show ?thesis unfolding handleWebhookError_def by (cases e) (auto intro: answered_return)
qed

lemma placed_webhook: "placed (ProcessPaymentWebhook cy cfg now provider inp)"
  unfolding ProcessPaymentWebhook_def Let_def by (intro placing_intros placed_webhook_error placed_settle_event)

subsection \<open>Marks and refunds of an administrator\<close>

lemma placed_mark_paid: "placed (AdminMarkTopupPaid now opID idParam body)"
  unfolding AdminMarkTopupPaid_def
  by (intro placed_first_order placing_intros) (auto intro: topup_step.manual)

lemma placed_refund: "placed (AdminRefundTopup now opID idParam body)"
  unfolding AdminRefundTopup_def refund_checked_def Let_def
  by (intro placed_first_order placing_intros) (auto intro: topup_step.refund)

text \<open>Money received outside the platform is booked beside the orders. The columns of a user are
  64-bit integers.\<close>

lemma scaled_to_int64_in: "scaled_to_int64 unit f = Some m \<Longrightarrow> in_i64 m"
  by (cases "math_Round (f64_mul f (f64_of_int unit))")
    (auto simp: scaled_to_int64_def Let_def i64_defs split: if_splits)

definition columns_ok :: "tables \<Rightarrow> bool" where
  "columns_ok t \<longleftrightarrow> (\<forall>u \<in> ran (users t). in_i64 (u_Quota u) \<and> in_i64 (u_PaidQuota u))"

lemma offline_Inr:
  assumes "offline_body now opID uid req micro currency ref (t, fs) = (Inr a, (t', fs'))"
    and cok: "columns_ok t" and mi: "in_i64 micro"
  shows "\<exists>u e. users t uid = Some u \<and> billing t' = billing t @ [e] \<and> be_UserID e = uid \<and> be_AmountUSD e = micro
    \<and> be_EntryType e = ''topup'' \<and> be_RelatedType e = ''operation_log'' \<and> u_Role u = ''user''
    \<and> users t' = (users t)(uid \<mapsto> u \<lparr> u_Quota := u_Quota u + micro, u_PaidQuota := u_PaidQuota u + micro \<rparr>)
    \<and> topup_orders t' = topup_orders t \<and> refunds t' = refunds t
    \<and> \<not> receipt_used ''manual_paid'' ref t \<and> receipt_used ''manual_paid'' ref t'"
proof -
  define rc where "rc = \<lparr> wr_Provider = ''manual_paid'', wr_Nonce = ref,
      wr_OutTradeNo = ''off:u'' @ show_nat uid @ '':'' @ show_int now, wr_Status = ''accepted_manual'' \<rparr>"
  obtain u :: user and nq np dup t2 fs1 fs2 where u: "users t uid = Some u" "u_Role u = ''user''"
    and q: "CheckedAddInt64 (u_Quota u) micro = Some nq" "CheckedAddInt64 (u_PaidQuota u) micro = Some np"
    and ir: "insert_receipt rc (t, fs1) = (Inr dup, (t2, fs2))"
    and m: "(if dup then tx_throw errOfflineTopupDuplicate
         else tx_bind (stmt (update_user_if uid (\<lambda>_. True) (\<lambda>u. u \<lparr> u_Quota := nq, u_PaidQuota := np \<rparr>))) (\<lambda>_.
           tx_bind (LogOperationByTxReturning opID uid ''admin'' ''OFFLINE_TOPUP'') (\<lambda>logID.
             WriteBillingEntry now (offline_entry now uid micro nq logID currency
               (if currency = ''CNY'' then of_MoneyFen req else micro))))) (t2, fs2) = (Inr a, (t', fs'))"
    using assms(1) unfolding offline_body_def rc_def
    by (auto simp: tx_bind_Inr [of "lockUserForUpdate _"] tx_bind_Inr [of "query_first _"] tx_bind_Inr [of "insert_receipt _"]
        lock_Inr query_first_Inr split: if_splits option.splits)
  have d: "\<not> dup" using m by (auto split: if_splits)
  then have t2: "t2 = t \<lparr> receipts := receipts t @ [rc] \<rparr>" and nu: "\<not> receipt_used ''manual_paid'' ref t"
    using ir by (auto simp: insert_receipt_def stmt_Inr rc_def split: if_splits)
  define up :: "user \<Rightarrow> user" where "up = (\<lambda>u. u \<lparr> u_Quota := nq, u_PaidQuota := np \<rparr>)"
  have uu: "update_user_if uid (\<lambda>_. True) (\<lambda>u. u \<lparr> u_Quota := nq, u_PaidQuota := np \<rparr>) t2
      = (1, t2 \<lparr> users := (users t2)(uid \<mapsto> up u) \<rparr>)"
    using u(1) by (simp add: update_user_if_def t2 up_def)
  obtain logID t3 fs3 where lg: "LogOperationByTxReturning opID uid ''admin'' ''OFFLINE_TOPUP''
      (t2 \<lparr> users := (users t2)(uid \<mapsto> up u) \<rparr>, tl fs2) = (Inr logID, (t3, fs3))"
    and w: "WriteBillingEntry now (offline_entry now uid micro nq logID currency
               (if currency = ''CNY'' then of_MoneyFen req else micro)) (t3, fs3) = (Inr a, (t', fs'))"
    using m d uu by (auto simp: tx_bind_Inr stmt_Inr)
  define e where "e = booked now (offline_entry now uid micro nq logID currency
               (if currency = ''CNY'' then of_MoneyFen req else micro))"
  have t3: "t3 = t2 \<lparr> users := (users t2)(uid \<mapsto> up u), operation_logs := operation_logs t3 \<rparr>"
    using lg by (auto simp: LogOperationByTxReturning_def stmt_Inr)
  have t': "t' = t3 \<lparr> billing := billing t3 @ [e] \<rparr>"
    using w unfolding WriteBillingEntry_Inr e_def by blast
  have cols: "billing t3 = billing t" "users t3 = (users t)(uid \<mapsto> up u)" "topup_orders t3 = topup_orders t"
    "refunds t3 = refunds t" "receipts t3 = receipts t @ [rc]"
    by (subst t3, simp add: t2)+
  have e: "be_UserID e = uid" "be_AmountUSD e = micro" "be_EntryType e = ''topup''" "be_RelatedType e = ''operation_log''"
    by (simp_all add: e_def offline_entry_def booked_def)
  have nq: "up u = u \<lparr> u_Quota := u_Quota u + micro, u_PaidQuota := u_PaidQuota u + micro \<rparr>"
    using q u(1) cok mi by (simp add: up_def CheckedAddInt64_eq columns_ok_def ranI split: if_splits)
  have b: "billing t' = billing t @ [e]" "users t' = (users t)(uid \<mapsto> u \<lparr> u_Quota := u_Quota u + micro, u_PaidQuota := u_PaidQuota u + micro \<rparr>)"
    "topup_orders t' = topup_orders t" "refunds t' = refunds t" "receipt_used ''manual_paid'' ref t'"
    using cols nq by (simp_all add: t' receipt_used_def rc_def)
  show ?thesis
    by (rule exI [of _ u], rule exI [of _ e], intro conjI) (rule u b e nu)+
qed

lemma offline_step:
  assumes b: "transaction (offline_body now op uid req micro cur ref) (t, fs) = (x, (t', fs1))"
    and cok: "columns_ok t" and mi: "in_i64 micro"
  shows "topup_step (t, S) (t', S)"
proof (cases x)
  case (Inl e)
  then have "t' = t" using transaction_rollback b by blast
  then show ?thesis by (simp add: orders.idle)
next
  case (Inr a)
  obtain fs2 where o: "offline_body now op uid req micro cur ref (t, fs) = (Inr a, (t', fs2))"
    using b [unfolded Inr transaction_Inr] by blast
  obtain u :: user and e where u: "users t uid = Some u" and e: "billing t' = billing t @ [e]" "be_UserID e = uid"
     "be_AmountUSD e = micro" "be_RelatedType e = ''operation_log''"
    and us: "users t' = (users t)(uid \<mapsto> u \<lparr> u_Quota := u_Quota u + micro, u_PaidQuota := u_PaidQuota u + micro \<rparr>)"
    and o': "topup_orders t' = topup_orders t" "refunds t' = refunds t"
    using offline_Inr [OF o cok mi] by blast
  have "reconciled opn t'" if rec: "reconciled opn t" for opn
    by (rule reconciled_post [OF rec _ e(1), of u]) (use u e(2,3) in \<open>auto simp: us split: if_splits\<close>)
  then show ?thesis by (intro topup_step.other [OF o' e(1)]) (simp_all add: e(4))
qed

lemma check_offline_in: "check_offline req = Inr (micro, cur, ref) \<Longrightarrow> in_i64 micro"
  using scaled_to_int64_in by (auto simp: check_offline_def USDToMicro_def Let_def split: option.splits if_splits)

lemma offline_placed:
  assumes "AdminCreateOfflineTopup now opID idParam body (t, fs) = (r, (t', fs'))" and cok: "columns_ok t"
  shows "(\<exists>resp. r = Inr resp) \<and> (t' = t \<or> topup_step (t, S) (t', S))"
proof -
  have run: ?thesis if b: "tx_bind (attempt (transaction (offline_body now op uid req micro cur ref)))
      (\<lambda>r. tx_return (offline_response r)) (t, fs) = (r, (t', fs'))" and mi: "in_i64 micro" for op uid req micro cur ref
  proof -
    obtain x t1 fs1 where a: "attempt (transaction (offline_body now op uid req micro cur ref)) (t, fs) = (Inr x, (t1, fs1))"
      by (rule attempt_result)
    then obtain y where "transaction (offline_body now op uid req micro cur ref) (t, fs) = (y, (t1, fs1))"
      by (cases x) (auto simp: attempt_Inr)
    from offline_step [OF this cok mi] b a show ?thesis by (auto simp: tx_bind_def)
  qed
  show ?thesis
  proof (cases "\<exists>op uid req micro cur ref. opID = Some op \<and> path_id idParam = Some uid \<and> body = Some req
      \<and> check_offline req = Inr (micro, cur, ref)")
    case True
    then obtain op uid req micro cur ref where c: "opID = Some op" "path_id idParam = Some uid" "body = Some req"
      "check_offline req = Inr (micro, cur, ref)" by blast
    show ?thesis by (rule run [OF _ check_offline_in [OF c(4)]])
      (use assms(1) in \<open>simp add: AdminCreateOfflineTopup_def c\<close>)
  qed (use assms(1) in \<open>auto simp: AdminCreateOfflineTopup_def split: option.splits sum.splits\<close>)
qed

subsection \<open>Placing an order\<close>

lemma placed_finish: "placing (\<lambda>S. ord \<in> S) (finish_create gw ord) (\<lambda>_. anyway)"
  unfolding finish_create_def by (intro placing_intros) (auto intro: topup_step.failed topup_step.gateway)

lemma served_insert_order:
  assumes "usdMicroFromFenAndRate fen rate = Some micro"
  shows "placing anyway (attempt (insert_order key n uid pt fen micro rate now))
    (\<lambda>r S. case r of Inr (Some ord) \<Rightarrow> ord \<in> S | _ \<Rightarrow> True)" (is "placing _ (attempt ?ins) ?Q")
proof (rule servedI)
  fix S t fs r t' fs' assume run: "attempt ?ins (t, fs) = (r, (t', fs'))"
  obtain x t1 fs1 where a: "attempt ?ins (t, fs) = (Inr x, (t1, fs1))" by (rule attempt_result)
  show "\<exists>a S'. r = Inr a \<and> S \<subseteq> S' \<and> ?Q a S' \<and> topup_step\<^sup>*\<^sup>* (t, S) (t', S')"
  proof (cases "\<exists>ord. x = Inr (Some ord)")
    case True
    then obtain ord where x: "x = Inr (Some ord)" by blast
    have "topup_step (t, S) (t1, insert ord S)" using topup_step.create [OF _ assms] a x unfolding attempt_Inr by simp
    with run a x show ?thesis by (intro exI [of _ x] exI [of _ "insert ord S"]) auto
  next
    case False
    then have "t1 = t" using a unfolding attempt_Inr
      by (cases x) (auto simp: insert_order_def stmt_Inr stmt_Inl Let_def split: if_splits)
    with run a False show ?thesis by (intro exI [of _ x] exI [of _ S]) (auto split: sum.split option.split)
  qed
qed

lemma check_create_micro:
  "check_create cy cfg req = Inr (key, micro) \<Longrightarrow> usdMicroFromFenAndRate (tq_AmountFen req) (safeExchangeRateRmbPerUsdMicros cfg) = Some micro"
  by (auto simp: check_create_def Let_def split: if_splits option.splits)

lemma placed_create: "placed (CreateTopup cy cfg gw now otn userID body)"
proof -
  have ins: "placed (tx_bind (attempt (insert_order key n uid pt fen micro rate now)) (\<lambda>r. case r of
      Inr (Some ord) \<Rightarrow> finish_create gw ord | _ \<Rightarrow> tx_return (500, ''ERR_DB_INSERT'')))"
    if "usdMicroFromFenAndRate fen rate = Some micro" for key n uid pt fen micro rate
  proof (rule served_bind [OF served_insert_order [OF that]])
    fix r
    show "placing (\<lambda>S. case r of Inr (Some ord) \<Rightarrow> ord \<in> S | _ \<Rightarrow> True)
        (case r of Inr (Some ord) \<Rightarrow> finish_create gw ord | _ \<Rightarrow> tx_return (500, ''ERR_DB_INSERT'')) (\<lambda>_. anyway)"
    proof (cases r)
      case (Inr x)
      then show ?thesis by (cases x) (simp_all add: placed_finish answered_return)
    qed (simp add: answered_return)
  qed
  show ?thesis unfolding CreateTopup_def by (intro ins placing_intros) (auto dest: check_create_micro)
qed

subsection \<open>Properties\<close>

datatype payment_request =
    Callback string webhook_input
  | MarkPaid "nat option" string "mark_paid_request option"
  | Refund "nat option" string "refund_request option"
  | OfflineTopup "nat option" string "offline_request option"
  | Create "string option" "nat option" "topup_request option"

definition serve :: "crypto \<Rightarrow> sysconfig \<Rightarrow> (topup_order \<Rightarrow> gateway_error + (string \<times> string \<times> string)) \<Rightarrow> nanos
    \<Rightarrow> payment_request \<Rightarrow> response tx" where
  "serve cy cfg gw now req = (case req of
      Callback provider inp \<Rightarrow> ProcessPaymentWebhook cy cfg now provider inp
    | MarkPaid op i body \<Rightarrow> AdminMarkTopupPaid now op i body
    | Refund op i body \<Rightarrow> AdminRefundTopup now op i body
    | OfflineTopup op i body \<Rightarrow> AdminCreateOfflineTopup now op i body
    | Create otn uid body \<Rightarrow> CreateTopup cy cfg gw now otn uid body)"

text \<open>C4: Every payment request refines the abstract order machine: whatever it contains, whatever the
  gateway answers and whichever statements fail, it is answered, and its effect on the tables is
  a run of the machine's steps, so all that is proved of reachable states of the machine holds
  of the handlers. (The balance columns are taken to be 64-bit, as the database declares them.)\<close>

theorem payment_requests_refine:
  assumes "serve cy cfg gw now req (t, fs) = (r, (t', fs'))" and "columns_ok t"
  shows "(\<exists>resp. r = Inr resp) \<and> (\<exists>S'. S \<subseteq> S' \<and> topup_step\<^sup>*\<^sup>* (t, S) (t', S'))"
proof (cases "\<exists>op i body. req = OfflineTopup op i body")
  case True
  then obtain op i body where "req = OfflineTopup op i body" by blast
  with assms(1) have "AdminCreateOfflineTopup now op i body (t, fs) = (r, (t', fs'))" by (simp add: serve_def)
  from offline_placed [OF this assms(2), of S] show ?thesis
    by (intro conjI exI [of _ S]) auto
next
  case False
  then have "placed (serve cy cfg gw now req)"
    unfolding serve_def by (cases req) (simp_all add: placed_webhook placed_mark_paid placed_refund placed_create)
  from servedD [OF this TrueI assms(1), of S] show ?thesis by (elim exE conjE) (intro conjI exI)
qed

theorem payment_requests_refine_witness:
  "\<forall>cy. \<exists>S'. topup_step\<^sup>*\<^sup>* (orders_paid, {}) (fst (snd (serve cy Map.empty (\<lambda>_. Inl GatewayRejected) 9
     (Refund (Some 1) ''1'' (Some \<lparr> rq_MoneyFen = 4000, rq_ReclaimQuota = True, rq_ExternalRefundRef = ''r1'' \<rparr>))
     (orders_paid, []))), S')"
proof
  fix cy
  have "orders_paid = fst (snd (Inr (), (orders_paid, [] :: bool list)))" by simp
  have "credited demo_order orders_placed orders_paid"
    using finalize_Inr [OF demo_paid] by blast
  then have "columns_ok orders_paid"
    by (auto simp: columns_ok_def credited_def demo_order_def new_order_def orders_placed_def orders_start_def
        order_user_def ran_def i64_defs split: if_splits)
  then show "\<exists>S'. topup_step\<^sup>*\<^sup>* (orders_paid, {}) (fst (snd (serve cy Map.empty (\<lambda>_. Inl GatewayRejected) 9
     (Refund (Some 1) ''1'' (Some \<lparr> rq_MoneyFen = 4000, rq_ReclaimQuota = True, rq_ExternalRefundRef = ''r1'' \<rparr>))
     (orders_paid, []))), S')"
    using payment_requests_refine [of cy Map.empty "\<lambda>_. Inl GatewayRejected" 9
      "Refund (Some 1) ''1'' (Some \<lparr> rq_MoneyFen = 4000, rq_ReclaimQuota = True, rq_ExternalRefundRef = ''r1'' \<rparr>)"
      orders_paid "[]" _ _ _ "{}"] by (metis prod.collapse)
qed

text \<open>What a callback finds when all is well.\<close>

definition awaits :: "tables \<Rightarrow> string \<Rightarrow> webhook_event \<Rightarrow> topup_order \<Rightarrow> bool" where
  "awaits t provider ev ord \<longleftrightarrow> find (\<lambda>r. to_OutTradeNo r = we_OutTradeNo ev) (topup_orders t) = Some ord
     \<and> to_Status ord = ''created'' \<and> to_Provider ord = provider \<and> validateWebhookAmount ev ord
     \<and> to_UserID ord \<noteq> 0 \<and> users t (to_UserID ord) \<noteq> None \<and> credits t (to_ID ord) = []"

lemma credit_not_taken: "credits t oid = [] \<Longrightarrow> \<not> related_taken (topup_entry now uid a b oid cur orig) t"
  by (auto simp: related_taken_def topup_entry_def credits_def list_ex_iff filter_empty_conv)

lemma credit_succeeds:
  assumes "to_UserID ord \<noteq> 0" "users t (to_UserID ord) \<noteq> None" "credits t (to_ID ord) = []"
  shows "\<exists>t'. credit_order now ord cur orig (t, []) = (Inr (), (t', []))"
proof -
  obtain u :: user where u: "users t (to_UserID ord) = Some u" using assms(2) by blast
  have ok: "entry_ok (booked now (topup_entry now (to_UserID ord) a b (to_ID ord) cur orig))" for a b
    using assms(1) by (simp add: entry_ok_def booked_def topup_entry_def blank_entry_def IsKnownBillingType_def
        IsKnownBillingState_def known_states_def IsZeroAmountBillingType_def)
  have w: "WriteBillingEntry now (topup_entry now (to_UserID ord) a b (to_ID ord) cur orig) (t1, [])
      = (Inr (), (t1 \<lparr> billing := billing t1 @ [booked now (topup_entry now (to_UserID ord) a b (to_ID ord) cur orig)] \<rparr>, []))"
    if "credits t1 (to_ID ord) = []" for a b t1
    using credit_not_taken [OF that] by (simp add: WriteBillingEntry_Inr ok)
  have "credits (t \<lparr> users := us \<rparr>) (to_ID ord) = []" for us using assms(3) by (simp add: credits_def)
  then show ?thesis by (simp add: credit_order_def add_quota_def tx_bind_def update_user_if_def u w)
qed

text \<open>C11: A payment is credited: a verified callback that reports a waiting order as paid, for its
  amount and its gateway and for the first time, is answered with success and, when the database
  does not fail, credits the user with the order's amount, books it and marks the order paid.\<close>

theorem callback_credits_order:
  assumes "awaits t provider ev ord" and "we_Kind ev = ''paid''" and "\<not> receipt_used provider (we_Nonce ev) t"
  shows "\<exists>t'. settle_event now provider ev (t, []) = (Inr (200, ''success''), (t', []))
    \<and> credited ord t t' \<and> (\<exists>r \<in> set (topup_orders t'). ident r = ident ord \<and> to_Status r = ''paid'')
    \<and> receipt_used provider (we_Nonce ev) t'"
proof -
  define rc where "rc = \<lparr> wr_Provider = provider, wr_Nonce = we_Nonce ev, wr_OutTradeNo = we_OutTradeNo ev, wr_Status = ''accepted'' \<rparr>"
  define t1 where "t1 = t \<lparr> receipts := receipts t @ [rc] \<rparr>"
  have rec: "attempt (recordWebhookReceiptForEvent provider ev) (t, []) = (Inr (Inr False), (t1, []))"
    using assms(3) by (simp add: attempt_Inr recordWebhookReceiptForEvent_def persistWebhookReceiptAccepted_def
        insert_receipt_def t1_def rc_def)
  have f: "attempt (first_order (\<lambda>r. to_OutTradeNo r = we_OutTradeNo ev)) (t1, []) = (Inr (Inr ord), (t1, []))"
    using assms(1) by (simp add: attempt_Inr first_order_Inr awaits_def t1_def)
  let ?c = "\<lambda>r. to_OutTradeNo r = we_OutTradeNo ev \<and> to_Status r = ''created''"
  let ?f = "pay_row now (take 128 (we_ExternalTradeNo ev))"
  define t2 where "t2 = t1 \<lparr> topup_orders := map (\<lambda>r. if ?c r then ?f r else r) (topup_orders t1) \<rparr>"
  have o: "ord \<in> set (topup_orders t)" "?c ord" using assms(1) by (auto simp: awaits_def dest!: find_row)
  have up: "update_orders ?c ?f (t1, []) = (Inr (length (filter ?c (topup_orders t1))), (t2, []))"
    by (simp add: update_orders_Inr t2_def)
  have n: "length (filter ?c (topup_orders t1)) \<noteq> 0" using o by (auto simp: t1_def filter_empty_conv)
  define cur where "cur = (if we_CurrencyOriginal ev = '''' then webhookCurrencyOriginal (we_AmountKind ev) else we_CurrencyOriginal ev)"
  obtain t3 where c: "credit_order now ord cur (we_AmountRaw ev) (t2, []) = (Inr (), (t3, []))"
  proof -
    have "to_UserID ord \<noteq> 0" "users t2 (to_UserID ord) \<noteq> None" "credits t2 (to_ID ord) = []"
      using assms(1) by (auto simp: awaits_def t2_def t1_def credits_def)
    from credit_succeeds [OF this, of now cur "we_AmountRaw ev"] show ?thesis using that by blast
  qed
  have fin: "finalizePaidTopupTransaction now ord ev (t1, []) = (Inr (), (t3, []))"
    using up n c unfolding finalizePaidTopupTransaction_def
    by (intro transaction_ok) (simp add: tx_bind_def cur_def)
  have so: "settle_order now provider ev ord (t1, []) = (Inr (200, ''success''), (t3, []))"
    using assms(1) fin by (simp add: settle_order_def awaits_def tx_bind_def attempt_def tx_catch_def)
  have "settle_event now provider ev (t, []) = (Inr (200, ''success''), (t3, []))"
    using rec f so assms(2) by (simp add: settle_event_def tx_bind_def)
  moreover have cr: "credited ord t2 t3" "topup_orders t3 = topup_orders t2" "receipts t3 = receipts t2"
    using credit_order_Inr [OF c] by blast+
  moreover have "credited ord t t3" using cr(1) by (simp add: t2_def t1_def)
  moreover have "?f ord \<in> set (topup_orders t3)" using o by (auto simp: cr(2) t2_def t1_def)
  then have "\<exists>r \<in> set (topup_orders t3). ident r = ident ord \<and> to_Status r = ''paid''"
    by (rule rev_bexI) (simp add: pay_row_def ident_def)
  moreover have "receipt_used provider (we_Nonce ev) t3" using cr(3) by (simp add: receipt_used_def t2_def t1_def rc_def)
  ultimately show ?thesis by blast
qed

theorem callback_credits_order_witness:
  "\<exists>t'. settle_event 7 ''yifut'' demo_event (orders_placed, []) = (Inr (200, ''success''), (t', [])) \<and> credited demo_order orders_placed t'"
  using callback_credits_order [of orders_placed "''yifut''" demo_event demo_order 7]
  by (auto simp: awaits_def orders_placed_def orders_start_def demo_order_def new_order_def demo_event_def
      validateWebhookAmount_def receipt_used_def credits_def)

lemma used_ignored:
  assumes "receipt_used provider (we_Nonce ev) t"
  shows "settle_event now provider ev (t, []) = (Inr (200, ''success''), (t, []))"
  using assms
  by (simp add: settle_event_def recordWebhookReceiptForEvent_def persistWebhookReceiptAccepted_def tx_bind_def
      attempt_def tx_catch_def insert_receipt_def)

lemma settle_event_receipt:
  assumes "settle_event now provider ev (t, fs) = (Inr (500, code), (t', fs'))" and "code \<noteq> ''receipt_failed''"
  shows "receipt_used provider (we_Nonce ev) t' \<and> users t' = users t \<and> billing t' = billing t \<and> topup_orders t' = topup_orders t"
proof -
  define rc where "rc = \<lparr> wr_Provider = provider, wr_Nonce = we_Nonce ev, wr_OutTradeNo = we_OutTradeNo ev, wr_Status = ''accepted'' \<rparr>"
  obtain x t1 fs1 where a: "attempt (recordWebhookReceiptForEvent provider ev) (t, fs) = (Inr x, (t1, fs1))"
    using attempt_returns [of "recordWebhookReceiptForEvent provider ev" "(t, fs)"] by auto
  have x: "x = Inr False" using assms a by (auto simp: settle_event_def tx_bind_def split: sum.splits if_splits)
  have i: "insert_receipt rc (t, fs) = (Inr False, (t1, fs1))"
    using a unfolding attempt_Inr x by (simp add: recordWebhookReceiptForEvent_def persistWebhookReceiptAccepted_def rc_def)
  have t1: "t1 = t \<lparr> receipts := receipts t @ [rc] \<rparr>" by (rule receipt_cases(2) [OF i])
  obtain z t2 fs2 where b: "attempt (first_order (\<lambda>r. to_OutTradeNo r = we_OutTradeNo ev)) (t1, fs1) = (Inr z, (t2, fs2))"
    using attempt_returns [of "first_order (\<lambda>r. to_OutTradeNo r = we_OutTradeNo ev)" "(t1, fs1)"] by auto
  have t2: "t2 = t1" using b unfolding attempt_Inr by (cases z) (auto simp: first_order_def dest: query_first_frame)
  have p: "we_Kind ev = ''paid''" using assms(1) a x by (auto simp: settle_event_def tx_bind_def split: if_splits)
  have "t' = t1"
  proof (cases z)
    case (Inl e)
    then show ?thesis using assms a x b t2 p by (simp add: settle_event_def tx_bind_def)
  next
    case (Inr ord)
    have so: "settle_order now provider ev ord (t1, fs2) = (Inr (500, code), (t', fs'))"
      using assms a x b t2 p Inr by (simp add: settle_event_def tx_bind_def)
    obtain y t3 fs3 where f: "finalizePaidTopupTransaction now ord ev (t1, fs2) = (y, (t3, fs3))" by (metis prod.collapse)
    have "(\<exists>e. y = Inl e) \<and> t' = t3"
      using so f by (cases y) (auto simp: settle_order_def tx_bind_def attempt_def tx_catch_def split: if_splits)
    then show ?thesis using f finalize_Inl by blast
  qed
  then show ?thesis by (simp add: t1 receipt_used_def rc_def)
qed

text \<open>C12: A payment whose first callback met a database failure is lost to the callbacks: the receipt
  is kept although crediting failed and the gateway is told to retry, so the retry, even on a
  healthy database, is acknowledged as a success and changes nothing.\<close>

theorem failed_callback_not_retried:
  assumes "settle_event now provider ev (t, fs) = (Inr (500, code), (t', fs'))" and "code \<noteq> ''receipt_failed''"
  shows "users t' = users t \<and> billing t' = billing t \<and> topup_orders t' = topup_orders t
    \<and> settle_event now' provider ev (t', []) = (Inr (200, ''success''), (t', []))"
  using settle_event_receipt [OF assms] used_ignored by blast

theorem failed_callback_not_retried_witness:
  "\<exists>t' fs'. settle_event 7 ''yifut'' demo_event (orders_placed, [False, True]) = (Inr (500, ''order_not_found_retry''), (t', fs'))
    \<and> users t' = users orders_placed \<and> settle_event 8 ''yifut'' demo_event (t', []) = (Inr (200, ''success''), (t', []))"
proof -
  obtain t' fs' where e: "settle_event 7 ''yifut'' demo_event (orders_placed, [False, True]) = (Inr (500, ''order_not_found_retry''), (t', fs'))"
    by (simp add: settle_event_def recordWebhookReceiptForEvent_def persistWebhookReceiptAccepted_def tx_bind_def
        attempt_def tx_catch_def insert_receipt_def stmt_def first_order_def query_first_def demo_event_def receipt_used_def
        orders_placed_def orders_start_def)
  from failed_callback_not_retried [OF e, of 8] e show ?thesis by auto
qed

text \<open>C13: A callback of the USDT gateway that does not yet report the payment (a transfer still being
  confirmed, or an expired order) uses up the receipt of the trade: the later callback that does
  report it as paid carries the same nonce, is acknowledged and credits nothing, even without
  any failure.\<close>

theorem pending_callback_blocks_payment:
  assumes "json_get ''order_id'' ms = json_get ''order_id'' ms'" and "json_get ''trade_id'' ms = json_get ''trade_id'' ms'"
    and "epusdt_kind pending \<noteq> ''paid''"
  shows "\<exists>t1. settle_event now ''epusdt'' (epusdt_event ms amount pending) (t, []) = (Inr (200, ''success''), (t1, []))
    \<and> users t1 = users t \<and> billing t1 = billing t \<and> topup_orders t1 = topup_orders t
    \<and> settle_event now' ''epusdt'' (epusdt_event ms' amount' paid) (t1, []) = (Inr (200, ''success''), (t1, []))"
proof -
  let ?e = "epusdt_event ms amount pending" and ?e' = "epusdt_event ms' amount' paid"
  have n: "we_Nonce ?e' = we_Nonce ?e" and k: "we_Kind ?e \<noteq> ''paid''"
    using assms by (simp_all add: epusdt_event_def Let_def)
  obtain t1 fs1 x where s: "settle_event now ''epusdt'' ?e (t, []) = (x, (t1, fs1))" by (metis prod.collapse)
  have r: "x = Inr (200, ''success'') \<and> fs1 = [] \<and> users t1 = users t \<and> billing t1 = billing t \<and> topup_orders t1 = topup_orders t
      \<and> receipt_used ''epusdt'' (we_Nonce ?e) t1"
    using s k by (auto simp: settle_event_def recordWebhookReceiptForEvent_def persistWebhookReceiptAccepted_def tx_bind_def
        attempt_def tx_catch_def insert_receipt_def receipt_used_def split: if_splits)
  then show ?thesis using s used_ignored [of "''epusdt''" ?e' t1 now'] n by auto
qed

theorem pending_callback_blocks_payment_witness:
  "let ms = [(''order_id'', JStr ''tp3''), (''trade_id'', JStr ''e1'')] in
     epusdt_kind (Fin 2) = ''paid'' \<and> (\<exists>t1. topup_orders t1 = topup_orders orders_placed
     \<and> settle_event 9 ''epusdt'' (epusdt_event ms (Fin 1) (Fin 2)) (t1, []) = (Inr (200, ''success''), (t1, [])))"
proof -
  have k: "epusdt_kind (Fin 1) \<noteq> ''paid''" "epusdt_kind (Fin 2) = ''paid''" by code_simp+
  show ?thesis
    unfolding Let_def using pending_callback_blocks_payment [OF refl refl k(1), of 7 _ "Fin 1" orders_placed 9 "Fin 1" "Fin 2"] k(2)
    by blast
qed

lemma refunded_has_entry:
  assumes "orders_inv t S" and "r \<in> set (topup_orders t)" and "refunds_of t (to_ID r) \<noteq> []"
  shows "reclaims t (to_ID r) \<noteq> [] \<and> 0 < to_ID r"
proof -
  have "map be_AmountUSD (reclaims t (to_ID r)) = map reclaimed (refunds_of t (to_ID r))"
    using inv_ok [OF assms(1,2)] by (simp add: order_ok_def)
  then have "length (reclaims t (to_ID r)) = length (refunds_of t (to_ID r))" by (metis length_map)
  moreover have "to_ID r \<in> set [1..<Suc (length (topup_orders t))]"
    using assms(1,2) unfolding orders_inv_def by (metis imageI list.set_map)
  ultimately show ?thesis using assms(3) by auto
qed

lemma refund_checked_again:
  assumes "reclaims t (to_ID ord) \<noteq> []" and "0 < to_ID ord"
    and "refund_checked now op ord body (t, fs) = (resp, (t', fs'))"
  shows "t' = t \<and> resp \<noteq> Inr (200, ''SUCCESS_REFUNDED'')"
proof -
  have no: "\<nexists>a w. transaction (refund_body now op ord a1 a2 a3) (t, fs) = (Inr a, w)" for a1 a2 a3
    using assms(1,2) by (auto simp: transaction_Inr split_paired_all refund_booked_def dest!: refund_Inr)
  have run: "\<exists>e fs1. attempt (transaction (refund_body now op ord a1 a2 a3)) (t, fs) = (Inr (Inl e), (t, fs1))" for a1 a2 a3
  proof -
    obtain x t1 fs1 where x: "transaction (refund_body now op ord a1 a2 a3) (t, fs) = (x, (t1, fs1))"
      by (metis prod.collapse)
    then obtain e where "x = Inl e" using no [of a1 a2 a3] by (cases x) blast+
    with x transaction_rollback show ?thesis by (auto simp: attempt_Inr)
  qed
  have resp: "refund_response (Inl e) \<noteq> (200, code)" for e code by (simp add: refund_response_def)
  have body_run: "\<exists>e fs1. tx_bind (attempt (transaction (refund_body now op ord a1 a2 a3)))
      (\<lambda>r. tx_return (refund_response r)) (t, fs) = (Inr (refund_response (Inl e)), (t, fs1))" for a1 a2 a3
    using run [of a1 a2 a3] by (auto simp: tx_bind_def)
  show ?thesis
  proof (cases "to_Status ord = ''paid'' \<and> (\<exists>req. body = Some req
      \<and> sanitizeExternalRef (TrimSpace (rq_ExternalRefundRef req)) \<noteq> '''' \<and> \<not> rq_MoneyFen req < 0)")
    case True
    then obtain req where req: "to_Status ord = ''paid''" "body = Some req"
      "sanitizeExternalRef (TrimSpace (rq_ExternalRefundRef req)) \<noteq> ''''" "\<not> rq_MoneyFen req < 0" by blast
    obtain e fs1 where e: "tx_bind (attempt (transaction (refund_body now op ord (rq_MoneyFen req) (rq_ReclaimQuota req)
         (sanitizeExternalRef (TrimSpace (rq_ExternalRefundRef req)))))) (\<lambda>r. tx_return (refund_response r)) (t, fs)
       = (Inr (refund_response (Inl e)), (t, fs1))" using body_run by blast
    have "(resp, (t', fs')) = (Inr (refund_response (Inl e)), (t, fs1))"
      using assms(3) e req by (simp add: refund_checked_def Let_def)
    then show ?thesis using resp by simp
  next
    case False
    then show ?thesis using assms(3) by (auto simp: refund_checked_def Let_def split: if_splits option.splits)
  qed
qed

text \<open>C14: An order can be refunded in part only once. The ledger has a unique index on the related row and
  the type of an entry, and every refund of an order books an entry of the same type about the
  same order; so once a part has been refunded, whatever an administrator asks for next is
  refused and changes nothing, although the order still says it is paid and money is left.\<close>

theorem second_refund_refused:
  assumes "no_orders t0" and "topup_step\<^sup>*\<^sup>* (t0, {}) (t, S)" and "r \<in> set (topup_orders t)"
    and "refunds_of t (to_ID r) \<noteq> []" and "path_id idParam = Some (to_ID r)"
    and "AdminRefundTopup now opID idParam body (t, fs) = (resp, (t', fs'))"
  shows "t' = t \<and> resp \<noteq> Inr (200, ''SUCCESS_REFUNDED'')"
proof -
  have inv: "orders_inv t S" by (rule orders_reachable [OF assms(1,2)])
  note had = refunded_has_entry [OF inv assms(3,4)]
  let ?find = "attempt (first_order (\<lambda>x. to_ID x = to_ID r))"
  obtain f fs1 where f: "?find (t, fs) = (Inr f, (t, fs1))"
  proof -
    obtain f w where a: "?find (t, fs) = (Inr f, w)" using attempt_returns by blast
    obtain t1 fs1 where w: "w = (t1, fs1)" by fastforce
    have "\<exists>x. first_order (\<lambda>x. to_ID x = to_ID r) (t, fs) = (x, (t1, fs1))"
      using a w by (cases f) (auto simp: attempt_Inr)
    then have "t1 = t" unfolding first_order_def using query_first_frame by blast
    then show thesis using a w that by blast
  qed
  show ?thesis
  proof (cases f)
    case (Inl e)
    have "AdminRefundTopup now (Some op) idParam body (t, fs) = (Inr (404, ''ERR_NOT_FOUND''), (t, fs1))" for op
      unfolding AdminRefundTopup_def assms(5) option.case tx_bind_def f Inl prod.case sum.case by simp
    then show ?thesis using assms(6) by (cases opID) (auto simp: AdminRefundTopup_def)
  next
    case (Inr ord)
    then have "first_order (\<lambda>x. to_ID x = to_ID r) (t, fs) = (Inr ord, (t, fs1))" using f by (simp add: attempt_Inr)
    then have fo: "find (\<lambda>x. to_ID x = to_ID r) (topup_orders t) = Some ord" by (simp add: first_order_Inr)
    have i: "to_ID ord = to_ID r" using find_row [OF fo] by simp
    show ?thesis
    proof (cases opID)
      case (Some op)
      have "AdminRefundTopup now opID idParam body (t, fs) = refund_checked now op ord body (t, fs1)"
        unfolding AdminRefundTopup_def Some assms(5) option.case tx_bind_def f Inr prod.case sum.case ..
      then have c: "refund_checked now op ord body (t, fs1) = (resp, (t', fs'))" using assms(6) by simp
      show ?thesis by (rule refund_checked_again [OF _ _ c]) (use had i in simp_all)
    qed (use assms(6) in \<open>auto simp: AdminRefundTopup_def\<close>)
  qed
qed

theorem second_refund_refused_witness:
  "\<exists>r \<in> set (topup_orders orders_refunded). to_Status r = ''paid'' \<and> to_RefundedAmountRMB r < to_MoneyRMB r
    \<and> (\<exists>resp fs'. AdminRefundTopup 12 (Some 1) ''1'' (Some \<lparr> rq_MoneyFen = 1000, rq_ReclaimQuota = False, rq_ExternalRefundRef = ''r2'' \<rparr>)
         (orders_refunded, []) = (resp, (orders_refunded, fs')) \<and> resp \<noteq> Inr (200, ''SUCCESS_REFUNDED''))"
proof -
  obtain S where run: "topup_step\<^sup>*\<^sup>* (orders_start, {}) (orders_refunded, S)" and
    rows: "topup_orders orders_refunded = [refund_row 4000 ''r1'' (pay_row 7 ''y1'' demo_order)]"
    and rf: "refunds_of orders_refunded 1 \<noteq> []"
    using demo_refund_run by blast
  define r where "r = refund_row 4000 ''r1'' (pay_row 7 ''y1'' demo_order)"
  have r: "r \<in> set (topup_orders orders_refunded)" "to_ID r = 1" "to_Status r = ''paid''" "to_RefundedAmountRMB r < to_MoneyRMB r"
    by (simp_all add: rows r_def refund_row_def pay_row_def demo_order_def new_order_def)
  have "path_id ''1'' = Some (to_ID r)" unfolding r(2) by code_simp
  note second_refund_refused [OF demo_rows(2) run r(1) _ this, of 12 "Some 1"
      "Some \<lparr> rq_MoneyFen = 1000, rq_ReclaimQuota = False, rq_ExternalRefundRef = ''r2'' \<rparr>" "[]"]
  then show ?thesis using r rf by (metis surj_pair)
qed

definition callback_for :: "webhook_event \<Rightarrow> string \<Rightarrow> topup_order \<Rightarrow> bool" where
  "callback_for ev provider r \<longleftrightarrow> we_Kind ev = ''paid'' \<and> we_OutTradeNo ev = to_OutTradeNo r
     \<and> to_Provider r = provider \<and> validateWebhookAmount ev r"

lemma marking_canceled:
  assumes "find (\<lambda>r. to_ID r = i) (topup_orders t) = Some ord" and "to_Status ord \<noteq> ''created''"
    and "path_id idParam = Some i"
  shows "\<exists>resp fs'. AdminMarkTopupPaid now opID idParam body (t, fs) = (Inr resp, (t, fs')) \<and> fst resp \<noteq> 200"
proof (cases "check_mark_paid opID idParam body")
  case (Inl resp)
  then have "fst resp \<noteq> 200"
    by (auto simp: check_mark_paid_def Let_def validateAdminReason_def split: option.splits if_splits)
  with Inl show ?thesis by (simp add: AdminMarkTopupPaid_def)
next
  case (Inr x)
  then obtain op ref where c: "check_mark_paid opID idParam body = Inr (op, i, ref)"
    using assms(3) by (auto simp: check_mark_paid_def Let_def split: option.splits if_splits)
  have "\<exists>f fs1. attempt (first_order (\<lambda>r. to_ID r = i)) (t, fs) = (Inr f, (t, fs1)) \<and> (f = Inr ord \<or> (\<exists>e. f = Inl e))"
    using assms(1) by (cases "fs = [] \<or> \<not> hd fs")
      (auto simp: attempt_def tx_catch_def tx_bind_def first_order_def query_first_def stmt_def)
  then obtain f fs1 where f: "attempt (first_order (\<lambda>r. to_ID r = i)) (t, fs) = (Inr f, (t, fs1))"
    and o: "f = Inr ord \<or> (\<exists>e. f = Inl e)" by blast
  show ?thesis
    using o assms(2) unfolding AdminMarkTopupPaid_def c sum.case prod.case tx_bind_def f by auto
qed

lemma find_unique:
  assumes "r \<in> set xs" "c r" "\<And>x. x \<in> set xs \<Longrightarrow> c x \<Longrightarrow> x = r" shows "find c xs = Some r"
proof -
  obtain x where "find c xs = Some x" using assms(1,2) by (cases "find c xs") (auto simp: find_None_iff)
  moreover have "x \<in> set xs \<and> c x" using find_row calculation by metis
  ultimately show ?thesis using assms(3) by simp
qed

lemma callback_to_closed_order:
  assumes "find (\<lambda>r. to_OutTradeNo r = we_OutTradeNo ev) (topup_orders t) = Some ord"
    and "\<forall>x \<in> set (topup_orders t). to_OutTradeNo x = we_OutTradeNo ev \<longrightarrow> to_Status x \<noteq> ''created''"
    and "callback_for ev provider ord" and "\<not> receipt_used provider (we_Nonce ev) t"
  shows "\<exists>rs. settle_event now provider ev (t, []) = (Inr (200, ''success''), (t \<lparr> receipts := rs \<rparr>, []))"
proof -
  define t1 where "t1 = t \<lparr> receipts := receipts t @ [\<lparr> wr_Provider = provider, wr_Nonce = we_Nonce ev,
    wr_OutTradeNo = we_OutTradeNo ev, wr_Status = ''accepted'' \<rparr>] \<rparr>"
  have rec: "attempt (recordWebhookReceiptForEvent provider ev) (t, []) = (Inr (Inr False), (t1, []))"
    using assms(4) by (simp add: attempt_Inr recordWebhookReceiptForEvent_def persistWebhookReceiptAccepted_def
        insert_receipt_def t1_def)
  have f: "attempt (first_order (\<lambda>r. to_OutTradeNo r = we_OutTradeNo ev)) (t1, []) = (Inr (Inr ord), (t1, []))"
    using assms(1) by (simp add: attempt_Inr first_order_Inr t1_def)
  let ?c = "\<lambda>r. to_OutTradeNo r = we_OutTradeNo ev \<and> to_Status r = ''created''"
  have none: "filter ?c (topup_orders t1) = []" using assms(2) by (auto simp: t1_def filter_empty_conv)
  obtain t2 where up: "update_orders ?c (pay_row now (take 128 (we_ExternalTradeNo ev))) (t1, []) = (Inr 0, (t2, []))"
    using none by (simp add: update_orders_Inr)
  have "finalizePaidTopupTransaction now ord ev (t1, []) = (Inl errTopupDuplicate, (t1, []))"
    unfolding finalizePaidTopupTransaction_def transaction_def tx_bind_def up by simp
  then have "settle_order now provider ev ord (t1, []) = (Inr (200, ''success''), (t1, []))"
    using assms(3) by (simp add: settle_order_def callback_for_def tx_bind_def attempt_def tx_catch_def)
  then have "settle_event now provider ev (t, []) = (Inr (200, ''success''), (t1, []))"
    using rec f assms(3) by (simp add: settle_event_def tx_bind_def callback_for_def)
  then show ?thesis unfolding t1_def by blast
qed

text \<open>C15: A payment that comes after its order was canceled for age is lost. The sweep cancels every order
  that waits longer than the configured time; a verified callback of the gateway for it is then
  acknowledged, so that it is not repeated, but moves no balance and books nothing, and an
  administrator cannot mark the order paid either.\<close>

theorem late_payment_lost:
  assumes "no_orders t0" and "topup_step\<^sup>*\<^sup>* (t0, {}) (t, S)" and "r \<in> set (topup_orders t)"
    and "to_Status r = ''created''" and "to_CreatedAt r < expire_cutoff cfg now"
    and "callback_for ev provider r" and "\<not> receipt_used provider (we_Nonce ev) t"
  shows "\<exists>t1 t2. expireStaleTopupOrders cfg now (t, []) = (Inr (), (t1, []))
    \<and> settle_event later provider ev (t1, []) = (Inr (200, ''success''), (t2, []))
    \<and> users t2 = users t \<and> billing t2 = billing t
    \<and> (\<forall>now' op idParam body fs. path_id idParam = Some (to_ID r) \<longrightarrow>
         (\<exists>resp fs'. AdminMarkTopupPaid now' op idParam body (t2, fs) = (Inr resp, (t2, fs')) \<and> fst resp \<noteq> 200))"
proof -
  define f :: "topup_order \<Rightarrow> topup_order" where "f = (\<lambda>x. if to_Status x = ''created'' \<and> to_CreatedAt x < expire_cutoff cfg now
    then x \<lparr> to_Status := ''canceled'' \<rparr> else x)"
  define t1 where "t1 = t \<lparr> topup_orders := map f (topup_orders t) \<rparr>"
  have e: "expireStaleTopupOrders cfg now (t, []) = (Inr (), (t1, []))"
    by (simp add: expireStaleTopupOrders_def try_tx_def tx_bind_def tx_catch_def update_orders_def t1_def f_def)
  have inv: "orders_inv t1 S"
    using topup_step_inv [OF topup_step.expire [OF e]] orders_reachable [OF assms(1,2)] by simp
  define r1 where "r1 = r \<lparr> to_Status := ''canceled'' \<rparr>"
  have r1: "r1 \<in> set (topup_orders t1)" using assms(3-5) by (force simp: t1_def f_def r1_def)
  have same: "to_OutTradeNo r1 = to_OutTradeNo r" "to_ID r1 = to_ID r" "to_Status r1 = ''canceled''" by (simp_all add: r1_def)
  have otn: "we_OutTradeNo ev = to_OutTradeNo r1" using assms(6) by (simp add: callback_for_def same)
  have only: "x = r1" if "x \<in> set (topup_orders t1)" "to_OutTradeNo x = we_OutTradeNo ev" for x
    using inv_unique_no [OF inv that(1) r1] that(2) otn by simp
  have fd: "find (\<lambda>x. to_OutTradeNo x = we_OutTradeNo ev) (topup_orders t1) = Some r1"
    by (rule find_unique [OF r1]) (use otn only in auto)
  have cb: "callback_for ev provider r1"
    using assms(6) by (auto simp: callback_for_def r1_def validateWebhookAmount_def split: if_splits)
  have nr: "\<not> receipt_used provider (we_Nonce ev) t1" using assms(7) by (simp add: receipt_used_def t1_def)
  have "\<forall>x \<in> set (topup_orders t1). to_OutTradeNo x = we_OutTradeNo ev \<longrightarrow> to_Status x \<noteq> ''created''"
    using only same(3) by auto
  then obtain rs where s: "settle_event later provider ev (t1, []) = (Inr (200, ''success''), (t1 \<lparr> receipts := rs \<rparr>, []))"
    using callback_to_closed_order [OF fd _ cb nr] by blast
  have fi: "find (\<lambda>x. to_ID x = to_ID r) (topup_orders (t1 \<lparr> receipts := rs \<rparr>)) = Some r1"
    using find_unique [OF r1, of "\<lambda>x. to_ID x = to_ID r"] inv_unique_id [OF inv _ r1] same(2) by simp
  show ?thesis
    by (rule exI [of _ t1], rule exI [of _ "t1 \<lparr> receipts := rs \<rparr>"], intro conjI allI impI)
      (use e s marking_canceled [OF fi] same(3) in \<open>simp_all add: t1_def\<close>)
qed

theorem late_payment_lost_witness:
  "\<exists>t1 t2. settle_event 1900000000000 ''yifut'' demo_event (t1, []) = (Inr (200, ''success''), (t2, []))
    \<and> expireStaleTopupOrders Map.empty 1900000000000 (orders_placed, []) = (Inr (), (t1, []))
    \<and> users t2 = users orders_placed \<and> billing t2 = billing orders_placed"
proof -
  have r: "demo_order \<in> set (topup_orders orders_placed)" by (simp add: orders_placed_def)
  have c: "to_CreatedAt demo_order < expire_cutoff Map.empty 1900000000000" "to_Status demo_order = ''created''"
    by (simp_all add: demo_order_def new_order_def expire_cutoff_def readTopupExpireMinutes_def sysConfigValue_def
        wrap64_def ParseInt_def ParseDigits_def)
  have cb: "callback_for demo_event ''yifut'' demo_order" "\<not> receipt_used ''yifut'' (we_Nonce demo_event) orders_placed"
    by (simp_all add: callback_for_def demo_event_def demo_order_def new_order_def validateWebhookAmount_def receipt_used_def
        orders_placed_def orders_start_def)
  show ?thesis using late_payment_lost [OF demo_rows(2) r_into_rtranclp [of topup_step, OF demo_placed] r c(2,1) cb, of 1900000000000] by blast
qed

end
