(* ===== verification/BillingRules.thy ===== *)
theory BillingRules
  imports Money SysConfig GoJson
begin

section \<open>Prices, weights and charged costs\<close>

text \<open>
  \<^verbatim>\<open>proxy/billing_rules.go\<close>, the cost function of \<^verbatim>\<open>proxy/stream_usage.go\<close> and the price
  checks of \<^verbatim>\<open>database/schema.go\<close>: the raw cost of a request from token counts and prices in
  pico-dollars, the rules that weigh a model, and the charged cost in integers. The JSON
  queries of the third-party \<^verbatim>\<open>gjson\<close> on a request are values of \<open>gj\<close>, which holds what the
  accessors of a result return; \<open>GjNone\<close> is the zero result of a path that matches nothing. Labels and reasons of rules are for display and are left out
  once their type has been checked.
\<close>

datatype gj_type = GNull | GFalse | GNumber | GString | GTrue | GJSON

datatype gj = GjNone
  | Gj (ResType: gj_type) (ResString: string) (ResRaw: string) (ResFloat: f64) (ResInt: int64)
      (ResIsObject: bool) (ResIsArray: bool) (ResItems: "gj list") (ResGet: "string \<Rightarrow> gj")
where
  "ResType GjNone = GNull" | "ResString GjNone = ''''" | "ResFloat GjNone = Fin 0" | "ResInt GjNone = 0"
| "ResIsObject GjNone = False" | "ResIsArray GjNone = False" | "ResRaw GjNone = ''''" | "ResItems GjNone = []"
| "ResGet GjNone = (\<lambda>_. GjNone)"

definition ResExists :: "gj \<Rightarrow> bool" where
  "ResExists v = (case v of GjNone \<Rightarrow> False | Gj _ _ _ _ _ _ _ _ _ \<Rightarrow> True)"

text \<open>A request body is \<open>None\<close> when empty, else its queries. \<open>ResItems\<close> are the values that
  \<^verbatim>\<open>ForEach\<close> hands to its callback.\<close>

type_synonym gj_body = "(string \<Rightarrow> gj) option"

definition body_get :: "gj_body \<Rightarrow> string \<Rightarrow> gj" where
  "body_get body = (case body of None \<Rightarrow> (\<lambda>_. GjNone) | Some get \<Rightarrow> get)"

subsection \<open>Raw cost\<close>

definition PicoPerMicroUSD :: int64 where
  "PicoPerMicroUSD = 1000000000"

definition MaxChannelModelPricePicoPerToken :: int64 where
  "MaxChannelModelPricePicoPerToken = 1000000 * 1000000000"

definition MultiplierPPMBase :: int64 where
  "MultiplierPPMBase = 1000000"

definition MaxBillingMultiplierPPM :: int64 where
  "MaxBillingMultiplierPPM = 1000000000"

text \<open>The sum of the six token and price pairs; any bad pair refuses the whole.\<close>

fun cost_total :: "bigint \<Rightarrow> (int64 \<times> int64) list \<Rightarrow> bigint option" where
  "cost_total acc [] = Some acc"
| "cost_total acc ((tokens, pricePico) # ps) =
     (if tokens < 0 \<or> pricePico < 0 \<or> MaxChannelModelPricePicoPerToken < pricePico then None
      else if tokens = 0 \<or> pricePico = 0 then cost_total acc ps
      else cost_total (acc + tokens * pricePico) ps)"

definition checkedCostMicroUSD :: "(int64 \<times> int64) list \<Rightarrow> int64 option" where
  "checkedCostMicroUSD ps =
     (case cost_total 0 ps of None \<Rightarrow> None
      | Some acc0 \<Rightarrow>
          let divisor = PicoPerMicroUSD;
              acc = (if 0 < acc0 then acc0 + (divisor - 1) else acc0);
              q = acc sdiv divisor
          in if \<not> in_i64 q then None else Some q)"

record channel_model =
  cm_InputPricePicoPerToken :: int64
  cm_OutputPricePicoPerToken :: int64
  cm_CachedInputPricePicoPerToken :: int64
  cm_CacheWriteInputPricePicoPerToken :: int64
  cm_CacheWrite1hInputPricePicoPerToken :: int64
  cm_ContextPriceThreshold :: int
  cm_HighInputPricePicoPerToken :: int64
  cm_HighCachedInputPricePicoPerToken :: int64
  cm_HighOutputPricePicoPerToken :: int64
  cm_Weight :: int

definition ValidateChannelModelPricing :: "channel_model option \<Rightarrow> bool" where
  "ValidateChannelModelPricing ocm = (case ocm of None \<Rightarrow> False
     | Some cm \<Rightarrow>
         list_all (\<lambda>v. \<not> (v < 0 \<or> MaxChannelModelPricePicoPerToken < v))
           [cm_InputPricePicoPerToken cm, cm_OutputPricePicoPerToken cm, cm_CachedInputPricePicoPerToken cm,
            cm_CacheWriteInputPricePicoPerToken cm, cm_CacheWrite1hInputPricePicoPerToken cm,
            cm_HighInputPricePicoPerToken cm, cm_HighCachedInputPricePicoPerToken cm,
            cm_HighOutputPricePicoPerToken cm]
         \<and> \<not> cm_ContextPriceThreshold cm < 0 \<and> \<not> cm_Weight cm < 0)"

subsection \<open>Multipliers\<close>

definition validPositiveMultiplier :: "f64 \<Rightarrow> bool" where
  "validPositiveMultiplier v \<longleftrightarrow> \<not> is_nan v \<and> \<not> is_inf v \<and> f64_less (Fin 0) v \<and> f64_le v (Fin 1000)"

definition multiplierPPMFromFloat :: "f64 \<Rightarrow> int64 option" where
  "multiplierPPMFromFloat v =
     (if is_nan v \<or> is_inf v \<or> f64_le v (Fin 0) then None
      else let ppm = math_Round (f64_mul v (f64_of_int MultiplierPPMBase)) in
        if f64_le ppm (Fin 0) \<or> f64_less (f64_of_int MaxBillingMultiplierPPM) ppm then None
        else Some (int64_of_f64 ppm))"

definition applyBillingMultiplier :: "int64 \<Rightarrow> f64 \<Rightarrow> int64" where
  "applyBillingMultiplier costMicroUSD multiplier =
     (if costMicroUSD \<le> 0 then 0
      else let multiplierPPM =
                 (case multiplierPPMFromFloat multiplier of Some p \<Rightarrow> p
                  | None \<Rightarrow>
                      if \<not> is_nan multiplier \<and> \<not> is_inf multiplier \<and> f64_less (Fin 0) multiplier
                      then MaxBillingMultiplierPPM else MultiplierPPMBase);
               value0 = costMicroUSD * multiplierPPM;
               divisor = MultiplierPPMBase;
               value1 = (if 0 < value0 then value0 + (divisor - 1) else value0);
               v = value1 sdiv divisor
           in if \<not> in_i64 v then i64_max else v)"

subsection \<open>Rules\<close>

record BillingWeightRule =
  Pattern :: string
  Weight :: f64
  ThinkingWeight :: f64

definition weight_rule :: "string \<Rightarrow> rat \<Rightarrow> rat \<Rightarrow> BillingWeightRule" where
  "weight_rule p w th = \<lparr> Pattern = p, Weight = fl w, ThinkingWeight = fl th \<rparr>"

definition defaultBillingModelWeights :: "BillingWeightRule list" where
  "defaultBillingModelWeights =
     [weight_rule ''claude-haiku-*'' 1 0, weight_rule ''claude-sonnet-*'' 1 (5 / 4),
      weight_rule ''claude-opus-*'' 1 (3 / 2), weight_rule ''gemini-*-flash-lite*'' 1 0,
      weight_rule ''gemini-*-flash*'' 1 0, weight_rule ''gemini-*-pro*'' 1 0,
      weight_rule ''gpt-*-mini*'' (9 / 10) 0, weight_rule ''gpt-*'' 1 0, weight_rule ''grok-*'' (4 / 5) 0]"

definition defaultBillingHealthMultipliers :: "BillingWeightRule list" where
  "defaultBillingHealthMultipliers = [weight_rule ''*'' 1 0]"

definition rule_field :: "string \<Rightarrow> json \<Rightarrow> BillingWeightRule \<Rightarrow> BillingWeightRule option" where
  "rule_field k v r =
     (if k = ''pattern'' then map_option (\<lambda>s. r \<lparr> Pattern := s \<rparr>) (into_string v (Pattern r))
      else if k = ''weight'' then map_option (\<lambda>x. r \<lparr> Weight := x \<rparr>) (into_f64 v (Weight r))
      else if k = ''thinking_weight''
      then map_option (\<lambda>x. r \<lparr> ThinkingWeight := x \<rparr>) (into_f64 v (ThinkingWeight r))
      else if k = ''label'' \<or> k = ''reason'' then map_option (\<lambda>_. r) (into_string v '''')
      else Some r)"

definition rules_of_json :: "string \<Rightarrow> BillingWeightRule list option" where
  "rules_of_json raw = (case json_parse raw of None \<Rightarrow> None
     | Some j \<Rightarrow> into_slice (into_struct rule_field \<lparr> Pattern = '''', Weight = Fin 0, ThinkingWeight = Fin 0 \<rparr>) j)"

fun clean_rules :: "BillingWeightRule list \<Rightarrow> BillingWeightRule list" where
  "clean_rules [] = []"
| "clean_rules (r0 # rs) =
     (let r = r0 \<lparr> Pattern := TrimSpace (Pattern r0) \<rparr> in
      if Pattern r = '''' \<or> \<not> validPositiveMultiplier (Weight r) then clean_rules rs
      else (if ThinkingWeight r \<noteq> Fin 0 \<and> \<not> validPositiveMultiplier (ThinkingWeight r)
            then r \<lparr> ThinkingWeight := Fin 0 \<rparr> else r) # clean_rules rs)"

definition loadBillingWeightRules ::
  "sysconfig \<Rightarrow> string \<Rightarrow> BillingWeightRule list \<Rightarrow> BillingWeightRule list" where
  "loadBillingWeightRules cfg configKey fallback =
     (let raw = sysConfigValue cfg configKey in
      if TrimSpace raw = '''' then fallback
      else case rules_of_json raw of None \<Rightarrow> fallback
           | Some rules \<Rightarrow> let clean = clean_rules rules in if clean = [] then fallback else clean)"

fun matchBillingWeight :: "string \<Rightarrow> bool \<Rightarrow> BillingWeightRule list \<Rightarrow> f64" where
  "matchBillingWeight modelName thinking [] = Fin 1"
| "matchBillingWeight modelName thinking (r # rs) =
     (let lowerModel = ToLower (TrimSpace modelName);
          pattern = ToLower (TrimSpace (Pattern r)) in
      if pattern = lowerModel \<or> path_Match pattern lowerModel = Some True
      then if thinking \<and> validPositiveMultiplier (ThinkingWeight r) then ThinkingWeight r else Weight r
      else matchBillingWeight modelName thinking rs)"

subsection \<open>Thinking\<close>

definition isEnabledThinkingValue :: "string \<Rightarrow> bool" where
  "isEnabledThinkingValue raw \<longleftrightarrow>
     ToLower (TrimSpace raw) \<notin> {'''', ''none'', ''off'', ''disabled'', ''disable'', ''false'', ''0''}"

definition isClaudeBillingModel :: "string \<Rightarrow> bool" where
  "isClaudeBillingModel m \<longleftrightarrow> prefix ''claude-'' (ToLower (TrimSpace m))"

definition NormalizeChannelType :: "string \<Rightarrow> string" where
  "NormalizeChannelType t = ToLower (TrimSpace t)"

definition IsAllowedChannelType :: "string \<Rightarrow> bool" where
  "IsAllowedChannelType t \<longleftrightarrow> NormalizeChannelType t \<in>
     {''openai'', ''anthropic'', ''gemini'', ''google-cli'', ''codex'', ''cliproxy''}"

text \<open>The text after the last opening parenthesis, if there is one.\<close>

fun after_last_paren :: "string \<Rightarrow> string option" where
  "after_last_paren [] = None"
| "after_last_paren (c # s) =
     (case after_last_paren s of Some t \<Rightarrow> Some t
      | None \<Rightarrow> if c = CHR ''('' then Some s else None)"

definition modelNameIndicatesThinking :: "string \<Rightarrow> bool" where
  "modelNameIndicatesThinking modelName =
     (let lower = ToLower (TrimSpace modelName) in
      if suffix ''-thinking'' lower \<or> sublist ''-thinking-'' lower \<or> suffix ''_thinking'' lower
         \<or> sublist ''_thinking_'' lower \<or> suffix '':thinking'' lower then True
      else case after_last_paren lower of None \<Rightarrow> False
      | Some rest \<Rightarrow>
          if \<not> suffix '')'' lower then False
          else let sfx = TrimSpace (butlast rest) in
            if sfx = '''' \<or> \<not> isEnabledThinkingValue sfx then False
            else if sfx = ''-1'' \<or> sfx = ''auto'' then True
            else case ParseInt 64 sfx of Some v \<Rightarrow> 0 < v
                 | None \<Rightarrow> sfx \<in> {''minimal'', ''low'', ''medium'', ''high'', ''xhigh'', ''max''})"

definition indicatesEnabledThinking :: "gj \<Rightarrow> bool" where
  "indicatesEnabledThinking v =
     (if \<not> ResExists v then False
      else case ResType v of GTrue \<Rightarrow> True | GFalse \<Rightarrow> False | GNull \<Rightarrow> False
      | GString \<Rightarrow> isEnabledThinkingValue (ResString v)
      | GNumber \<Rightarrow> f64_less (Fin 0) (ResFloat v)
      | GJSON \<Rightarrow>
          (case find (\<lambda>k. TrimSpace (ResString (ResGet v k)) \<noteq> '''') [''type'', ''effort'', ''mode''] of
             Some k \<Rightarrow> isEnabledThinkingValue (TrimSpace (ResString (ResGet v k)))
           | None \<Rightarrow>
               (case find (\<lambda>k. ResExists (ResGet v k))
                  [''budget_tokens'', ''budgetTokens'', ''thinkingBudget'', ''thinking_budget'', ''max_tokens''] of
                  Some k \<Rightarrow> f64_less (Fin 0) (ResFloat (ResGet v k))
                | None \<Rightarrow> False)))"

definition requestIndicatesThinking :: "gj_body \<Rightarrow> bool" where
  "requestIndicatesThinking body = (case body of None \<Rightarrow> False
     | Some get \<Rightarrow>
         if indicatesEnabledThinking (get ''thinking'') then True
         else if indicatesEnabledThinking (get ''reasoning'') then True
         else if indicatesEnabledThinking (get ''generationConfig.thinkingConfig'') then True
         else ToLower (TrimSpace (ResString (get ''reasoning_effort''))) \<notin> {'''', ''none'', ''off'', ''disabled''})"

definition requestIndicatesClaudeThinking :: "gj_body \<Rightarrow> bool" where
  "requestIndicatesClaudeThinking body = (case body of None \<Rightarrow> False
     | Some get \<Rightarrow>
         if indicatesEnabledThinking (get ''thinking'') then True
         else if indicatesEnabledThinking (get ''extra_body.thinking'') then True
         else let effort = ToLower (TrimSpace (ResString (get ''reasoning_effort''))) in
           if effort \<noteq> '''' then isEnabledThinkingValue effort
           else indicatesEnabledThinking (get ''reasoning''))"

definition shouldApplyThinkingWeight :: "string \<Rightarrow> gj_body \<Rightarrow> int64 \<Rightarrow> string \<Rightarrow> bool" where
  "shouldApplyThinkingWeight modelName body reasoningTokens channelType =
     (let isClaude = (isClaudeBillingModel modelName \<or> NormalizeChannelType channelType = ''anthropic'');
          explicit = (if isClaude then requestIndicatesClaudeThinking body \<or> modelNameIndicatesThinking modelName
                      else requestIndicatesThinking body) in
      if \<not> explicit then False
      else if 0 < reasoningTokens then True
      else if isClaude then True else False)"

subsection \<open>The resolution\<close>

record BillingRuleResolution =
  RequestedModel :: string
  ServedModel :: string
  ModelWeight :: f64
  HealthMultiplier :: f64
  BillingRulesVersion :: string
  FallbackUserOptIn :: bool
  RawCostMicroUSD :: int64
  ChargedCostMicroUSD :: int64

definition billingRulesVersion :: "sysconfig \<Rightarrow> string" where
  "billingRulesVersion cfg =
     (let v = TrimSpace (sysConfigValue cfg ''billing_rules_version'') in
      if v \<noteq> '''' then v else ''default-active-series-2026-05-17'')"

definition billingRulesRevisionID :: "sysconfig \<Rightarrow> nat" where
  "billingRulesRevisionID cfg =
     (let v = TrimSpace (sysConfigValue cfg ''billing_rules_revision_id'') in
      if v = '''' then 0 else case ParseUint 32 v of None \<Rightarrow> 0 | Some n \<Rightarrow> n)"

definition extractEffectiveSinceFromVersion :: "string \<Rightarrow> string" where
  "extractEffectiveSinceFromVersion version =
     (let v = TrimSpace version in
      if length v < 10 then ''''
      else let tail = drop (length v - 10) v in
        if tail ! 4 \<noteq> CHR ''-'' \<or> tail ! 7 \<noteq> CHR ''-'' then ''''
        else if list_ex (\<lambda>i. i \<noteq> 4 \<and> i \<noteq> 7 \<and> \<not> is_digit (tail ! i)) [0..<10] then '''' else tail)"

text \<open>The configuration is read after any due revision has been activated.\<close>

definition ResolveBillingRules ::
  "sysconfig \<Rightarrow> string \<Rightarrow> gj_body \<Rightarrow> int64 \<Rightarrow> string \<Rightarrow> bool \<Rightarrow> BillingRuleResolution" where
  "ResolveBillingRules cfg modelName0 body reasoningTokens channelType fallbackOptIn =
     (let modelName = (if TrimSpace modelName0 = '''' then ''unknown'' else TrimSpace modelName0);
          thinking = shouldApplyThinkingWeight modelName body reasoningTokens channelType;
          modelWeight = matchBillingWeight modelName thinking
            (loadBillingWeightRules cfg ''billing_model_weights_json'' defaultBillingModelWeights);
          health = matchBillingWeight modelName False
            (loadBillingWeightRules cfg ''billing_health_multipliers_json'' defaultBillingHealthMultipliers)
      in \<lparr> RequestedModel = modelName, ServedModel = modelName, ModelWeight = modelWeight,
           HealthMultiplier = health, BillingRulesVersion = billingRulesVersion cfg,
           FallbackUserOptIn = fallbackOptIn, RawCostMicroUSD = 0, ChargedCostMicroUSD = 0 \<rparr>)"

definition WithCosts :: "BillingRuleResolution \<Rightarrow> int64 \<Rightarrow> BillingRuleResolution" where
  "WithCosts r raw = r \<lparr> RawCostMicroUSD := raw,
     ChargedCostMicroUSD := applyBillingMultiplier raw (f64_mul (ModelWeight r) (HealthMultiplier r)) \<rparr>"

definition subscriptionRevenueMicroUSD :: "int64 \<Rightarrow> bool \<Rightarrow> int64" where
  "subscriptionRevenueMicroUSD charged isGranted = (if isGranted \<or> charged \<le> 0 then 0 else charged)"

definition FormatChargedCostForDescription :: "int64 \<Rightarrow> int64 \<Rightarrow> string" where
  "FormatChargedCostForDescription raw charged =
     ''raw='' @ FormatMicroUSD raw @ '' charged='' @ FormatMicroUSD charged"

subsection \<open>Costs\<close>

definition valid_price :: "int64 \<times> int64 \<Rightarrow> bool" where
  "valid_price tp \<longleftrightarrow> 0 \<le> fst tp \<and> 0 \<le> snd tp \<and> snd tp \<le> MaxChannelModelPricePicoPerToken"

definition pico_cost :: "(int64 \<times> int64) list \<Rightarrow> int" where
  "pico_cost ps = sum_list (map (\<lambda>(t, p). t * p) ps)"

lemma pico_cost_simps [simp]: "pico_cost [] = 0" "pico_cost ((t, p) # ps) = t * p + pico_cost ps"
  by (simp_all add: pico_cost_def)

lemma cost_total_eq:
  "cost_total a ps = (if list_all valid_price ps then Some (a + pico_cost ps) else None)"
  by (induction a ps rule: cost_total.induct) (auto simp: valid_price_def)

lemma pico_cost_nonneg: "list_all valid_price ps \<Longrightarrow> 0 \<le> pico_cost ps"
  by (induction ps) (auto simp: valid_price_def)

lemma checkedCost_eq:
  "checkedCostMicroUSD ps = (if list_all valid_price ps \<and> in_i64 (cdiv (pico_cost ps) 1000000000)
     then Some (cdiv (pico_cost ps) 1000000000) else None)"
proof (cases "list_all valid_price ps")
  case True
  note n = pico_cost_nonneg [OF True]
  have "(if 0 < pico_cost ps then pico_cost ps + (PicoPerMicroUSD - 1) else pico_cost ps) sdiv PicoPerMicroUSD
    = cdiv (pico_cost ps) 1000000000"
    using n by (cases "0 < pico_cost ps") (simp_all add: PicoPerMicroUSD_def sdiv_nonneg cdiv_def)
  then show ?thesis using True by (simp add: checkedCostMicroUSD_def cost_total_eq Let_def)
qed (auto simp: checkedCostMicroUSD_def cost_total_eq)

subsection \<open>Multipliers\<close>

lemma f64_consts: "f64_of_int MultiplierPPMBase = Fin 1000000" "f64_of_int MaxBillingMultiplierPPM = Fin 1000000000"
  by (simp_all add: MultiplierPPMBase_def MaxBillingMultiplierPPM_def f64_of_int_exact)

lemma multiplierPPM_range:
  assumes "multiplierPPMFromFloat v = Some p"
  shows "1 \<le> p \<and> p \<le> 1000000000"
proof -
  let ?m = "f64_mul v (Fin 1000000)"
  have c: "\<not> f64_le (math_Round ?m) (Fin 0)" "\<not> f64_less (Fin 1000000000) (math_Round ?m)"
    "p = int64_of_f64 (math_Round ?m)" and v: "\<not> is_nan v" "\<not> is_inf v"
    using assms by (auto simp: multiplierPPMFromFloat_def f64_consts Let_def split: if_splits)
  show ?thesis
  proof (cases "math_Round ?m")
    case (Fin r)
    then obtain q where q: "?m = Fin q" "r = of_int (round_away q)" by (cases ?m) auto
    have r: "0 < r" "r \<le> 1000000000" using c Fin by auto
    then have ra: "0 < round_away q" "round_away q \<le> 1000000000" using q(2) by simp_all
    then have "in_i64 (round_away q)" by (simp add: i64_defs)
    then have "p = round_away q" using c(3) Fin q(2) by simp
    with ra show ?thesis by simp
  next
    case NaN
    obtain q where "v = Fin q" using v by (cases v) auto
    then show ?thesis using NaN fl_not_NaN by (cases "fl (q * 1000000)") auto
  qed (use c in auto)
qed

definition effective_ppm :: "f64 \<Rightarrow> int" where
  "effective_ppm m = (case multiplierPPMFromFloat m of Some p \<Rightarrow> p
     | None \<Rightarrow> if \<not> is_nan m \<and> \<not> is_inf m \<and> f64_less (Fin 0) m then MaxBillingMultiplierPPM
              else MultiplierPPMBase)"

lemma effective_ppm_range: "1 \<le> effective_ppm m \<and> effective_ppm m \<le> 1000000000"
  by (auto simp: effective_ppm_def MaxBillingMultiplierPPM_def MultiplierPPMBase_def
      dest: multiplierPPM_range split: option.split)

lemma applyBillingMultiplier_eq:
  "applyBillingMultiplier c m = (if c \<le> 0 then 0 else min i64_max (cdiv (c * effective_ppm m) 1000000))"
proof (cases "c \<le> 0")
  case False
  have p: "1 \<le> effective_ppm m" using effective_ppm_range by simp
  have v: "0 < c * effective_ppm m" using False p by simp
  have d: "(c * effective_ppm m + (1000000 - 1)) sdiv 1000000 = cdiv (c * effective_ppm m) 1000000"
    using v by (simp add: sdiv_nonneg cdiv_def)
  have "0 < cdiv (c * effective_ppm m) 1000000" using v by (simp add: cdiv_pos)
  then have "\<not> in_i64 (cdiv (c * effective_ppm m) 1000000) \<longleftrightarrow> i64_max < cdiv (c * effective_ppm m) 1000000"
    by (auto simp: i64_defs)
  moreover have "applyBillingMultiplier c m =
      (if \<not> in_i64 (cdiv (c * effective_ppm m) 1000000) then i64_max else cdiv (c * effective_ppm m) 1000000)"
    using False v d unfolding applyBillingMultiplier_def effective_ppm_def [symmetric]
    by (simp add: Let_def MultiplierPPMBase_def [symmetric] effective_ppm_def [symmetric])
  ultimately show ?thesis using False by (auto simp: min_def)
qed (simp add: applyBillingMultiplier_def)

lemma applyBillingMultiplier_bounds:
  assumes "0 < c" and "in_i64 c"
  shows "1 \<le> applyBillingMultiplier c m \<and> applyBillingMultiplier c m \<le> 1000 * c"
proof -
  note p = effective_ppm_range [of m]
  have "0 < cdiv (c * effective_ppm m) 1000000" using assms p by (intro cdiv_pos) auto
  moreover have "cdiv (c * effective_ppm m) 1000000 \<le> 1000 * c"
  proof -
    have "c * effective_ppm m \<le> c * 1000000000" using p assms by (intro mult_left_mono) auto
    then show ?thesis by (intro cdiv_least) simp_all
  qed
  ultimately show ?thesis using assms by (auto simp: applyBillingMultiplier_eq i64_defs min_def)
qed

subsection \<open>Rules in use are valid\<close>

definition valid_rule :: "BillingWeightRule \<Rightarrow> bool" where
  "valid_rule r \<longleftrightarrow> validPositiveMultiplier (Weight r)
     \<and> (ThinkingWeight r = Fin 0 \<or> validPositiveMultiplier (ThinkingWeight r))"

lemma clean_rules_valid: "list_all valid_rule (clean_rules rs)"
  by (induction rs) (auto simp: Let_def valid_rule_def)

lemma loadBillingWeightRules_valid:
  "list_all valid_rule fb \<Longrightarrow> list_all valid_rule (loadBillingWeightRules cfg k fb)"
  by (auto simp: loadBillingWeightRules_def Let_def clean_rules_valid split: option.split)

lemma matchBillingWeight_valid:
  "list_all valid_rule rs \<Longrightarrow> validPositiveMultiplier (matchBillingWeight m th rs)"
  by (induction rs) (auto simp: Let_def valid_rule_def validPositiveMultiplier_def)

lemma fl_valid:
  assumes "1 / 10 \<le> q" and "q \<le> 100"
  shows "validPositiveMultiplier (fl q)"
proof -
  have q: "\<bar>q\<bar> = q" "\<bar>q\<bar> \<le> 2 powi 1000"
    using assms by (auto simp: power_int_def)
  have "2 powi (- 1022) \<le> (2 powi (- 4) :: rat)" by (rule powi_mono) simp
  moreover have "(2 powi (- 4) :: rat) = 1 / 16" by (simp add: power_int_def power_divide)
  ultimately have q3: "2 powi (- 1022) \<le> \<bar>q\<bar>" using assms by linarith
  obtain r where r: "fl q = Fin r" using fl_finite [OF q(2)] .
  have "\<bar>r - q\<bar> \<le> q * 2 powi (- 53)" using fl_rel_error [OF r q3] q(1) by simp
  also have "\<dots> \<le> 100 * 2 powi (- 53)" using assms by (intro mult_right_mono) auto
  also have "\<dots> < 1 / 100" by (simp add: power_int_def power_divide)
  finally have "0 < r" "r \<le> 1000" using assms by linarith+
  then show ?thesis using r by (simp add: validPositiveMultiplier_def)
qed

lemma default_rules_valid:
  "list_all valid_rule defaultBillingModelWeights" "list_all valid_rule defaultBillingHealthMultipliers"
  by (simp_all add: defaultBillingModelWeights_def defaultBillingHealthMultipliers_def valid_rule_def
      weight_rule_def fl_valid)

subsection \<open>Properties\<close>

text \<open>C32: The raw cost of a request is exact and never rounds down: for six (or any number of) token
  and price pairs the computed micro-dollars are the pico-dollar total divided by 10^9 and
  rounded up, zero only for a zero total; a negative count, a negative or excessive price or
  a total beyond int64 is refused.\<close>

theorem raw_cost_exact:
  shows "(checkedCostMicroUSD ps = Some c \<longrightarrow> list_all valid_price ps
      \<and> pico_cost ps \<le> c * 1000000000 \<and> c * 1000000000 < pico_cost ps + 1000000000
      \<and> 0 \<le> c \<and> (c = 0 \<longleftrightarrow> pico_cost ps = 0))
    \<and> (checkedCostMicroUSD ps = None \<longleftrightarrow>
        \<not> list_all valid_price ps \<or> \<not> in_i64 (cdiv (pico_cost ps) 1000000000))"
proof (cases "list_all valid_price ps")
  case True
  note n = pico_cost_nonneg [OF True]
  have "0 \<le> cdiv (pico_cost ps) 1000000000" using n by (simp add: cdiv_nonneg)
  moreover have "cdiv (pico_cost ps) 1000000000 = 0 \<longleftrightarrow> pico_cost ps = 0"
    using n cdiv_pos [of 1000000000 "pico_cost ps"] by (cases "pico_cost ps = 0") auto
  ultimately show ?thesis
    using True cdiv_ge [of 1000000000 "pico_cost ps"] cdiv_le [of 1000000000 "pico_cost ps"]
    by (auto simp: checkedCost_eq)
qed (auto simp: checkedCost_eq)

theorem raw_cost_exact_witness:
  "checkedCostMicroUSD [(1000, 2500000), (3, 1), (0, 0), (0, 0), (0, 0), (0, 0)] = Some 3
    \<and> (0 :: int) \<le> 3 \<and> checkedCostMicroUSD [(-1, 5)] = None"
proof -
  have "checkedCostMicroUSD [(1000, 2500000), (3, 1), (0, 0), (0, 0), (0, 0), (0, 0)] = Some 3"
    by (simp add: checkedCost_eq valid_price_def MaxChannelModelPricePicoPerToken_def cdiv_def i64_defs)
  then show ?thesis
    using raw_cost_exact [of "[(1000, 2500000), (3, 1), (0, 0), (0, 0), (0, 0), (0, 0)]" 3]
      raw_cost_exact [of "[(-1, 5)]"]
    by (simp add: valid_price_def)
qed

text \<open>C33: A request that costs something is never free and never charged more than a thousandfold:
  under every stored configuration, valid JSON or not, for every model name and body, the
  charged cost of a positive raw cost lies between one micro-dollar and a thousand times the
  raw cost; the raw cost is passed on unchanged; and both weights in use are valid
  multipliers.\<close>

theorem charged_cost_bounded:
  assumes "0 < raw" and "in_i64 raw"
  shows "let r = ResolveBillingRules cfg modelName body reasoningTokens channelType optIn
    in 1 \<le> ChargedCostMicroUSD (WithCosts r raw) \<and> ChargedCostMicroUSD (WithCosts r raw) \<le> 1000 * raw
      \<and> RawCostMicroUSD (WithCosts r raw) = raw
      \<and> validPositiveMultiplier (ModelWeight r) \<and> validPositiveMultiplier (HealthMultiplier r)"
  using applyBillingMultiplier_bounds [OF assms]
  by (simp add: WithCosts_def ResolveBillingRules_def Let_def matchBillingWeight_valid
      loadBillingWeightRules_valid default_rules_valid)

theorem charged_cost_bounded_witness:
  "1 \<le> ChargedCostMicroUSD (WithCosts (ResolveBillingRules Map.empty ''gpt-5'' None 0 ''openai'' False) 1)"
  using charged_cost_bounded [of 1 Map.empty "''gpt-5''" None 0 "''openai''" False] by (simp add: i64_defs Let_def)

text \<open>The charged cost is the raw cost times the multiplier in parts per million, rounded up and
  capped at the largest int64, where the multiplier in use is a whole number of parts per
  million between one and 10^9 for every float whatever; a larger raw cost is never charged
  less.\<close>

theorem charged_cost_exact:
  shows "applyBillingMultiplier raw m = (if raw \<le> 0 then 0
      else min i64_max (cdiv (raw * effective_ppm m) 1000000))
    \<and> 1 \<le> effective_ppm m \<and> effective_ppm m \<le> 1000000000
    \<and> (raw \<le> raw' \<longrightarrow> applyBillingMultiplier raw m \<le> applyBillingMultiplier raw' m)"
proof -
  note p = effective_ppm_range [of m]
  have "applyBillingMultiplier raw m \<le> applyBillingMultiplier raw' m" if "raw \<le> raw'"
  proof (cases "raw \<le> 0")
    case True
    have "0 \<le> cdiv (raw' * effective_ppm m) 1000000" if "0 < raw'"
      using that p by (intro cdiv_nonneg) auto
    then show ?thesis using True by (simp add: applyBillingMultiplier_eq i64_max_def)
  next
    case False
    have "cdiv (raw * effective_ppm m) 1000000 \<le> cdiv (raw' * effective_ppm m) 1000000"
      using that p by (intro cdiv_mono mult_right_mono) auto
    then show ?thesis using False that by (auto simp: applyBillingMultiplier_eq)
  qed
  then show ?thesis using p applyBillingMultiplier_eq by blast
qed

theorem charged_cost_exact_witness:
  "applyBillingMultiplier 3 (Fin 1) \<le> applyBillingMultiplier 5 (Fin 1)"
  using charged_cost_exact [of 3 "Fin 1" 5] by simp

text \<open>Where a product of weights stops rounding to zero parts per million. Just below half a part the
  double is already rounded up to one half, and a half is rounded away from zero.\<close>

lemma fl_fin: "fl q = Fin r \<Longrightarrow> q \<noteq> 0 \<Longrightarrow> r = of_int (round_he (q / 2 powi ulp_exp q)) * 2 powi ulp_exp q"
  by (auto simp: fl_def Let_def split: if_splits)

lemma fl_quarter:
  assumes "1 / 4 \<le> x" and "x < 1 / 2" and "fl x = Fin r"
  shows "r = of_int (round_he (x * 18014398509481984)) / 18014398509481984"
proof -
  have "ilog2 x = - 2" by (rule ilog2_unique) (use assms(1,2) in \<open>simp_all add: power_int_def power_divide\<close>)
  then have "ulp_exp x = - 54" using assms(1) by (simp add: ulp_exp_def)
  moreover have "(2 powi (- 54) :: rat) = 1 / 18014398509481984" by (simp add: power_int_def power_divide)
  ultimately show ?thesis using fl_fin [OF assms(3)] assms(1) by simp
qed

lemma fl_below_half:
  assumes "0 < x" and "x < 1 / 2 - 1 / 36028797018963968" and "fl x = Fin r"
  shows "r < 1 / 2"
proof (cases "1 / 4 \<le> x")
  case True
  have y: "x * 18014398509481984 < 9007199254740992 - 1 / 2" using assms(2) by (simp add: field_simps)
  then have f: "\<lfloor>x * 18014398509481984\<rfloor> \<le> 9007199254740991" by linarith
  have "round_he (x * 18014398509481984) \<le> 9007199254740991"
  proof (cases "\<lfloor>x * 18014398509481984\<rfloor> = 9007199254740991")
    case True
    then have "x * 18014398509481984 - of_int \<lfloor>x * 18014398509481984\<rfloor> < 1 / 2" using y by simp
    then show ?thesis using True by (simp add: round_he_def Let_def)
  next
    case False
    have "round_he z \<le> \<lfloor>z\<rfloor> + 1" for z by (auto simp: round_he_def Let_def)
    from this [of "x * 18014398509481984"] show ?thesis using f False by linarith
  qed
  then have "(of_int (round_he (x * 18014398509481984)) :: rat) \<le> of_int 9007199254740991" by (simp only: of_int_le_iff)
  then show ?thesis using fl_quarter [OF True _ assms(3)] assms(2) by (simp add: field_simps)
next
  case False
  then have "(2 powi ilog2 x :: rat) < 2 powi (- 1)" using ilog2_bounds(1) [OF assms(1)] by (simp add: power_int_def)
  then have "ilog2 x < - 1" by (rule powi_less_imp)
  then have "(2 powi ulp_exp x :: rat) \<le> 2 powi (- 2)" using assms(1) by (intro powi_mono) (simp add: ulp_exp_def)
  then have "(2 powi ulp_exp x :: rat) \<le> 1 / 4" by (simp add: power_int_def power_divide)
  moreover have "\<bar>r - x\<bar> \<le> 2 powi ulp_exp x / 2" using fl_abs_error [OF assms(3)] assms(1) by simp
  ultimately show ?thesis using False by linarith
qed

lemma fl_from_half:
  assumes "1 / 2 - 1 / 36028797018963968 \<le> x" and "x \<le> 1000000000" and "fl x = Fin r"
  shows "1 / 2 \<le> r" and "r < 1000000000 + 1 / 2"
proof -
  have x: "1 / 4 \<le> x" using assms(1) by (rule order_trans [rotated]) simp
  then have "(2 powi (- 1022) :: rat) \<le> \<bar>x\<bar>"
    using powi_mono [of "- 1022" "- 2"] by (simp add: power_int_def power_divide)
  from fl_rel_error [OF assms(3) this] have e: "\<bar>r - x\<bar> \<le> x / 9007199254740992"
    using x by (simp add: power_int_def power_divide)
  then show "r < 1000000000 + 1 / 2" using assms(2) by linarith
  consider "x < 1 / 2" | "1 / 2 \<le> x" "x < 1" | "1 \<le> x" by linarith
  then show "1 / 2 \<le> r"
  proof cases
    case 1
    have y: "9007199254740992 - 1 / 2 \<le> x * 18014398509481984" using assms(1) by (simp add: field_simps)
    have "9007199254740992 \<le> round_he (x * 18014398509481984)"
    proof (cases "\<lfloor>x * 18014398509481984\<rfloor> = 9007199254740991")
      case True
      have "odd (9007199254740991 :: int)" by simp
      moreover have "1 / 2 \<le> x * 18014398509481984 - of_int \<lfloor>x * 18014398509481984\<rfloor>" using y unfolding True by simp
      ultimately show ?thesis unfolding round_he_def Let_def True by auto
    next
      case False
      then have "9007199254740992 \<le> \<lfloor>x * 18014398509481984\<rfloor>" using y by linarith
      then show ?thesis by (auto simp: round_he_def Let_def)
    qed
    then have "(of_int 9007199254740992 :: rat) \<le> of_int (round_he (x * 18014398509481984))" by (simp only: of_int_le_iff)
    then show ?thesis using fl_quarter [OF x 1 assms(3)] by simp
  next
    case 2
    have "ilog2 x = - 1" by (rule ilog2_unique) (use 2 in \<open>simp_all add: power_int_def\<close>)
    then have "ulp_exp x = - 53" using x by (simp add: ulp_exp_def)
    moreover have "(2 powi (- 53) :: rat) = 1 / 9007199254740992" by (simp add: power_int_def power_divide)
    ultimately have rr: "r = of_int (round_he (x * 9007199254740992)) / 9007199254740992"
      using fl_fin [OF assms(3)] x by simp
    have "4503599627370496 \<le> round_he (x * 9007199254740992)" by (rule round_he_ge) (use 2(1) in simp)
    then have "(of_int 4503599627370496 :: rat) \<le> of_int (round_he (x * 9007199254740992))" by (simp only: of_int_le_iff)
    then show ?thesis unfolding rr by simp
  next
    case 3
    then show ?thesis using e by linarith
  qed
qed

text \<open>C35: A tiny product of weights, which two valid weights can have, is not charged little but at
  the cap: the underflow takes the branch meant for overflow. The range is exact. Every positive
  multiplier below half a part per million less \<open>2 ^ -55\<close> parts (36028797018963968 is \<open>2 ^ 55\<close>) is refused, and the request is
  charged a thousand times its raw cost (at most the greatest int64); every multiplier from there
  up to 1000 is accepted as a number of parts per million, at least one, and the request is
  charged its share rounded up.\<close>

theorem tiny_multiplier_charges_cap:
  assumes "0 < q" and "0 < raw"
  shows "(q * 1000000 < 1 / 2 - 1 / 36028797018963968 \<longrightarrow> multiplierPPMFromFloat (Fin q) = None
        \<and> applyBillingMultiplier raw (Fin q) = min i64_max (1000 * raw))
    \<and> (1 / 2 - 1 / 36028797018963968 \<le> q * 1000000 \<longrightarrow> q \<le> 1000 \<longrightarrow>
        (\<exists>p. multiplierPPMFromFloat (Fin q) = Some p \<and> 1 \<le> p \<and> p \<le> 1000000000
          \<and> applyBillingMultiplier raw (Fin q) = min i64_max (cdiv (raw * p) 1000000)))"
proof (intro conjI impI)
  assume t: "q * 1000000 < 1 / 2 - 1 / 36028797018963968"
  then have b: "\<bar>q * 1000000\<bar> \<le> 2 powi 1000" using assms(1) by (auto simp: power_int_def)
  obtain r where r: "fl (q * 1000000) = Fin r" using fl_finite [OF b] .
  have u: "r < 1 / 2" using fl_below_half [OF _ t r] assms(1) by simp
  have "0 \<le> r"
  proof -
    have nz: "q * 1000000 \<noteq> 0" using assms(1) by simp
    have "0 \<le> round_he (q * 1000000 / 2 powi ulp_exp (q * 1000000))" using assms(1) by (intro round_he_nonneg) simp
    then show ?thesis using fl_fin [OF r nz] by simp
  qed
  with u have "round_away r = 0" by (intro round_away_unique) simp
  then have n: "multiplierPPMFromFloat (Fin q) = None"
    using r assms(1) by (simp add: multiplierPPMFromFloat_def f64_consts)
  then have e: "effective_ppm (Fin q) = 1000000000"
    using assms(1) by (simp add: effective_ppm_def MaxBillingMultiplierPPM_def)
  have "cdiv (raw * 1000000000) 1000000 = 1000 * raw" by (rule cdiv_unique) simp_all
  then show "applyBillingMultiplier raw (Fin q) = min i64_max (1000 * raw)"
    using e assms(2) by (simp add: applyBillingMultiplier_eq)
  show "multiplierPPMFromFloat (Fin q) = None" by (rule n)
next
  assume t: "1 / 2 - 1 / 36028797018963968 \<le> q * 1000000" and c: "q \<le> 1000"
  have b: "\<bar>q * 1000000\<bar> \<le> 2 powi 1000"
  proof -
    have "\<bar>q * 1000000\<bar> \<le> 1000000000" using assms(1) c by simp
    also have "\<dots> \<le> (2 powi 30 :: rat)" by (simp add: power_int_def)
    also have "\<dots> \<le> 2 powi 1000" by (rule powi_mono) simp
    finally show ?thesis .
  qed
  obtain r where r: "fl (q * 1000000) = Fin r" using fl_finite [OF b] .
  have h: "1 / 2 \<le> r" "r < 1000000000 + 1 / 2" using fl_from_half [OF t _ r] c by simp_all
  have ra: "round_away r = \<lfloor>r + 1 / 2\<rfloor>" using h(1) by (simp add: round_away_def)
  have p: "1 \<le> round_away r" "round_away r \<le> 1000000000" unfolding ra using h by linarith+
  have "(of_int 1 :: rat) \<le> of_int (round_away r)" "(of_int (round_away r) :: rat) \<le> of_int 1000000000"
    using p by (simp_all only: of_int_le_iff)
  then have m: "multiplierPPMFromFloat (Fin q) = Some (round_away r)"
    using r p assms(1) by (simp add: multiplierPPMFromFloat_def f64_consts i64_defs)
  then show "\<exists>p. multiplierPPMFromFloat (Fin q) = Some p \<and> 1 \<le> p \<and> p \<le> 1000000000
          \<and> applyBillingMultiplier raw (Fin q) = min i64_max (cdiv (raw * p) 1000000)"
    using p assms(2) by (simp add: applyBillingMultiplier_eq effective_ppm_def)
qed

theorem tiny_multiplier_charges_cap_witness:
  "validPositiveMultiplier (Fin (1 / 2 ^ 11)) \<and> applyBillingMultiplier 7 (Fin (1 / 2 ^ 22)) = 7000
    \<and> (\<exists>p. multiplierPPMFromFloat (Fin (1 / 2 ^ 20)) = Some p)"
  using tiny_multiplier_charges_cap [of "1 / 2 ^ 22" 7] tiny_multiplier_charges_cap [of "1 / 2 ^ 20" 7]
  by (auto simp: i64_defs validPositiveMultiplier_def)

end
