(* ===== verification/PlanMatching.thy ===== *)
theory PlanMatching
  imports Store BillingRules "HOL-Library.AList"
begin

section \<open>Quota plans of a package snapshot (\<^verbatim>\<open>proxy/subscription_engine.go\<close>)\<close>

text \<open>
  The part of the subscription engine that reads: the plans of a snapshot, whether a plan covers
  a model, the bucket a request counts in, and the amount a request consumes of a plan. A
  decoded snapshot is the list of members of its JSON object. A Go map is walked in an order
  the runtime picks: \<open>ord\<close> stands for that choice. \<^verbatim>\<open>sort.Slice\<close> is insertion sort, hence
  stable, up to twelve elements.
\<close>

type_synonym json_map = "(string \<times> json) list"

subsection \<open>Reading loosely typed values\<close>

definition uintFromAny :: "json option \<Rightarrow> nat" where
  "uintFromAny v = (case v of Some (JNum l) \<Rightarrow>
       (case ParseInt 64 l of Some i \<Rightarrow> if 0 \<le> i then nat i else 0 | None \<Rightarrow> 0)
     | _ \<Rightarrow> 0)"

definition int64FromAny :: "json option \<Rightarrow> int64" where
  "int64FromAny v = (case v of Some (JNum l) \<Rightarrow>
       (case ParseInt 64 l of Some i \<Rightarrow> i
        | None \<Rightarrow> (case number_f64 l of Some f \<Rightarrow> int64_of_f64 f | None \<Rightarrow> 0))
     | _ \<Rightarrow> 0)"

definition intFromAny :: "json option \<Rightarrow> int" where
  "intFromAny v = (case v of Some (JNum l) \<Rightarrow> (case ParseInt 64 l of Some i \<Rightarrow> i | None \<Rightarrow> 0) | _ \<Rightarrow> 0)"

definition floatFromAny :: "json option \<Rightarrow> f64" where
  "floatFromAny v = (case v of Some (JNum l) \<Rightarrow>
       (case number_f64 l of Some f \<Rightarrow> f | None \<Rightarrow> Fin 0) | _ \<Rightarrow> Fin 0)"

definition stringFromAny :: "json option \<Rightarrow> string" where
  "stringFromAny v = (case v of Some (JStr s) \<Rightarrow> s | _ \<Rightarrow> '''')"

text \<open>Decoding into \<^verbatim>\<open>any\<close> turns every number into a float, which fails out of range.\<close>

fun any_ok :: "json \<Rightarrow> bool" where
  "any_ok (JNum l) = (number_f64 l \<noteq> None)"
| "any_ok (JArr js) = list_all any_ok js"
| "any_ok (JObj ms) = list_all (\<lambda>m. any_ok (snd m)) ms"
| "any_ok _ = True"

definition decode_map :: "string \<Rightarrow> json_map option" where
  "decode_map s = (case json_parse s of
       Some (JObj ms) \<Rightarrow> if any_ok (JObj ms) then Some ms else None
     | Some JNull \<Rightarrow> Some [] | _ \<Rightarrow> None)"

definition decode_patterns :: "string \<Rightarrow> string list option" where
  "decode_patterns s = (case json_parse s of None \<Rightarrow> None
     | Some j \<Rightarrow> into_slice (\<lambda>v. into_string v '''') j)"

text \<open>Where the error is only logged, the elements of the right type are kept and the others are
  left empty.\<close>

definition lenient_patterns :: "string \<Rightarrow> string list" where
  "lenient_patterns s = (case json_parse s of
       Some (JArr js) \<Rightarrow> map (\<lambda>j. stringFromAny (Some j)) js | _ \<Rightarrow> [])"

text \<open>The entries of a decoded map: of duplicate keys the last one counts.\<close>

definition map_entries :: "json_map \<Rightarrow> json_map" where
  "map_entries ms = AList.clearjunk (rev ms)"

subsection \<open>Plans\<close>

record snapshotPlan =
  sp_ID :: nat
  sp_ModelMatch :: string
  sp_LimitUnit :: string
  sp_LimitValue :: f64
  sp_LimitValueMicroUSD :: int64
  sp_WindowSeconds :: int
  sp_WeightFactor :: string
  sp_Priority :: int
  sp_OverflowStrategy :: string
  sp_ExtraConfig :: string
  sp_QuantityMultiplier :: f64

definition plan_of_members :: "json_map \<Rightarrow> snapshotPlan" where
  "plan_of_members m =
     (let mult = floatFromAny (json_get ''quantity_multiplier'' m) in
      \<lparr> sp_ID = uintFromAny (json_get ''id'' m),
        sp_ModelMatch = stringFromAny (json_get ''model_match'' m),
        sp_LimitUnit = stringFromAny (json_get ''limit_unit'' m),
        sp_LimitValue = floatFromAny (json_get ''limit_value'' m),
        sp_LimitValueMicroUSD = int64FromAny (json_get ''limit_value_micro_usd'' m),
        sp_WindowSeconds = intFromAny (json_get ''window_seconds'' m),
        sp_WeightFactor = stringFromAny (json_get ''weight_factor'' m),
        sp_Priority = intFromAny (json_get ''priority'' m),
        sp_OverflowStrategy = stringFromAny (json_get ''overflow_strategy'' m),
        sp_ExtraConfig = stringFromAny (json_get ''extra_config'' m),
        sp_QuantityMultiplier = (if f64_le mult (Fin 0) then Fin 1 else mult) \<rparr>)"

definition extractPlansFromSnapshot :: "json_map option \<Rightarrow> snapshotPlan list" where
  "extractPlansFromSnapshot snap = (case snap of None \<Rightarrow> []
     | Some ms \<Rightarrow> (case json_get ''plans'' ms of
         Some (JArr raws) \<Rightarrow>
           sort_key sp_Priority
             (concat (map (\<lambda>rp. case rp of JObj m \<Rightarrow> [plan_of_members m] | _ \<Rightarrow> []) raws))
       | _ \<Rightarrow> []))"

definition productTypeOfCached :: "json_map option \<Rightarrow> string" where
  "productTypeOfCached snap = (case snap of None \<Rightarrow> ''subscription''
     | Some ms \<Rightarrow> (case json_get ''product_type'' ms of
         Some (JStr t) \<Rightarrow> if t \<noteq> '''' then t else ''subscription'' | _ \<Rightarrow> ''subscription''))"

definition productPriority :: "string \<Rightarrow> int" where
  "productPriority t = (if t = ''subscription'' then 1 else 99)"

definition normalizeOverflowStrategy :: "string \<Rightarrow> string" where
  "normalizeOverflowStrategy s =
     (let v = ToLower (TrimSpace s) in
      if v = ''block'' then ''block'' else if v = ''overdraft'' then ''overdraft'' else ''next_subscription'')"

subsection \<open>Matching and buckets\<close>

definition matchModel :: "string \<Rightarrow> string \<Rightarrow> bool" where
  "matchModel modelMatchJSON model =
     (if modelMatchJSON = '''' \<or> modelMatchJSON = ''[]'' then True
      else case decode_patterns modelMatchJSON of None \<Rightarrow> False
      | Some patterns \<Rightarrow>
          if patterns = [] then True else list_ex (\<lambda>p. path_Match p model = Some True) patterns)"

definition config_bucket :: "json_map \<Rightarrow> string option" where
  "config_bucket cfg =
     (case filter (\<lambda>v. v \<noteq> '''')
             (map (\<lambda>k. TrimSpace (stringFromAny (json_get k cfg))) [''bucket'', ''model_bucket'']) of
        [] \<Rightarrow> None | v # _ \<Rightarrow> Some v)"

definition normalizeModelBucket :: "snapshotPlan \<Rightarrow> string \<Rightarrow> string" where
  "normalizeModelBucket plan model =
     (case (if sp_ExtraConfig plan \<noteq> '''' \<and> sp_ExtraConfig plan \<noteq> ''{}''
            then (case decode_map (sp_ExtraConfig plan) of None \<Rightarrow> None | Some cfg \<Rightarrow> config_bucket cfg)
            else None) of
        Some b \<Rightarrow> b
      | None \<Rightarrow>
          (case find (\<lambda>p. path_Match p model = Some True) (lenient_patterns (sp_ModelMatch plan)) of
             Some p \<Rightarrow> p | None \<Rightarrow> model))"

subsection \<open>Consumption\<close>

type_synonym weight_in_out = "(f64 \<times> f64) option"

text \<open>The first matching entry in the runtime's order that is a number or an object.\<close>

fun pick_weight :: "string \<Rightarrow> json_map \<Rightarrow> f64 \<times> weight_in_out" where
  "pick_weight model [] = (Fin 1, None)"
| "pick_weight model ((pattern, v) # es) =
     (if pattern = model \<or> path_Match pattern model = Some True
      then (case v of
              JNum l \<Rightarrow> (floatFromAny (Some v), None)
            | JObj m \<Rightarrow> (Fin 1, Some (floatFromAny (json_get ''input'' m), floatFromAny (json_get ''output'' m)))
            | _ \<Rightarrow> pick_weight model es)
      else pick_weight model es)"

definition parseWeightFactor ::
  "(json_map \<Rightarrow> json_map) \<Rightarrow> string \<Rightarrow> string \<Rightarrow> f64 \<times> weight_in_out" where
  "parseWeightFactor ord weightJSON model =
     (if weightJSON = '''' \<or> weightJSON = ''{}'' then (Fin 1, None)
      else case decode_map weightJSON of None \<Rightarrow> (Fin 1, None)
      | Some raw \<Rightarrow> pick_weight model (ord (map_entries raw)))"

record EngineRequest =
  rq_UserID :: nat
  rq_ModelName :: string
  rq_InputTokens :: int64
  rq_OutputTokens :: int64
  rq_CostMicroUSD :: int64
  rq_IsPrecheck :: bool

definition computeDelta ::
  "(json_map \<Rightarrow> json_map) \<Rightarrow> snapshotPlan \<Rightarrow> EngineRequest \<Rightarrow> f64 \<times> string" where
  "computeDelta ord plan req =
     (let (single, inout) = parseWeightFactor ord (sp_WeightFactor plan) (rq_ModelName req);
          u = sp_LimitUnit plan;
          inp = f64_of_int (rq_InputTokens req); outp = f64_of_int (rq_OutputTokens req);
          both = f64_of_int (wrap64 (rq_InputTokens req + rq_OutputTokens req)) in
      if u = ''request_count'' then (f64_mul (Fin 1) single, u)
      else if u = ''api_cost_usd''
      then (if rq_CostMicroUSD req < 0 then (Fin (-1), u) else (MicroToUSD (rq_CostMicroUSD req), u))
      else if u = ''input_tokens'' then (f64_mul inp single, u)
      else if u = ''output_tokens'' then (f64_mul outp single, u)
      else if u = ''total_tokens'' then (f64_mul both single, u)
      else if u = ''weighted_tokens''
      then (case inout of
              Some (wi, wo) \<Rightarrow> (f64_add (f64_mul inp wi) (f64_mul outp wo), u)
            | None \<Rightarrow> (f64_mul both single, u))
      else (Fin (-1), u))"

definition scaleAPICostLimitMicroUSD :: "int64 \<Rightarrow> f64 \<Rightarrow> int64 option" where
  "scaleAPICostLimitMicroUSD limitMicroUSD multiplier =
     (if limitMicroUSD < 0 then None
      else if limitMicroUSD = 0 then Some 0
      else case multiplierPPMFromFloat multiplier of None \<Rightarrow> None
      | Some ppm \<Rightarrow>
          let v = (limitMicroUSD * ppm) sdiv MultiplierPPMBase in
          if \<not> in_i64 v \<or> v \<le> 0 then None else Some v)"

subsection \<open>From plans to what a request consumes\<close>

record consumeSpec =
  cs_PlanID :: nat
  cs_Bucket :: string
  cs_Delta :: f64
  cs_DeltaMicroUSD :: int64
  cs_Unit :: string
  cs_WindowSeconds :: int
  cs_LimitValue :: f64
  cs_LimitValueMicroUSD :: int64
  cs_OverflowStrategy :: string

definition engine_multiplier :: "f64 \<Rightarrow> f64" where
  "engine_multiplier m0 =
     (let m = (if is_nan m0 \<or> is_inf m0 \<or> f64_le m0 (Fin 0) then Fin 1 else m0) in
      if f64_less (Fin 100) m then Fin 100 else m)"

text \<open>One plan: not about the model, misconfigured, or a specification of what it consumes.\<close>

datatype plan_spec = Skip | Invalid | Spec consumeSpec

definition spec_of_plan :: "(json_map \<Rightarrow> json_map) \<Rightarrow> EngineRequest \<Rightarrow> snapshotPlan \<Rightarrow> plan_spec" where
  "spec_of_plan ord req plan =
     (if \<not> matchModel (sp_ModelMatch plan) (rq_ModelName req) then Skip
      else let (delta, u) = computeDelta ord plan req in
        if f64_less delta (Fin 0) then Invalid
        else let mult = engine_multiplier (sp_QuantityMultiplier plan);
                 mk = (\<lambda>lv lvm dm. Spec \<lparr> cs_PlanID = sp_ID plan,
                   cs_Bucket = normalizeModelBucket plan (rq_ModelName req), cs_Delta = delta,
                   cs_DeltaMicroUSD = dm, cs_Unit = u, cs_WindowSeconds = sp_WindowSeconds plan,
                   cs_LimitValue = lv, cs_LimitValueMicroUSD = lvm,
                   cs_OverflowStrategy = normalizeOverflowStrategy (sp_OverflowStrategy plan) \<rparr>) in
          if u = ''api_cost_usd''
          then if f64_less (Fin 0) (sp_LimitValue plan) \<and> sp_LimitValueMicroUSD plan \<le> 0 then Invalid
               else (case scaleAPICostLimitMicroUSD (sp_LimitValueMicroUSD plan) mult of
                       None \<Rightarrow> Invalid
                     | Some scaled \<Rightarrow> mk (MicroToUSD scaled) scaled (rq_CostMicroUSD req))
          else mk (f64_mul (sp_LimitValue plan) mult) 0 0)"

text \<open>All plans of a subscription, in order; an invalid one refuses the subscription.\<close>

fun specs_of_plans :: "(json_map \<Rightarrow> json_map) \<Rightarrow> EngineRequest \<Rightarrow> snapshotPlan list \<Rightarrow> consumeSpec list option" where
  "specs_of_plans ord req [] = Some []"
| "specs_of_plans ord req (p # ps) =
     (case spec_of_plan ord req p of
        Invalid \<Rightarrow> None
      | Skip \<Rightarrow> specs_of_plans ord req ps
      | Spec s \<Rightarrow> map_option (\<lambda>ss. s # ss) (specs_of_plans ord req ps))"

end
