(* ===== verification/SubscriptionEngine.thy ===== *)
theory SubscriptionEngine
  imports PlanMatching "HOL-Library.Product_Lexorder"
begin

section \<open>The subscription engine (\<^verbatim>\<open>proxy/subscription_engine.go\<close>)\<close>

text \<open>
  Whether a request is served from a subscription, and what it consumes there. Every matching
  plan of a subscription must have room; all of them are consumed in one transaction, or none
  is. A request may be a check beforehand (\<open>isPrecheck\<close>), which writes nothing. The clock is
  read once per decision. The asynchronous usage warnings are returned, not sent.
\<close>

definition is_api_cost :: "consumeSpec \<Rightarrow> bool" where
  "is_api_cost spec \<longleftrightarrow> cs_Unit spec = ''api_cost_usd''"

subsection \<open>The limit checks\<close>

definition snapshotForPlanLimit :: "consumeSpec \<Rightarrow> f64 \<Rightarrow> int64 \<Rightarrow> nanos option \<Rightarrow> precheckLimitDetail" where
  "snapshotForPlanLimit spec consumedValue consumedMicroUSD windowEndAt =
     (let remainingMicro = (if is_api_cost spec
            then (let r = wrap64 (cs_LimitValueMicroUSD spec - consumedMicroUSD) in if r < 0 then 0 else r) else 0);
          remaining = (if is_api_cost spec then MicroToUSD remainingMicro
            else math_Max (Fin 0) (f64_sub (cs_LimitValue spec) consumedValue))
      in \<lparr> pl_PlanID = cs_PlanID spec,
           pl_ConsumedValue = (if is_api_cost spec then MicroToUSD consumedMicroUSD else consumedValue),
           pl_Delta = cs_Delta spec, pl_LimitValue = cs_LimitValue spec, pl_Remaining = remaining,
           pl_ConsumedMicroUSD = consumedMicroUSD, pl_DeltaMicroUSD = cs_DeltaMicroUSD spec,
           pl_LimitMicroUSD = cs_LimitValueMicroUSD spec, pl_RemainingMicroUSD = remainingMicro,
           pl_WindowEndAt = windowEndAt, pl_Unit = cs_Unit spec,
           pl_OverflowStrategy = cs_OverflowStrategy spec \<rparr>)"

definition exceedsLimit :: "consumeSpec \<Rightarrow> f64 \<Rightarrow> int64 \<Rightarrow> bool" where
  "exceedsLimit spec consumedValue consumedMicroUSD =
     (if is_api_cost spec
      then (case CheckedAddInt64 consumedMicroUSD (cs_DeltaMicroUSD spec) of
              None \<Rightarrow> True
            | Some s \<Rightarrow> 0 < cs_LimitValueMicroUSD spec \<and> cs_LimitValueMicroUSD spec < s)
      else f64_less (Fin 0) (cs_LimitValue spec)
        \<and> f64_less (cs_LimitValue spec) (f64_add consumedValue (cs_Delta spec)))"

definition exceedsLimitCheck :: "consumeSpec \<Rightarrow> bool \<Rightarrow> f64 \<Rightarrow> int64 \<Rightarrow> bool" where
  "exceedsLimitCheck spec isPrecheck consumedValue consumedMicroUSD =
     (if cs_OverflowStrategy spec = ''overdraft''
      then if \<not> isPrecheck then False
           else if is_api_cost spec
           then 0 < cs_LimitValueMicroUSD spec \<and> cs_LimitValueMicroUSD spec \<le> consumedMicroUSD
           else f64_less (Fin 0) (cs_LimitValue spec) \<and> f64_le (cs_LimitValue spec) consumedValue
      else exceedsLimit spec consumedValue consumedMicroUSD)"

subsection \<open>One plan inside the transaction\<close>

record planConsumeWarn =
  pw_PlanID :: nat
  pw_Bucket :: string
  pw_Before :: f64
  pw_After :: f64
  pw_LimitValue :: f64
  pw_WindowStart :: nanos

definition first_warn :: "nanos \<Rightarrow> consumeSpec \<Rightarrow> planConsumeWarn" where
  "first_warn now spec = \<lparr> pw_PlanID = cs_PlanID spec, pw_Bucket = cs_Bucket spec, pw_Before = Fin 0,
     pw_After = (if is_api_cost spec then MicroToUSD (cs_DeltaMicroUSD spec) else cs_Delta spec),
     pw_LimitValue = cs_LimitValue spec, pw_WindowStart = now \<rparr>"

text \<open>The row that opens a window with this request, for the insert and for the reset.\<close>

definition opening_usage :: "nanos \<Rightarrow> consumeSpec \<Rightarrow> nanos \<Rightarrow> subscription_usage" where
  "opening_usage now spec windowEnd =
     \<lparr> us_WindowStartAt = now, us_WindowEndAt = windowEnd,
       us_ConsumedValue = (if is_api_cost spec then Fin 0 else cs_Delta spec),
       us_ConsumedValueMicroUSD = (if is_api_cost spec then cs_DeltaMicroUSD spec else 0),
       us_RequestCount = 1 \<rparr>"

definition usage_key_of :: "nat \<Rightarrow> consumeSpec \<Rightarrow> usage_key" where
  "usage_key_of userID spec = (userID, cs_PlanID spec, cs_Bucket spec)"

definition window_end :: "nanos \<Rightarrow> consumeSpec \<Rightarrow> nanos" where
  "window_end now spec = now + wrap64 (cs_WindowSeconds spec * 1000000000)"

definition put_usage :: "usage_key \<Rightarrow> subscription_usage \<Rightarrow> tables \<Rightarrow> tables" where
  "put_usage k u t = t \<lparr> usages := (usages t)(k \<mapsto> u) \<rparr>"

text \<open>\<^verbatim>\<open>UPDATE ... WHERE\<close> on one usage row, with the number of rows affected.\<close>

definition update_usage_if ::
  "usage_key \<Rightarrow> (subscription_usage \<Rightarrow> bool) \<Rightarrow> (subscription_usage \<Rightarrow> subscription_usage)
    \<Rightarrow> tables \<Rightarrow> nat \<times> tables" where
  "update_usage_if k cond f t = (case usages t k of
       Some u \<Rightarrow> if cond u then (1, put_usage k (f u) t) else (0, t) | None \<Rightarrow> (0, t))"

definition accumulate_guard :: "consumeSpec \<Rightarrow> subscription_usage \<Rightarrow> bool" where
  "accumulate_guard spec u =
     (if cs_OverflowStrategy spec = ''overdraft'' then True
      else if is_api_cost spec \<and> 0 < cs_LimitValueMicroUSD spec
      then us_ConsumedValueMicroUSD u + cs_DeltaMicroUSD spec \<le> cs_LimitValueMicroUSD spec
      else if f64_less (Fin 0) (cs_LimitValue spec)
      then f64_le (f64_add (us_ConsumedValue u) (cs_Delta spec)) (cs_LimitValue spec)
      else True)"

definition accumulated :: "consumeSpec \<Rightarrow> subscription_usage \<Rightarrow> subscription_usage" where
  "accumulated spec u =
     (if is_api_cost spec
      then u \<lparr> us_RequestCount := us_RequestCount u + 1,
               us_ConsumedValueMicroUSD := us_ConsumedValueMicroUSD u + cs_DeltaMicroUSD spec \<rparr>
      else u \<lparr> us_RequestCount := us_RequestCount u + 1,
               us_ConsumedValue := f64_add (us_ConsumedValue u) (cs_Delta spec) \<rparr>)"

definition accumulate_plan ::
  "nanos \<Rightarrow> nat \<Rightarrow> consumeSpec \<Rightarrow> bool \<Rightarrow> subscription_usage \<Rightarrow> planConsumeWarn option tx" where
  "accumulate_plan now userID spec isPrecheck u =
     (let k = usage_key_of userID spec;
          refuse = (\<lambda>v. tx_throw (PlanLimitExceeded
            (snapshotForPlanLimit spec (us_ConsumedValue v) (us_ConsumedValueMicroUSD v) (Some (us_WindowEndAt v))))) in
      if exceedsLimitCheck spec isPrecheck (us_ConsumedValue u) (us_ConsumedValueMicroUSD u) then refuse u
      else if isPrecheck then tx_return None
      else tx_bind (stmt (update_usage_if k (accumulate_guard spec) (accumulated spec))) (\<lambda>n.
        if n = 0
        then tx_bind (tx_catch (query_first (\<lambda>t. usages t k)) (\<lambda>_. tx_return u)) refuse
        else let before = (if is_api_cost spec then MicroToUSD (us_ConsumedValueMicroUSD u) else us_ConsumedValue u);
                 after = (if is_api_cost spec
                   then MicroToUSD (wrap64 (us_ConsumedValueMicroUSD u + cs_DeltaMicroUSD spec))
                   else f64_add before (cs_Delta spec))
          in tx_return (Some \<lparr> pw_PlanID = cs_PlanID spec, pw_Bucket = cs_Bucket spec, pw_Before = before,
               pw_After = after, pw_LimitValue = cs_LimitValue spec, pw_WindowStart = us_WindowStartAt u \<rparr>)))"

text \<open>A request against an existing row: an expired window starts anew.\<close>

definition consume_existing ::
  "nanos \<Rightarrow> nat \<Rightarrow> consumeSpec \<Rightarrow> bool \<Rightarrow> subscription_usage \<Rightarrow> planConsumeWarn option tx" where
  "consume_existing now userID spec isPrecheck u =
     (let k = usage_key_of userID spec; newEnd = window_end now spec in
      if 0 < cs_WindowSeconds spec \<and> us_WindowEndAt u < now
      then if exceedsLimitCheck spec isPrecheck (Fin 0) 0
           then tx_throw (PlanLimitExceeded (snapshotForPlanLimit spec (Fin 0) 0 (Some newEnd)))
           else if isPrecheck then tx_return None
           else tx_bind (stmt (update_usage_if k (\<lambda>v. us_WindowEndAt v = us_WindowEndAt u)
               (\<lambda>_. opening_usage now spec newEnd))) (\<lambda>n.
             if 0 < n then tx_return (Some (first_warn now spec))
             else tx_bind (tx_catch (query_first (\<lambda>t. usages t k)) (\<lambda>_. tx_throw DbError))
               (accumulate_plan now userID spec isPrecheck))
      else accumulate_plan now userID spec isPrecheck u)"

definition consumePlanInTx ::
  "nanos \<Rightarrow> nat \<Rightarrow> consumeSpec \<Rightarrow> bool \<Rightarrow> planConsumeWarn option tx" where
  "consumePlanInTx now userID spec isPrecheck =
     (let k = usage_key_of userID spec in
      tx_bind (stmt (\<lambda>t. (usages t k, t))) (\<lambda>r. case r of
        Some u \<Rightarrow> consume_existing now userID spec isPrecheck u
      | None \<Rightarrow>
          if exceedsLimitCheck spec isPrecheck (Fin 0) 0
          then tx_throw (PlanLimitExceeded (snapshotForPlanLimit spec (Fin 0) 0
                 (if 0 < cs_WindowSeconds spec then Some (window_end now spec) else None)))
          else if isPrecheck then tx_return None
          else let windowEnd = (if 0 < cs_WindowSeconds spec then window_end now spec
                                else now + 365 * 24 * 3600 * 1000000000) in
            tx_bind (tx_catch
                (tx_bind (stmt (\<lambda>t. ((), put_usage k (opening_usage now spec windowEnd) t))) (\<lambda>_. tx_return None))
                (\<lambda>_. tx_bind (tx_catch (query_first (\<lambda>t. usages t k)) (\<lambda>_. tx_throw DbError))
                       (\<lambda>existing. tx_return (Some existing))))
              (\<lambda>r2. case r2 of
                 None \<Rightarrow> tx_return (Some (first_warn now spec))
               | Some existing \<Rightarrow> consume_existing now userID spec isPrecheck existing)))"

subsection \<open>One subscription\<close>

definition sub_active :: "nanos \<Rightarrow> nat \<Rightarrow> tables \<Rightarrow> bool" where
  "sub_active now subID t = (case subscriptions t subID of None \<Rightarrow> False
     | Some s \<Rightarrow> sub_Status s = ''active'' \<and> now < sub_EndAt s)"

definition verifySubStillActive :: "nanos \<Rightarrow> nat \<Rightarrow> unit tx" where
  "verifySubStillActive now subID =
     tx_bind (stmt (\<lambda>t. (sub_active now subID t, t))) (\<lambda>active.
       if active then tx_return () else tx_throw SubInactive)"

fun consume_specs :: "nanos \<Rightarrow> nat \<Rightarrow> consumeSpec list \<Rightarrow> bool \<Rightarrow> planConsumeWarn list tx" where
  "consume_specs now userID [] isPrecheck = tx_return []"
| "consume_specs now userID (spec # specs) isPrecheck =
     tx_bind (consumePlanInTx now userID spec isPrecheck) (\<lambda>w.
       tx_bind (consume_specs now userID specs isPrecheck) (\<lambda>ws.
         tx_return ((case w of None \<Rightarrow> [] | Some x \<Rightarrow> [x]) @ ws)))"

definition consume_body :: "nanos \<Rightarrow> nat \<Rightarrow> nat \<Rightarrow> consumeSpec list \<Rightarrow> bool \<Rightarrow> planConsumeWarn list tx" where
  "consume_body now subID userID specs isPrecheck =
     tx_bind (verifySubStillActive now subID) (\<lambda>_.
       tx_bind (consume_specs now userID specs isPrecheck) (\<lambda>ws.
         tx_bind (if isPrecheck then tx_return () else verifySubStillActive now subID) (\<lambda>_.
           tx_return ws)))"

text \<open>The outcome: allowed with the warnings to send, refused (by a plan, or since the
  subscription is not active), or an error of the database.\<close>

datatype consume_outcome = Consumed "planConsumeWarn list" | Refused "precheckLimitDetail option" | ConsumeError

definition atomicConsumeMany ::
  "nanos \<Rightarrow> nat \<Rightarrow> nat \<Rightarrow> consumeSpec list \<Rightarrow> bool \<Rightarrow> world \<Rightarrow> consume_outcome \<times> world" where
  "atomicConsumeMany now subID userID specs isPrecheck w =
     (if specs = [] then (Refused None, w)
      else case transaction (consume_body now subID userID specs isPrecheck) w of
        (Inr ws, w') \<Rightarrow> (Consumed ws, w')
      | (Inl SubInactive, w') \<Rightarrow> (Refused None, w')
      | (Inl (PlanLimitExceeded d), w') \<Rightarrow> (Refused (Some d), w')
      | (Inl _, w') \<Rightarrow> (ConsumeError, w'))"

subsection \<open>The engine's decision\<close>

record cached_subscription =
  cd_ID :: nat
  cd_UserID :: nat
  cd_IsGranted :: bool
  cd_ConsumptionOrder :: int64
  cd_Snapshot :: "json_map option"

record EngineDecision =
  ed_Allowed :: bool
  ed_SubscriptionID :: nat
  ed_SubscriptionIsGranted :: bool
  ed_QuotaPlanIDs :: "nat list"
  ed_ConsumedUnit :: string
  ed_ConsumedDelta :: f64
  ed_FallbackToBalance :: bool
  ed_BlockReason :: string
  ed_Block :: "precheckLimitDetail option"
  ed_ProductType :: string
  ed_NeedsRetry :: bool
  ed_HardBlock :: bool

text \<open>The zero decision refuses; \<open>ed_Block\<close> holds the \<^verbatim>\<open>Block...\<close> fields when they are set.\<close>

definition no_decision :: EngineDecision where
  "no_decision = \<lparr> ed_Allowed = False, ed_SubscriptionID = 0, ed_SubscriptionIsGranted = False,
     ed_QuotaPlanIDs = [], ed_ConsumedUnit = '''', ed_ConsumedDelta = Fin 0, ed_FallbackToBalance = False,
     ed_BlockReason = '''', ed_Block = None, ed_ProductType = '''', ed_NeedsRetry = False, ed_HardBlock = False \<rparr>"

definition trySharedQuota ::
  "(json_map \<Rightarrow> json_map) \<Rightarrow> nanos \<Rightarrow> cached_subscription \<Rightarrow> EngineRequest \<Rightarrow> world \<Rightarrow> EngineDecision \<times> world" where
  "trySharedQuota ord now cs req w =
     (let plans = extractPlansFromSnapshot (cd_Snapshot cs) in
      if plans = [] then (no_decision \<lparr> ed_BlockReason := ''no_plans'' \<rparr>, w)
      else case specs_of_plans ord req plans of
        None \<Rightarrow> (no_decision \<lparr> ed_BlockReason := ''invalid_plan_delta'' \<rparr>, w)
      | Some [] \<Rightarrow> (no_decision \<lparr> ed_BlockReason := ''no_plan_in_sub_matched'' \<rparr>, w)
      | Some specs \<Rightarrow>
          (case atomicConsumeMany now (cd_ID cs) (cd_UserID cs) specs (rq_IsPrecheck req) w of
             (ConsumeError, w') \<Rightarrow>
               (no_decision \<lparr> ed_NeedsRetry := True, ed_BlockReason := ''subscription_db_error'' \<rparr>, w')
           | (Refused snap, w') \<Rightarrow>
               (let strategy = (case snap of None \<Rightarrow> ''next_subscription'' | Some d \<Rightarrow> pl_OverflowStrategy d) in
                (no_decision \<lparr> ed_BlockReason := (if strategy = ''block'' then ''plan_full_hard_block''
                                                 else ''plan_full_skip_sub''),
                   ed_HardBlock := (strategy = ''block''),
                   ed_Block := (if rq_IsPrecheck req then snap else None) \<rparr>, w'))
           | (Consumed ws, w') \<Rightarrow>
               (no_decision \<lparr> ed_Allowed := True, ed_SubscriptionID := cd_ID cs,
                  ed_SubscriptionIsGranted := cd_IsGranted cs, ed_QuotaPlanIDs := map cs_PlanID specs,
                  ed_ConsumedUnit := cs_Unit (hd specs), ed_ConsumedDelta := cs_Delta (hd specs) \<rparr>, w')))"

definition block_plan_set :: "EngineDecision \<Rightarrow> bool" where
  "block_plan_set d \<longleftrightarrow> (case ed_Block d of None \<Rightarrow> False | Some p \<Rightarrow> pl_PlanID p \<noteq> 0)"

text \<open>The walk over the subscriptions; the right result is that no subscription has decided, with
  the refusal worth reporting.\<close>

fun decide_subs ::
  "(json_map \<Rightarrow> json_map) \<Rightarrow> nanos \<Rightarrow> EngineRequest \<Rightarrow> cached_subscription list \<Rightarrow> EngineDecision \<Rightarrow> world
    \<Rightarrow> (EngineDecision + EngineDecision) \<times> world" where
  "decide_subs ord now req [] lastLimit w = (Inr lastLimit, w)"
| "decide_subs ord now req (cs # css) lastLimit w =
     (case trySharedQuota ord now cs req w of (d, w') \<Rightarrow>
        if ed_Allowed d then (Inl (d \<lparr> ed_ProductType := productTypeOfCached (cd_Snapshot cs) \<rparr>), w')
        else if ed_NeedsRetry d then (Inl d, w')
        else if ed_HardBlock d then (Inl d, w')
        else decide_subs ord now req css
          (if block_plan_set d then d
           else if \<not> block_plan_set lastLimit \<and> ed_BlockReason d = ''plan_full_skip_sub'' then d
           else lastLimit) w')"

definition decide_sort :: "cached_subscription list \<Rightarrow> cached_subscription list" where
  "decide_sort = sort_key (\<lambda>cs. (productPriority (productTypeOfCached (cd_Snapshot cs)), cd_ConsumptionOrder cs))"

text \<open>\<open>loaded\<close> is what loading the user's subscriptions gave, \<open>None\<close> for an error.\<close>

definition Decide ::
  "(json_map \<Rightarrow> json_map) \<Rightarrow> sysconfig \<Rightarrow> nanos \<Rightarrow> cached_subscription list option \<Rightarrow> EngineRequest \<Rightarrow> world
    \<Rightarrow> EngineDecision \<times> world" where
  "Decide ord cfg now loaded req w =
     (case loaded of
        None \<Rightarrow> (no_decision \<lparr> ed_NeedsRetry := True, ed_BlockReason := ''subscription_load_failed'' \<rparr>, w)
      | Some subs \<Rightarrow>
          (case decide_subs ord now req (decide_sort subs) no_decision w of
             (Inl d, w') \<Rightarrow> (d, w')
           | (Inr lastLimit, w') \<Rightarrow>
               if engineFallbackToQuota cfg
               then (no_decision \<lparr> ed_Allowed := True, ed_FallbackToBalance := True,
                       ed_BlockReason := ed_BlockReason lastLimit, ed_Block := ed_Block lastLimit \<rparr>, w')
               else if block_plan_set lastLimit
               then (no_decision \<lparr> ed_BlockReason := ed_BlockReason lastLimit, ed_Block := ed_Block lastLimit \<rparr>, w')
               else (no_decision \<lparr> ed_BlockReason := ''no_subscription_match'' \<rparr>, w')))"

subsection \<open>A check writes nothing\<close>

lemma preorder_eq [simp]: "reflp (=)" "transp (=)"
  by (simp_all add: reflp_def transp_def)

lemma keeps_case_option [keeps_intros]:
  "(x = None \<Longrightarrow> keeps R m) \<Longrightarrow> (\<And>a. x = Some a \<Longrightarrow> keeps R (f a)) \<Longrightarrow>
    keeps R (case x of None \<Rightarrow> m | Some a \<Rightarrow> f a)"
  by (cases x) auto

lemma accumulate_pre_keeps: "keeps (=) (accumulate_plan now userID spec True u)"
  unfolding accumulate_plan_def Let_def if_True by (intro keeps_intros preorder_eq)

lemma existing_pre_keeps: "keeps (=) (consume_existing now userID spec True u)"
  unfolding consume_existing_def Let_def if_True
  by (intro keeps_intros preorder_eq accumulate_pre_keeps)

lemma consumePlan_pre_keeps: "keeps (=) (consumePlanInTx now userID spec True)"
  unfolding consumePlanInTx_def Let_def if_True
  by (intro keeps_intros preorder_eq existing_pre_keeps) simp

lemma consume_specs_pre_keeps: "keeps (=) (consume_specs now userID specs True)"
proof (induction specs)
  case Nil
  show ?case unfolding consume_specs.simps by (intro keeps_intros preorder_eq)
next
  case (Cons s ss)
  show ?case unfolding consume_specs.simps
    by (intro keeps_intros preorder_eq consumePlan_pre_keeps Cons)
qed

lemma verify_keeps: "keeps (=) (verifySubStillActive now subID)"
  unfolding verifySubStillActive_def by (intro keeps_intros preorder_eq) simp

lemma consume_body_pre_keeps: "keeps (=) (consume_body now subID userID specs True)"
  unfolding consume_body_def if_True
  by (intro keeps_intros preorder_eq verify_keeps consume_specs_pre_keeps)

lemma atomicConsume_world:
  "snd (atomicConsumeMany now subID userID specs pre w)
    = (if specs = [] then w else snd (transaction (consume_body now subID userID specs pre) w))"
  by (auto simp: atomicConsumeMany_def split: prod.split sum.split db_error.split)

lemma atomicConsume_pre_frame:
  "atomicConsumeMany now subID userID specs True (t, fs) = (r, (t', fs')) \<Longrightarrow> t' = t"
proof -
  assume a: "atomicConsumeMany now subID userID specs True (t, fs) = (r, (t', fs'))"
  have k: "keeps (=) (transaction (consume_body now subID userID specs True))"
    by (intro keeps_transaction preorder_eq consume_body_pre_keeps)
  have "fst (snd (transaction (consume_body now subID userID specs True) (t, fs))) = t"
    using k by (simp add: keeps_def)
  moreover have "t' = fst (snd (atomicConsumeMany now subID userID specs True (t, fs)))" using a by simp
  ultimately show ?thesis by (simp add: atomicConsume_world)
qed

subsection \<open>What a successful consumption does\<close>

text \<open>The specification of one plan: the counter after a request, from the counter before.\<close>

definition effective_usage :: "nanos \<Rightarrow> consumeSpec \<Rightarrow> subscription_usage option \<Rightarrow> subscription_usage option" where
  "effective_usage now spec ou = (case ou of None \<Rightarrow> None
     | Some u \<Rightarrow> if 0 < cs_WindowSeconds spec \<and> us_WindowEndAt u < now then None else Some u)"

definition opening_end :: "nanos \<Rightarrow> consumeSpec \<Rightarrow> nanos" where
  "opening_end now spec = (if 0 < cs_WindowSeconds spec then window_end now spec
     else now + 365 * 24 * 3600 * 1000000000)"

definition consumed_after :: "nanos \<Rightarrow> consumeSpec \<Rightarrow> subscription_usage option \<Rightarrow> subscription_usage" where
  "consumed_after now spec ou = (case effective_usage now spec ou of
     None \<Rightarrow> opening_usage now spec (opening_end now spec) | Some u \<Rightarrow> accumulated spec u)"

definition has_room :: "nanos \<Rightarrow> consumeSpec \<Rightarrow> bool \<Rightarrow> subscription_usage option \<Rightarrow> bool" where
  "has_room now spec pre ou = (case effective_usage now spec ou of
     None \<Rightarrow> \<not> exceedsLimitCheck spec pre (Fin 0) 0
   | Some u \<Rightarrow> \<not> exceedsLimitCheck spec pre (us_ConsumedValue u) (us_ConsumedValueMicroUSD u)
       \<and> (pre \<or> accumulate_guard spec u))"

lemma accumulate_Some:
  "accumulate_plan now userID spec False u (t, fs) = (Inr w, (t', fs')) \<Longrightarrow>
    usages t (usage_key_of userID spec) = Some u \<Longrightarrow>
    t' = put_usage (usage_key_of userID spec) (accumulated spec u) t
    \<and> \<not> exceedsLimitCheck spec False (us_ConsumedValue u) (us_ConsumedValueMicroUSD u) \<and> accumulate_guard spec u"
  by (auto simp: accumulate_plan_def Let_def tx_Inr tx_catch_Inr update_usage_if_def split: if_splits)

lemma existing_Some:
  assumes "consume_existing now userID spec False u (t, fs) = (Inr w, (t', fs'))"
    and k: "usages t (usage_key_of userID spec) = Some u"
  shows "t' = put_usage (usage_key_of userID spec) (consumed_after now spec (Some u)) t
    \<and> has_room now spec False (Some u)"
proof (cases "0 < cs_WindowSeconds spec \<and> us_WindowEndAt u < now")
  case True
  then have "\<not> exceedsLimitCheck spec False (Fin 0) 0"
    "t' = put_usage (usage_key_of userID spec) (opening_usage now spec (window_end now spec)) t"
    using assms
    by (auto simp: consume_existing_def Let_def tx_bind_Inr stmt_Inr update_usage_if_def split: if_splits)
  with True show ?thesis
    by (simp add: consumed_after_def effective_usage_def has_room_def opening_end_def)
next
  case False
  then have "accumulate_plan now userID spec False u (t, fs) = (Inr w, (t', fs'))"
    using assms(1) by (auto simp: consume_existing_def Let_def split: if_splits)
  from accumulate_Some [OF this k] False show ?thesis
    by (auto simp: consumed_after_def effective_usage_def has_room_def)
qed

lemma consumePlan_Inr:
  assumes "consumePlanInTx now userID spec False (t, fs) = (Inr w, (t', fs'))"
  shows "t' = put_usage (usage_key_of userID spec) (consumed_after now spec (usages t (usage_key_of userID spec))) t
    \<and> has_room now spec False (usages t (usage_key_of userID spec))"
proof (cases "usages t (usage_key_of userID spec)")
  case None
  then show ?thesis using assms
    by (auto simp: consumePlanInTx_def Let_def tx_bind_Inr stmt_Inr tx_catch_Inr tx_bind_Inl stmt_Inl query_first_Inr
        consumed_after_def effective_usage_def has_room_def opening_end_def split: if_splits option.splits)
next
  case (Some u)
  then obtain fs1 where "consume_existing now userID spec False u (t, fs1) = (Inr w, (t', fs'))"
    using assms by (auto simp: consumePlanInTx_def Let_def tx_bind_Inr stmt_Inr)
  from existing_Some [OF this Some] Some show ?thesis by simp
qed

text \<open>All plans: the counters one after the other.\<close>

fun consumed_all :: "nanos \<Rightarrow> nat \<Rightarrow> consumeSpec list \<Rightarrow> tables \<Rightarrow> tables" where
  "consumed_all now userID [] t = t"
| "consumed_all now userID (s # ss) t = consumed_all now userID ss
     (put_usage (usage_key_of userID s) (consumed_after now s (usages t (usage_key_of userID s))) t)"

lemma put_usage_simps [simp]:
  "usages (put_usage k u t) = (usages t)(k \<mapsto> u)" "users (put_usage k u t) = users t"
  "billing (put_usage k u t) = billing t" "subscriptions (put_usage k u t) = subscriptions t"
  by (simp_all add: put_usage_def)

lemma consumed_all_ex: "\<exists>U. consumed_all now userID ss t = t \<lparr> usages := U \<rparr>"
proof (induction ss arbitrary: t)
  case Nil
  show ?case by (rule exI [of _ "usages t"]) simp
next
  case (Cons s ss)
  let ?t = "put_usage (usage_key_of userID s) (consumed_after now s (usages t (usage_key_of userID s))) t"
  obtain U where "consumed_all now userID ss ?t = ?t \<lparr> usages := U \<rparr>" using Cons by blast
  then show ?case by (auto simp: put_usage_def)
qed

lemma consumed_all_frame:
  "users (consumed_all now userID ss t) = users t" "billing (consumed_all now userID ss t) = billing t"
  "subscriptions (consumed_all now userID ss t) = subscriptions t"
  "consumed_all now userID ss t = t \<lparr> usages := usages (consumed_all now userID ss t) \<rparr>"
  using consumed_all_ex [of now userID ss t] by auto

lemma consumed_all_other:
  "k \<notin> set (map (usage_key_of userID) ss) \<Longrightarrow> usages (consumed_all now userID ss t) k = usages t k"
  by (induction ss arbitrary: t) auto

lemma consumed_all_at:
  "distinct (map (usage_key_of userID) ss) \<Longrightarrow> s \<in> set ss \<Longrightarrow>
    usages (consumed_all now userID ss t) (usage_key_of userID s)
      = Some (consumed_after now s (usages t (usage_key_of userID s)))"
proof (induction ss arbitrary: t)
  case (Cons x xs)
  show ?case
  proof (cases "s = x")
    case True
    with Cons.prems show ?thesis by (simp add: consumed_all_other)
  next
    case False
    with Cons.prems have "s \<in> set xs" "usage_key_of userID x \<noteq> usage_key_of userID s" by auto
    with Cons show ?thesis by simp
  qed
qed simp

lemma consume_specs_Inr:
  "consume_specs now userID ss False (t, fs) = (Inr ws, (t', fs')) \<Longrightarrow>
    distinct (map (usage_key_of userID) ss) \<Longrightarrow>
    t' = consumed_all now userID ss t
    \<and> (\<forall>s \<in> set ss. has_room now s False (usages t (usage_key_of userID s)))"
proof (induction ss arbitrary: t fs ws)
  case (Cons s ss)
  let ?k = "usage_key_of userID s"
  from Cons.prems(1) obtain w t1 fs1 ws' where
    1: "consumePlanInTx now userID s False (t, fs) = (Inr w, (t1, fs1))" and
    2: "consume_specs now userID ss False (t1, fs1) = (Inr ws', (t', fs'))"
    by (auto simp: tx_bind_Inr)
  note c = consumePlan_Inr [OF 1]
  have d: "distinct (map (usage_key_of userID) ss)" "?k \<notin> set (map (usage_key_of userID) ss)"
    using Cons.prems(2) by auto
  note I = Cons.IH [OF 2 d(1)]
  have "has_room now x False (usages t (usage_key_of userID x))" if "x \<in> set ss" for x
  proof -
    have "usage_key_of userID x \<noteq> ?k" using d(2) that by (metis image_eqI list.set_map)
    then have "usages t1 (usage_key_of userID x) = usages t (usage_key_of userID x)" using c by simp
    then show ?thesis using I that by auto
  qed
  then show ?case using c I by auto
qed simp

lemma verify_Inr: "verifySubStillActive now subID (t, fs) = (Inr a, (t', fs')) \<Longrightarrow>
    t' = t \<and> sub_active now subID t"
  by (auto simp: verifySubStillActive_def tx_bind_Inr stmt_Inr split: if_splits)

lemma consume_body_Inr:
  assumes "consume_body now subID userID ss False (t, fs) = (Inr ws, (t', fs'))"
    and d: "distinct (map (usage_key_of userID) ss)"
  shows "t' = consumed_all now userID ss t \<and> sub_active now subID t
    \<and> (\<forall>s \<in> set ss. has_room now s False (usages t (usage_key_of userID s)))"
  using assms(1) consume_specs_Inr [OF _ d]
  by (auto simp: consume_body_def tx_bind_Inr dest!: verify_Inr)

lemma atomicConsume_commit:
  assumes "atomicConsumeMany now subID userID ss False (t, fs) = (r, (t', fs'))"
    and d: "distinct (map (usage_key_of userID) ss)"
  shows "(case r of Consumed ws \<Rightarrow> ss \<noteq> [] \<and> sub_active now subID t \<and> t' = consumed_all now userID ss t
      \<and> (\<forall>s \<in> set ss. has_room now s False (usages t (usage_key_of userID s)))
    | _ \<Rightarrow> t' = t)"
proof (cases "ss = []")
  case True
  then show ?thesis using assms(1) by (auto simp: atomicConsumeMany_def)
next
  case False
  obtain r1 t1 fs1 where tr: "transaction (consume_body now subID userID ss False) (t, fs) = (r1, (t1, fs1))"
    by (metis prod.collapse)
  show ?thesis
  proof (cases r1)
    case (Inl e)
    then have "t1 = t" using tr transaction_rollback by blast
    then show ?thesis using assms(1) tr Inl False
      by (cases e) (auto simp: atomicConsumeMany_def)
  next
    case (Inr ws)
    then obtain fs2 where "consume_body now subID userID ss False (t, fs) = (Inr ws, (t1, fs2))"
      using tr by (auto simp: transaction_Inr)
    from consume_body_Inr [OF this d] show ?thesis using assms(1) tr Inr False
      by (auto simp: atomicConsumeMany_def)
  qed
qed

subsection \<open>Limits\<close>

definition spec_ok :: "consumeSpec \<Rightarrow> bool" where
  "spec_ok s \<longleftrightarrow> in_i64 (cs_DeltaMicroUSD s) \<and> f64_add (Fin 0) (cs_Delta s) = cs_Delta s"

definition within_limit :: "consumeSpec \<Rightarrow> subscription_usage \<Rightarrow> bool" where
  "within_limit s u \<longleftrightarrow>
     (if is_api_cost s then 0 < cs_LimitValueMicroUSD s \<longrightarrow> us_ConsumedValueMicroUSD u \<le> cs_LimitValueMicroUSD s
      else f64_less (Fin 0) (cs_LimitValue s) \<longrightarrow> \<not> f64_less (cs_LimitValue s) (us_ConsumedValue u))"

lemma f64_le_not_less: "f64_le a b \<Longrightarrow> \<not> f64_less b a"
  by (cases a; cases b) auto

lemma room_within_limit:
  assumes "has_room now s False ou" and "cs_OverflowStrategy s \<noteq> ''overdraft''" and "spec_ok s"
  shows "within_limit s (consumed_after now s ou)"
proof (cases "effective_usage now s ou")
  case None
  have z: "in_i64 0" by (simp add: i64_defs)
  have "\<not> exceedsLimit s (Fin 0) 0" using assms(1,2) None by (simp add: has_room_def exceedsLimitCheck_def)
  then show ?thesis using None assms(3) z
    by (auto simp: consumed_after_def within_limit_def opening_usage_def exceedsLimit_def spec_ok_def
        CheckedAddInt64_eq)
next
  case (Some u)
  then have "accumulate_guard s u" using assms(1) by (simp add: has_room_def)
  then show ?thesis using Some assms(2)
    by (auto simp: consumed_after_def within_limit_def accumulate_guard_def accumulated_def f64_le_not_less)
qed

subsection \<open>Without faults\<close>

lemma accumulate_nofault:
  assumes "usages t (usage_key_of userID s) = Some u"
  shows "if \<not> exceedsLimitCheck s pre (us_ConsumedValue u) (us_ConsumedValueMicroUSD u)
        \<and> (pre \<or> accumulate_guard s u)
    then \<exists>w. accumulate_plan now userID s pre u (t, [])
      = (Inr w, (if pre then t else put_usage (usage_key_of userID s) (accumulated s u) t, []))
    else \<exists>d. accumulate_plan now userID s pre u (t, []) = (Inl (PlanLimitExceeded d), (t, []))"
  using assms
  by (auto simp: accumulate_plan_def Let_def tx_bind_def tx_catch_def update_usage_if_def)

lemma consumePlan_nofault:
  "if has_room now s pre (usages t (usage_key_of userID s))
    then \<exists>w. consumePlanInTx now userID s pre (t, []) = (Inr w, (if pre then t
      else put_usage (usage_key_of userID s) (consumed_after now s (usages t (usage_key_of userID s))) t, []))
    else \<exists>d. consumePlanInTx now userID s pre (t, []) = (Inl (PlanLimitExceeded d), (t, []))"
proof (cases "usages t (usage_key_of userID s)")
  case None
  then show ?thesis
    by (auto simp: consumePlanInTx_def Let_def tx_bind_def tx_catch_def has_room_def effective_usage_def
        consumed_after_def opening_end_def)
next
  case (Some u)
  show ?thesis
  proof (cases "0 < cs_WindowSeconds s \<and> us_WindowEndAt u < now")
    case True
    then show ?thesis using Some
      by (auto simp: consumePlanInTx_def consume_existing_def Let_def tx_bind_def tx_catch_def has_room_def
          effective_usage_def consumed_after_def opening_end_def update_usage_if_def)
  next
    case False
    then have "consumePlanInTx now userID s pre (t, []) = accumulate_plan now userID s pre u (t, [])"
      using Some by (auto simp: consumePlanInTx_def consume_existing_def Let_def tx_bind_def)
    then show ?thesis using accumulate_nofault [OF Some, of pre now] Some False
      by (auto simp: has_room_def effective_usage_def consumed_after_def split: if_splits)
  qed
qed

lemma consume_specs_pre_nofault:
  "if \<forall>s \<in> set ss. has_room now s True (usages t (usage_key_of userID s))
    then \<exists>ws. consume_specs now userID ss True (t, []) = (Inr ws, (t, []))
    else \<exists>d. consume_specs now userID ss True (t, []) = (Inl (PlanLimitExceeded d), (t, []))"
proof (induction ss)
  case (Cons s ss)
  then show ?case using consumePlan_nofault [of now s True t userID]
    by (auto simp: tx_bind_def split: if_splits)
qed simp

lemma consume_specs_commit_nofault:
  assumes "distinct (map (usage_key_of userID) ss)"
    and "\<forall>s \<in> set ss. has_room now s False (usages t (usage_key_of userID s))"
  shows "\<exists>ws. consume_specs now userID ss False (t, []) = (Inr ws, (consumed_all now userID ss t, []))"
  using assms
proof (induction ss arbitrary: t)
  case (Cons s ss)
  let ?k = "usage_key_of userID s"
  let ?t = "put_usage ?k (consumed_after now s (usages t ?k)) t"
  obtain w where w: "consumePlanInTx now userID s False (t, []) = (Inr w, (?t, []))"
    using consumePlan_nofault [of now s False t userID] Cons.prems(2) by auto
  have "usages ?t (usage_key_of userID x) = usages t (usage_key_of userID x)" if "x \<in> set ss" for x
  proof -
    have "usage_key_of userID x \<noteq> ?k" using Cons.prems(1) that by (metis distinct.simps(2) image_eqI list.map(2) list.set_map)
    then show ?thesis by simp
  qed
  then have "\<exists>ws. consume_specs now userID ss False (?t, []) = (Inr ws, (consumed_all now userID ss ?t, []))"
    using Cons.prems by (intro Cons.IH) auto
  then show ?case using w by (auto simp: tx_bind_def)
qed simp

lemma verify_nofault: "verifySubStillActive now subID (t, [])
    = (if sub_active now subID t then Inr () else Inl SubInactive, (t, []))"
  by (simp add: verifySubStillActive_def tx_bind_def)

text \<open>A plan counted in money, as \<open>spec_of_plan\<close> builds it.\<close>

definition money_spec :: "consumeSpec \<Rightarrow> bool" where
  "money_spec s \<longleftrightarrow> is_api_cost s \<and> in_i64 (cs_DeltaMicroUSD s)
     \<and> (cs_LimitValueMicroUSD s \<le> 0 \<longrightarrow> \<not> f64_less (Fin 0) (cs_LimitValue s))"

lemma room_pre_commit:
  assumes "money_spec s" and "\<And>u. ou = Some u \<Longrightarrow> in_i64 (us_ConsumedValueMicroUSD u)"
    and "has_room now s True ou"
  shows "has_room now s False ou"
proof (cases "effective_usage now s ou")
  case None
  then show ?thesis using assms(3) by (auto simp: has_room_def exceedsLimitCheck_def split: if_splits)
next
  case (Some u)
  then have "ou = Some u" by (auto simp: effective_usage_def split: option.splits if_splits)
  then have u: "in_i64 (us_ConsumedValueMicroUSD u)" by (rule assms(2))
  show ?thesis
  proof (cases "cs_OverflowStrategy s = ''overdraft''")
    case True
    then show ?thesis using Some by (simp add: has_room_def exceedsLimitCheck_def accumulate_guard_def)
  next
    case False
    then have e: "\<not> exceedsLimit s (us_ConsumedValue u) (us_ConsumedValueMicroUSD u)"
      using assms(3) Some by (simp add: has_room_def exceedsLimitCheck_def)
    then have "accumulate_guard s u" using False assms(1) u
      by (auto simp: accumulate_guard_def exceedsLimit_def money_spec_def CheckedAddInt64_eq split: if_splits)
    then show ?thesis using e False Some by (simp add: has_room_def exceedsLimitCheck_def)
  qed
qed

subsection \<open>Decisions\<close>

lemma atomicConsume_refused:
  "atomicConsumeMany now subID userID ss pre (t, fs) = (r, (t', fs')) \<Longrightarrow>
    (\<forall>ws. r \<noteq> Consumed ws) \<Longrightarrow> t' = t"
  by (auto simp: atomicConsumeMany_def split: if_splits prod.splits sum.splits db_error.splits
      dest: transaction_rollback)

lemma atomicConsume_active:
  "atomicConsumeMany now subID userID ss pre (t, fs) = (Consumed ws, (t', fs')) \<Longrightarrow>
    ss \<noteq> [] \<and> sub_active now subID t"
  by (auto simp: atomicConsumeMany_def consume_body_def transaction_Inr tx_bind_Inr
      split: if_splits prod.splits sum.splits db_error.splits dest!: verify_Inr)

lemma trySharedQuota_cases:
  assumes "trySharedQuota ord now cs req (t, fs) = (d, (t', fs'))"
  shows "(\<not> ed_Allowed d \<and> t' = t)
    \<or> (ed_Allowed d \<and> \<not> ed_NeedsRetry d \<and> \<not> ed_HardBlock d \<and> sub_active now (cd_ID cs) t
       \<and> ed_SubscriptionID d = cd_ID cs
       \<and> (\<exists>specs ws. specs_of_plans ord req (extractPlansFromSnapshot (cd_Snapshot cs)) = Some specs
           \<and> atomicConsumeMany now (cd_ID cs) (cd_UserID cs) specs (rq_IsPrecheck req) (t, fs)
               = (Consumed ws, (t', fs'))))"
    and "\<not> ed_FallbackToBalance d"
  using assms
  by (auto simp: trySharedQuota_def no_decision_def Let_def atomicConsume_active
      split: if_splits option.splits list.splits prod.splits consume_outcome.splits
      dest: atomicConsume_refused)

lemma decide_subs_cases:
  "decide_subs ord now req css l (t, fs) = (r, (t', fs')) \<Longrightarrow>
    (case r of
       Inr l' \<Rightarrow> t' = t
     | Inl d \<Rightarrow> \<not> ed_FallbackToBalance d
         \<and> (\<not> ed_Allowed d \<longrightarrow> t' = t)
         \<and> (ed_Allowed d \<longrightarrow> \<not> ed_NeedsRetry d \<and> \<not> ed_HardBlock d \<and>
             (\<exists>cs \<in> set css. \<exists>fs1 specs ws. cd_ID cs = ed_SubscriptionID d \<and> sub_active now (cd_ID cs) t
               \<and> specs_of_plans ord req (extractPlansFromSnapshot (cd_Snapshot cs)) = Some specs
               \<and> atomicConsumeMany now (cd_ID cs) (cd_UserID cs) specs (rq_IsPrecheck req) (t, fs1)
                   = (Consumed ws, (t', fs')))))"
proof (induction css arbitrary: l fs)
  case (Cons cs css)
  obtain d t1 fs1 where q: "trySharedQuota ord now cs req (t, fs) = (d, (t1, fs1))"
    by (metis prod.collapse)
  note c = trySharedQuota_cases [OF q]
  show ?case
  proof (cases "ed_Allowed d \<or> ed_NeedsRetry d \<or> ed_HardBlock d")
    case True
    show ?thesis
    proof (cases "ed_Allowed d")
      case al: True
      then have r: "r = Inl (d \<lparr> ed_ProductType := productTypeOfCached (cd_Snapshot cs) \<rparr>)"
        "t1 = t'" "fs1 = fs'" using Cons.prems q by auto
      from al c(1) have "\<not> ed_NeedsRetry d" "\<not> ed_HardBlock d" "sub_active now (cd_ID cs) t"
        "cd_ID cs = ed_SubscriptionID d"
        "\<exists>fs1 specs ws. specs_of_plans ord req (extractPlansFromSnapshot (cd_Snapshot cs)) = Some specs
           \<and> atomicConsumeMany now (cd_ID cs) (cd_UserID cs) specs (rq_IsPrecheck req) (t, fs1)
               = (Consumed ws, (t', fs'))" using r(2,3) by auto
      with al c(2) show ?thesis unfolding r(1) by (auto intro!: bexI [of _ cs])
    next
      case na: False
      with True Cons.prems q c show ?thesis by (auto split: if_splits)
    qed
  next
    case False
    then have "t1 = t" using c by blast
    then obtain l' where "decide_subs ord now req css l' (t, fs1) = (r, (t', fs'))"
      using Cons.prems q False by auto
    from Cons.IH [OF this] show ?thesis by (auto split: sum.splits)
  qed
qed auto

text \<open>Only a walk in which every subscription was refused, without an error and without a block,
  comes to its end.\<close>

lemma decide_subs_exhausted:
  "decide_subs ord now req css l (t, fs) = (Inr l', w) \<Longrightarrow>
    \<forall>cs \<in> set css. \<exists>fs1 d w1. trySharedQuota ord now cs req (t, fs1) = (d, w1)
      \<and> \<not> ed_Allowed d \<and> \<not> ed_NeedsRetry d \<and> \<not> ed_HardBlock d"
proof (induction css arbitrary: l fs)
  case (Cons cs css)
  obtain d t1 fs1 where q: "trySharedQuota ord now cs req (t, fs) = (d, (t1, fs1))"
    by (metis prod.collapse)
  have n: "\<not> ed_Allowed d" "\<not> ed_NeedsRetry d" "\<not> ed_HardBlock d"
    using Cons.prems q by (auto split: if_splits)
  then have "t1 = t" using trySharedQuota_cases(1) [OF q] by blast
  with n Cons.prems q obtain l2 where "decide_subs ord now req css l2 (t, fs1) = (Inr l', w)" by auto
  from Cons.IH [OF this] n q show ?case by auto
qed simp

subsection \<open>Properties\<close>

text \<open>C19: Consuming a subscription is all or nothing and never passes a limit: whatever statements
  fail, a commit that reports success found the subscription active and moved every matching
  plan's counter, and nothing else, from its value before to the one the specification gives
  (a fresh or expired window opens with the request, any other grows by it), with every plan
  that does not allow overdraft within its limit; any other outcome leaves the tables as they
  were.\<close>

theorem consume_all_or_nothing:
  assumes "atomicConsumeMany now subID userID ss False (t, fs) = (r, (t', fs'))"
    and "distinct (map (usage_key_of userID) ss)"
  shows "(\<forall>ws. r \<noteq> Consumed ws) \<and> t' = t
    \<or> sub_active now subID t \<and> t' = consumed_all now userID ss t
      \<and> (\<forall>s \<in> set ss. usages t' (usage_key_of userID s)
            = Some (consumed_after now s (usages t (usage_key_of userID s)))
          \<and> (cs_OverflowStrategy s \<noteq> ''overdraft'' \<and> spec_ok s
              \<longrightarrow> within_limit s (the (usages t' (usage_key_of userID s)))))"
proof (cases "\<exists>ws. r = Consumed ws")
  case True
  then have c: "sub_active now subID t" "t' = consumed_all now userID ss t"
    "\<forall>s \<in> set ss. has_room now s False (usages t (usage_key_of userID s))"
    using atomicConsume_commit [OF assms] by auto
  then show ?thesis using consumed_all_at [OF assms(2)] room_within_limit by auto
next
  case False
  then show ?thesis using atomicConsume_refused [OF assms(1)] by blast
qed

definition demo_spec :: consumeSpec where
  "demo_spec = \<lparr> cs_PlanID = 4, cs_Bucket = ''gpt-*'', cs_Delta = Fin 0, cs_DeltaMicroUSD = 250000,
     cs_Unit = ''api_cost_usd'', cs_WindowSeconds = 3600, cs_LimitValue = Fin 1,
     cs_LimitValueMicroUSD = 1000000, cs_OverflowStrategy = ''next_subscription'' \<rparr>"

definition engine_demo :: tables where
  "engine_demo = empty_tables \<lparr> subscriptions := [9 \<mapsto> \<lparr> sub_UserID = 3, sub_PackageID = 1, sub_PackageSnapshot = '''', sub_StartAt = 0,
       sub_EndAt = 1000, sub_CanceledAt = None, sub_ConsumptionOrder = 1, sub_StackIndex = 0,
       sub_Status = ''active'', sub_IsGranted = False, sub_PurchasedUnitPriceUSD = 0, sub_AppliedCouponID = 0 \<rparr>] \<rparr>"

lemma engine_demo_active: "sub_active 5 9 engine_demo"
  by (simp add: sub_active_def engine_demo_def)

lemma demo_spec_simps [simp]: "cs_OverflowStrategy demo_spec = ''next_subscription''" "is_api_cost demo_spec"
  "cs_DeltaMicroUSD demo_spec = 250000" "cs_LimitValueMicroUSD demo_spec = 1000000"
  by (simp_all add: demo_spec_def is_api_cost_def)

lemma demo_has_room: "has_room 5 demo_spec pre (usages engine_demo (usage_key_of 3 demo_spec))"
proof -
  have "CheckedAddInt64 0 250000 = Some 250000" by (simp add: CheckedAddInt64_eq i64_defs)
  then show ?thesis
    by (simp add: has_room_def effective_usage_def engine_demo_def exceedsLimitCheck_def exceedsLimit_def)
qed

lemma demo_consume:
  "\<exists>ws. atomicConsumeMany 5 9 3 [demo_spec] False (engine_demo, [])
      = (Consumed ws, (consumed_all 5 3 [demo_spec] engine_demo, []))"
proof -
  obtain ws where "consume_specs 5 3 [demo_spec] False (engine_demo, [])
      = (Inr ws, (consumed_all 5 3 [demo_spec] engine_demo, []))"
    using consume_specs_commit_nofault [of 3 "[demo_spec]" 5 engine_demo] demo_has_room by auto
  moreover have "sub_active 5 9 (consumed_all 5 3 [demo_spec] engine_demo)"
    using engine_demo_active by (simp only: sub_active_def consumed_all_frame(3))
  ultimately have "consume_body 5 9 3 [demo_spec] False (engine_demo, [])
      = (Inr ws, (consumed_all 5 3 [demo_spec] engine_demo, []))"
    using engine_demo_active
    by (simp del: consume_specs.simps consumed_all.simps
        add: consume_body_def tx_bind_def verify_nofault)
  then show ?thesis by (simp del: consumed_all.simps add: atomicConsumeMany_def transaction_def)
qed

theorem consume_all_or_nothing_witness:
  "within_limit demo_spec (the (usages (consumed_all 5 3 [demo_spec] engine_demo) (usage_key_of 3 demo_spec)))"
proof -
  obtain ws where c: "atomicConsumeMany 5 9 3 [demo_spec] False (engine_demo, [])
      = (Consumed ws, (consumed_all 5 3 [demo_spec] engine_demo, []))" using demo_consume by blast
  have "f64_add (Fin 0) (cs_Delta demo_spec) = cs_Delta demo_spec" by (simp add: demo_spec_def)
  then have "spec_ok demo_spec" by (simp add: spec_ok_def i64_defs)
  then show ?thesis using consume_all_or_nothing [OF c] by simp
qed

text \<open>C20: A request is paid once: if the decision is to charge the balance, no subscription counter
  has moved; if the decision refuses, asks for a retry or is blocked by a plan whose strategy
  is to block, nothing has moved and the balance is not charged either; and a request served
  from a subscription has consumed that one subscription, which was active, and no other. An
  error in loading the subscriptions never falls through to the balance, and neither does an
  error in consuming one or a block: the balance is charged only when every subscription has
  been tried and refused.\<close>

theorem decide_pays_once:
  assumes "Decide ord cfg now loaded req (t, fs) = (d, (t', fs'))"
  shows "(ed_FallbackToBalance d \<longrightarrow> ed_Allowed d \<and> engineFallbackToQuota cfg \<and> t' = t
        \<and> (\<forall>cs \<in> set (the loaded). \<exists>fs1 d1 w1. trySharedQuota ord now cs req (t, fs1) = (d1, w1)
             \<and> \<not> ed_Allowed d1 \<and> \<not> ed_NeedsRetry d1 \<and> \<not> ed_HardBlock d1))
    \<and> (\<not> ed_Allowed d \<longrightarrow> \<not> ed_FallbackToBalance d \<and> t' = t)
    \<and> (ed_NeedsRetry d \<or> ed_HardBlock d \<longrightarrow> \<not> ed_Allowed d)
    \<and> (loaded = None \<longrightarrow> \<not> ed_Allowed d \<and> ed_NeedsRetry d)
    \<and> (ed_Allowed d \<and> \<not> ed_FallbackToBalance d \<longrightarrow>
        (\<exists>cs \<in> set (the loaded). \<exists>fs1 specs ws. cd_ID cs = ed_SubscriptionID d \<and> sub_active now (cd_ID cs) t
          \<and> specs_of_plans ord req (extractPlansFromSnapshot (cd_Snapshot cs)) = Some specs
          \<and> atomicConsumeMany now (cd_ID cs) (cd_UserID cs) specs (rq_IsPrecheck req) (t, fs1)
              = (Consumed ws, (t', fs'))))"
proof (cases loaded)
  case None
  then show ?thesis using assms by (auto simp: Decide_def no_decision_def)
next
  case (Some subs)
  obtain r t1 fs1 where s: "decide_subs ord now req (decide_sort subs) no_decision (t, fs) = (r, (t1, fs1))"
    by (metis prod.collapse)
  note c = decide_subs_cases [OF s]
  show ?thesis
  proof (cases r)
    case (Inl d')
    then have "d' = d" "t1 = t'" "fs1 = fs'" using assms Some s by (auto simp: Decide_def)
    then show ?thesis using c Inl Some by (auto simp: decide_sort_def)
  next
    case (Inr l)
    note x = decide_subs_exhausted [OF s [unfolded Inr]]
    have "set (decide_sort subs) = set subs" by (simp add: decide_sort_def)
    with x have x': "\<forall>cs \<in> set subs. \<exists>fs1 d1 w1. trySharedQuota ord now cs req (t, fs1) = (d1, w1)
      \<and> \<not> ed_Allowed d1 \<and> \<not> ed_NeedsRetry d1 \<and> \<not> ed_HardBlock d1" by simp
    have "ed_FallbackToBalance d \<longrightarrow> ed_Allowed d \<and> engineFallbackToQuota cfg"
      "\<not> ed_NeedsRetry d" "\<not> ed_HardBlock d" "t' = t" "\<not> ed_Allowed d \<longrightarrow> \<not> ed_FallbackToBalance d"
      "ed_Allowed d \<longrightarrow> ed_FallbackToBalance d"
      using c assms [unfolded Some Decide_def option.case s [unfolded Inr]] Inr
      by (auto simp: no_decision_def split: if_splits)
    with x' show ?thesis unfolding Some option.sel by blast
  qed
qed

theorem decide_pays_once_witness:
  "\<exists>d w. Decide id Map.empty 5 (Some [\<lparr> cd_ID = 9, cd_UserID = 3, cd_IsGranted = False,
      cd_ConsumptionOrder = 1, cd_Snapshot = None \<rparr>]) \<lparr> rq_UserID = 3, rq_ModelName = ''gpt-5'', rq_InputTokens = 1,
      rq_OutputTokens = 1, rq_CostMicroUSD = 7, rq_IsPrecheck = False \<rparr> (engine_demo, []) = (d, w)
    \<and> ed_FallbackToBalance d \<and> fst w = engine_demo"
proof -
  have f: "engineFallbackToQuota Map.empty" by code_simp
  then have "\<exists>d w. Decide id Map.empty 5 (Some [\<lparr> cd_ID = 9, cd_UserID = 3, cd_IsGranted = False,
      cd_ConsumptionOrder = 1, cd_Snapshot = None \<rparr>]) \<lparr> rq_UserID = 3, rq_ModelName = ''gpt-5'', rq_InputTokens = 1,
      rq_OutputTokens = 1, rq_CostMicroUSD = 7, rq_IsPrecheck = False \<rparr> (engine_demo, []) = (d, w)
    \<and> ed_FallbackToBalance d"
    by (simp add: Decide_def decide_sort_def trySharedQuota_def extractPlansFromSnapshot_def
        no_decision_def block_plan_set_def)
  then show ?thesis using decide_pays_once by (metis prod.collapse)
qed

text \<open>A check before the request changes nothing, whatever it decides and whatever fails.\<close>

theorem precheck_writes_nothing:
  assumes "rq_IsPrecheck req" and "Decide ord cfg now loaded req (t, fs) = (d, (t', fs'))"
  shows "t' = t"
proof (cases loaded)
  case None
  then show ?thesis using assms by (auto simp: Decide_def)
next
  case (Some subs)
  have "snd r = (t2, fs2) \<Longrightarrow> r = decide_subs ord now req css l (t, gs) \<Longrightarrow> t2 = t" for r t2 fs2 css l gs
  proof (induction css arbitrary: l gs)
    case (Cons cs css)
    obtain d1 t1 fs1 where q: "trySharedQuota ord now cs req (t, gs) = (d1, (t1, fs1))"
      by (metis prod.collapse)
    have "t1 = t" using trySharedQuota_cases(1) [OF q] assms(1) by (auto dest: atomicConsume_pre_frame)
    then show ?case using Cons q by (auto split: if_splits)
  qed simp
  then show ?thesis using assms(2) Some
    by (auto simp: Decide_def split: prod.splits sum.splits if_splits) (metis snd_conv)+
qed

theorem precheck_writes_nothing_witness:
  "fst (snd (Decide id Map.empty 5 (Some []) \<lparr> rq_UserID = 3, rq_ModelName = ''gpt-5'', rq_InputTokens = 1,
      rq_OutputTokens = 1, rq_CostMicroUSD = 7, rq_IsPrecheck = True \<rparr> (engine_demo, [True]))) = engine_demo"
  using precheck_writes_nothing
  by (metis EngineRequest.select_convs(6) prod.collapse)

text \<open>A request that passes the check is served: on the same tables and without database errors,
  if the check of a subscription succeeds, so does the commit of the same consumption, for
  plans counted in money (with and without overdraft) whose counters are distinct.\<close>

theorem checked_request_is_served:
  assumes "atomicConsumeMany now subID userID ss True (t, []) = (Consumed ws, w)"
    and "distinct (map (usage_key_of userID) ss)" and "list_all money_spec ss"
    and "\<forall>k u. usages t k = Some u \<longrightarrow> in_i64 (us_ConsumedValueMicroUSD u)"
  shows "\<exists>ws'. atomicConsumeMany now subID userID ss False (t, [])
    = (Consumed ws', (consumed_all now userID ss t, []))"
proof -
  have act: "ss \<noteq> []" "sub_active now subID t"
    using assms(1) atomicConsume_active by (metis prod.collapse)+
  have "\<forall>s \<in> set ss. has_room now s True (usages t (usage_key_of userID s))"
  proof (rule ccontr)
    assume n: "\<not> ?thesis"
    have "\<exists>e. consume_specs now userID ss True (t, []) = (Inl (PlanLimitExceeded e), (t, []))"
      using consume_specs_pre_nofault [of ss now t userID] unfolding if_not_P [OF n] .
    then show False using assms(1) act
      by (auto simp: atomicConsumeMany_def transaction_def consume_body_def tx_bind_def verify_nofault)
  qed
  then have "\<forall>s \<in> set ss. has_room now s False (usages t (usage_key_of userID s))"
    using assms(3,4) room_pre_commit by (simp only: list_all_iff) blast
  then obtain ws' where "consume_specs now userID ss False (t, []) = (Inr ws', (consumed_all now userID ss t, []))"
    using consume_specs_commit_nofault [OF assms(2)] by blast
  moreover have "sub_active now subID (consumed_all now userID ss t)"
    using act by (simp only: sub_active_def consumed_all_frame(3))
  ultimately have "consume_body now subID userID ss False (t, []) = (Inr ws', (consumed_all now userID ss t, []))"
    using act by (simp add: consume_body_def tx_bind_def verify_nofault)
  then show ?thesis using act by (simp add: atomicConsumeMany_def transaction_def)
qed

theorem checked_request_is_served_witness:
  "\<exists>ws. atomicConsumeMany 5 9 3 [demo_spec] False (engine_demo, [])
    = (Consumed ws, (consumed_all 5 3 [demo_spec] engine_demo, []))"
proof -
  obtain ws where "consume_specs 5 3 [demo_spec] True (engine_demo, []) = (Inr ws, (engine_demo, []))"
    using consume_specs_pre_nofault [of "[demo_spec]" 5 engine_demo 3] demo_has_room by auto
  then have "consume_body 5 9 3 [demo_spec] True (engine_demo, []) = (Inr ws, (engine_demo, []))"
    using engine_demo_active
    by (simp del: consume_specs.simps add: consume_body_def tx_bind_def verify_nofault)
  then have "atomicConsumeMany 5 9 3 [demo_spec] True (engine_demo, []) = (Consumed ws, (engine_demo, []))"
    by (simp add: atomicConsumeMany_def transaction_def)
  from checked_request_is_served [OF this] show ?thesis
    by (simp del: consumed_all.simps add: money_spec_def i64_defs engine_demo_def)
qed

end
