(* ===== verification/SubscriptionCache.thy ===== *)
theory SubscriptionCache
  imports SubscriptionEngine
begin

section \<open>The cache of active subscriptions (\<^verbatim>\<open>proxy/subscription_cache.go\<close>)\<close>

text \<open>
  A cache from users to their active subscriptions, with a time to live and a bound on its
  size. The cache is an association list: a Go map in the order the runtime walks it. \<open>ids\<close> are
  the ids of the subscription rows in the order the database returns equal ones. Concurrent
  misses of one user are merged by the source into one load, which is the step modelled.
\<close>

record userSubsBucket =
  ub_subs :: "cached_subscription list"
  ub_expiresAt :: nanos
  ub_lastUsedNS :: nanos

type_synonym sub_cache = "(nat \<times> userSubsBucket) list"

definition InvalidateUserSubscriptionCache :: "nat \<Rightarrow> sub_cache \<Rightarrow> sub_cache" where
  "InvalidateUserSubscriptionCache userID c = AList.delete userID c"


definition getSubCacheMaxUsers :: "sysconfig \<Rightarrow> int" where
  "getSubCacheMaxUsers cfg =
     (let v = sysConfigValue cfg ''subscription_cache_max_users'' in
      if v = '''' then 50000
      else case ParseInt 64 v of None \<Rightarrow> 50000 | Some n \<Rightarrow> if n < 100 then 50000 else n)"

definition getSubscriptionCacheTTL :: "sysconfig \<Rightarrow> nanos" where
  "getSubscriptionCacheTTL cfg =
     (let v = TrimSpace (sysConfigValue cfg ''subscription_cache_ttl_seconds'') in
      if v = '''' then 30 * 1000000000
      else case ParseInt 64 v of None \<Rightarrow> 30 * 1000000000
           | Some n \<Rightarrow> if n < 1 then 30 * 1000000000 else wrap64 (n * 1000000000))"

text \<open>Expired buckets go first; then the least recently used, down to four fifths.\<close>

definition evictCacheLocked :: "int \<Rightarrow> nanos \<Rightarrow> sub_cache \<Rightarrow> sub_cache" where
  "evictCacheLocked maxUsers now c =
     (let c1 = filter (\<lambda>(k, b). \<not> ub_expiresAt b < now) c in
      if int (length c1) \<le> maxUsers then c1
      else let target = wrap64 (maxUsers * 8) sdiv 10;
               toEvict = nat (int (length c1) - target);
               dead = map fst (take toEvict (sort_key (\<lambda>(k, b). ub_lastUsedNS b) c1))
           in filter (\<lambda>(k, b). k \<notin> set dead) c1)"

text \<open>The decoder reads one value and ignores what follows; only an object gives members.\<close>

definition jsonUnmarshalSafe :: "string \<Rightarrow> json_map" where
  "jsonUnmarshalSafe s = (case parse_value (2 * length s + 2) s of Some (JObj ms, _) \<Rightarrow> ms | _ \<Rightarrow> [])"

definition cache_entry :: "nat \<Rightarrow> user_subscription \<Rightarrow> cached_subscription" where
  "cache_entry i s = \<lparr> cd_ID = i, cd_UserID = sub_UserID s, cd_IsGranted = sub_IsGranted s,
     cd_ConsumptionOrder = sub_ConsumptionOrder s,
     cd_Snapshot = (if sub_PackageSnapshot s = '''' then None
                    else Some (jsonUnmarshalSafe (sub_PackageSnapshot s))) \<rparr>"

definition due_sub :: "nanos \<Rightarrow> nat \<Rightarrow> user_subscription \<Rightarrow> bool" where
  "due_sub now userID s \<longleftrightarrow> sub_UserID s = userID \<and> sub_Status s = ''active''
     \<and> sub_StartAt s \<le> now \<and> now < sub_EndAt s"

definition load_subs :: "nat list \<Rightarrow> nanos \<Rightarrow> nat \<Rightarrow> tables \<Rightarrow> cached_subscription list" where
  "load_subs ids now userID t = sort_key cd_ConsumptionOrder
     (concat (map (\<lambda>i. case subscriptions t i of None \<Rightarrow> []
        | Some s \<Rightarrow> if due_sub now userID s then [cache_entry i s] else []) ids))"

definition GetUserActiveSubscriptions ::
  "sysconfig \<Rightarrow> nat list \<Rightarrow> nanos \<Rightarrow> nat \<Rightarrow> sub_cache \<Rightarrow> (cached_subscription list \<times> sub_cache) tx" where
  "GetUserActiveSubscriptions cfg ids now userID c =
     (let ttl = getSubscriptionCacheTTL cfg;
          load = tx_bind (stmt (\<lambda>t. (load_subs ids now userID t, t))) (\<lambda>subs.
            let c1 = AList.update userID
                  \<lparr> ub_subs = subs, ub_expiresAt = now + ttl, ub_lastUsedNS = now \<rparr> c;
                maxUsers = getSubCacheMaxUsers cfg
            in tx_return (subs, if maxUsers < int (length c1) then evictCacheLocked maxUsers now c1 else c1)) in
      case map_of c userID of
        None \<Rightarrow> load
      | Some b \<Rightarrow>
          if now < ub_expiresAt b
          then tx_return (ub_subs b, AList.update userID (b \<lparr> ub_lastUsedNS := now \<rparr>) c)
          else load)"

text \<open>A request that finds the load of the same user in flight waits for it and then reads only the
  cache, whatever the age of the bucket.\<close>

definition follower_subscriptions ::
  "nanos \<Rightarrow> nat \<Rightarrow> sub_cache \<Rightarrow> (cached_subscription list \<times> sub_cache) option" where
  "follower_subscriptions now userID c = (case map_of c userID of
       None \<Rightarrow> None
     | Some b \<Rightarrow> Some (ub_subs b, AList.update userID (b \<lparr> ub_lastUsedNS := now \<rparr>) c))"

subsection \<open>Invariant\<close>

definition bucket_ok :: "nanos \<Rightarrow> nat \<Rightarrow> userSubsBucket \<Rightarrow> bool" where
  "bucket_ok now userID b \<longleftrightarrow> sorted (map cd_ConsumptionOrder (ub_subs b))
     \<and> (\<forall>cs \<in> set (ub_subs b). cd_UserID cs = userID) \<and> ub_lastUsedNS b \<le> now"

definition cache_ok :: "sysconfig \<Rightarrow> nanos \<Rightarrow> sub_cache \<Rightarrow> bool" where
  "cache_ok cfg now c \<longleftrightarrow> distinct (map fst c) \<and> int (length c) \<le> getSubCacheMaxUsers cfg
     \<and> (\<forall>(k, b) \<in> set c. bucket_ok now k b)"










lemma GetUserActive_cases:
  assumes "GetUserActiveSubscriptions cfg ids now userID c (t, fs) = (Inr (subs, c'), (t', fs'))"
  obtains (hit) b where "map_of c userID = Some b" "now < ub_expiresAt b" "subs = ub_subs b" "t' = t"
      "c' = AList.update userID (b \<lparr> ub_lastUsedNS := now \<rparr>) c"
  | (load) "\<forall>b. map_of c userID = Some b \<longrightarrow> \<not> now < ub_expiresAt b" "t' = t"
      "subs = load_subs ids now userID t"
      "c' = (let c1 = AList.update userID \<lparr> ub_subs = load_subs ids now userID t,
                ub_expiresAt = now + getSubscriptionCacheTTL cfg, ub_lastUsedNS = now \<rparr> c
             in if getSubCacheMaxUsers cfg < int (length c1)
                then evictCacheLocked (getSubCacheMaxUsers cfg) now c1 else c1)"
  using assms
  by (auto simp: GetUserActiveSubscriptions_def Let_def tx_bind_Inr stmt_Inr split: option.splits if_splits)

subsection \<open>The cache over time\<close>

text \<open>
  The life of the cache: time passes and the database changes in any way, requests look up the
  subscriptions of users or read what a leader loaded, and users are invalidated or the cache is
  flushed. Beside the cache the machine keeps the history of the successful look-ups, each with
  its time, the order of the rows and the database it saw; an invalidation forgets the look-ups
  of its user. A load and the storing of its result are one step, so an invalidation that falls
  between the two, which the code allows, is not covered.
\<close>

type_synonym moment = "nat \<times> nanos \<times> nat list \<times> tables"


text \<open>A bucket holds what a remembered look-up loaded, and expires a time to live after it.\<close>

definition loaded_at :: "sysconfig \<Rightarrow> nanos \<Rightarrow> nat \<Rightarrow> moment list \<Rightarrow> userSubsBucket \<Rightarrow> bool" where
  "loaded_at cfg now uid H b \<longleftrightarrow> (\<exists>L ids t. (uid, L, ids, t) \<in> set H \<and> L \<le> now
     \<and> ub_expiresAt b = L + getSubscriptionCacheTTL cfg \<and> ub_subs b = load_subs ids L uid t)"



lemma cache_ok_distinct: "cache_ok cfg now c \<Longrightarrow> distinct (map fst c)"
  by (simp add: cache_ok_def)





lemma loaded_at_used [simp]: "loaded_at cfg now uid H (b \<lparr> ub_lastUsedNS := n \<rparr>) = loaded_at cfg now uid H b"
  by (simp add: loaded_at_def)





subsection \<open>Properties\<close>





text \<open>A request that waited for the load of another one reads the cache whatever the age of the
  bucket. The code takes it that a failed load leaves nothing there and that the waiting request
  then fails too; but an expired bucket is only replaced by a successful load, so after a failed
  one the expired subscriptions are served.\<close>

theorem follower_serves_expired:
  assumes "map_of c uid = Some b" and "ub_expiresAt b \<le> now"
  shows "GetUserActiveSubscriptions cfg ids now uid c (t, [True]) = (Inl DbError, (t, []))
    \<and> (\<exists>c'. follower_subscriptions now uid c = Some (ub_subs b, c'))"
  using assms by (simp add: GetUserActiveSubscriptions_def follower_subscriptions_def Let_def tx_bind_def stmt_def)

text \<open>After an invalidation the next lookup reads the database: whatever was cached, the
  subscriptions returned are those active now, so a cancelled or refunded subscription is not
  served from the cache any more.\<close>

theorem invalidate_forces_reload:
  assumes "GetUserActiveSubscriptions cfg ids now userID (InvalidateUserSubscriptionCache userID c) (t, fs)
      = (Inr (subs, c'), w)"
  shows "subs = load_subs ids now userID t"
proof -
  obtain t' fs' where w: "w = (t', fs')" by (cases w)
  from assms [unfolded w] show ?thesis
    by (cases rule: GetUserActive_cases)
      (auto simp: InvalidateUserSubscriptionCache_def delete_conv')
qed

theorem invalidate_forces_reload_witness:
  "\<forall>s. \<exists>c' w. GetUserActiveSubscriptions Map.empty [9] 2000 3 (InvalidateUserSubscriptionCache 3
      [(3, \<lparr> ub_subs = [cache_entry 9 s], ub_expiresAt = 9000, ub_lastUsedNS = 1 \<rparr>)]) (engine_demo, [])
    = (Inr ([], c'), w)"
proof
  fix s
  obtain subs c' w where g: "GetUserActiveSubscriptions Map.empty [9] 2000 3 (InvalidateUserSubscriptionCache 3
      [(3, \<lparr> ub_subs = [cache_entry 9 s], ub_expiresAt = 9000, ub_lastUsedNS = 1 \<rparr>)]) (engine_demo, [])
    = (Inr (subs, c'), w)"
    by (simp add: GetUserActiveSubscriptions_def Let_def tx_bind_def InvalidateUserSubscriptionCache_def)
  have "load_subs [9] 2000 3 engine_demo = []"
    by (simp add: load_subs_def engine_demo_def due_sub_def)
  then show "\<exists>c' w. GetUserActiveSubscriptions Map.empty [9] 2000 3 (InvalidateUserSubscriptionCache 3
      [(3, \<lparr> ub_subs = [cache_entry 9 s], ub_expiresAt = 9000, ub_lastUsedNS = 1 \<rparr>)]) (engine_demo, [])
    = (Inr ([], c'), w)"
    using invalidate_forces_reload [OF g] g by auto
qed

end
