(* ===== verification/GoJsonPrint.thy ===== *)
theory GoJsonPrint
  imports GoJson
begin

section \<open>Go JSON encoding\<close>

text \<open>
  \<^verbatim>\<open>json.Marshal\<close> as the snapshots of packages use it: floats in the shortest decimal form that
  reads back as the same float, strings with the escapes of the standard encoder, objects in the
  order of the fields. What the encoder writes, the decoder of \<^theory_text>\<open>GoJson\<close> reads back.
\<close>

subsection \<open>Near a float\<close>

lemma round_he_unique: "\<bar>q - of_int n\<bar> < 1 / 2 \<Longrightarrow> round_he q = n"
proof -
  assume n: "\<bar>q - of_int n\<bar> < 1 / 2"
  have "\<bar>of_int (round_he q) - q\<bar> \<le> 1 / 2" by (rule round_he_error)
  with n have "\<bar>of_int (round_he q - n) :: rat\<bar> < 1" by (simp only: of_int_diff)
  then show ?thesis by linarith
qed

definition is_f64 :: "rat \<Rightarrow> bool" where
  "is_f64 x \<longleftrightarrow> (\<exists>m. x = of_int m * 2 powi ulp_exp x) \<and> \<bar>x\<bar> < 2 powi 1024"

lemma is_f64_fixed: "fl q = Fin q \<Longrightarrow> is_f64 q"
proof -
  assume f: "fl q = Fin q"
  show ?thesis
  proof (cases "q = 0")
    case False
    then have "of_int (round_he (q / 2 powi ulp_exp q)) * 2 powi ulp_exp q = q" "\<not> 2 powi 1024 \<le> q" "\<not> q \<le> - (2 powi 1024)"
      using f by (simp_all add: fl_def Let_def split: if_splits)
    then show ?thesis unfolding is_f64_def by (metis abs_less_iff minus_less_iff not_le)
  qed (auto simp: is_f64_def)
qed

lemma is_f64_of_int: "\<bar>n\<bar> \<le> 2 ^ 53 \<Longrightarrow> is_f64 (of_int n)"
  by (rule is_f64_fixed, rule fl_of_int)

lemma fl_grid:
  assumes "q \<noteq> 0" and "x = of_int m * 2 powi ulp_exp q" and "\<bar>q - x\<bar> < 2 powi ulp_exp q / 2"
    and "\<bar>x\<bar> < 2 powi 1024"
  shows "fl q = Fin x"
proof -
  let ?s = "2 powi ulp_exp q :: rat"
  have "\<bar>q / ?s - of_int m\<bar> = \<bar>q - x\<bar> / ?s" using assms(2) by (simp add: diff_divide_distrib [symmetric] abs_divide field_simps)
  also have "\<dots> < 1 / 2" using assms(3) by (simp add: divide_less_eq)
  finally have r: "round_he (q / ?s) = m" by (rule round_he_unique)
  have "\<not> 2 powi 1024 \<le> x" "\<not> x \<le> - (2 powi 1024)" using assms(4) by linarith+
  then show ?thesis using assms(1) r by (simp add: fl_def Let_def assms(2) [symmetric])
qed

lemma powi_minus: "(2 powi (a - b) :: rat) * 2 powi b = 2 powi a"
  using powi_add_nz [of "a - b" b] by simp

lemma powi_grid: "s \<le> a \<Longrightarrow> (2 powi a :: rat) = of_int (2 ^ nat (a - s)) * 2 powi s"
  using powi_add_nz [of "a - s" s] by (simp add: power_int_def)

lemma below_next:
  fixes x :: rat
  assumes "x = of_int m * 2 powi s" and "x < 2 powi a" and "s \<le> a"
  shows "x \<le> 2 powi a - 2 powi s"
proof -
  have "of_int m * 2 powi s < of_int (2 ^ nat (a - s)) * (2 powi s :: rat)"
    using assms powi_grid by metis
  then have "m < 2 ^ nat (a - s)" by (simp only: mult_less_cancel_right_pos [OF powi_pos] of_int_less_iff)
  then have "of_int (m + 1) * 2 powi s \<le> of_int (2 ^ nat (a - s)) * (2 powi s :: rat)"
    by (simp only: mult_le_cancel_right_pos [OF powi_pos] of_int_le_iff)
  then show ?thesis using assms(1) powi_grid [OF assms(3)] by (simp add: distrib_right)
qed

text \<open>What is closer to a float than half of its last digit, measured from below, rounds to it.\<close>

lemma fl_near:
  assumes f: "is_f64 x" and x: "0 < x" and n: "\<bar>q - x\<bar> < x * 2 powi (- 54)"
  shows "fl q = Fin x"
proof -
  define e where "e = ilog2 x"
  define s where "s = ulp_exp x"
  have s: "s = max (e - 52) (- 1074)" using x by (simp add: s_def ulp_exp_def e_def)
  note b = ilog2_bounds [OF x, folded e_def]
  obtain m where m: "x = of_int m * 2 powi s" and lim: "\<bar>x\<bar> < 2 powi 1024" using f by (auto simp: is_f64_def s_def)
  have "0 < m" using x m by (simp add: zero_less_mult_iff) (metis not_less_iff_gr_or_eq powi_pos)
  then have "1 * 2 powi s \<le> of_int m * (2 powi s :: rat)"
    by (intro mult_right_mono) auto
  then have "2 powi s < (2 powi (e + 1) :: rat)" using b(2) m by linarith
  then have se: "s \<le> e" using powi_less_imp by fastforce
  have half: "(2 powi (a - 1) :: rat) = 2 powi a / 2" for a using powi_minus [of a 1] by simp
  have "x * 2 powi (- 54) < 2 powi (e + 1) * 2 powi (- 54)" using b(2) by simp
  also have "\<dots> = (2 powi (e - 53) :: rat)" using powi_add_nz [of "e + 1" "- 54"] by (simp add: algebra_simps)
  also have "\<dots> \<le> 2 powi (s - 1)" by (rule powi_mono) (simp add: s)
  finally have d: "\<bar>q - x\<bar> < 2 powi s / 2" using n half [of s] by linarith
  have p: "(0 :: rat) < 2 powi s" by simp
  have up: "q < 2 powi (e + 1)" using below_next [OF m b(2)] se d p by linarith
  show ?thesis
  proof (cases "2 powi e \<le> q")
    case True
    have "0 < q" using True powi_pos [of e] by linarith
    moreover have "ilog2 q = e" by (rule ilog2_unique [OF True up])
    ultimately have "ulp_exp q = s" by (simp add: ulp_exp_def s)
    then show ?thesis using fl_grid [of q x m] \<open>0 < q\<close> m d lim by simp
  next
    case False
    have xe: "x = 2 powi e"
    proof (rule ccontr)
      assume "x \<noteq> 2 powi e"
      then have "2 powi e < x" using b(1) by simp
      then have "- x < - (2 powi e)" by simp
      then have "of_int (2 ^ nat (e - s)) * 2 powi s < of_int m * (2 powi s :: rat)" using m powi_grid [OF se] by simp
      then have "2 ^ nat (e - s) < m" by (simp only: mult_less_cancel_right_pos [OF powi_pos] of_int_less_iff)
      then have "of_int (2 ^ nat (e - s) + 1) * 2 powi s \<le> of_int m * (2 powi s :: rat)"
        by (simp only: mult_le_cancel_right_pos [OF powi_pos] of_int_le_iff)
      then have "2 powi e + 2 powi s \<le> x" using m powi_grid [OF se] by (simp add: distrib_right)
      then show False using False d p by linarith
    qed
    have "2 powi (- 54) \<le> (2 powi (- 1) :: rat)" by (rule powi_mono) simp
    then have "x * 2 powi (- 54) \<le> x * (1 / 2)" using x by (intro mult_left_mono) simp_all
    then have "x / 2 < q" using n by linarith
    then have lo: "2 powi (e - 1) \<le> q" using half [of e] xe by simp
    then have "0 < q" using powi_pos [of "e - 1"] by linarith
    have "ilog2 q = e - 1" by (rule ilog2_unique [OF lo]) (use False in simp)
    then have t: "ulp_exp q = max (e - 53) (- 1074)" using \<open>0 < q\<close> by (simp add: ulp_exp_def)
    let ?t = "max (e - 53) (- 1074)"
    have "?t \<le> e" using se s by linarith
    then have g: "x = of_int (2 ^ nat (e - ?t)) * 2 powi ?t" using powi_grid xe by blast
    have "x * 2 powi (- 54) = (2 powi (e - 54) :: rat)" using powi_add_nz [of e "- 54"] xe by simp
    also have "\<dots> \<le> 2 powi (?t - 1)" by (rule powi_mono) simp
    finally have "\<bar>q - x\<bar> < 2 powi ?t / 2" using n half [of ?t] by linarith
    then show ?thesis using fl_grid [of q x "2 ^ nat (e - ?t)"] \<open>0 < q\<close> g t lim by simp
  qed
qed

subsection \<open>The shortest decimal form\<close>

text \<open>The decimal exponent of a positive rational, and the shortest digits that read back as a float:
  for each number of digits the nearest decimal if it does, else the one on the other side of
  the float. Seventeen digits are always enough.\<close>

definition ilog10 :: "rat \<Rightarrow> int" where
  "ilog10 q = (case quotient_of q of (n, d) \<Rightarrow>
     let k = int (length (show_nat (nat n))) - int (length (show_nat (nat d))) in
     if 10 powi k \<le> q then k else k - 1)"

definition reads_back :: "rat \<Rightarrow> int \<Rightarrow> int \<Rightarrow> bool" where
  "reads_back x d k \<longleftrightarrow> fl (of_int d * 10 powi k) = Fin x"

definition decimal_of :: "rat \<Rightarrow> nat \<Rightarrow> (int \<times> int) option" where
  "decimal_of x n =
     (let k = ilog10 x + 1 - int n; y = x / 10 powi k; near = round_he y;
          other = (if near = \<lfloor>y\<rfloor> then near + 1 else \<lfloor>y\<rfloor>) in
      if reads_back x near k then Some (near, k)
      else if reads_back x other k then Some (other, k) else None)"

definition shortest :: "rat \<Rightarrow> (int \<times> int) option" where
  "shortest x = (case find (\<lambda>n. decimal_of x n \<noteq> None) [1..<18] of None \<Rightarrow> None
     | Some n \<Rightarrow> map_option (\<lambda>(d, k). if d = 10 then (1, k + 1) else (d, k)) (decimal_of x n))"

lemma powi10_add: "(10 powi (a + b) :: rat) = 10 powi a * 10 powi b"
  by (simp add: power_int_add)

lemma powi10_pos [simp]: "0 < (10 powi a :: rat)"
  by (rule zero_less_power_int) auto

lemma show_nat_bounds: "0 < n \<Longrightarrow> 10 ^ (length (show_nat n) - 1) \<le> n \<and> n < 10 ^ length (show_nat n)"
proof (induction n rule: show_nat.induct)
  case (1 n)
  show ?case
  proof (cases "n < 10")
    case True
    then have "show_nat n = [digit_char n]" using show_nat.simps [of n] by simp
    then show ?thesis using True 1 by simp
  next
    case False
    define l where "l = length (show_nat (n div 10))"
    have l: "0 < l" by (simp add: l_def)
    have e: "length (show_nat n) = Suc l" using show_nat.simps [of n] False by (simp add: l_def)
    have b: "10 ^ (l - 1) \<le> n div 10" "n div 10 < 10 ^ l" using "1.IH" False by (simp_all add: l_def)
    have p: "10 ^ l = 10 * (10 :: nat) ^ (l - 1)" using l by (cases l) simp_all
    have "10 ^ l \<le> n" using b(1) p by linarith
    moreover have "n < 10 ^ Suc l" using b(2) by simp
    ultimately show ?thesis unfolding e diff_Suc_1 by (rule conjI)
  qed
qed

lemma ilog10_bounds:
  assumes "0 < q"
  shows "10 powi ilog10 q \<le> q" and "q < 10 powi (ilog10 q + 1)"
proof -
  obtain n d where nd: "quotient_of q = (n, d)" by (cases "quotient_of q")
  have d: "0 < d" using nd by (rule quotient_of_denom_pos)
  have q: "q = of_int n / of_int d" using nd by (rule quotient_of_div)
  have n: "0 < n" using assms d q by (simp add: zero_less_divide_iff)
  have b: "10 powi (int (length (show_nat (nat m))) - 1) \<le> (of_int m :: rat)
      \<and> of_int m < (10 powi (int (length (show_nat (nat m)))) :: rat)" if m: "0 < m" for m
  proof -
    define l where "l = length (show_nat (nat m))"
    have "0 < l" by (simp add: l_def)
    have "10 ^ (l - 1) \<le> nat m" "nat m < 10 ^ l" using show_nat_bounds [of "nat m"] m by (simp_all add: l_def)
    then have "int (10 ^ (l - 1)) \<le> m" "m < int (10 ^ l)" using m by linarith+
    then have "of_int (int (10 ^ (l - 1))) \<le> (of_int m :: rat)" "of_int m < (of_int (int (10 ^ l)) :: rat)"
      by (simp_all only: of_int_le_iff of_int_less_iff)
    moreover have i: "int l - 1 = int (l - 1)" using \<open>0 < l\<close> by simp
    ultimately show ?thesis unfolding l_def [symmetric] i power_int_of_nat by simp
  qed
  define k where "k = int (length (show_nat (nat n))) - int (length (show_nat (nat d)))"
  have up: "q < 10 powi (k + 1)"
  proof -
    have "of_int n < (10 powi (int (length (show_nat (nat n)))) :: rat)" using b [OF n] by simp
    also have "\<dots> = 10 powi (k + 1) * 10 powi (int (length (show_nat (nat d))) - 1)"
      unfolding powi10_add [symmetric] by (simp add: k_def)
    also have "\<dots> \<le> 10 powi (k + 1) * of_int d" using b [OF d] by simp
    finally show ?thesis using d by (simp add: q divide_less_eq)
  qed
  have lo: "10 powi (k - 1) \<le> q"
  proof -
    have "10 powi (k - 1) * of_int d \<le> 10 powi (k - 1) * (10 powi (int (length (show_nat (nat d)))) :: rat)"
      using b [OF d] by simp
    also have "\<dots> = 10 powi (int (length (show_nat (nat n))) - 1)" unfolding powi10_add [symmetric] by (simp add: k_def)
    also have "\<dots> \<le> of_int n" using b [OF n] by simp
    finally show ?thesis using d by (simp add: q le_divide_eq)
  qed
  have il: "ilog10 q = (if 10 powi k \<le> q then k else k - 1)" by (simp add: ilog10_def nd k_def Let_def)
  show "10 powi ilog10 q \<le> q" using lo by (simp add: il)
  show "q < 10 powi (ilog10 q + 1)" using up by (auto simp: il)
qed

lemma decimal_of_reads: "decimal_of x n = Some (d, k) \<Longrightarrow> reads_back x d k"
  by (auto simp: decimal_of_def Let_def split: if_splits)

lemma decimal_17:
  assumes f: "is_f64 x" and x: "0 < x"
  shows "decimal_of x 17 \<noteq> None"
proof -
  define k where "k = ilog10 x - 16"
  let ?s = "10 powi k :: rat"
  have s: "0 < ?s" by simp
  have "?s * 10 ^ 16 = 10 powi ilog10 x" using powi10_add [of k 16] by (simp add: k_def power_int_def)
  then have le: "?s * 10 ^ 16 \<le> x" using ilog10_bounds(1) [OF x] by simp
  have "\<bar>of_int (round_he (x / ?s)) - x / ?s\<bar> \<le> 1 / 2" by (rule round_he_error)
  then have "\<bar>of_int (round_he (x / ?s)) - x / ?s\<bar> * ?s \<le> 1 / 2 * ?s" by (rule mult_right_mono) simp
  moreover have "\<bar>of_int (round_he (x / ?s)) - x / ?s\<bar> * ?s = \<bar>(of_int (round_he (x / ?s)) - x / ?s) * ?s\<bar>"
    using s by (simp add: abs_mult)
  ultimately have "\<bar>of_int (round_he (x / ?s)) * ?s - x\<bar> \<le> ?s / 2" using s by (simp add: left_diff_distrib)
  also have "?s / 2 < x * 2 powi (- 54)"
  proof -
    have "?s * 2 ^ 53 < ?s * 10 ^ 16" using s by simp
    then have "?s * 2 ^ 53 < x" using le by linarith
    then show ?thesis by (simp add: power_int_def power_numeral_reduce field_simps)
  qed
  finally have "reads_back x (round_he (x / ?s)) k" unfolding reads_back_def by (rule fl_near [OF f x])
  then show ?thesis by (simp add: decimal_of_def k_def Let_def)
qed

lemma shortest_reads:
  assumes "is_f64 x" and "0 < x"
  obtains d k where "shortest x = Some (d, k)" and "reads_back x d k"
proof -
  have "find (\<lambda>n. decimal_of x n \<noteq> None) [1..<18] \<noteq> None"
  proof -
    have "17 \<in> set [1..<18]" by simp
    then show ?thesis unfolding find_None_iff using decimal_17 [OF assms] by blast
  qed
  then obtain n where n: "find (\<lambda>n. decimal_of x n \<noteq> None) [1..<18] = Some n" by blast
  then have "decimal_of x n \<noteq> None" by (auto simp: find_Some_iff)
  then obtain d k where m: "decimal_of x n = Some (d, k)" by auto
  then have rb: "reads_back x d k" by (rule decimal_of_reads)
  show thesis
  proof (cases "d = 10")
    case True
    have "reads_back x 1 (k + 1)" using rb powi10_add [of k 1] True by (simp add: reads_back_def mult.commute)
    then show thesis using that m n True by (simp add: shortest_def)
  qed (use rb m n that in \<open>simp add: shortest_def\<close>)
qed

subsection \<open>Number literals\<close>

definition number_text :: "string \<Rightarrow> string \<Rightarrow> string \<Rightarrow> (string \<times> string) option \<Rightarrow> string" where
  "number_text sg ip fp ex = sg @ ip @ (if fp = [] then [] else CHR ''.'' # fp)
     @ (case ex of None \<Rightarrow> [] | Some (es, ed) \<Rightarrow> CHR ''e'' # es @ ed)"

definition text_ok :: "string \<Rightarrow> string \<Rightarrow> string \<Rightarrow> (string \<times> string) option \<Rightarrow> bool" where
  "text_ok sg ip fp ex \<longleftrightarrow> sg \<in> {'''', ''-''} \<and> (ip = ''0'' \<or> ip \<noteq> [] \<and> list_all is_digit ip \<and> hd ip \<noteq> CHR ''0'')
     \<and> list_all is_digit fp
     \<and> (case ex of None \<Rightarrow> True | Some (es, ed) \<Rightarrow> es \<in> {''-'', ''+''} \<and> ed \<noteq> [] \<and> list_all is_digit ed)"

text \<open>What may follow a literal: not a character that would continue it.\<close>

definition ends_number :: "string \<Rightarrow> bool" where
  "ends_number s \<longleftrightarrow> s = [] \<or> \<not> is_digit (hd s) \<and> hd s \<notin> {CHR ''.'', CHR ''e'', CHR ''E''}"

lemma span_digits_append:
  "list_all is_digit ds \<Longrightarrow> s = [] \<or> \<not> is_digit (hd s) \<Longrightarrow> span_digits (ds @ s) = (ds, s)"
proof -
  assume ds: "list_all is_digit ds" and s: "s = [] \<or> \<not> is_digit (hd s)"
  have "takeWhile is_digit s = []" "dropWhile is_digit s = s" using s by (cases s; simp)+
  then show ?thesis using ds
    by (simp add: span_digits_def list_all_iff takeWhile_append dropWhile_append)
qed

lemma not_digits [simp]: "\<not> is_digit (CHR ''.'')" "\<not> is_digit (CHR ''e'')" "\<not> is_digit (CHR ''E'')" "is_digit (CHR ''0'')"
  "\<not> is_digit (CHR ''-'')" "\<not> is_digit (CHR ''+'')"
  by (simp_all add: is_digit_def)

definition exp_value :: "(string \<times> string) option \<Rightarrow> string" where
  "exp_value ex = (case ex of None \<Rightarrow> '''' | Some (es, ed) \<Rightarrow> (if es = ''-'' then ''-'' else '''') @ ed)"

text \<open>The three parts one after the other: the integer, the fraction, the exponent.\<close>

definition exp_parts :: "string \<Rightarrow> string \<Rightarrow> string \<Rightarrow> (string \<times> string \<times> string \<times> string) option" where
  "exp_parts pre fp s3 = (if prefix ''e'' s3 \<or> prefix ''E'' s3
     then let es = (if prefix ''-'' (tl s3) then ''-'' else '''');
              s4 = (if prefix ''-'' (tl s3) \<or> prefix ''+'' (tl s3) then tl (tl s3) else tl s3);
              (ed, s5) = span_digits s4
          in if ed = '''' then None else Some (pre, fp, es @ ed, s5)
     else Some (pre, fp, '''', s3))"

definition frac_parts :: "string \<Rightarrow> string \<Rightarrow> (string \<times> string \<times> string \<times> string) option" where
  "frac_parts pre s2 = (if prefix ''.'' s2 \<and> fst (span_digits (tl s2)) = '''' then None
     else let (fp, s3) = (if prefix ''.'' s2 then span_digits (tl s2) else ('''', s2)) in exp_parts pre fp s3)"

lemma number_parts_frac:
  "number_parts s = (let (sg, s1) = (if prefix ''-'' s then (''-'', tl s) else ('''', s));
     (ip, s2) = (if prefix ''0'' s1 then (''0'', tl s1) else span_digits s1)
     in if ip = '''' then None else frac_parts (sg @ ip) s2)"
  unfolding number_parts_def frac_parts_def exp_parts_def ..

lemma frac_parts_text:
  assumes "list_all is_digit fp"
    and "case ex of None \<Rightarrow> True | Some (es, ed) \<Rightarrow> es \<in> {''-'', ''+''} \<and> ed \<noteq> [] \<and> list_all is_digit ed"
    and "ends_number r"
  shows "frac_parts pre ((if fp = [] then [] else CHR ''.'' # fp)
     @ (case ex of None \<Rightarrow> [] | Some (es, ed) \<Rightarrow> CHR ''e'' # es @ ed) @ r) = Some (pre, fp, exp_value ex, r)"
proof -
  let ?e = "(case ex of None \<Rightarrow> [] | Some (es, ed) \<Rightarrow> CHR ''e'' # es @ ed) @ r"
  have r: "r = [] \<or> \<not> is_digit (hd r)" "\<not> prefix ''.'' r" "\<not> prefix ''e'' r" "\<not> prefix ''E'' r"
    using assms(3) by (cases r; auto simp: ends_number_def)+
  have nd: "?e = [] \<or> \<not> is_digit (hd ?e)" "\<not> prefix ''.'' ?e" using r by (auto split: option.split)
  have sp: "span_digits (fp @ ?e) = (fp, ?e)" by (rule span_digits_append [OF assms(1) nd(1)])
  have tail: "exp_parts pre fp ?e = Some (pre, fp, exp_value ex, r)"
  proof (cases ex)
    case None
    then show ?thesis using r by (simp add: exp_parts_def exp_value_def)
  next
    case (Some x)
    obtain es ed where x: "x = (es, ed)" by (cases x)
    have ed: "ed \<noteq> []" "list_all is_digit ed" and es: "es = ''-'' \<or> es = ''+''" using assms(2) Some x by auto
    have "span_digits (ed @ r) = (ed, r)" by (rule span_digits_append [OF ed(2) r(1)])
    then show ?thesis using es ed by (auto simp: exp_parts_def Some x exp_value_def Let_def)
  qed
  show ?thesis
  proof (cases "fp = []")
    case True
    then show ?thesis using nd(2) tail unfolding frac_parts_def by (simp only: if_True append_Nil if_False simp_thms Let_def prod.case)
  next
    case False
    then show ?thesis using sp tail unfolding frac_parts_def by simp
  qed
qed

lemma number_parts_text:
  assumes t: "text_ok sg ip fp ex" and r: "ends_number r"
  shows "number_parts (number_text sg ip fp ex @ r) = Some (sg @ ip, fp, exp_value ex, r)"
proof -
  define u where "u = (if fp = [] then [] else CHR ''.'' # fp)
     @ (case ex of None \<Rightarrow> [] | Some (es, ed) \<Rightarrow> CHR ''e'' # es @ ed) @ r"
  have s: "number_text sg ip fp ex @ r = sg @ ip @ u" by (simp add: number_text_def u_def)
  have f: "frac_parts pre u = Some (pre, fp, exp_value ex, r)" for pre
    unfolding u_def using t r by (intro frac_parts_text) (auto simp: text_ok_def)
  have nd: "u = [] \<or> \<not> is_digit (hd u)" using r by (auto simp: u_def ends_number_def split: option.split)
  have sg: "sg = '''' \<or> sg = ''-''" and ip: "ip = ''0'' \<or> ip \<noteq> [] \<and> list_all is_digit ip \<and> hd ip \<noteq> CHR ''0''"
    using t by (auto simp: text_ok_def)
  have ne: "ip \<noteq> []" "\<not> prefix ''-'' (ip @ u)" using ip by (auto, cases ip, auto)
  have "(if prefix ''0'' (ip @ u) then (''0'', tl (ip @ u)) else span_digits (ip @ u)) = (ip, u)"
  proof (cases "ip = ''0''")
    case False
    then have "list_all is_digit ip" "\<not> prefix ''0'' (ip @ u)" using ip by (auto, cases ip, auto)
    then show ?thesis using span_digits_append [OF _ nd] by simp
  qed simp
  with sg ne f show ?thesis by (auto simp: s number_parts_frac)
qed

subsection \<open>Floats\<close>

text \<open>The positional form, and the form with an exponent outside of \<open>1e-6\<close> to \<open>1e21\<close>.\<close>

definition fixed_parts :: "string \<Rightarrow> int \<Rightarrow> string \<times> string" where
  "fixed_parts digs k = (let n = int (length digs); dp = n + k in
     if dp \<le> 0 then (''0'', replicate (nat (- dp)) (CHR ''0'') @ digs)
     else if dp < n then (take (nat dp) digs, drop (nat dp) digs)
     else (digs @ replicate (nat k) (CHR ''0''), ''''))"

definition show_decimal :: "string \<Rightarrow> bool \<Rightarrow> int \<Rightarrow> int \<Rightarrow> string" where
  "show_decimal sg scientific d k = (let digs = show_nat (nat d) in
     if scientific
     then let x = int (length digs) - 1 + k in
       number_text sg [hd digs] (tl digs) (Some (if x < 0 then ''-'' else ''+'', show_nat (nat \<bar>x\<bar>)))
     else case fixed_parts digs k of (ip, fp) \<Rightarrow> number_text sg ip fp None)"

definition show_f64 :: "f64 \<Rightarrow> string option" where
  "show_f64 f = (case f of
     Fin x \<Rightarrow> if x = 0 then Some ''0''
       else map_option (\<lambda>(d, k). show_decimal (if x < 0 then ''-'' else '''')
              (f64_less (Fin \<bar>x\<bar>) (fl (1 / 1000000)) \<or> 1000000000000000000000 \<le> \<bar>x\<bar>) d k) (shortest \<bar>x\<bar>)
   | _ \<Rightarrow> None)"

lemma hd_show_nat: "0 < n \<Longrightarrow> hd (show_nat n) \<noteq> CHR ''0''"
proof (induction n rule: show_nat.induct)
  case (1 n)
  show ?case
  proof (cases "n < 10")
    case True
    then have "show_nat n = [digit_char n]" using show_nat.simps [of n] by simp
    moreover have "byte (digit_char n) \<noteq> byte (CHR ''0'')" using 1 True by (simp add: byte_digit_char)
    ultimately show ?thesis by auto
  next
    case False
    then show ?thesis using "1.IH" show_nat.simps [of n] by (simp add: hd_append)
  qed
qed

lemma number_rat_text:
  assumes "text_ok sg ip fp ex"
  shows "number_rat (number_text sg ip fp ex) = (if sg = ''-'' then -1 else 1) * of_nat (digits_val (ip @ fp))
    * 10 powi ((case ex of None \<Rightarrow> 0 | Some (es, ed) \<Rightarrow> if es = ''-'' then - int (digits_val ed) else int (digits_val ed))
       - int (length fp))"
proof -
  have p: "number_parts (number_text sg ip fp ex) = Some (sg @ ip, fp, exp_value ex, [])"
    using number_parts_text [OF assms, of "[]"] by (simp add: ends_number_def)
  have pw: "(if 0 \<le> e then 10 ^ nat e else 1 / 10 ^ nat (- e)) = (10 powi e :: rat)" for e
    by (cases "0 \<le> e") (simp_all add: power_int_def inverse_eq_divide power_one_over)
  have sg: "sg = '''' \<or> sg = ''-''" using assms by (simp add: text_ok_def)
  have ip: "\<not> prefix ''-'' ip" using assms by (cases ip) (auto simp: text_ok_def)
  have ev: "(if prefix ''-'' (exp_value ex) then - int (digits_val (tl (exp_value ex))) else int (digits_val (exp_value ex)))
       = (case ex of None \<Rightarrow> 0 | Some (es, ed) \<Rightarrow> if es = ''-'' then - int (digits_val ed) else int (digits_val ed))"
  proof (cases ex)
    case (Some x)
    obtain es ed where x: "x = (es, ed)" by (cases x)
    then have es: "es = ''-'' \<or> es = ''+''" and ed: "ed \<noteq> []" "list_all is_digit ed"
      using assms Some by (auto simp: text_ok_def)
    have "\<not> prefix ''-'' ed" using ed by (cases ed) (auto simp: is_digit_def)
    then show ?thesis using es by (auto simp: exp_value_def Some x)
  qed (simp add: exp_value_def)
  show ?thesis using ip sg by (auto simp: number_rat_def p Let_def pw ev)
qed

lemma digits_val_zero [simp]: "digits_val (CHR ''0'' # s) = digits_val s"
  using digits_val_append [of "''0''" s] by (simp add: digits_val_def [of "''0''"] digit_val_def)

lemma fixed_parts_ok:
  assumes "0 < d" and "fixed_parts (show_nat d) k = (ip, fp)"
  shows "sg \<in> {'''', ''-''} \<Longrightarrow> text_ok sg ip fp None"
    and "of_nat (digits_val (ip @ fp)) * 10 powi (- int (length fp)) = (of_nat d * 10 powi k :: rat)"
proof -
  let ?g = "show_nat d" and ?n = "int (length (show_nat d))"
  have g: "?g \<noteq> []" "list_all is_digit ?g" "hd ?g \<noteq> CHR ''0''" using hd_show_nat [OF assms(1)] by simp_all
  consider "?n + k \<le> 0" | "0 < ?n + k" "k < 0" | "0 \<le> k" by linarith
  then have "(sg \<in> {'''', ''-''} \<longrightarrow> text_ok sg ip fp None)
    \<and> of_nat (digits_val (ip @ fp)) * 10 powi (- int (length fp)) = (of_nat d * 10 powi k :: rat)"
  proof cases
    case 1
    then have e: "ip = ''0''" "fp = replicate (nat (- (?n + k))) (CHR ''0'') @ ?g"
      using assms(2) by (auto simp: fixed_parts_def Let_def)
    have "digits_val (''0'' @ fp) = d" unfolding e(2) by (simp add: digits_val_append)
    moreover have "int (length fp) = - k" using 1 unfolding e(2) by simp
    ultimately show ?thesis using g(2) e by (auto simp: text_ok_def list_all_iff)
  next
    case 2
    then have e: "ip = take (nat (?n + k)) ?g" "fp = drop (nat (?n + k)) ?g"
      using assms(2) by (auto simp: fixed_parts_def Let_def)
    have "int (length fp) = - k" using 2 unfolding e(2) by simp
    moreover have "ip \<noteq> []" "hd ip = hd ?g" using 2 g(1) unfolding e(1) by (cases ?g; cases "nat (?n + k)"; simp)+
    moreover have "list_all is_digit ip" "list_all is_digit fp"
      using g(2) unfolding e by (auto simp: list_all_iff dest: in_set_takeD in_set_dropD)
    ultimately show ?thesis using g(3) e by (auto simp: text_ok_def)
  next
    case 3
    have n: "0 < ?n" by simp
    have "\<not> ?n + k \<le> 0" "\<not> ?n + k < ?n" using 3 n by linarith+
    then have e: "ip = ?g @ replicate (nat k) (CHR ''0'')" "fp = []"
      using assms(2) g(1) by (auto simp: fixed_parts_def Let_def split: if_splits)
    have "(of_nat (d * 10 ^ nat k) :: rat) = of_nat d * 10 powi k" using 3 by (simp add: power_int_def)
    then show ?thesis using g e by (auto simp: text_ok_def list_all_iff digits_val_append)
  qed
  then show "sg \<in> {'''', ''-''} \<Longrightarrow> text_ok sg ip fp None"
    and "of_nat (digits_val (ip @ fp)) * 10 powi (- int (length fp)) = (of_nat d * 10 powi k :: rat)" by blast+
qed

definition is_literal :: "string \<Rightarrow> bool" where
  "is_literal l \<longleftrightarrow> (\<exists>sg ip fp ex. text_ok sg ip fp ex \<and> l = number_text sg ip fp ex)"

lemma show_decimal_ok:
  assumes d: "0 < d" and sg: "sg \<in> {'''', ''-''}"
  shows "is_literal (show_decimal sg sci d k)
    \<and> number_rat (show_decimal sg sci d k) = (if sg = ''-'' then -1 else 1) * (of_int d * 10 powi k)"
proof (cases sci)
  case True
  let ?g = "show_nat (nat d)"
  let ?x = "int (length ?g) - 1 + k"
  define ex where "ex = (if ?x < 0 then ''-'' else ''+'', show_nat (nat \<bar>?x\<bar>))"
  have g: "?g \<noteq> []" "list_all is_digit ?g" "hd ?g \<noteq> CHR ''0''" using hd_show_nat [of "nat d"] d by simp_all
  then have ok: "text_ok sg [hd ?g] (tl ?g) (Some ex)"
    using sg show_nat_all_digit unfolding text_ok_def ex_def list_all_iff by (cases ?g) auto
  have e: "show_decimal sg sci d k = number_text sg [hd ?g] (tl ?g) (Some ex)"
    by (simp add: show_decimal_def True ex_def Let_def)
  have "[hd ?g] @ tl ?g = ?g" using g(1) by simp
  then have "of_nat (digits_val ([hd ?g] @ tl ?g)) = (of_int d :: rat)" using d by simp
  moreover have "(if fst ex = ''-'' then - int (digits_val (snd ex)) else int (digits_val (snd ex))) - int (length (tl ?g)) = k"
    using g(1) by (simp add: ex_def) (cases ?g; simp)
  ultimately show ?thesis using ok number_rat_text [OF ok] unfolding e by (auto simp: is_literal_def split_beta)
next
  case False
  obtain ip fp where p: "fixed_parts (show_nat (nat d)) k = (ip, fp)" by fastforce
  note f = fixed_parts_ok [OF _ p]
  have ok: "text_ok sg ip fp None" using f(1) d sg by simp
  moreover have "show_decimal sg sci d k = number_text sg ip fp None" using False p by (simp add: show_decimal_def)
  ultimately show ?thesis using number_rat_text [OF ok] f(2) d by (auto simp: is_literal_def)
qed

lemma round_he_neg: "round_he (- q) = - round_he q"
proof (cases "of_int \<lfloor>q\<rfloor> = q")
  case True
  have "round_he (- of_int \<lfloor>q\<rfloor>) = - round_he (of_int \<lfloor>q\<rfloor>)" by (metis of_int_minus round_he_of_int)
  then show ?thesis unfolding True .
next
  case False
  then have "\<lfloor>- q\<rfloor> = - \<lfloor>q\<rfloor> - 1" by linarith
  then show ?thesis by (auto simp: round_he_def Let_def)
qed

lemma fl_neg: "fl (- q) = f64_neg (fl q)"
proof -
  have "(- q) / s = - (q / s)" for s :: rat by simp
  then show ?thesis by (auto simp: fl_def Let_def ulp_exp_def round_he_neg)
qed

lemma shortest_pos: "shortest x = Some (d, k) \<Longrightarrow> reads_back x d k \<Longrightarrow> 0 < x \<Longrightarrow> 0 < d"
proof (rule ccontr)
  assume "reads_back x d k" "0 < x" "\<not> 0 < d"
  then have "of_int d * 10 powi k \<le> (0 :: rat)" by (simp add: mult_nonpos_nonneg)
  then obtain q where q: "fl (- q) = Fin x" "0 \<le> q"
    using \<open>reads_back x d k\<close> unfolding reads_back_def by (metis minus_minus neg_0_le_iff_le)
  then have "fl q = Fin (- x)" by (cases "fl q") (auto simp: fl_neg)
  moreover have "0 \<le> of_int (round_he (q / 2 powi ulp_exp q)) * (2 powi ulp_exp q :: rat)"
    using q(2) round_he_nonneg [of "q / 2 powi ulp_exp q"] by (intro mult_nonneg_nonneg) (simp_all add: less_imp_le)
  ultimately have "0 \<le> - x" by (simp add: fl_def Let_def split: if_splits)
  then show False using \<open>0 < x\<close> by simp
qed

lemma is_f64_abs: "is_f64 x \<Longrightarrow> is_f64 \<bar>x\<bar>"
proof -
  assume "is_f64 x"
  then obtain m where "x = of_int m * 2 powi ulp_exp x" "\<bar>x\<bar> < 2 powi 1024" by (auto simp: is_f64_def)
  moreover have "ulp_exp \<bar>x\<bar> = ulp_exp x" by (simp add: ulp_exp_def)
  ultimately show ?thesis unfolding is_f64_def by (metis abs_abs abs_mult abs_of_pos of_int_abs powi_pos)
qed

text \<open>A printed float reads back as itself.\<close>

lemma show_f64_reads:
  assumes "is_f64 x"
  obtains l where "show_f64 (Fin x) = Some l" and "is_literal l" and "number_f64 l = Some (Fin x)"
proof (cases "x = 0")
  case True
  have "text_ok '''' ''0'' [] None" by (simp add: text_ok_def)
  moreover have "number_text '''' ''0'' [] None = ''0''" by (simp add: number_text_def)
  ultimately have "is_literal ''0''" "number_rat ''0'' = 0"
    using number_rat_text [of "''''" "''0''" "[]" None] unfolding is_literal_def by (metis, simp)
  then show thesis using that [of "''0''"] True by (simp add: show_f64_def number_f64_def)
next
  case False
  then have p: "0 < \<bar>x\<bar>" by simp
  obtain d k where s: "shortest \<bar>x\<bar> = Some (d, k)" and r: "reads_back \<bar>x\<bar> d k"
    using shortest_reads [OF is_f64_abs [OF assms] p] by blast
  have d: "0 < d" by (rule shortest_pos [OF s r p])
  define l where "l = show_decimal (if x < 0 then ''-'' else '''')
     (f64_less (Fin \<bar>x\<bar>) (fl (1 / 1000000)) \<or> 1000000000000000000000 \<le> \<bar>x\<bar>) d k"
  have "number_rat l = (if x < 0 then -1 else 1) * (of_int d * 10 powi k)" and lit: "is_literal l"
    using show_decimal_ok [OF d, of "if x < 0 then ''-'' else ''''"] unfolding l_def by auto
  then have "fl (number_rat l) = Fin x" using r False by (auto simp: reads_back_def fl_neg)
  then show thesis using that [of l] lit s False by (simp add: show_f64_def number_f64_def l_def)
qed

lemma show_int_literal: "is_literal (show_int n)"
proof -
  have ip: "show_nat m = ''0'' \<or> hd (show_nat m) \<noteq> CHR ''0''" for m
    using hd_show_nat [of m] show_nat.simps [of 0] by (cases "m = 0") (simp_all add: digit_char_def)
  have "text_ok (if n < 0 then ''-'' else '''') (show_nat (nat \<bar>n\<bar>)) [] None"
    using ip [of "nat \<bar>n\<bar>"] by (auto simp: text_ok_def)
  moreover have "show_int n = number_text (if n < 0 then ''-'' else '''') (show_nat (nat \<bar>n\<bar>)) [] None"
    by (simp add: show_int_def number_text_def)
  ultimately show ?thesis unfolding is_literal_def by blast
qed

subsection \<open>Strings\<close>

text \<open>Each rune with its escape; \<^verbatim>\<open><\<close>, \<^verbatim>\<open>>\<close> and \<^verbatim>\<open>&\<close> are escaped for HTML, an invalid byte
  becomes the escape of U+FFFD.\<close>

definition u_escape :: "nat \<Rightarrow> string" where
  "u_escape n = [CHR 0x5C, CHR ''u'', hex_char (n div 4096), hex_char (n div 256 mod 16),
     hex_char (n div 16 mod 16), hex_char (n mod 16)]"

definition show_rune :: "string \<Rightarrow> string" where
  "show_rune r =
     (if r = [CHR 0x22] \<or> r = [CHR 0x5C] then CHR 0x5C # r
      else if r = [CHR 0x08] then [CHR 0x5C, CHR ''b'']
      else if r = [CHR 0x0C] then [CHR 0x5C, CHR ''f'']
      else if r = [CHR 0x0A] then [CHR 0x5C, CHR ''n'']
      else if r = [CHR 0x0D] then [CHR 0x5C, CHR ''r'']
      else if r = [CHR 0x09] then [CHR 0x5C, CHR ''t'']
      else if length r = 1 \<and> byte (hd r) < 32 \<or> r \<in> {''<'', ''>'', ''&''} then u_escape (byte (hd r))
      else if r = [CHR 0xE2, CHR 0x80, CHR 0xA8] then u_escape 0x2028
      else if r = [CHR 0xE2, CHR 0x80, CHR 0xA9] then u_escape 0x2029
      else r)"

function show_chars :: "string \<Rightarrow> string" where
  "show_chars s =
     (if s = [] then []
      else if rune_len s = 0 then u_escape 0xFFFD @ show_chars (tl s)
      else show_rune (take (rune_len s) s) @ show_chars (drop (rune_len s) s))"
  by pat_completeness auto
termination
  by (relation "measure length") auto

declare show_chars.simps [simp del]

definition show_string :: "string \<Rightarrow> string" where
  "show_string s = CHR 0x22 # show_chars s @ [CHR 0x22]"

text \<open>What a string is after a round trip: invalid bytes replaced.\<close>

definition clean_utf8 :: "string \<Rightarrow> string" where
  "clean_utf8 s = concat (utf8_runes s)"

definition prepend :: "string \<Rightarrow> (string \<times> string) option \<Rightarrow> (string \<times> string) option" where
  "prepend b = map_option (\<lambda>(r, u). (b @ r, u))"

lemma unquote_raw_plain:
  "list_all (\<lambda>c. 32 \<le> byte c \<and> c \<noteq> CHR 0x22 \<and> c \<noteq> CHR 0x5C) r \<Longrightarrow> unquote_raw (r @ s) = prepend r (unquote_raw s)"
proof (induction r)
  case Nil
  show ?case by (cases "unquote_raw s") (simp_all add: prepend_def split_beta)
next
  case (Cons c r)
  have "unquote_raw ((c # r) @ s) = map_option (\<lambda>(r, u). (c # r, u)) (unquote_raw (r @ s))"
    using Cons.prems by (subst unquote_raw.simps) auto
  then show ?case using Cons by (cases "unquote_raw s") (auto simp: prepend_def)
qed

lemma unquote_raw_escape: "escape_step (e # s) = Some (b, t) \<Longrightarrow> unquote_raw (CHR 0x5C # e # s) = prepend b (unquote_raw t)"
  by (subst unquote_raw.simps) (auto simp: prepend_def)

lemma hex_char_back: "d < 16 \<Longrightarrow> is_hex (hex_char d) \<and> hex_val (hex_char d) = d"
  by (auto simp: hex_char_def is_hex_def hex_val_def is_digit_def)

lemma hex4_digits:
  assumes "a < 16" "b < 16" "c < 16" "d < 16"
  shows "hex4 (hex_char a # hex_char b # hex_char c # hex_char d # s) = Some (((a * 16 + b) * 16 + c) * 16 + d)"
  using assms by (simp add: hex4_def hex_char_back)

lemma hex4_chars:
  assumes "n < 65536"
  shows "hex4 (hex_char (n div 4096) # hex_char (n div 256 mod 16) # hex_char (n div 16 mod 16) # hex_char (n mod 16) # s) = Some n"
proof -
  have d: "n div 4096 < 16" "n div 256 mod 16 < 16" "n div 16 mod 16 < 16" "n mod 16 < 16" using assms by simp_all
  have e: "n div 256 = n div 16 div 16" "n div 4096 = n div 16 div 16 div 16" by (simp_all add: div_mult2_eq [symmetric])
  have "((n div 4096 * 16 + n div 256 mod 16) * 16 + n div 16 mod 16) * 16 + n mod 16 = n"
    unfolding e by (simp only: div_mult_mod_eq)
  then show ?thesis unfolding hex4_digits [OF d] by simp
qed

lemma unquote_u_escape:
  assumes "n < 65536" and "n < 0xD800 \<or> 0xE000 \<le> n"
  shows "unquote_raw (u_escape n @ s) = prepend (utf8_encode n) (unquote_raw s)"
proof -
  note h = hex4_chars [OF assms(1), of s]
  have "\<not> (0xD800 \<le> n \<and> n < 0xE000)" using assms(2) by linarith
  then have "escape_step (CHR ''u'' # [hex_char (n div 4096), hex_char (n div 256 mod 16), hex_char (n div 16 mod 16), hex_char (n mod 16)] @ s)
      = Some (utf8_encode n, s)"
    by (auto simp: escape_step_def h)
  from unquote_raw_escape [OF this] show ?thesis by (simp add: u_escape_def)
qed

lemma rune_bytes: "is_rune r \<Longrightarrow> length r = 1 \<and> byte (hd r) < 128 \<or> list_all (\<lambda>c. 128 \<le> byte c) r"
proof -
  assume r: "is_rune r"
  then obtain a t where at: "r = a # t" by (cases r) (auto simp: is_rune_def)
  let ?n = "lead_len a"
  have len: "rune_len (a # t) = Suc (length t)" using r at by (simp add: is_rune_def)
  then have n: "?n = Suc (length t)" by (auto simp: rune_len_def Let_def split: if_splits)
  show ?thesis
  proof (cases "byte a < 128")
    case True
    then show ?thesis using n at by (simp add: lead_len_def)
  next
    case False
    then obtain b u where t: "t = b # u" using n by (cases t) (auto simp: lead_len_def split: if_splits)
    have ok: "second_ok a b" "list_all cont_byte u" using len n by (auto simp: rune_len_def Let_def t split: if_splits)
    then show ?thesis using False at by (auto simp: t second_ok_def cont_byte_def list_all_iff split: if_splits)
  qed
qed

lemma unquote_show_rune:
  assumes "is_rune r"
  shows "unquote_raw (show_rune r @ s) = prepend r (unquote_raw s)"
proof -
  have esc: "unquote_raw ([CHR 0x5C, e] @ s) = prepend b (unquote_raw s)" if "escape_step (e # s) = Some (b, s)" for e b
    using unquote_raw_escape [OF that] by simp
  have u: "unquote_raw (u_escape (byte c) @ s) = prepend [c] (unquote_raw s)" if "byte c < 128" for c
    using unquote_u_escape [of "byte c" s] that by (simp add: utf8_encode_def)
  have w: "utf8_encode 0x2028 = [CHR 0xE2, CHR 0x80, CHR 0xA8]" "utf8_encode 0x2029 = [CHR 0xE2, CHR 0x80, CHR 0xA9]" by (simp_all add: utf8_encode_def char_of_def bit_0)
  consider c where "r = [c]" "byte c < 128" | "list_all (\<lambda>c. 128 \<le> byte c) r" "r \<noteq> []"
    using rune_bytes [OF assms] assms by (cases r) (auto simp: is_rune_def)
  then show ?thesis
  proof cases
    case 1
    have "unquote_raw ([c] @ s) = prepend [c] (unquote_raw s)" if "32 \<le> byte c" "c \<noteq> CHR 0x22" "c \<noteq> CHR 0x5C"
      by (rule unquote_raw_plain) (use that in simp)
    note plain = this
    have e: "unquote_raw ([CHR 0x5C, CHR 0x22] @ s) = prepend [CHR 0x22] (unquote_raw s)"
      "unquote_raw ([CHR 0x5C, CHR 0x5C] @ s) = prepend [CHR 0x5C] (unquote_raw s)"
      "unquote_raw ([CHR 0x5C, CHR ''b''] @ s) = prepend [CHR 0x08] (unquote_raw s)"
      "unquote_raw ([CHR 0x5C, CHR ''f''] @ s) = prepend [CHR 0x0C] (unquote_raw s)"
      "unquote_raw ([CHR 0x5C, CHR ''n''] @ s) = prepend [CHR 0x0A] (unquote_raw s)"
      "unquote_raw ([CHR 0x5C, CHR ''r''] @ s) = prepend [CHR 0x0D] (unquote_raw s)"
      "unquote_raw ([CHR 0x5C, CHR ''t''] @ s) = prepend [CHR 0x09] (unquote_raw s)"
      by (rule esc, simp add: escape_step_def)+
    show ?thesis
    proof (cases "c \<in> {CHR 0x22, CHR 0x5C, CHR 0x08, CHR 0x0C, CHR 0x0A, CHR 0x0D, CHR 0x09}")
      case True
      then consider "c = CHR 0x22" | "c = CHR 0x5C" | "c = CHR 0x08" | "c = CHR 0x0C" | "c = CHR 0x0A"
        | "c = CHR 0x0D" | "c = CHR 0x09" by blast
      then show ?thesis by cases (use e in \<open>simp_all add: 1(1) show_rune_def\<close>)
    next
      case False
      then have "show_rune r = (if byte c < 32 \<or> c \<in> {CHR ''<'', CHR ''>'', CHR ''&''} then u_escape (byte c) else [c])"
        by (simp add: 1(1) show_rune_def)
      then show ?thesis using u [OF 1(2)] plain False 1(1) by simp
    qed
  next
    case 2
    have ne: "r \<noteq> [c]" if "byte c < 128" for c using 2 that by auto
    have pl: "unquote_raw (r @ s) = prepend r (unquote_raw s)"
      by (rule unquote_raw_plain) (use 2 in \<open>auto simp: list_all_iff\<close>)
    have "length r = 1 \<and> byte (hd r) < 32 \<Longrightarrow> False" using 2 by (cases r) auto
    then show ?thesis
      using pl unquote_u_escape [of 8232 s] unquote_u_escape [of 8233 s] w ne by (auto simp: show_rune_def)
  qed
qed

lemma unquote_show_chars: "unquote_raw (show_chars s @ CHR 0x22 # t) = Some (clean_utf8 s, t)"
proof (induction s rule: show_chars.induct)
  case (1 s)
  have e: "utf8_encode 0xFFFD = rune_error" by (simp add: utf8_encode_def rune_error_def char_of_def bit_0)
  consider "s = []" | "s \<noteq> []" "rune_len s = 0" | "s \<noteq> []" "rune_len s \<noteq> 0" by blast
  then show ?case
  proof cases
    case 1
    then show ?thesis by (simp add: show_chars.simps clean_utf8_def unquote_raw.simps)
  next
    case 2
    have "show_chars s = u_escape 0xFFFD @ show_chars (tl s)" "utf8_runes s = rune_error # utf8_runes (tl s)"
      using 2 show_chars.simps [of s] utf8_runes.simps [of s] by simp_all
    then show ?thesis using "1.IH"(1) [OF 2] unquote_u_escape [of 65533] e by (simp add: clean_utf8_def prepend_def)
  next
    case 3
    let ?r = "take (rune_len s) s"
    have "show_chars s = show_rune ?r @ show_chars (drop (rune_len s) s)" "utf8_runes s = ?r # utf8_runes (drop (rune_len s) s)"
      using 3 show_chars.simps [of s] utf8_runes.simps [of s] by simp_all
    then show ?thesis using "1.IH"(2) [OF 3] unquote_show_rune [OF take_rune [OF 3(2)]]
      by (simp add: clean_utf8_def prepend_def)
  qed
qed

lemma clean_utf8_idem [simp]: "clean_utf8 (clean_utf8 s) = clean_utf8 s"
  by (simp add: clean_utf8_def utf8_runes_concat utf8_runes_valid)

lemma unquote_show: "unquote (show_chars s @ CHR 0x22 # t) = Some (clean_utf8 s, t)"
  using clean_utf8_idem by (simp add: unquote_def unquote_show_chars clean_utf8_def)

lemma clean_utf8_ascii [simp]: "list_all (\<lambda>c. byte c < 128) s \<Longrightarrow> clean_utf8 s = s"
  by (simp add: clean_utf8_def utf8_runes_ascii)

subsection \<open>Values\<close>

fun comma_list :: "string list \<Rightarrow> string" where
  "comma_list [] = []"
| "comma_list [x] = x"
| "comma_list (x # y # r) = x @ CHR '','' # comma_list (y # r)"

fun show_json :: "json \<Rightarrow> string" where
  "show_json JNull = ''null''"
| "show_json (JBool b) = (if b then ''true'' else ''false'')"
| "show_json (JNum l) = l"
| "show_json (JStr s) = show_string s"
| "show_json (JArr js) = CHR ''['' # comma_list (map show_json js) @ '']''"
| "show_json (JObj ms) = CHR ''{'' # comma_list (map (\<lambda>m. show_string (fst m) @ CHR '':'' # show_json (snd m)) ms) @ ''}''"

fun literals_ok :: "json \<Rightarrow> bool" where
  "literals_ok (JNum l) = is_literal l"
| "literals_ok (JArr js) = (\<forall>j \<in> set js. literals_ok j)"
| "literals_ok (JObj ms) = (\<forall>m \<in> set ms. literals_ok (snd m))"
| "literals_ok _ = True"

fun clean_json :: "json \<Rightarrow> json" where
  "clean_json (JStr s) = JStr (clean_utf8 s)"
| "clean_json (JArr js) = JArr (map clean_json js)"
| "clean_json (JObj ms) = JObj (map (\<lambda>m. (clean_utf8 (fst m), clean_json (snd m))) ms)"
| "clean_json j = j"

lemma skip_ws_id: "c \<notin> {CHR 0x20, CHR 0x09, CHR 0x0A, CHR 0x0D} \<Longrightarrow> skip_ws (c # s) = c # s"
  by (simp add: skip_ws_def)

lemma literal_head:
  assumes "is_literal l"
  obtains c t where "l = c # t" and "c = CHR ''-'' \<or> is_digit c"
  using assms that by (auto simp: is_literal_def text_ok_def number_text_def neq_Nil_conv list_all_iff)

lemma parse_literal:
  assumes "is_literal l" and "ends_number r"
  shows "parse_value (Suc f) (l @ r) = Some (JNum l, r)"
proof -
  obtain c t where c: "l = c # t" "c = CHR ''-'' \<or> is_digit c" using assms(1) by (rule literal_head)
  have "c \<notin> {CHR 0x20, CHR 0x09, CHR 0x0A, CHR 0x0D} \<and> c \<notin> {CHR ''{'', CHR ''['', CHR 0x22, CHR ''t'', CHR ''f'', CHR ''n''}"
    using c(2) by (auto simp: is_digit_def)
  then have "parse_value (Suc f) (l @ r) = parse_number (l @ r)" using c(1) by (auto simp: skip_ws_id Let_def)
  moreover obtain ip fp ex where "number_parts (l @ r) = Some (ip, fp, ex, r)"
    using assms number_parts_text unfolding is_literal_def by metis
  ultimately show ?thesis by (simp add: parse_number_def)
qed

lemma parse_elems_show:
  assumes "\<And>j g s. j \<in> set js \<Longrightarrow> ends_number s \<Longrightarrow> 2 * length (show_json j) \<le> g
      \<Longrightarrow> parse_value g (show_json j @ s) = Some (clean_json j, s)"
    and "js \<noteq> []" and "2 * length (comma_list (map show_json js)) + 1 \<le> f"
  shows "parse_elems f (comma_list (map show_json js) @ CHR '']'' # r) = Some (map clean_json js, r)"
  using assms
proof (induction js arbitrary: f)
  case (Cons j js)
  obtain g where f: "f = Suc g" using Cons.prems(3) by (cases f) auto
  show ?case
  proof (cases js)
    case Nil
    have "parse_value g (show_json j @ CHR '']'' # r) = Some (clean_json j, CHR '']'' # r)"
      by (rule Cons.prems(1)) (use Cons.prems(3) f Nil in \<open>auto simp: ends_number_def is_digit_def\<close>)
    then show ?thesis by (simp add: f Nil skip_ws_id)
  next
    case (Cons k ks)
    let ?rest = "comma_list (map show_json js) @ CHR '']'' # r"
    have "parse_value g (show_json j @ CHR '','' # ?rest) = Some (clean_json j, CHR '','' # ?rest)"
      by (rule Cons.prems(1)) (use Cons.prems(3) f Cons in \<open>auto simp: ends_number_def is_digit_def\<close>)
    moreover have "parse_elems g ?rest = Some (map clean_json js, r)"
      by (rule Cons.IH) (use Cons.prems f Cons in auto)
    ultimately show ?thesis by (simp add: f Cons skip_ws_id)
  qed
qed simp

lemma parse_members_show:
  assumes "\<And>m g s. m \<in> set ms \<Longrightarrow> ends_number s \<Longrightarrow> 2 * length (show_json (snd m)) \<le> g
      \<Longrightarrow> parse_value g (show_json (snd m) @ s) = Some (clean_json (snd m), s)"
    and "ms \<noteq> []" and "2 * length (comma_list (map (\<lambda>m. show_string (fst m) @ CHR '':'' # show_json (snd m)) ms)) + 1 \<le> f"
  shows "parse_members f (comma_list (map (\<lambda>m. show_string (fst m) @ CHR '':'' # show_json (snd m)) ms) @ CHR ''}'' # r)
    = Some (map (\<lambda>m. (clean_utf8 (fst m), clean_json (snd m))) ms, r)"
  using assms
proof (induction ms arbitrary: f)
  case (Cons m ms)
  obtain g where f: "f = Suc g" using Cons.prems(3) by (cases f) auto
  obtain k v where m: "m = (k, v)" by (cases m)
  show ?case
  proof (cases ms)
    case Nil
    have "parse_value g (show_json v @ CHR ''}'' # r) = Some (clean_json v, CHR ''}'' # r)"
      using Cons.prems(1) [of m "CHR ''}'' # r" g] Cons.prems(3) f Nil m by (simp add: ends_number_def is_digit_def)
    then show ?thesis using unquote_show [of k] by (simp add: f Nil m skip_ws_id show_string_def)
  next
    case (Cons k' ks)
    let ?rest = "comma_list (map (\<lambda>m. show_string (fst m) @ CHR '':'' # show_json (snd m)) ms) @ CHR ''}'' # r"
    have "parse_value g (show_json v @ CHR '','' # ?rest) = Some (clean_json v, CHR '','' # ?rest)"
      using Cons.prems(1) [of m "CHR '','' # ?rest" g] Cons.prems(3) f Cons m by (simp add: ends_number_def is_digit_def)
    moreover have "parse_members g ?rest = Some (map (\<lambda>m. (clean_utf8 (fst m), clean_json (snd m))) ms, r)"
      by (rule Cons.IH) (use Cons.prems f Cons m in auto)
    ultimately show ?thesis using unquote_show [of k] by (simp add: f Cons m skip_ws_id show_string_def)
  qed
qed simp

lemma comma_list_Nil [simp]: "xs \<noteq> [] \<Longrightarrow> hd xs \<noteq> [] \<Longrightarrow> comma_list xs \<noteq> []"
  by (induction xs rule: comma_list.induct) auto

lemma hd_comma_list: "xs \<noteq> [] \<Longrightarrow> hd xs \<noteq> [] \<Longrightarrow> hd (comma_list xs) = hd (hd xs)"
  by (induction xs rule: comma_list.induct) auto

text \<open>The first character of a value is no blank and closes nothing.\<close>

lemma show_json_head: "literals_ok j \<Longrightarrow> show_json j \<noteq> [] \<and> hd (show_json j) \<notin> {CHR 0x20, CHR 0x09, CHR 0x0A, CHR 0x0D, CHR '']'', CHR ''}''}"
proof (cases j)
  case (JNum l)
  assume "literals_ok j"
  then obtain c t where "l = c # t" "c = CHR ''-'' \<or> is_digit c" using JNum literal_head [of l] by auto
  then show ?thesis using JNum by (auto simp: is_digit_def)
qed (auto simp: show_string_def)

lemma skip_ws_head: "s \<noteq> [] \<Longrightarrow> hd s \<notin> {CHR 0x20, CHR 0x09, CHR 0x0A, CHR 0x0D} \<Longrightarrow> skip_ws s = s"
  by (cases s) (simp_all add: skip_ws_id)

lemma parse_show:
  "literals_ok j \<Longrightarrow> ends_number r \<Longrightarrow> 2 * length (show_json j) \<le> f
    \<Longrightarrow> parse_value f (show_json j @ r) = Some (clean_json j, r)"
proof (induction j arbitrary: f r rule: show_json.induct)
  case (3 l)
  then obtain g where "f = Suc g" using literal_head [of l] by (cases f) auto
  then show ?case using parse_literal 3 by simp
next
  case (4 s)
  then obtain g where f: "f = Suc g" by (cases f) (auto simp: show_string_def)
  then show ?case using unquote_show [of s r] by (simp add: show_string_def skip_ws_id)
next
  case (5 js)
  then obtain g where f: "f = Suc g" by (cases f) auto
  show ?case
  proof (cases "js = []")
    case True
    then show ?thesis by (simp add: f skip_ws_id)
  next
    case False
    let ?e = "comma_list (map show_json js) @ CHR '']'' # r"
    have "show_json (hd js) \<noteq> [] \<and> hd (show_json (hd js)) \<notin> {CHR 0x20, CHR 0x09, CHR 0x0A, CHR 0x0D, CHR '']'', CHR ''}''}"
      using False 5(2) by (intro show_json_head) simp
    then have "?e \<noteq> [] \<and> hd ?e \<notin> {CHR 0x20, CHR 0x09, CHR 0x0A, CHR 0x0D, CHR '']'', CHR ''}''}"
      using False by (simp add: hd_append hd_comma_list hd_map)
    then have h: "skip_ws ?e = ?e" "\<not> prefix '']'' ?e" using skip_ws_head by (blast, cases ?e, auto)
    have "parse_elems g ?e = Some (map clean_json js, r)"
      by (rule parse_elems_show) (use 5 f False in auto)
    then show ?thesis using h by (simp add: f skip_ws_id)
  qed
next
  case (6 ms)
  then obtain g where f: "f = Suc g" by (cases f) auto
  show ?case
  proof (cases "ms = []")
    case True
    then show ?thesis by (simp add: f skip_ws_id)
  next
    case False
    let ?e = "comma_list (map (\<lambda>m. show_string (fst m) @ CHR '':'' # show_json (snd m)) ms) @ CHR ''}'' # r"
    have "?e \<noteq> [] \<and> hd ?e = CHR 0x22" using False by (simp add: hd_append hd_comma_list hd_map show_string_def)
    then have h: "skip_ws ?e = ?e" "\<not> prefix ''}'' ?e" by (simp add: skip_ws_head, cases ?e, auto)
    have "parse_members g ?e = Some (map (\<lambda>m. (clean_utf8 (fst m), clean_json (snd m))) ms, r)"
      by (rule parse_members_show) (use 6 f False in auto)
    then show ?thesis using h by (simp add: f skip_ws_id)
  qed
next
  case 1
  then obtain g where "f = Suc g" by (cases f) auto
  then show ?case by (simp add: skip_ws_id)
next
  case (2 b)
  then obtain g where "f = Suc g" by (cases f) (auto split: if_splits)
  then show ?case by (cases b) (simp_all add: skip_ws_id)
qed

text \<open>Parsing what was printed gives the value back, with clean strings.\<close>

lemma json_parse_show: "literals_ok j \<Longrightarrow> json_parse (show_json j) = Some (clean_json j)"
  using parse_show [of j "[]" "2 * length (show_json j) + 2"] by (simp add: json_parse_def ends_number_def skip_ws_def)

end
