(* ===== verification/Packages.thy ===== *)
theory Packages
  imports SubscriptionCache GoJsonPrint TopupOrders
begin

section \<open>Packages and their snapshots (\<^verbatim>\<open>database/subscription_schema.go\<close>, \<^verbatim>\<open>controller/subscription_snapshot.go\<close>)\<close>

text \<open>
  What is sold: packages bound to quota plans. A subscription keeps the package as it was when it
  was bought, as a JSON text, and the engine reads its plans from that text. The theorem of
  this theory is that the text says what the tables said.
\<close>

definition PackageSnapshotCurrentVersion :: int where
  "PackageSnapshotCurrentVersion = 2"

definition QuotaPlan_IsEnabled :: "QuotaPlan \<Rightarrow> bool" where
  "QuotaPlan_IsEnabled q \<longleftrightarrow> qp_Enabled q \<noteq> Some False"

definition IsStackable :: "Package \<Rightarrow> bool" where
  "IsStackable p \<longleftrightarrow> pk_Stackable p \<noteq> Some False"

definition Package_IsEnabled :: "Package \<Rightarrow> bool" where
  "Package_IsEnabled p \<longleftrightarrow> pk_Enabled p \<noteq> Some False"

subsection \<open>Rows of subscriptions\<close>

definition sub_rows :: "tables \<Rightarrow> (nat \<times> user_subscription) list" where
  "sub_rows t = concat (map (\<lambda>i. case subscriptions t i of None \<Rightarrow> [] | Some s \<Rightarrow> [(i, s)]) [1..<Suc (sub_seq t)])"

text \<open>How many of a package a user may hold: \<open>0\<close> is no limit.\<close>

definition effective_max :: "Package \<Rightarrow> int" where
  "effective_max p = (if IsStackable p then pk_MaxActivePerUser p else 1)"

definition active_count :: "nat \<Rightarrow> nat \<Rightarrow> nanos \<Rightarrow> tables \<Rightarrow> int" where
  "active_count uid pid now t = int (length (filter (\<lambda>(i, s). sub_UserID s = uid \<and> sub_PackageID s = pid
     \<and> sub_Status s = ''active'' \<and> now < sub_EndAt s) (sub_rows t)))"

definition getNextStackIndex :: "nat \<Rightarrow> nat \<Rightarrow> int tx" where
  "getNextStackIndex uid pid = stmt (\<lambda>t.
     (Max (insert 0 (sub_StackIndex ` snd ` set (filter (\<lambda>(i, s). sub_UserID s = uid \<and> sub_PackageID s = pid) (sub_rows t)))) + 1, t))"

subsection \<open>Building a snapshot\<close>

definition json_int :: "int \<Rightarrow> json" where
  "json_int i = JNum (show_int i)"

definition plan_json :: "nat \<times> QuotaPlan \<times> f64 \<Rightarrow> json option" where
  "plan_json x = (case x of (i, q, m) \<Rightarrow>
     (case (show_f64 (qp_LimitValue q), show_f64 m) of
        (Some lv, Some mult) \<Rightarrow> Some (JObj
          [(''id'', json_int (int i)), (''name'', JStr (qp_Name q)), (''model_match'', JStr (qp_ModelMatch q)),
           (''limit_unit'', JStr (qp_LimitUnit q)), (''limit_value'', JNum lv),
           (''limit_value_micro_usd'', json_int (qp_LimitValueMicroUSD q)),
           (''window_seconds'', json_int (qp_WindowSeconds q)), (''weight_factor'', JStr (qp_WeightFactor q)),
           (''priority'', json_int (qp_Priority q)), (''overflow_strategy'', JStr (qp_OverflowStrategy q)),
           (''extra_config'', JStr (qp_ExtraConfig q)), (''quantity_multiplier'', JNum mult)])
      | _ \<Rightarrow> None))"

fun all_some :: "'a option list \<Rightarrow> 'a list option" where
  "all_some [] = Some []"
| "all_some (x # xs) = (case x of None \<Rightarrow> None | Some a \<Rightarrow> map_option (\<lambda>r. a # r) (all_some xs))"

text \<open>A nil slice is encoded as \<^verbatim>\<open>null\<close>.\<close>

definition snapshot_json :: "nat \<Rightarrow> Package \<Rightarrow> json \<Rightarrow> json" where
  "snapshot_json pid p plans = JObj
     [(''schema_version'', json_int PackageSnapshotCurrentVersion), (''package_id'', json_int (int pid)),
      (''package_name'', JStr (pk_Name p)),
      (''product_type'', JStr (if pk_ProductType p = '''' then ''subscription'' else pk_ProductType p)),
      (''price_amount'', json_int (pk_PriceAmount p)), (''price_currency'', JStr (pk_PriceCurrency p)),
      (''billing_period_seconds'', json_int (pk_BillingPeriodSeconds p)), (''plans'', plans)]"

definition bindings_of :: "nat \<Rightarrow> tables \<Rightarrow> PackagePlan list" where
  "bindings_of pid t = sort_key pp_SortOrder (filter (\<lambda>b. pp_PackageID b = pid) (package_plans t))"

text \<open>A bound plan that may be sold: present, enabled, and with the exact limit when it is one of
  costs.\<close>

definition plan_of_binding :: "(nat \<times> QuotaPlan) list \<Rightarrow> PackagePlan \<Rightarrow> (nat \<times> QuotaPlan \<times> f64) option" where
  "plan_of_binding plans b = (case map_of plans (pp_QuotaPlanID b) of
       None \<Rightarrow> None
     | Some q \<Rightarrow>
         if \<not> QuotaPlan_IsEnabled q then None
         else if qp_LimitUnit q = ''api_cost_usd'' \<and> f64_less (Fin 0) (qp_LimitValue q) \<and> qp_LimitValueMicroUSD q \<le> 0 then None
         else Some (pp_QuotaPlanID b, q, pp_QuantityMultiplier b))"

definition errBuildSnapshot :: db_error where
  "errBuildSnapshot = Rejected ''build snapshot''"

definition buildPackageSnapshotTx :: "nat \<Rightarrow> Package \<Rightarrow> string tx" where
  "buildPackageSnapshotTx pid p =
     tx_bind (stmt (\<lambda>t. (bindings_of pid t, t))) (\<lambda>pps.
       if pps = [] then tx_return (show_json (snapshot_json pid p JNull))
       else tx_bind (stmt (\<lambda>t. (filter (\<lambda>(i, q). i \<in> pp_QuotaPlanID ` set pps) (quota_plans t), t))) (\<lambda>plans.
         case all_some (map (plan_of_binding plans) pps) of
           None \<Rightarrow> tx_throw errBuildSnapshot
         | Some ps \<Rightarrow>
             (case all_some (map plan_json ps) of
                None \<Rightarrow> tx_throw errBuildSnapshot
              | Some js \<Rightarrow> tx_return (show_json (snapshot_json pid p (JArr js))))))"

definition buildPackageSnapshot :: "nat \<Rightarrow> Package \<Rightarrow> string tx" where
  "buildPackageSnapshot pid p = buildPackageSnapshotTx pid p"

definition name_field :: "string \<Rightarrow> json \<Rightarrow> string \<Rightarrow> string option" where
  "name_field k v old = (if k = ''package_name'' then into_string v old else Some old)"

definition readPackageNameFromSnapshot :: "string \<Rightarrow> string" where
  "readPackageNameFromSnapshot s =
     (if s = '''' then ''''
      else case json_parse s of None \<Rightarrow> ''''
      | Some j \<Rightarrow> (case into_struct name_field '''' j of None \<Rightarrow> '''' | Some n \<Rightarrow> n))"

subsection \<open>Reading a snapshot back\<close>

lemma all_some_Some: "all_some xs = Some ys \<longleftrightarrow> xs = map Some ys"
  by (induction xs arbitrary: ys) (auto split: option.splits)

definition served_plan :: "nat \<times> QuotaPlan \<times> f64 \<Rightarrow> snapshotPlan" where
  "served_plan x = (case x of (i, q, m) \<Rightarrow>
     \<lparr> sp_ID = i, sp_ModelMatch = qp_ModelMatch q, sp_LimitUnit = qp_LimitUnit q, sp_LimitValue = qp_LimitValue q,
       sp_LimitValueMicroUSD = qp_LimitValueMicroUSD q, sp_WindowSeconds = qp_WindowSeconds q,
       sp_WeightFactor = qp_WeightFactor q, sp_Priority = qp_Priority q,
       sp_OverflowStrategy = qp_OverflowStrategy q, sp_ExtraConfig = qp_ExtraConfig q,
       sp_QuantityMultiplier = (if f64_le m (Fin 0) then Fin 1 else m) \<rparr>)"

text \<open>Rows of the tables hold floats, integers of 64 bits and text.\<close>

definition utf8 :: "string \<Rightarrow> bool" where
  "utf8 s \<longleftrightarrow> clean_utf8 s = s"

definition float_value :: "f64 \<Rightarrow> bool" where
  "float_value f \<longleftrightarrow> (case f of Fin x \<Rightarrow> is_f64 x | _ \<Rightarrow> True)"

definition plan_row_ok :: "nat \<times> QuotaPlan \<times> f64 \<Rightarrow> bool" where
  "plan_row_ok x = (case x of (i, q, m) \<Rightarrow> in_i64 (int i) \<and> in_i64 (qp_LimitValueMicroUSD q) \<and> in_i64 (qp_WindowSeconds q)
     \<and> in_i64 (qp_Priority q) \<and> float_value (qp_LimitValue q) \<and> float_value m
     \<and> utf8 (qp_Name q) \<and> utf8 (qp_ModelMatch q) \<and> utf8 (qp_LimitUnit q) \<and> utf8 (qp_WeightFactor q)
     \<and> utf8 (qp_OverflowStrategy q) \<and> utf8 (qp_ExtraConfig q))"

lemma show_f64_float:
  "float_value f \<Longrightarrow> show_f64 f = Some l \<Longrightarrow> is_literal l \<and> number_f64 l = Some f"
  by (cases f) (auto simp: float_value_def show_f64_def dest: show_f64_reads split: if_splits
      elim!: show_f64_reads [unfolded show_f64_def])

lemma plan_json_ok: "plan_row_ok x \<Longrightarrow> plan_json x = Some j \<Longrightarrow> literals_ok j"
  by (auto simp: plan_json_def plan_row_ok_def json_int_def show_int_literal dest: show_f64_float
      split: prod.splits option.splits)

text \<open>One plan read back from its members.\<close>

lemma plan_json_members:
  assumes "plan_row_ok x" and "plan_json x = Some j"
  obtains ms where "clean_json j = JObj ms" and "plan_of_members ms = served_plan x"
proof -
  obtain i q m where x: "x = (i, q, m)" by (cases x)
  obtain lv mult where f: "show_f64 (qp_LimitValue q) = Some lv" "show_f64 m = Some mult"
    using assms(2) by (auto simp: x plan_json_def split: option.splits)
  have n: "number_f64 lv = Some (qp_LimitValue q)" "number_f64 mult = Some m"
    using assms(1) f show_f64_float by (auto simp: plan_row_ok_def x)
  have u: "clean_utf8 (qp_Name q) = qp_Name q" "clean_utf8 (qp_ModelMatch q) = qp_ModelMatch q"
    "clean_utf8 (qp_LimitUnit q) = qp_LimitUnit q" "clean_utf8 (qp_WeightFactor q) = qp_WeightFactor q"
    "clean_utf8 (qp_OverflowStrategy q) = qp_OverflowStrategy q" "clean_utf8 (qp_ExtraConfig q) = qp_ExtraConfig q"
    and r: "in_i64 (int i)" "in_i64 (qp_LimitValueMicroUSD q)" "in_i64 (qp_WindowSeconds q)" "in_i64 (qp_Priority q)"
    using assms(1) by (simp_all add: plan_row_ok_def x utf8_def)
  define ms where "ms = [(''id'', json_int (int i)), (''name'', JStr (qp_Name q)), (''model_match'', JStr (qp_ModelMatch q)),
           (''limit_unit'', JStr (qp_LimitUnit q)), (''limit_value'', JNum lv),
           (''limit_value_micro_usd'', json_int (qp_LimitValueMicroUSD q)),
           (''window_seconds'', json_int (qp_WindowSeconds q)), (''weight_factor'', JStr (qp_WeightFactor q)),
           (''priority'', json_int (qp_Priority q)), (''overflow_strategy'', JStr (qp_OverflowStrategy q)),
           (''extra_config'', JStr (qp_ExtraConfig q)), (''quantity_multiplier'', JNum mult)]"
  have j: "j = JObj ms" using assms(2) f by (simp add: x plan_json_def ms_def)
  have "clean_json j = JObj ms" unfolding j by (simp add: ms_def u json_int_def)
  moreover have "plan_of_members ms = served_plan x"
    by (simp add: ms_def plan_of_members_def served_plan_def x json_get_def json_int_def uintFromAny_def int64FromAny_def
        intFromAny_def floatFromAny_def stringFromAny_def ParseInt_show r n Let_def)
  ultimately show thesis by (rule that)
qed

lemma map_of_filter_key: "P k \<Longrightarrow> map_of (filter (\<lambda>(i, q). P i) xs) k = map_of xs k"
  by (induction xs) auto

lemma plan_of_binding_cong: "map_of xs (pp_QuotaPlanID b) = map_of ys (pp_QuotaPlanID b) \<Longrightarrow> plan_of_binding xs b = plan_of_binding ys b"
  by (simp add: plan_of_binding_def)

text \<open>What a successful build writes.\<close>

lemma buildPackageSnapshotTx_Inr:
  assumes "buildPackageSnapshotTx pid p (t, fs) = (Inr s, (t', fs'))"
  obtains (none) "t' = t" "bindings_of pid t = []" "s = show_json (snapshot_json pid p JNull)"
  | (some) xs js where "t' = t" "map (plan_of_binding (quota_plans t)) (bindings_of pid t) = map Some xs"
      "map plan_json xs = map Some js" "s = show_json (snapshot_json pid p (JArr js))"
proof (cases "bindings_of pid t = []")
  case True
  then show thesis using assms none by (auto simp: buildPackageSnapshotTx_def tx_bind_Inr stmt_Inr)
next
  case False
  let ?ps = "filter (\<lambda>(i, q). i \<in> pp_QuotaPlanID ` set (bindings_of pid t)) (quota_plans t)"
  have "map (plan_of_binding ?ps) (bindings_of pid t) = map (plan_of_binding (quota_plans t)) (bindings_of pid t)"
    by (rule map_cong [OF refl], rule plan_of_binding_cong, rule map_of_filter_key) simp
  moreover obtain xs js where "all_some (map (plan_of_binding ?ps) (bindings_of pid t)) = Some xs"
    "all_some (map plan_json xs) = Some js" "s = show_json (snapshot_json pid p (JArr js))" "t' = t"
    using assms False by (auto simp: buildPackageSnapshotTx_def tx_bind_Inr stmt_Inr split: option.splits)
  ultimately show thesis unfolding all_some_Some by (intro some) simp_all
qed

lemma snapshot_literals: "literals_ok plans \<Longrightarrow> literals_ok (snapshot_json pid p plans)"
  by (simp add: snapshot_json_def json_int_def show_int_literal)

lemma decoded_snapshot:
  assumes "literals_ok plans" and "sub_PackageSnapshot sub = show_json (snapshot_json pid p plans)"
  shows "cd_Snapshot (cache_entry i sub) = Some (case clean_json (snapshot_json pid p plans) of JObj ms \<Rightarrow> ms)"
proof -
  let ?s = "show_json (snapshot_json pid p plans)"
  have "?s \<noteq> ''''" by (simp add: snapshot_json_def)
  moreover have "parse_value (2 * length ?s + 2) ?s = Some (clean_json (snapshot_json pid p plans), [])"
    using parse_show [OF snapshot_literals [OF assms(1), of pid p], of "[]" "2 * length ?s + 2"]
    by (simp add: ends_number_def del: parse_value.simps)
  ultimately show ?thesis using assms(2) by (simp add: cache_entry_def jsonUnmarshalSafe_def snapshot_json_def)
qed

lemma snapshot_name:
  assumes "literals_ok plans"
  shows "readPackageNameFromSnapshot (show_json (snapshot_json pid p plans)) = clean_utf8 (pk_Name p)"
proof -
  have "show_json (snapshot_json pid p plans) \<noteq> ''''" by (simp add: snapshot_json_def)
  then show ?thesis
    by (simp add: readPackageNameFromSnapshot_def json_parse_show [OF snapshot_literals [OF assms]])
      (simp add: snapshot_json_def json_int_def into_struct_def name_field_def into_string_def ToLower_def lower_char_def)
qed

lemma decoded_plans:
  "\<forall>x \<in> set xs. plan_row_ok x \<Longrightarrow> map plan_json xs = map Some js
    \<Longrightarrow> map (\<lambda>rp. case rp of JObj m \<Rightarrow> [plan_of_members m] | _ \<Rightarrow> []) (map clean_json js) = map (\<lambda>x. [served_plan x]) xs"
proof (induction xs arbitrary: js)
  case (Cons x xs)
  then obtain j js' where js: "js = j # js'" "plan_json x = Some j" "map plan_json xs = map Some js'" by (cases js) auto
  obtain ms where "clean_json j = JObj ms" "plan_of_members ms = served_plan x"
    using plan_json_members [OF _ js(2)] Cons.prems(1) by auto
  with Cons.IH [OF _ js(3)] Cons.prems(1) js(1) show ?case by simp
qed simp

lemma plans_literals: "\<forall>x \<in> set xs. plan_row_ok x \<Longrightarrow> map plan_json xs = map Some js \<Longrightarrow> literals_ok (JArr js)"
proof -
  assume ok: "\<forall>x \<in> set xs. plan_row_ok x" and m: "map plan_json xs = map Some js"
  have "literals_ok j" if "j \<in> set js" for j
  proof -
    have "Some j \<in> set (map plan_json xs)" using that unfolding m by simp
    then show ?thesis using ok plan_json_ok by fastforce
  qed
  then show ?thesis by simp
qed

text \<open>The rows a snapshot of a package is built from.\<close>

definition package_rows_ok :: "nat \<Rightarrow> Package \<Rightarrow> tables \<Rightarrow> bool" where
  "package_rows_ok pid p t \<longleftrightarrow> utf8 (pk_Name p) \<and> utf8 (pk_ProductType p)
     \<and> list_all (\<lambda>b. case map_of (quota_plans t) (pp_QuotaPlanID b) of None \<Rightarrow> True
         | Some q \<Rightarrow> plan_row_ok (pp_QuotaPlanID b, q, pp_QuantityMultiplier b)) (bindings_of pid t)"

lemma bound_rows_ok:
  assumes "package_rows_ok pid p t" and "map (plan_of_binding (quota_plans t)) (bindings_of pid t) = map Some xs"
  shows "\<forall>x \<in> set xs. plan_row_ok x"
proof
  fix x assume "x \<in> set xs"
  then have "Some x \<in> set (map (plan_of_binding (quota_plans t)) (bindings_of pid t))" unfolding assms(2) by simp
  then show "plan_row_ok x"
    using assms(1) by (auto simp: package_rows_ok_def plan_of_binding_def list_all_iff split: option.splits if_splits)
qed

text \<open>C18: A subscription is served with exactly what was sold: when the snapshot of a package was built and
  stored, the cache of subscriptions decodes it to the plans bound to the package, each enabled
  and with every limit, float and text as the tables had them, in the order of their
  priorities, and to the product type and the name of the package. Building changes no table.\<close>

theorem snapshot_served_exactly:
  assumes "buildPackageSnapshotTx pid p (t, fs) = (Inr s, (t', fs'))" and "package_rows_ok pid p t"
    and "sub_PackageSnapshot sub = s"
  shows "t' = t \<and> readPackageNameFromSnapshot s = pk_Name p
    \<and> productTypeOfCached (cd_Snapshot (cache_entry i sub)) = (if pk_ProductType p = '''' then ''subscription'' else pk_ProductType p)
    \<and> (\<exists>xs. map (plan_of_binding (quota_plans t)) (bindings_of pid t) = map Some xs
        \<and> extractPlansFromSnapshot (cd_Snapshot (cache_entry i sub)) = sort_key sp_Priority (map served_plan xs))"
proof -
  have u: "clean_utf8 (pk_Name p) = pk_Name p" "clean_utf8 (pk_ProductType p) = pk_ProductType p"
    using assms(2) by (simp_all add: package_rows_ok_def utf8_def)
  have pt: "productTypeOfCached (cd_Snapshot (cache_entry i sub)) = (if pk_ProductType p = '''' then ''subscription'' else pk_ProductType p)"
    if "literals_ok plans" "s = show_json (snapshot_json pid p plans)" for plans
    using decoded_snapshot [OF that(1)] that(2) assms(3) u
    by (simp add: snapshot_json_def productTypeOfCached_def json_get_def)
  from assms(1) show ?thesis
  proof (cases rule: buildPackageSnapshotTx_Inr)
    case none
    have "extractPlansFromSnapshot (cd_Snapshot (cache_entry i sub)) = []"
      using decoded_snapshot [of JNull] none(3) assms(3)
      by (simp add: snapshot_json_def extractPlansFromSnapshot_def json_get_def)
    then show ?thesis using none pt [of JNull] snapshot_name [of JNull] u by auto
  next
    case (some xs js)
    note ok = bound_rows_ok [OF assms(2) some(2)]
    note lit = plans_literals [OF ok some(3)]
    have "extractPlansFromSnapshot (cd_Snapshot (cache_entry i sub)) = sort_key sp_Priority (concat (map (\<lambda>x. [served_plan x]) xs))"
      using decoded_snapshot [OF lit] some(4) assms(3) decoded_plans [OF ok some(3)]
      by (simp add: snapshot_json_def extractPlansFromSnapshot_def json_get_def)
    moreover have "concat (map (\<lambda>x. [served_plan x]) xs) = map served_plan xs" by (induction xs) auto
    ultimately show ?thesis using some pt [OF lit] snapshot_name [OF lit] u by auto
  qed
qed

definition demo_plan :: QuotaPlan where
  "demo_plan = \<lparr> qp_Name = ''daily'', qp_ModelMatch = ''[\"gpt-*\"]'', qp_LimitUnit = ''request_count'', qp_LimitValue = Fin 100,
     qp_LimitValueMicroUSD = 0, qp_WindowSeconds = 86400, qp_WeightFactor = '''', qp_Priority = 1,
     qp_OverflowStrategy = ''block'', qp_ExtraConfig = '''', qp_Enabled = None \<rparr>"

definition demo_package :: Package where
  "demo_package = \<lparr> pk_Name = ''plus'', pk_ProductType = '''', pk_PriceAmount = 5000000, pk_CostFloorMicroUSD = 1000000,
     pk_PriceCurrency = ''USD'', pk_BillingPeriodSeconds = 2592000, pk_Stackable = None, pk_MaxActivePerUser = 3,
     pk_Public = True, pk_Enabled = None \<rparr>"

definition demo_shop :: tables where
  "demo_shop = empty_tables \<lparr> packages := [(1, demo_package)], quota_plans := [(7, demo_plan)],
     package_plans := [\<lparr> pp_PackageID = 1, pp_QuotaPlanID = 7, pp_QuantityMultiplier = Fin 2, pp_SortOrder = 0 \<rparr>],
     users := [5 \<mapsto> \<lparr> u_Username = ''ann'', u_Role = ''user'', u_Status = 1, u_Quota = 20000000, u_PaidQuota = 0,
       u_ReferredByUserID = 0, u_ReferredAt = None, u_BalanceConsumeEnabled = True, u_BalanceConsumeLimitUSD = 0,
       u_BalanceConsumeWindowSeconds = 0, u_BalanceConsumeWindowStartAt = None, u_BalanceConsumedInWindow = 0 \<rparr>] \<rparr>"

lemma demo_rows_ok: "package_rows_ok 1 demo_package demo_shop"
proof -
  have f: "is_f64 2" "is_f64 100" using is_f64_of_int [of 2] is_f64_of_int [of 100] by simp_all
  have u: "utf8 s" if "list_all (\<lambda>c. byte c < 128) s" for s using that by (simp add: utf8_def)
  show ?thesis
    by (simp add: package_rows_ok_def bindings_of_def demo_shop_def plan_row_ok_def float_value_def f in_i64_def i64_min_def
        i64_max_def demo_plan_def demo_package_def u)
qed

lemma demo_snapshot:
  obtains s where "buildPackageSnapshotTx 1 demo_package (demo_shop, []) = (Inr s, (demo_shop, []))"
proof -
  obtain lv where lv: "show_f64 (Fin 100) = Some lv" using show_f64_reads [OF is_f64_of_int [of 100]] by auto
  obtain m where m: "show_f64 (Fin 2) = Some m" using show_f64_reads [OF is_f64_of_int [of 2]] by auto
  show thesis
    by (rule that) (simp add: buildPackageSnapshotTx_def tx_bind_def bindings_of_def demo_shop_def plan_of_binding_def
      QuotaPlan_IsEnabled_def demo_plan_def plan_json_def lv m)
qed

theorem snapshot_served_exactly_witness:
  "\<exists>s. buildPackageSnapshotTx 1 demo_package (demo_shop, []) = (Inr s, (demo_shop, [])) \<and> readPackageNameFromSnapshot s = ''plus''
    \<and> (\<forall>i sub. sub_PackageSnapshot sub = s \<longrightarrow>
         extractPlansFromSnapshot (cd_Snapshot (cache_entry i sub)) = [served_plan (7, demo_plan, Fin 2)])"
proof -
  obtain s where s: "buildPackageSnapshotTx 1 demo_package (demo_shop, []) = (Inr s, (demo_shop, []))" by (rule demo_snapshot)
  have b: "map (plan_of_binding (quota_plans demo_shop)) (bindings_of 1 demo_shop) = [Some (7, demo_plan, Fin 2)]"
    by (simp add: bindings_of_def demo_shop_def plan_of_binding_def QuotaPlan_IsEnabled_def demo_plan_def)
  note f = snapshot_served_exactly [OF s demo_rows_ok, unfolded b]
  have "sub_PackageSnapshot (x \<lparr> sub_PackageSnapshot := s \<rparr>) = s" for x :: user_subscription by simp
  from f [OF this] have n: "readPackageNameFromSnapshot s = ''plus''" by (simp add: demo_package_def)
  have one: "[Some y] = map Some xs \<longleftrightarrow> xs = [y]" for y :: "nat \<times> QuotaPlan \<times> f64" and xs by (cases xs) auto
  have "extractPlansFromSnapshot (cd_Snapshot (cache_entry i sub)) = [served_plan (7, demo_plan, Fin 2)]"
    if "sub_PackageSnapshot sub = s" for i sub
    using f [OF that, unfolded one] by auto
  with s n show ?thesis by blast
qed

end
