(* ===== verification/Coupons.thy ===== *)
theory Coupons
  imports Packages
begin

section \<open>Coupons (\<^verbatim>\<open>controller/coupon.go\<close>, \<^verbatim>\<open>database/coupon_schema.go\<close>)\<close>

text \<open>
  Templates of coupons with a fixed price, coupons granted to one user or to many at once, taken
  back, and used in a purchase. Coupons are never deleted, so their keys are their positions;
  templates are, so their keys come from a sequence. The random part of a code is a parameter,
  \<open>None\<close> where the source of randomness fails. A day is 24 hours: \<^verbatim>\<open>AddDate\<close> in a zone
  without daylight saving.
\<close>

subsection \<open>Rows\<close>

definition CouponTemplate_IsEnabled :: "CouponTemplate \<Rightarrow> bool" where
  "CouponTemplate_IsEnabled c \<longleftrightarrow> ct_Enabled c \<noteq> Some False"

definition IsAvailable :: "nanos \<Rightarrow> UserCoupon \<Rightarrow> bool" where
  "IsAvailable now c \<longleftrightarrow> uc_Status c = ''available''
     \<and> (case uc_ExpiresAt c of None \<Rightarrow> True | Some e \<Rightarrow> \<not> e < now)"

definition SnapshotEffectivePrice :: "UserCoupon \<Rightarrow> int64 \<Rightarrow> int64" where
  "SnapshotEffectivePrice c base =
     (if uc_SnapshotType c = ''fixed_price''
      then (if base < uc_SnapshotValue c then base else if uc_SnapshotValue c < 0 then 0 else uc_SnapshotValue c)
      else base)"

definition AppliesToPackage :: "nat \<Rightarrow> nat list \<Rightarrow> bool" where
  "AppliesToPackage pid allowed \<longleftrightarrow> allowed = [] \<or> pid \<in> set allowed"

definition generateCouponCode :: "nat \<Rightarrow> nat \<Rightarrow> string \<Rightarrow> string" where
  "generateCouponCode uid tid rnd = ''CP-'' @ show_nat uid @ ''-'' @ show_nat tid @ ''-'' @ hex_encode rnd"

text \<open>Empty is every package; a damaged list is none.\<close>

definition parsePackageIDsStrict :: "string \<Rightarrow> nat list option" where
  "parsePackageIDsStrict s0 =
     (let s = TrimSpace s0 in
      if s = '''' then Some []
      else case json_parse s of None \<Rightarrow> None | Some j \<Rightarrow> into_slice (\<lambda>v. into_uint 64 v 0) j)"

definition couponMinFixedPriceMicroUSD :: int64 where
  "couponMinFixedPriceMicroUSD = 10000"

definition couponPackageEffectiveLowerBoundMicroUSD :: "Package \<Rightarrow> int64" where
  "couponPackageEffectiveLowerBoundMicroUSD p = (if 0 < pk_CostFloorMicroUSD p then pk_CostFloorMicroUSD p else pk_PriceAmount p)"

subsection \<open>Templates\<close>

definition errCouponFixedPriceNonPositive :: db_error where
  "errCouponFixedPriceNonPositive = Rejected ''coupon fixed_price must be positive''"

definition errCouponFixedPriceBelowPackageCostFloor :: db_error where
  "errCouponFixedPriceBelowPackageCostFloor = Rejected ''coupon fixed_price below package cost_floor''"

definition errInvalidTemplate :: db_error where
  "errInvalidTemplate = Rejected ''invalid template''"

definition couponTemplateValidationMessageCode :: "db_error \<Rightarrow> string" where
  "couponTemplateValidationMessageCode e =
     (if e = errCouponFixedPriceNonPositive then ''ERR_COUPON_FIXED_PRICE_NON_POSITIVE''
      else if e = errCouponFixedPriceBelowPackageCostFloor then ''ERR_COUPON_FIXED_PRICE_BELOW_PACKAGE_COST_FLOOR''
      else ''ERR_INVALID_TEMPLATE'')"

text \<open>The greatest lower bound of the packages a template is for; packages without one do not count.\<close>

definition lower_bounds :: "nat list \<Rightarrow> tables \<Rightarrow> int64 list" where
  "lower_bounds ids t = filter (\<lambda>b. 0 < b) (map (couponPackageEffectiveLowerBoundMicroUSD \<circ> snd)
     (filter (\<lambda>(i, p). ids = [] \<or> i \<in> set ids) (packages t)))"

definition validateTemplateFixedPriceCostFloor :: "CouponTemplate \<Rightarrow> nat list \<Rightarrow> unit tx" where
  "validateTemplateFixedPriceCostFloor c ids =
     (if ct_DiscountType c \<noteq> ''fixed_price'' then tx_return ()
      else tx_bind (stmt (\<lambda>t. (lower_bounds ids t, t))) (\<lambda>bs.
        if bs = [] \<or> Max (set bs) \<le> ct_DiscountValue c then tx_return ()
        else tx_throw errCouponFixedPriceBelowPackageCostFloor))"

definition validateTemplate :: "CouponTemplate \<Rightarrow> CouponTemplate tx" where
  "validateTemplate c0 =
     (let c = (if ct_DiscountType c0 = '''' then c0 \<lparr> ct_DiscountType := ''fixed_price'' \<rparr> else c0) in
      if TrimSpace (ct_Name c0) = '''' then tx_throw errInvalidTemplate
      else if ct_DiscountType c \<noteq> ''fixed_price'' then tx_throw errInvalidTemplate
      else if ct_DiscountValue c \<le> 0 then tx_throw errCouponFixedPriceNonPositive
      else if ct_DiscountValue c < couponMinFixedPriceMicroUSD then tx_throw errInvalidTemplate
      else if ct_ValidDays c < 0 then tx_throw errInvalidTemplate
      else case parsePackageIDsStrict (ct_PackageIDs c) of
          None \<Rightarrow> tx_throw errInvalidTemplate
        | Some ids \<Rightarrow> tx_bind (validateTemplateFixedPriceCostFloor c ids) (\<lambda>_. tx_return c))"

record template_request =
  tq_Name :: string
  tq_DiscountType :: string
  tq_DiscountValue :: f64
  tq_PackageIDs :: string
  tq_ValidDays :: int
  tq_Enabled :: "bool option"

definition parseCouponTemplate :: "template_request option \<Rightarrow> CouponTemplate option" where
  "parseCouponTemplate body = (case body of None \<Rightarrow> None
     | Some raw \<Rightarrow> if \<not> validateAdminQuotaInput (tq_DiscountValue raw) then None
       else map_option (\<lambda>micro. \<lparr> ct_ID = 0, ct_Name = tq_Name raw, ct_DiscountType = tq_DiscountType raw,
           ct_DiscountValue = micro, ct_PackageIDs = tq_PackageIDs raw, ct_ValidDays = tq_ValidDays raw,
           ct_Enabled = tq_Enabled raw \<rparr>) (USDToMicro (tq_DiscountValue raw)))"

text \<open>The database fills a missing flag with its default.\<close>

definition insert_template :: "CouponTemplate \<Rightarrow> nat tx" where
  "insert_template c = stmt (\<lambda>t. let i = Suc (template_seq t) in
     (i, t \<lparr> template_seq := i, coupon_templates := coupon_templates t @
       [c \<lparr> ct_ID := i, ct_Enabled := Some (CouponTemplate_IsEnabled c) \<rparr>] \<rparr>))"

definition AdminCreateCouponTemplate :: "template_request option \<Rightarrow> response tx" where
  "AdminCreateCouponTemplate body = (case parseCouponTemplate body of
       None \<Rightarrow> tx_return (400, ''ERR_PARSE_PAYLOAD'')
     | Some c \<Rightarrow> tx_bind (attempt (validateTemplate c)) (\<lambda>v. case v of
           Inl e \<Rightarrow> tx_return (400, couponTemplateValidationMessageCode e)
         | Inr c' \<Rightarrow> tx_bind (attempt (insert_template c')) (\<lambda>r. case r of
               Inl _ \<Rightarrow> tx_return (500, ''ERR_DB_CREATE'') | Inr _ \<Rightarrow> tx_return (200, ''SUCCESS_CREATED''))))"

definition find_template :: "int \<Rightarrow> CouponTemplate tx" where
  "find_template i = query_first (\<lambda>t. find (\<lambda>c. int (ct_ID c) = i) (coupon_templates t))"

definition update_templates :: "(CouponTemplate \<Rightarrow> bool) \<Rightarrow> (CouponTemplate \<Rightarrow> CouponTemplate) \<Rightarrow> nat tx" where
  "update_templates c f = stmt (\<lambda>t. (length (filter c (coupon_templates t)),
     t \<lparr> coupon_templates := map (\<lambda>r. if c r then f r else r) (coupon_templates t) \<rparr>))"

definition AdminUpdateCouponTemplate :: "string \<Rightarrow> template_request option \<Rightarrow> response tx" where
  "AdminUpdateCouponTemplate idParam body = (case ParseInt 64 idParam of
       None \<Rightarrow> tx_return (400, ''ERR_INVALID_PARAMS'')
     | Some i \<Rightarrow> tx_bind (attempt (find_template i)) (\<lambda>found. case found of
         Inl _ \<Rightarrow> tx_return (404, ''ERR_NOT_FOUND'')
       | Inr c0 \<Rightarrow> (case parseCouponTemplate body of
           None \<Rightarrow> tx_return (400, ''ERR_PARSE_PAYLOAD'')
         | Some c \<Rightarrow> tx_bind (attempt (validateTemplate c)) (\<lambda>v. case v of
             Inl e \<Rightarrow> tx_return (400, couponTemplateValidationMessageCode e)
           | Inr c' \<Rightarrow> tx_bind (attempt (update_templates (\<lambda>r. ct_ID r = ct_ID c0)
               (\<lambda>r. r \<lparr> ct_Name := ct_Name c', ct_DiscountType := ct_DiscountType c', ct_DiscountValue := ct_DiscountValue c',
                  ct_PackageIDs := ct_PackageIDs c', ct_ValidDays := ct_ValidDays c',
                  ct_Enabled := (case ct_Enabled c' of None \<Rightarrow> ct_Enabled r | Some b \<Rightarrow> Some b) \<rparr>))) (\<lambda>r. case r of
                 Inl _ \<Rightarrow> tx_return (500, ''ERR_DB_UPDATE'') | Inr _ \<Rightarrow> tx_return (200, ''SUCCESS_UPDATED''))))))"

definition AdminDeleteCouponTemplate :: "string \<Rightarrow> response tx" where
  "AdminDeleteCouponTemplate idParam = (case ParseInt 64 idParam of
       None \<Rightarrow> tx_return (400, ''ERR_INVALID_PARAMS'')
     | Some i \<Rightarrow> tx_bind (attempt (stmt (\<lambda>t. ((), t \<lparr> coupon_templates :=
           filter (\<lambda>c. int (ct_ID c) \<noteq> i) (coupon_templates t) \<rparr>)))) (\<lambda>r. case r of
         Inl _ \<Rightarrow> tx_return (500, ''ERR_DB_DELETE'') | Inr _ \<Rightarrow> tx_return (200, ''SUCCESS_DELETED'')))"

subsection \<open>Granting\<close>

definition errCouponTemplateChanged :: db_error where
  "errCouponTemplateChanged = Rejected ''coupon template state changed concurrently''"

definition errTargetUserChanged :: db_error where
  "errTargetUserChanged = Rejected ''target user role/status changed concurrently''"

definition errBuildCoupon :: db_error where
  "errBuildCoupon = Rejected ''build coupon''"

definition snapshotTemplate :: "CouponTemplate \<Rightarrow> UserCoupon \<Rightarrow> UserCoupon" where
  "snapshotTemplate c u = u \<lparr> uc_SnapshotName := ct_Name c, uc_SnapshotType := ct_DiscountType c,
     uc_SnapshotValue := ct_DiscountValue c, uc_SnapshotPackageIDs := ct_PackageIDs c \<rparr>"

definition buildCouponFromTemplate :: "nat \<Rightarrow> CouponTemplate \<Rightarrow> nat \<Rightarrow> nanos \<Rightarrow> string option \<Rightarrow> UserCoupon option" where
  "buildCouponFromTemplate uid c op now rnd = map_option (\<lambda>r. snapshotTemplate c
     \<lparr> uc_ID = 0, uc_UserID = uid, uc_TemplateID = ct_ID c, uc_Code = generateCouponCode uid (ct_ID c) r,
       uc_Status = ''available'', uc_SnapshotName = '''', uc_SnapshotType = '''', uc_SnapshotValue = 0,
       uc_SnapshotPackageIDs = '''', uc_GrantedBy = op, uc_GrantedAt = now,
       uc_ExpiresAt = (if 0 < ct_ValidDays c then Some (now + ct_ValidDays c * 86400000000000) else None),
       uc_UsedAt = None, uc_UsedOnSubID = None, uc_UsedSavingUSD = 0 \<rparr>) rnd"

text \<open>The unique index on the code fails the insert.\<close>

definition insert_coupon :: "UserCoupon \<Rightarrow> nat tx" where
  "insert_coupon u = tx_bind (stmt (\<lambda>t. if list_ex (\<lambda>r. uc_Code r = uc_Code u) (user_coupons t) then (None, t)
       else let i = Suc (length (user_coupons t)) in (Some i, t \<lparr> user_coupons := user_coupons t @ [u \<lparr> uc_ID := i \<rparr>] \<rparr>)))
     (\<lambda>r. case r of None \<Rightarrow> tx_throw DbError | Some i \<Rightarrow> tx_return i)"

fun create_coupons :: "nat \<Rightarrow> CouponTemplate \<Rightarrow> nat \<Rightarrow> nanos \<Rightarrow> string option list \<Rightarrow> unit tx" where
  "create_coupons uid c op now [] = tx_return ()"
| "create_coupons uid c op now (r # rs) = (case buildCouponFromTemplate uid c op now r of
       None \<Rightarrow> tx_throw errBuildCoupon
     | Some u \<Rightarrow> tx_bind (insert_coupon u) (\<lambda>_. create_coupons uid c op now rs))"

definition target_active :: "nat \<Rightarrow> unit tx" where
  "target_active uid = tx_bind (lockUserForUpdate uid) (\<lambda>_.
     tx_bind (query_first (\<lambda>t. users t uid)) (\<lambda>u.
       if u_Status u \<noteq> 1 then tx_throw errTargetUserChanged else tx_return ()))"

definition enabled_template :: "nat \<Rightarrow> CouponTemplate tx" where
  "enabled_template tid = tx_bind (find_template (int tid)) (\<lambda>c.
     if CouponTemplate_IsEnabled c then tx_return c else tx_throw errCouponTemplateChanged)"

definition grant_body :: "nat \<Rightarrow> nat \<Rightarrow> nat \<Rightarrow> nanos \<Rightarrow> string option list \<Rightarrow> unit tx" where
  "grant_body uid tid op now rnds =
     tx_bind (target_active uid) (\<lambda>_. tx_bind (enabled_template tid) (\<lambda>c.
       tx_bind (create_coupons uid c op now rnds) (\<lambda>_. LogOperationByTx op uid ''admin'' ''GRANT_COUPON'')))"

record grant_coupon_request =
  gc_UserID :: nat
  gc_TemplateID :: nat
  gc_Reason :: string
  gc_Quantity :: "int option"

text \<open>The number asked for, one when none is given.\<close>

definition checked_quantity :: "int option \<Rightarrow> int \<Rightarrow> string + nat" where
  "checked_quantity q limit = (let n = (case q of None \<Rightarrow> 1 | Some n \<Rightarrow> n) in
     if n < 1 then Inl ''ERR_INVALID_QUANTITY''
     else if limit < n then Inl ''ERR_QUANTITY_TOO_LARGE'' else Inr (nat n))"

definition grant_response :: "(db_error + unit) \<Rightarrow> response" where
  "grant_response r = (case r of Inr _ \<Rightarrow> (200, ''SUCCESS_GRANTED'')
     | Inl e \<Rightarrow> if e = errCouponTemplateChanged then (409, ''ERR_TEMPLATE_DISABLED'')
         else if e = errTargetUserChanged then (409, ''ERR_USER_CHANGED'')
         else if e = errBuildCoupon then (500, ''ERR_RAND_FAILED'') else (500, ''ERR_DB_CREATE''))"

text \<open>\<open>rnd i\<close> is the random part of the \<open>i\<close>-th coupon of the request.\<close>

definition AdminGrantCoupon :: "nanos \<Rightarrow> (nat \<Rightarrow> string option) \<Rightarrow> nat \<Rightarrow> grant_coupon_request option \<Rightarrow> response tx" where
  "AdminGrantCoupon now rnd op body = (case body of None \<Rightarrow> tx_return (400, ''ERR_PARSE_PAYLOAD'')
     | Some p \<Rightarrow>
       if gc_UserID p = 0 \<or> gc_TemplateID p = 0 then tx_return (400, ''ERR_REQUIRED'')
       else (case checked_quantity (gc_Quantity p) 100 of Inl code \<Rightarrow> tx_return (400, code)
       | Inr qty \<Rightarrow> (case validateAdminReason (TrimSpace (gc_Reason p)) of Some code \<Rightarrow> tx_return (400, code)
       | None \<Rightarrow>
         tx_bind (attempt (query_first (\<lambda>t. users t (gc_UserID p)))) (\<lambda>u. case u of
             Inl _ \<Rightarrow> tx_return (404, ''ERR_USER_NOT_FOUND'')
           | Inr _ \<Rightarrow> tx_bind (attempt (find_template (int (gc_TemplateID p)))) (\<lambda>c. case c of
               Inl _ \<Rightarrow> tx_return (404, ''ERR_TEMPLATE_NOT_FOUND'')
             | Inr tpl \<Rightarrow> if \<not> CouponTemplate_IsEnabled tpl then tx_return (400, ''ERR_TEMPLATE_DISABLED'')
                 else tx_bind (attempt (transaction (grant_body (gc_UserID p) (gc_TemplateID p) op now (map rnd [0..<qty]))))
                   (\<lambda>r. tx_return (grant_response r)))))))"

subsection \<open>Granting to many\<close>

record bulk_grant_request =
  bg_UserIDs :: "nat list"
  bg_TemplateID :: nat
  bg_Reason :: string
  bg_Quantity :: "int option"

fun bulk_users :: "CouponTemplate \<Rightarrow> nat \<Rightarrow> nanos \<Rightarrow> (nat \<Rightarrow> nat \<Rightarrow> string option) \<Rightarrow> nat \<Rightarrow> nat list \<Rightarrow> unit tx" where
  "bulk_users c op now rnd qty [] = tx_return ()"
| "bulk_users c op now rnd qty (uid # uids) =
     tx_bind (target_active uid) (\<lambda>_.
       tx_bind (create_coupons uid c op now (map (rnd uid) [0..<qty])) (\<lambda>_.
         tx_bind (LogOperationByTx op uid ''admin'' ''GRANT_COUPON_BULK'') (\<lambda>_. bulk_users c op now rnd qty uids)))"

definition bulk_body :: "nat \<Rightarrow> nat \<Rightarrow> nanos \<Rightarrow> (nat \<Rightarrow> nat \<Rightarrow> string option) \<Rightarrow> nat \<Rightarrow> nat list \<Rightarrow> unit tx" where
  "bulk_body tid op now rnd qty uids = tx_bind (enabled_template tid) (\<lambda>c. bulk_users c op now rnd qty uids)"

text \<open>The users of a batch: without zeros and repetitions, ascending.\<close>

definition batch_users :: "nat list \<Rightarrow> nat list" where
  "batch_users ids = sort (remdups (filter (\<lambda>i. 0 < i) ids))"

definition AdminBulkGrantCoupon ::
  "nanos \<Rightarrow> (nat \<Rightarrow> nat \<Rightarrow> string option) \<Rightarrow> nat \<Rightarrow> bulk_grant_request option \<Rightarrow> response tx" where
  "AdminBulkGrantCoupon now rnd op body = (case body of None \<Rightarrow> tx_return (400, ''ERR_PARSE_PAYLOAD'')
     | Some p \<Rightarrow>
       if bg_UserIDs p = [] \<or> bg_TemplateID p = 0 then tx_return (400, ''ERR_REQUIRED'')
       else if 50 < length (bg_UserIDs p) then tx_return (400, ''ERR_BULK_LIMIT'')
       else (case checked_quantity (bg_Quantity p) 10 of Inl code \<Rightarrow> tx_return (400, code)
       | Inr qty \<Rightarrow> (case validateAdminReason (TrimSpace (bg_Reason p)) of Some code \<Rightarrow> tx_return (400, code)
       | None \<Rightarrow>
         tx_bind (attempt (find_template (int (bg_TemplateID p)))) (\<lambda>c. case c of
             Inl _ \<Rightarrow> tx_return (404, ''ERR_TEMPLATE_NOT_FOUND'')
           | Inr tpl \<Rightarrow> if \<not> CouponTemplate_IsEnabled tpl then tx_return (400, ''ERR_TEMPLATE_DISABLED'')
               else tx_bind (attempt (transaction (bulk_body (bg_TemplateID p) op now rnd qty (batch_users (bg_UserIDs p)))))
                 (\<lambda>r. tx_return (case r of Inl _ \<Rightarrow> (409, ''ERR_BULK_GRANT_ABORTED'')
                    | Inr _ \<Rightarrow> (200, ''SUCCESS_BULK_GRANTED'')))))))"

subsection \<open>Taking back and using\<close>

definition errCouponNotRevokable :: db_error where
  "errCouponNotRevokable = Rejected ''coupon not revokable''"

definition errCouponInvalid :: db_error where
  "errCouponInvalid = Rejected ''coupon invalid''"

definition errCouponNotApplicable :: db_error where
  "errCouponNotApplicable = Rejected ''coupon not applicable to this package''"

definition errCouponSnapshotBelowCostFloor :: db_error where
  "errCouponSnapshotBelowCostFloor = Rejected ''coupon snapshot fixed_price below package cost_floor''"

definition open_coupon :: "nanos \<Rightarrow> UserCoupon \<Rightarrow> bool" where
  "open_coupon now u \<longleftrightarrow> uc_Status u = ''available'' \<and> (case uc_ExpiresAt u of None \<Rightarrow> True | Some e \<Rightarrow> now < e)"

definition update_coupons :: "(UserCoupon \<Rightarrow> bool) \<Rightarrow> (UserCoupon \<Rightarrow> UserCoupon) \<Rightarrow> nat tx" where
  "update_coupons c f = stmt (\<lambda>t. (length (filter c (user_coupons t)),
     t \<lparr> user_coupons := map (\<lambda>r. if c r then f r else r) (user_coupons t) \<rparr>))"

definition revoke_body :: "nanos \<Rightarrow> nat \<Rightarrow> int \<Rightarrow> unit tx" where
  "revoke_body now op i =
     tx_bind (tx_catch (query_first (\<lambda>t. find (\<lambda>u. int (uc_ID u) = i \<and> open_coupon now u) (user_coupons t)))
         (\<lambda>e. tx_throw (if e = RecordNotFound then errCouponNotRevokable else e))) (\<lambda>u.
       tx_bind (update_coupons (\<lambda>u. int (uc_ID u) = i \<and> open_coupon now u) (\<lambda>u. u \<lparr> uc_Status := ''revoked'' \<rparr>)) (\<lambda>n.
         if n \<noteq> 1 then tx_throw errCouponNotRevokable
         else LogOperationByTx op (uc_UserID u) ''admin'' ''REVOKE_COUPON''))"

text \<open>The body is optional: what cannot be parsed is an empty reason.\<close>

definition AdminRevokeCoupon :: "nanos \<Rightarrow> nat \<Rightarrow> string \<Rightarrow> string option \<Rightarrow> response tx" where
  "AdminRevokeCoupon now op idParam reason = (case ParseInt 64 idParam of
       None \<Rightarrow> tx_return (400, ''ERR_INVALID_PARAMS'')
     | Some i \<Rightarrow> (case validateAdminReason (TrimSpace (case reason of None \<Rightarrow> '''' | Some r \<Rightarrow> r)) of
         Some code \<Rightarrow> tx_return (400, code)
       | None \<Rightarrow> tx_bind (attempt (transaction (revoke_body now op i))) (\<lambda>r. tx_return (case r of
             Inr _ \<Rightarrow> (200, ''SUCCESS_REVOKED'')
           | Inl e \<Rightarrow> if e = errCouponNotRevokable then (409, ''ERR_COUPON_NOT_REVOKABLE'') else (500, ''ERR_DB_UPDATE'')))))"

definition lockAndApplyCoupon :: "nanos \<Rightarrow> nat \<Rightarrow> nat \<Rightarrow> nat \<Rightarrow> Package \<Rightarrow> UserCoupon tx" where
  "lockAndApplyCoupon now uid couponID pid p =
     tx_bind (tx_catch (query_first (\<lambda>t. find (\<lambda>u. uc_ID u = couponID \<and> uc_UserID u = uid) (user_coupons t)))
         (\<lambda>e. tx_throw (if e = RecordNotFound then errCouponInvalid else e))) (\<lambda>u.
       if \<not> IsAvailable now u then tx_throw errCouponInvalid
       else case parsePackageIDsStrict (uc_SnapshotPackageIDs u) of
           None \<Rightarrow> tx_throw errCouponInvalid
         | Some allowed \<Rightarrow>
           if \<not> AppliesToPackage pid allowed then tx_throw errCouponNotApplicable
           else if uc_SnapshotType u = ''fixed_price'' \<and> uc_SnapshotValue u \<le> 0 then tx_throw errCouponInvalid
           else if uc_SnapshotType u = ''fixed_price'' \<and> 0 < couponPackageEffectiveLowerBoundMicroUSD p
               \<and> uc_SnapshotValue u < couponPackageEffectiveLowerBoundMicroUSD p
             then tx_throw errCouponSnapshotBelowCostFloor
           else tx_bind (update_coupons (\<lambda>r. uc_ID r = uc_ID u \<and> uc_UserID r = uid \<and> open_coupon now r)
               (\<lambda>r. r \<lparr> uc_Status := ''used'', uc_UsedAt := Some now \<rparr>)) (\<lambda>n.
             if n \<noteq> 1 then tx_throw errCouponInvalid
             else tx_return (u \<lparr> uc_Status := ''used'', uc_UsedAt := Some now \<rparr>)))"

end
