(* ===== verification/Referral.thy ===== *)
theory Referral
  imports Ledger Money SysConfig
begin

section \<open>Referral rewards on paid spending (\<^verbatim>\<open>database/referral_reward.go\<close>)\<close>

text \<open>
  A referrer earns a share, in basis points, of what a referred user spends out of money the
  user paid in. \<open>u_PaidQuota\<close> is a floor under the balance: credit that was not paid for is
  spent first, and the part of a spending by which the balance falls below the old floor is
  the eligible part. The lemmas bound a reward by the eligible part, keep the floor under the
  balance, and keep the ledger reconciled.
\<close>

definition DefaultReferralPaidSpendRewardWindowSeconds :: int64 where
  "DefaultReferralPaidSpendRewardWindowSeconds = 30 * 24 * 60 * 60"

definition NormalizeReferralRewardBPS :: "int64 \<Rightarrow> int64" where
  "NormalizeReferralRewardBPS bps = (if bps < 0 then 0 else if 10000 < bps then 10000 else bps)"

definition NormalizeReferralRewardWindowSeconds :: "int64 \<Rightarrow> int64" where
  "NormalizeReferralRewardWindowSeconds seconds =
     (if seconds < 60 then DefaultReferralPaidSpendRewardWindowSeconds
      else let mx = 365 * 24 * 60 * 60 in if mx < seconds then mx else seconds)"

definition ApplyBasisPointsFloor :: "int64 \<Rightarrow> int64 \<Rightarrow> int64" where
  "ApplyBasisPointsFloor amountMicro bps =
     (if amountMicro \<le> 0 \<or> bps \<le> 0 then 0
      else let result = (amountMicro * bps) sdiv 10000 in
        if \<not> in_i64 result then i64_max else result)"

definition trim_right_zeros :: "string \<Rightarrow> string" where
  "trim_right_zeros s = rev (dropWhile (\<lambda>c. c = CHR ''0'') (rev s))"

definition FormatBasisPointsPercent :: "int64 \<Rightarrow> string" where
  "FormatBasisPointsPercent bps0 =
     (let bps = NormalizeReferralRewardBPS bps0 in
      if bps = 0 then ''0%''
      else let whole = bps sdiv 100; frac = bps smod 100 in
        if frac = 0 then show_int whole @ ''%''
        else show_int whole @ ''.'' @ trim_right_zeros (pad_zero 2 (show_int frac)) @ ''%'')"

definition readReferralPaidSpendRewardConfig :: "sysconfig \<Rightarrow> int64 \<times> int64" where
  "readReferralPaidSpendRewardConfig cfg =
     (let bps = (case ParseInt 64 (TrimSpace (sysConfigValue cfg ''referral_paid_spend_reward_bps'')) of
                   None \<Rightarrow> 0 | Some n \<Rightarrow> n);
          w = (case ParseInt 64 (TrimSpace (sysConfigValue cfg ''referral_paid_spend_reward_window_seconds'')) of
                   None \<Rightarrow> DefaultReferralPaidSpendRewardWindowSeconds | Some n \<Rightarrow> n)
      in (NormalizeReferralRewardBPS bps, NormalizeReferralRewardWindowSeconds w))"

record referral_result =
  rr_ReferrerID :: nat
  rr_RefereeID :: nat
  rr_EligibleSpendMicroUSD :: int64
  rr_RewardMicroUSD :: int64
  rr_RateBPS :: int64
  rr_WindowSeconds :: int64
  rr_WithinRewardWindow :: bool

definition no_reward :: referral_result where
  "no_reward = \<lparr> rr_ReferrerID = 0, rr_RefereeID = 0, rr_EligibleSpendMicroUSD = 0,
     rr_RewardMicroUSD = 0, rr_RateBPS = 0, rr_WindowSeconds = 0, rr_WithinRewardWindow = False \<rparr>"

definition remaining_paid :: "user \<Rightarrow> int64" where
  "remaining_paid u =
     (let r = (if u_Quota u < u_PaidQuota u then u_Quota u else u_PaidQuota u) in if r < 0 then 0 else r)"

definition eligible_spend :: "user \<Rightarrow> int64 \<Rightarrow> int64" where
  "eligible_spend u spend =
     (let reduction = u_PaidQuota u - remaining_paid u;
          e = (if spend < reduction then spend else reduction) in if e < 0 then 0 else e)"

definition reward_entry :: "nat \<Rightarrow> nanos \<Rightarrow> int64 \<Rightarrow> int64 \<Rightarrow> string \<Rightarrow> nat \<Rightarrow> billing_entry" where
  "reward_entry referrer occ amount balance relType relID = blank_entry
     \<lparr> be_UserID := referrer, be_OccurredAt := occ, be_EntryType := ''bonus_credit'',
       be_AmountUSD := amount, be_BalanceAfterUSD := balance,
       be_RelatedType := relType, be_RelatedID := relID \<rparr>"

text \<open>The payment of a reward of \<open>reward\<close> micro-USD; \<open>False\<close> when no eligible referrer exists.\<close>

definition pay_reward :: "nanos \<Rightarrow> nat \<Rightarrow> int64 \<Rightarrow> nanos \<Rightarrow> string \<Rightarrow> nat \<Rightarrow> bool tx" where
  "pay_reward now referrer reward occurredAt relType relID =
     tx_bind (stmt (update_user_if referrer
         (\<lambda>u. u_Role u = ''user'' \<and> u_Status u = 1)
         (\<lambda>u. u \<lparr> u_Quota := u_Quota u + reward \<rparr>))) (\<lambda>n.
       if n = 0 then tx_return False
       else tx_bind (query_first (\<lambda>t. users t referrer)) (\<lambda>fresh.
         tx_bind (WriteBillingEntry now (reward_entry referrer occurredAt reward (u_Quota fresh) relType relID))
           (\<lambda>_. tx_return True)))"

text \<open>The report of the eligible part, and the reward that is due for it (\<open>0\<close> when there is no
  referrer, the window is over, or no rate is set).\<close>

definition reward_due :: "nat \<Rightarrow> user \<Rightarrow> int64 \<Rightarrow> int64 \<Rightarrow> int64 \<Rightarrow> nanos \<Rightarrow> referral_result \<times> int64" where
  "reward_due refereeID referee eligible rateBPS windowSeconds occurredAt =
     (let result = no_reward \<lparr> rr_RefereeID := refereeID, rr_EligibleSpendMicroUSD := eligible,
            rr_RateBPS := rateBPS, rr_WindowSeconds := windowSeconds \<rparr> in
      if eligible \<le> 0 then (result, 0)
      else if u_ReferredByUserID referee = 0 \<or> u_ReferredByUserID referee = refereeID
           \<or> u_ReferredAt referee = None then (result, 0)
      else let inWin = occurredAt \<le> the (u_ReferredAt referee) + windowSeconds * 1000000000;
               result1 = result \<lparr> rr_ReferrerID := u_ReferredByUserID referee,
                                  rr_WithinRewardWindow := inWin \<rparr>;
               reward = ApplyBasisPointsFloor eligible rateBPS in
        if \<not> inWin \<or> rateBPS \<le> 0 then (result1, 0)
        else if reward \<le> 0 then (result1, 0) else (result1, reward))"

definition consume_paid :: "nat \<Rightarrow> user \<Rightarrow> unit tx" where
  "consume_paid refereeID referee =
     (if 0 < u_PaidQuota referee - remaining_paid referee
      then tx_bind (stmt (update_user_if refereeID (\<lambda>_. True)
             (\<lambda>u. u \<lparr> u_PaidQuota := remaining_paid referee \<rparr>))) (\<lambda>_. tx_return ())
      else tx_return ())"

definition ApplyReferralPaidSpendRewardTx ::
  "nanos \<Rightarrow> nat \<Rightarrow> int64 \<Rightarrow> int64 \<Rightarrow> int64 \<Rightarrow> nanos \<Rightarrow> string \<Rightarrow> nat \<Rightarrow> referral_result tx" where
  "ApplyReferralPaidSpendRewardTx now refereeID spend rateBPS0 windowSeconds0 occurredAt0 relType relID =
     (let rateBPS = NormalizeReferralRewardBPS rateBPS0;
          windowSeconds = NormalizeReferralRewardWindowSeconds windowSeconds0 in
      if refereeID = 0 \<or> spend \<le> 0 then tx_return no_reward
      else let occurredAt = (if occurredAt0 = 0 then now else occurredAt0) in
        tx_bind (query_first (\<lambda>t. users t refereeID)) (\<lambda>referee.
          if u_PaidQuota referee \<le> 0 then tx_return no_reward
          else let due = reward_due refereeID referee (eligible_spend referee spend)
                           rateBPS windowSeconds occurredAt in
            tx_bind (consume_paid refereeID referee) (\<lambda>_.
              if snd due = 0 then tx_return (fst due)
              else tx_bind (pay_reward now (u_ReferredByUserID referee) (snd due) occurredAt relType relID)
                (\<lambda>paid. tx_return (if paid then (fst due) \<lparr> rr_RewardMicroUSD := snd due \<rparr> else fst due)))))"

subsection \<open>Arithmetic of rewards\<close>

lemma NormalizeBPS_range: "0 \<le> NormalizeReferralRewardBPS b \<and> NormalizeReferralRewardBPS b \<le> 10000"
  by (simp add: NormalizeReferralRewardBPS_def)

lemma NormalizeWindow_range:
  "60 \<le> NormalizeReferralRewardWindowSeconds s \<and> NormalizeReferralRewardWindowSeconds s \<le> 31536000"
  by (simp add: NormalizeReferralRewardWindowSeconds_def DefaultReferralPaidSpendRewardWindowSeconds_def)

lemma BasisPoints_le: "0 \<le> a \<Longrightarrow> b \<le> 10000 \<Longrightarrow> in_i64 a \<Longrightarrow>
  0 \<le> ApplyBasisPointsFloor a b \<and> ApplyBasisPointsFloor a b \<le> a"
proof -
  assume a: "0 \<le> a" "b \<le> 10000" "in_i64 a"
  show ?thesis
  proof (cases "0 < a \<and> 0 < b")
    case True
    have "a * b \<le> a * 10000" by (rule mult_left_mono) (use a in auto)
    then have "a * b div 10000 \<le> a * 10000 div 10000" by (rule zdiv_mono1) simp
    then have "a * b div 10000 \<le> a" by simp
    moreover have "0 \<le> a * b div 10000" using True by (simp add: pos_imp_zdiv_nonneg_iff)
    moreover have "in_i64 (a * b div 10000)"
      using calculation a(3) by (auto simp: i64_defs)
    ultimately show ?thesis using True by (simp add: ApplyBasisPointsFloor_def Let_def sdiv_nonneg)
  next
    case False
    then show ?thesis using a by (auto simp: ApplyBasisPointsFloor_def)
  qed
qed

lemma BasisPoints_exact:
  "0 < a \<Longrightarrow> 0 < b \<Longrightarrow> b \<le> 10000 \<Longrightarrow> in_i64 a \<Longrightarrow> ApplyBasisPointsFloor a b = a * b div 10000"
  using BasisPoints_le [of a b]
  by (auto simp: ApplyBasisPointsFloor_def Let_def sdiv_nonneg i64_defs split: if_splits)

lemma eligible_bounds:
  "0 \<le> spend \<Longrightarrow> 0 \<le> eligible_spend u spend \<and> eligible_spend u spend \<le> spend
    \<and> (0 < u_PaidQuota u \<longrightarrow> eligible_spend u spend \<le> u_PaidQuota u - remaining_paid u
        \<and> 0 \<le> remaining_paid u \<and> remaining_paid u \<le> u_PaidQuota u
        \<and> (0 \<le> u_Quota u \<longrightarrow> remaining_paid u \<le> u_Quota u))"
  by (auto simp: eligible_spend_def remaining_paid_def Let_def)

subsection \<open>What the transaction part does\<close>

lemma pay_reward_Inr:
  "pay_reward now ref rew occ rt ri (t, fs) = (Inr paid, (t', fs')) \<Longrightarrow>
    (\<not> paid \<and> t' = t)
    \<or> (paid \<and> (\<exists>u. users t ref = Some u \<and> u_Role u = ''user'' \<and> u_Status u = 1
        \<and> t' = t \<lparr> users := (users t)(ref \<mapsto> u \<lparr> u_Quota := u_Quota u + rew \<rparr>),
             billing := billing t @ [booked now (reward_entry ref occ rew (u_Quota u + rew) rt ri)] \<rparr>
        \<and> entry_ok (booked now (reward_entry ref occ rew (u_Quota u + rew) rt ri))))"
  by (auto simp: pay_reward_def tx_Inr WriteBillingEntry_Inr update_user_if_def
      split: option.splits if_splits)

text \<open>One step of the reward, read off a successful run: the paid floor falls to
  \<open>remaining_paid\<close>, and at most one reward of at most the eligible part is booked.\<close>

definition lower_floor :: "nat \<Rightarrow> tables \<Rightarrow> tables" where
  "lower_floor uid t = (case users t uid of None \<Rightarrow> t
     | Some u \<Rightarrow> if 0 < u_PaidQuota u \<and> remaining_paid u < u_PaidQuota u
                then t \<lparr> users := (users t)(uid \<mapsto> u \<lparr> u_PaidQuota := remaining_paid u \<rparr>) \<rparr> else t)"

lemma lower_floor_billing [simp]: "billing (lower_floor uid t) = billing t"
  by (simp add: lower_floor_def split: option.split)

lemma lower_floor_quota:
  "users (lower_floor uid t) k = Some u' \<Longrightarrow> \<exists>u. users t k = Some u \<and> u_Quota u' = u_Quota u"
  by (auto simp: lower_floor_def split: option.splits if_splits)

lemma reward_due_cases:
  "reward_due uid u el bps win occ = (r, rew) \<Longrightarrow> rr_RewardMicroUSD r = 0 \<and>
    (rew \<noteq> 0 \<longrightarrow> 0 < rew \<and> rew = ApplyBasisPointsFloor el bps \<and> 0 < el \<and> u_ReferredByUserID u \<noteq> uid)"
  by (auto simp: reward_due_def no_reward_def Let_def split: if_splits)

lemma consume_paid_Inr:
  "consume_paid uid u (t, fs) = (Inr a, (t', fs')) \<Longrightarrow> users t uid = Some u \<Longrightarrow> 0 < u_PaidQuota u
    \<Longrightarrow> t' = lower_floor uid t"
  by (auto simp: consume_paid_def tx_Inr update_user_if_def lower_floor_def split: if_splits)

lemma lower_floor_other: "k \<noteq> uid \<Longrightarrow> users (lower_floor uid t) k = users t k"
  by (simp add: lower_floor_def split: option.split)

text \<open>The booking of a reward, as one change of the tables.\<close>

definition book_reward :: "nat \<Rightarrow> billing_entry \<Rightarrow> tables \<Rightarrow> tables" where
  "book_reward ref e t = (case users t ref of None \<Rightarrow> t
     | Some v \<Rightarrow> t \<lparr> users := (users t)(ref \<mapsto> v \<lparr> u_Quota := u_Quota v + be_AmountUSD e \<rparr>),
                   billing := billing t @ [e] \<rparr>)"

lemma pay_reward_book:
  assumes "pay_reward now ref rew occ rt ri (t, fs) = (Inr True, (t', fs'))"
  shows "\<exists>v e. users t ref = Some v \<and> u_Role v = ''user'' \<and> u_Status v = 1 \<and> entry_ok e
    \<and> be_UserID e = ref \<and> be_AmountUSD e = rew \<and> be_EntryType e = ''bonus_credit''
    \<and> be_BalanceAfterUSD e = u_Quota v + rew \<and> t' = book_reward ref e t"
  using pay_reward_Inr [OF assms]
  by (fastforce simp: book_reward_def reward_entry_def)

lemma referral_Inr:
  assumes run: "ApplyReferralPaidSpendRewardTx now uid spend bps win occ rt ri (t, fs) = (Inr r, (t', fs'))"
    and "0 < spend" "uid \<noteq> 0"
  obtains (none) u where "users t uid = Some u" "t' = lower_floor uid t" "rr_RewardMicroUSD r = 0"
  | (paid) u v e where "users t uid = Some u" "0 < u_PaidQuota u" "u_ReferredByUserID u \<noteq> uid"
      "0 < eligible_spend u spend" "0 < rr_RewardMicroUSD r"
      "rr_RewardMicroUSD r = ApplyBasisPointsFloor (eligible_spend u spend) (NormalizeReferralRewardBPS bps)"
      "users t (u_ReferredByUserID u) = Some v" "u_Role v = ''user''" "u_Status v = 1" "entry_ok e"
      "be_UserID e = u_ReferredByUserID u" "be_AmountUSD e = rr_RewardMicroUSD r"
      "be_EntryType e = ''bonus_credit''" "be_BalanceAfterUSD e = u_Quota v + rr_RewardMicroUSD r"
      "t' = book_reward (u_ReferredByUserID u) e (lower_floor uid t)"
proof -
  from run assms(2,3) obtain u where u: "users t uid = Some u"
    by (auto simp: ApplyReferralPaidSpendRewardTx_def Let_def tx_Inr)
  show thesis
  proof (cases "u_PaidQuota u \<le> 0")
    case True
    with run assms(2,3) u have "t' = lower_floor uid t \<and> rr_RewardMicroUSD r = 0"
      by (auto simp: ApplyReferralPaidSpendRewardTx_def Let_def tx_Inr lower_floor_def no_reward_def)
    with u none show thesis by blast
  next
    case False
    let ?occ = "if occ = 0 then now else occ"
    obtain d rew where due: "reward_due uid u (eligible_spend u spend) (NormalizeReferralRewardBPS bps)
        (NormalizeReferralRewardWindowSeconds win) ?occ = (d, rew)" by force
    note dc = reward_due_cases [OF due]
    from run assms(2,3) u False due obtain t1 fs1 fs2 where
      1: "consume_paid uid u (t, fs1) = (Inr (), (t1, fs2))" and
      2: "(if rew = 0 then tx_return d
        else tx_bind (pay_reward now (u_ReferredByUserID u) rew ?occ rt ri)
          (\<lambda>paid. tx_return (if paid then d \<lparr> rr_RewardMicroUSD := rew \<rparr> else d))) (t1, fs2)
        = (Inr r, (t', fs'))"
      by (auto simp: ApplyReferralPaidSpendRewardTx_def Let_def tx_bind_Inr query_first_Inr cong: if_cong)
    have t1: "t1 = lower_floor uid t" using consume_paid_Inr [OF 1 u] False by simp
    show thesis
    proof (cases "rew = 0")
      case True
      with 2 t1 dc u none show thesis by simp
    next
      case rew: False
      with 2 obtain p where p: "pay_reward now (u_ReferredByUserID u) rew ?occ rt ri (t1, fs2)
          = (Inr p, (t', fs'))" and r: "r = (if p then d \<lparr> rr_RewardMicroUSD := rew \<rparr> else d)"
        by (auto simp: tx_bind_Inr)
      show thesis
      proof (cases p)
        case True
        with p have p': "pay_reward now (u_ReferredByUserID u) rew ?occ rt ri (t1, fs2)
          = (Inr True, (t', fs'))" by simp
        from dc rew have nu: "u_ReferredByUserID u \<noteq> uid" by simp
        from pay_reward_book [OF p'] obtain v e where ve: "users t1 (u_ReferredByUserID u) = Some v"
          "u_Role v = ''user''" "u_Status v = 1" "entry_ok e" "be_UserID e = u_ReferredByUserID u"
          "be_AmountUSD e = rew" "be_EntryType e = ''bonus_credit''"
          "be_BalanceAfterUSD e = u_Quota v + rew" "t' = book_reward (u_ReferredByUserID u) e t1" by blast
        show thesis
          by (rule paid [of u v e]) (use u False dc rew r True ve t1 nu in \<open>simp_all add: lower_floor_other\<close>)
      next
        case f: False
        with p pay_reward_Inr [OF p] have "t' = t1" by simp
        with f r dc t1 u none show thesis by simp
      qed
    qed
  qed
qed

lemma referral_reconciled:
  assumes run: "ApplyReferralPaidSpendRewardTx now uid spend bps win occ rt ri (t, fs) = (Inr r, (t', fs'))"
    and rec: "reconciled opening t"
  shows "reconciled opening t'"
proof (cases "0 < spend \<and> uid \<noteq> 0")
  case True
  have low: "reconciled opening (lower_floor uid t)"
    by (rule reconciled_cong [OF rec]) (auto dest: lower_floor_quota)
  from run conjunct1 [OF True] conjunct2 [OF True] show ?thesis
  proof (cases rule: referral_Inr)
    case (none u)
    with low show ?thesis by simp
  next
    case (paid u v e)
    have v: "users (lower_floor uid t) (be_UserID e) = Some v"
      using paid by (simp add: lower_floor_other)
    show ?thesis
      by (rule reconciled_post [OF low v]) (use paid v in \<open>auto simp: book_reward_def split: if_splits\<close>)
  qed
next
  case False
  then show ?thesis using run rec by (auto simp: ApplyReferralPaidSpendRewardTx_def Let_def)
qed

subsection \<open>Properties\<close>

text \<open>The floor after a run: what was paid in, or the balance when that is less, but nothing
  below zero. It is written out here, independently of the code's local variables.\<close>

lemma lowered_floor:
  assumes "users t uid = Some u"
  shows "\<exists>u'. users (lower_floor uid t) uid = Some u' \<and> u_Quota u' = u_Quota u
    \<and> u_PaidQuota u' = (if u_PaidQuota u \<le> 0 then u_PaidQuota u else max 0 (min (u_PaidQuota u) (u_Quota u)))"
  using assms by (auto simp: lower_floor_def remaining_paid_def Let_def)

lemma eligible_fall:
  assumes "0 < u_PaidQuota u" and "0 < spend"
  shows "eligible_spend u spend = min spend (u_PaidQuota u - max 0 (min (u_PaidQuota u) (u_Quota u)))"
  using assms by (auto simp: eligible_spend_def remaining_paid_def Let_def)

text \<open>C22: A referral reward is never more than it should be and is always accounted for. After a
  successful run the floor of paid-in money is the smaller of what it was and the balance, not
  below zero (an empty floor stays as it is), so it never exceeds the balance unless that is
  negative, and then it is not positive; the balance of the spender does not move. The reward is
  nothing, or exactly the basis-point share, rounded down, of the amount by which the floor fell
  or of the spending if that is less, and then it is credited to the referrer, who is another
  user. The balances stay equal to the opening balances plus the booked amounts.\<close>

theorem referral_reward_fair:
  assumes run: "ApplyReferralPaidSpendRewardTx now uid spend bps win occ rt ri (t, fs) = (Inr r, (t', fs'))"
    and "0 < spend" and "uid \<noteq> 0" and "in_i64 spend" and "users t uid = Some u"
  shows "\<exists>u'. users t' uid = Some u' \<and> u_Quota u' = u_Quota u
    \<and> u_PaidQuota u' = (if u_PaidQuota u \<le> 0 then u_PaidQuota u else max 0 (min (u_PaidQuota u) (u_Quota u)))
    \<and> u_PaidQuota u' \<le> max 0 (u_Quota u')
    \<and> rr_RewardMicroUSD r \<in> {0, min spend (u_PaidQuota u - u_PaidQuota u') * NormalizeReferralRewardBPS bps div 10000}
    \<and> 0 \<le> rr_RewardMicroUSD r
    \<and> (rr_RewardMicroUSD r = 0 \<or> (\<exists>v. u_ReferredByUserID u \<noteq> uid \<and> users t (u_ReferredByUserID u) = Some v
        \<and> users t' (u_ReferredByUserID u) = Some (v \<lparr> u_Quota := u_Quota v + rr_RewardMicroUSD r \<rparr>)))
    \<and> (reconciled opening t \<longrightarrow> reconciled opening t')"
proof -
  note rec = referral_reconciled [OF run]
  obtain u' :: user where u': "users (lower_floor uid t) uid = Some u'" "u_Quota u' = u_Quota u"
    "u_PaidQuota u' = (if u_PaidQuota u \<le> 0 then u_PaidQuota u else max 0 (min (u_PaidQuota u) (u_Quota u)))"
    using lowered_floor [OF assms(5)] by blast
  have fl: "u_PaidQuota u' \<le> max 0 (u_Quota u')" using u'(2,3) by auto
  from run assms(2,3) show ?thesis
  proof (cases rule: referral_Inr)
    case (none v)
    moreover have "rr_RewardMicroUSD r \<in> {0, min spend (u_PaidQuota u - u_PaidQuota u') * NormalizeReferralRewardBPS bps div 10000}"
      by (simp only: none(3) insert_iff simp_thms)
    ultimately show ?thesis using u' fl rec by (intro exI [of _ u'] conjI) simp_all
  next
    case (paid v w e)
    from paid(1) assms(5) have vu: "v = u" by simp
    have b0: "0 < NormalizeReferralRewardBPS bps"
      using paid(5,6) by (auto simp: ApplyBasisPointsFloor_def split: if_splits)
    have el: "eligible_spend u spend = min spend (u_PaidQuota u - u_PaidQuota u')"
      using eligible_fall [of u spend] paid(2) vu assms(2) u'(3) by simp
    have "in_i64 (eligible_spend u spend)"
      using eligible_bounds [of spend u] assms(2,4) by (auto simp: i64_defs)
    then have rw: "rr_RewardMicroUSD r = min spend (u_PaidQuota u - u_PaidQuota u') * NormalizeReferralRewardBPS bps div 10000"
      using paid(4,6) vu BasisPoints_exact [OF _ b0 conjunct2 [OF NormalizeBPS_range], of "eligible_spend u spend"] el by simp
    have w: "users (lower_floor uid t) (u_ReferredByUserID u) = Some w"
      using paid(3,7) vu by (simp add: lower_floor_other)
    have "users t' uid = Some u'"
      using paid(3,15) u'(1) vu by (simp add: book_reward_def split: option.split)
    moreover have "users t' (u_ReferredByUserID u) = Some (w \<lparr> u_Quota := u_Quota w + rr_RewardMicroUSD r \<rparr>)"
      using paid(12,15) vu w by (simp add: book_reward_def)
    moreover have "u_ReferredByUserID u \<noteq> uid" "users t (u_ReferredByUserID u) = Some w" "0 \<le> rr_RewardMicroUSD r"
      using paid(3,5,7) unfolding vu by simp_all
    moreover have "rr_RewardMicroUSD r \<in> {0, min spend (u_PaidQuota u - u_PaidQuota u') * NormalizeReferralRewardBPS bps div 10000}"
      by (simp only: rw insert_iff empty_iff simp_thms)
    ultimately show ?thesis using u'(2,3) fl rec by blast
  qed
qed

text \<open>Ann (3) was referred by Bob (5) and falls below her paid-in money by spending.\<close>

definition demo_ann :: user where
  "demo_ann = \<lparr> u_Username = ''ann'', u_Role = ''user'', u_Status = 1, u_Quota = 2000000,
     u_PaidQuota = 3000000, u_ReferredByUserID = 5, u_ReferredAt = Some 100,
     u_BalanceConsumeEnabled = True, u_BalanceConsumeLimitUSD = 0, u_BalanceConsumeWindowSeconds = 3600,
     u_BalanceConsumeWindowStartAt = None, u_BalanceConsumedInWindow = 0 \<rparr>"

definition demo_bob :: user where
  "demo_bob = demo_ann \<lparr> u_Username := ''bob'', u_Quota := 70, u_PaidQuota := 0, u_ReferredByUserID := 0, u_ReferredAt := None \<rparr>"

definition referral_demo :: tables where
  "referral_demo = empty_tables \<lparr> users := [3 \<mapsto> demo_ann, 5 \<mapsto> demo_bob] \<rparr>"

theorem referral_reward_fair_witness:
  "\<exists>r w. ApplyReferralPaidSpendRewardTx 200 3 1500000 500 86400 150 ''api_log'' 1 (referral_demo, [])
      = (Inr r, w) \<and> rr_RewardMicroUSD r = 50000
    \<and> (\<exists>u'. users (fst w) 3 = Some u' \<and> u_PaidQuota u' = 2000000 \<and> u_Quota u' = 2000000)
    \<and> (reconciled (\<lambda>k. bal_col referral_demo k) referral_demo
        \<longrightarrow> reconciled (\<lambda>k. bal_col referral_demo k) (fst w))"
proof -
  have "\<exists>r w. ApplyReferralPaidSpendRewardTx 200 3 1500000 500 86400 150 ''api_log'' 1 (referral_demo, [])
      = (Inr r, w) \<and> rr_RewardMicroUSD r = 50000"
    by (simp add: ApplyReferralPaidSpendRewardTx_def tx_bind_def referral_demo_def demo_ann_def demo_bob_def empty_tables_def
        consume_paid_def remaining_paid_def update_user_if_def reward_due_def eligible_spend_def
        NormalizeReferralRewardBPS_def NormalizeReferralRewardWindowSeconds_def ApplyBasisPointsFloor_def
        pay_reward_def WriteBillingEntry_def insert_entry_def related_taken_def reward_entry_def blank_entry_def IsKnownBillingType_def
        IsKnownBillingState_def known_states_def IsZeroAmountBillingType_def Let_def sdiv_nonneg i64_defs
        no_reward_def)
  then obtain r t' fs' where run: "ApplyReferralPaidSpendRewardTx 200 3 1500000 500 86400 150 ''api_log'' 1
      (referral_demo, []) = (Inr r, (t', fs'))" and rew: "rr_RewardMicroUSD r = 50000" by auto
  have ann: "users referral_demo 3 = Some demo_ann" by (simp add: referral_demo_def)
  have "\<exists>u'. users t' 3 = Some u' \<and> u_PaidQuota u' = 2000000 \<and> u_Quota u' = 2000000"
    using referral_reward_fair [OF run _ _ _ ann] by (auto simp: i64_defs demo_ann_def)
  moreover have "reconciled start referral_demo \<longrightarrow> reconciled start t'" for start
    using referral_reward_fair [OF run _ _ _ ann, of start] by (auto simp: i64_defs)
  ultimately show ?thesis using run rew by (intro exI [of _ r] exI [of _ "(t', fs')"]) simp
qed

end
