(* ===== verification/Subscriptions.thy ===== *)
theory Subscriptions
  imports Coupons Referral
begin

section \<open>Buying, granting and ending subscriptions (\<^verbatim>\<open>controller/subscription_purchase.go\<close>,
  \<^verbatim>\<open>subscription_grant.go\<close>, \<^verbatim>\<open>subscription_admin.go\<close>, \<^verbatim>\<open>subscription.go\<close>, \<^verbatim>\<open>proxy/subscription_cron.go\<close>)\<close>

text \<open>
  The handlers that create subscriptions and change their state. One reading of the clock serves a
  whole request. The logged-in user is the copy of the row the session holds, so its balance may
  be stale. Notifications and refreshed caches are left out.
\<close>

subsection \<open>Statements\<close>

definition insert_sub :: "user_subscription \<Rightarrow> nat tx" where
  "insert_sub s = stmt (\<lambda>t. let i = Suc (sub_seq t) in
     (i, t \<lparr> sub_seq := i, subscriptions := (subscriptions t)(i \<mapsto> s) \<rparr>))"

definition update_sub_if :: "nat \<Rightarrow> (user_subscription \<Rightarrow> bool) \<Rightarrow> (user_subscription \<Rightarrow> user_subscription) \<Rightarrow> tables \<Rightarrow> nat \<times> tables" where
  "update_sub_if i cond f t = (case subscriptions t i of
       None \<Rightarrow> (0, t)
     | Some s \<Rightarrow> if cond s then (1, t \<lparr> subscriptions := (subscriptions t)(i \<mapsto> f s) \<rparr>) else (0, t))"

definition find_package :: "nat \<Rightarrow> Package tx" where
  "find_package pid = query_first (\<lambda>t. map_of (packages t) pid)"

definition count_active :: "nat \<Rightarrow> nat \<Rightarrow> nanos \<Rightarrow> int tx" where
  "count_active uid pid now = stmt (\<lambda>t. (active_count uid pid now t, t))"

definition MaxBillingPeriodSeconds :: int where
  "MaxBillingPeriodSeconds = 5 * 366 * 86400"

definition unix_micro :: "nanos \<Rightarrow> int64" where
  "unix_micro now = now div 1000"

subsection \<open>Buying (\<^verbatim>\<open>PurchasePackage\<close>)\<close>

definition errStackLimitExceeded :: db_error where
  "errStackLimitExceeded = Rejected ''subscription stack limit exceeded''"

definition errInsufficientBalance :: db_error where
  "errInsufficientBalance = Rejected ''insufficient balance at commit''"

definition errPackageGoneInTx :: db_error where
  "errPackageGoneInTx = Rejected ''package vanished during transaction''"

definition errPackageDisabledInTx :: db_error where
  "errPackageDisabledInTx = Rejected ''package disabled during transaction''"

definition errPackageNotPublicInTx :: db_error where
  "errPackageNotPublicInTx = Rejected ''package not public during transaction''"

definition errPackageInvalidNumericInTx :: db_error where
  "errPackageInvalidNumericInTx = Rejected ''package numeric invariant violated during transaction''"

definition errPackagePeriodInvalidInTx :: db_error where
  "errPackagePeriodInvalidInTx = Rejected ''package billing_period_seconds out of range during transaction''"

text \<open>The package as it is now, checked again inside the transaction.\<close>

definition fresh_package :: "nat \<Rightarrow> Package tx" where
  "fresh_package pid = tx_bind (tx_catch (find_package pid) (\<lambda>_. tx_throw errPackageGoneInTx)) (\<lambda>p.
     if \<not> Package_IsEnabled p then tx_throw errPackageDisabledInTx
     else if \<not> pk_Public p then tx_throw errPackageNotPublicInTx
     else if pk_PriceAmount p < 0 then tx_throw errPackageInvalidNumericInTx
     else if pk_BillingPeriodSeconds p \<le> 0 \<or> MaxBillingPeriodSeconds < pk_BillingPeriodSeconds p
       then tx_throw errPackagePeriodInvalidInTx
     else tx_return p)"

definition check_stack :: "nat \<Rightarrow> nat \<Rightarrow> Package \<Rightarrow> nat \<Rightarrow> nanos \<Rightarrow> unit tx" where
  "check_stack uid pid p qty now =
     (if 0 < effective_max p
      then tx_bind (count_active uid pid now) (\<lambda>n.
        if effective_max p < n + int qty then tx_throw errStackLimitExceeded else tx_return ())
      else tx_return ())"

text \<open>The price of each unit: the coupon lowers the first.\<close>

definition unit_prices :: "Package \<Rightarrow> nat \<Rightarrow> UserCoupon option \<Rightarrow> int64 list" where
  "unit_prices p qty coupon = (case coupon of
       None \<Rightarrow> replicate qty (pk_PriceAmount p)
     | Some u \<Rightarrow> SnapshotEffectivePrice u (pk_PriceAmount p) # replicate (qty - 1) (pk_PriceAmount p))"

definition apply_coupon :: "nanos \<Rightarrow> nat \<Rightarrow> nat \<Rightarrow> nat \<Rightarrow> Package \<Rightarrow> UserCoupon option tx" where
  "apply_coupon now uid couponID pid p =
     (if 0 < couponID then tx_bind (lockAndApplyCoupon now uid couponID pid p) (\<lambda>u. tx_return (Some u))
      else tx_return None)"

definition pay_price :: "nat \<Rightarrow> int64 \<Rightarrow> unit tx" where
  "pay_price uid cost =
     (if 0 < cost
      then tx_bind (stmt (update_user_if uid (\<lambda>u. cost \<le> u_Quota u) (\<lambda>u. u \<lparr> u_Quota := u_Quota u - cost \<rparr>))) (\<lambda>n.
        if n = 0 then tx_throw errInsufficientBalance else tx_return ())
      else tx_return ())"

definition bought_sub ::
  "nat \<Rightarrow> nat \<Rightarrow> Package \<Rightarrow> string \<Rightarrow> UserCoupon option \<Rightarrow> nanos \<Rightarrow> int \<Rightarrow> nat \<Rightarrow> int64 \<Rightarrow> user_subscription" where
  "bought_sub uid pid p snapshot coupon now base i price =
     \<lparr> sub_UserID = uid, sub_PackageID = pid, sub_PackageSnapshot = snapshot, sub_StartAt = now,
       sub_EndAt = now + pk_BillingPeriodSeconds p * 1000000000, sub_CanceledAt = None,
       sub_ConsumptionOrder = wrap64 (unix_micro now + int i), sub_StackIndex = base + int i, sub_Status = ''active'',
       sub_IsGranted = False, sub_PurchasedUnitPriceUSD = price,
       sub_AppliedCouponID = (case coupon of Some u \<Rightarrow> if i = 0 then uc_ID u else 0 | None \<Rightarrow> 0) \<rparr>"

fun create_subs :: "(nat \<Rightarrow> 'a \<Rightarrow> user_subscription) \<Rightarrow> nat \<Rightarrow> 'a list \<Rightarrow> nat list tx" where
  "create_subs mk i [] = tx_return []"
| "create_subs mk i (x # xs) = tx_bind (insert_sub (mk i x)) (\<lambda>k.
     tx_bind (create_subs mk (Suc i) xs) (\<lambda>ks. tx_return (k # ks)))"

text \<open>The coupon now names the subscription it was used for.\<close>

definition link_coupon :: "UserCoupon option \<Rightarrow> nat \<Rightarrow> int64 \<Rightarrow> unit tx" where
  "link_coupon coupon subID saving = (case coupon of None \<Rightarrow> tx_return ()
     | Some u \<Rightarrow> tx_bind (update_coupons (\<lambda>r. uc_ID r = uc_ID u)
         (\<lambda>_. u \<lparr> uc_UsedOnSubID := Some subID, uc_UsedSavingUSD := saving \<rparr>)) (\<lambda>_. tx_return ()))"

definition purchase_entry :: "nanos \<Rightarrow> nat \<Rightarrow> string \<Rightarrow> nat \<Rightarrow> int64 \<Rightarrow> int64 \<Rightarrow> billing_entry" where
  "purchase_entry at_time uid currency subID price balance =
     blank_entry \<lparr> be_UserID := uid, be_OccurredAt := at_time, be_EntryType := ''purchase_sub'', be_AmountUSD := - price,
       be_BalanceAfterUSD := balance, be_RelatedType := ''subscription'', be_RelatedID := subID,
       be_CurrencyOriginal := currency, be_AmountOriginal := - price \<rparr>"

fun book_units :: "nanos \<Rightarrow> nat \<Rightarrow> string \<Rightarrow> nat \<Rightarrow> int64 \<Rightarrow> (nat \<times> int64) list \<Rightarrow> unit tx" where
  "book_units now uid currency i bal [] = tx_return ()"
| "book_units now uid currency i bal ((k, price) # us) =
     tx_bind (WriteBillingEntry now (purchase_entry (now + int i * 1000) uid currency k price (bal - price))) (\<lambda>_.
       book_units now uid currency (Suc i) (bal - price) us)"

text \<open>What is done once the price is known: the balance, the rows, the coupon, the ledger, the reward.\<close>

definition sell_units ::
  "sysconfig \<Rightarrow> nanos \<Rightarrow> nat \<Rightarrow> nat \<Rightarrow> Package \<Rightarrow> string \<Rightarrow> UserCoupon option \<Rightarrow> int64 list \<Rightarrow> int64 \<Rightarrow> referral_result tx" where
  "sell_units cfg now uid pid p snapshot coupon prices cost =
     tx_bind (pay_price uid cost) (\<lambda>_.
     tx_bind (getNextStackIndex uid pid) (\<lambda>base.
     tx_bind (create_subs (bought_sub uid pid p snapshot coupon now base) 0 prices) (\<lambda>ids.
     tx_bind (query_first (\<lambda>t. users t uid)) (\<lambda>fresh.
     tx_bind (link_coupon coupon (hd ids) (pk_PriceAmount p - hd prices)) (\<lambda>_.
     tx_bind (book_units now uid (pk_PriceCurrency p) 0 (u_Quota fresh + cost) (zip ids prices)) (\<lambda>_.
       if 0 < cost
       then (case readReferralPaidSpendRewardConfig cfg of (bps, win) \<Rightarrow>
         ApplyReferralPaidSpendRewardTx now uid cost bps win now ''subscription'' (hd ids))
       else tx_return no_reward))))))"

definition purchase_body :: "sysconfig \<Rightarrow> nanos \<Rightarrow> nat \<Rightarrow> nat \<Rightarrow> nat \<Rightarrow> nat \<Rightarrow> referral_result tx" where
  "purchase_body cfg now uid pid qty couponID =
     tx_bind (lockUserForUpdate uid) (\<lambda>_.
     tx_bind (fresh_package pid) (\<lambda>p.
     tx_bind (buildPackageSnapshotTx pid p) (\<lambda>snapshot.
     tx_bind (check_stack uid pid p qty now) (\<lambda>_.
     tx_bind (apply_coupon now uid couponID pid p) (\<lambda>coupon.
       case CheckedSumInt64 (unit_prices p qty coupon) of None \<Rightarrow> tx_throw errPriceOverflow
       | Some cost \<Rightarrow> sell_units cfg now uid pid p snapshot coupon (unit_prices p qty coupon) cost)))))"

definition purchase_response :: "db_error \<Rightarrow> response" where
  "purchase_response e =
     (if e = errStackLimitExceeded then (409, ''ERR_STACK_LIMIT'')
      else if e = errInsufficientBalance then (402, ''ERR_INSUFFICIENT_BALANCE'')
      else if e = errPriceOverflow then (400, ''ERR_PRICE_OVERFLOW'')
      else if e = errCouponSnapshotBelowCostFloor then (409, ''ERR_COUPON_SNAPSHOT_BELOW_COST_FLOOR'')
      else if e = errCouponNotApplicable then (409, ''ERR_COUPON_NOT_APPLICABLE'')
      else if e = errCouponInvalid then (409, ''ERR_COUPON_INVALID'')
      else if e = errPackageGoneInTx then (409, ''ERR_PACKAGE_GONE'')
      else if e = errPackageDisabledInTx then (409, ''ERR_PACKAGE_DISABLED'')
      else if e = errPackageNotPublicInTx then (409, ''ERR_PACKAGE_NOT_PUBLIC'')
      else if e = errPackageInvalidNumericInTx then (500, ''ERR_PACKAGE_INVALID_NUMERIC'')
      else if e = errPackagePeriodInvalidInTx then (500, ''ERR_PACKAGE_INVALID_PERIOD'')
      else (500, ''ERR_DB_TRANSACTION''))"

text \<open>The reward of the referrer is logged after the commit; a failure of that is ignored.\<close>

definition log_reward :: "referral_result \<Rightarrow> unit tx" where
  "log_reward r = (if 0 < rr_RewardMicroUSD r
     then tx_bind (try_tx (LogOperationByTx 0 (rr_ReferrerID r) ''system'' ''REFERRAL_SPEND_REWARD'')) (\<lambda>_. tx_return ())
     else tx_return ())"

definition purchaseAsInstant :: "sysconfig \<Rightarrow> nanos \<Rightarrow> nat \<times> user \<Rightarrow> nat \<times> Package \<Rightarrow> nat \<Rightarrow> nat \<Rightarrow> response tx" where
  "purchaseAsInstant cfg now usr pkg qty couponID =
     (if pk_PriceAmount (snd pkg) < 0 then tx_return (500, ''ERR_PACKAGE_INVALID_NUMERIC'')
      else case (if couponID = 0 then (case CheckedMulInt64 (pk_PriceAmount (snd pkg)) (int qty) of
              None \<Rightarrow> Some (400, ''ERR_PRICE_OVERFLOW'')
            | Some cost \<Rightarrow> if u_Quota (snd usr) < cost then Some (402, ''ERR_INSUFFICIENT_BALANCE'') else None) else None) of
        Some resp \<Rightarrow> tx_return resp
      | None \<Rightarrow> tx_bind (attempt (transaction (purchase_body cfg now (fst usr) (fst pkg) qty couponID))) (\<lambda>r. case r of
            Inl e \<Rightarrow> tx_return (purchase_response e)
          | Inr reward \<Rightarrow> tx_bind (log_reward reward) (\<lambda>_. tx_return (200, ''SUCCESS_PURCHASED''))))"

record purchase_request =
  pq_PackageID :: nat
  pq_Action :: string
  pq_Quantity :: "int option"
  pq_CouponID :: nat

definition PurchasePackage :: "sysconfig \<Rightarrow> nanos \<Rightarrow> (nat \<times> user) option \<Rightarrow> purchase_request option \<Rightarrow> response tx" where
  "PurchasePackage cfg now usr body = (case usr of None \<Rightarrow> tx_return (401, ''ERR_NO_AUTH'')
     | Some u \<Rightarrow> (case body of None \<Rightarrow> tx_return (400, ''ERR_PARSE_PAYLOAD'')
     | Some q \<Rightarrow> (case checked_quantity (pq_Quantity q) 100 of Inl code \<Rightarrow> tx_return (400, code)
     | Inr qty \<Rightarrow>
       if pq_Action q \<noteq> '''' \<and> pq_Action q \<noteq> ''stack'' then tx_return (400, ''ERR_ACTION_NOT_SUPPORTED'')
       else tx_bind (attempt (find_package (pq_PackageID q))) (\<lambda>r. case r of
           Inl _ \<Rightarrow> tx_return (404, ''ERR_PACKAGE_NOT_FOUND'')
         | Inr p \<Rightarrow>
           if \<not> Package_IsEnabled p then tx_return (400, ''ERR_PACKAGE_DISABLED'')
           else if \<not> pk_Public p then tx_return (403, ''ERR_PACKAGE_NOT_PUBLIC'')
           else tx_bind (attempt (check_stack (fst u) (pq_PackageID q) p qty now)) (\<lambda>c. case c of
               Inl e \<Rightarrow> tx_return (if e = errStackLimitExceeded then (409, ''ERR_STACK_LIMIT'') else (500, ''ERR_DB_QUERY''))
             | Inr _ \<Rightarrow> purchaseAsInstant cfg now u (pq_PackageID q, p) qty (pq_CouponID q))))))"

subsection \<open>Granting (\<^verbatim>\<open>AdminGrantSubscription\<close>)\<close>

definition errPackageChanged :: db_error where
  "errPackageChanged = Rejected ''package enabled/invariant changed concurrently''"

definition errPackageInvalidPeriodInTx :: db_error where
  "errPackageInvalidPeriodInTx = Rejected ''package billing_period_seconds out of range in fresh tx''"

definition granted_sub :: "nat \<Rightarrow> nat \<Rightarrow> string \<Rightarrow> nanos \<Rightarrow> int64 \<Rightarrow> int \<Rightarrow> nat \<Rightarrow> user_subscription" where
  "granted_sub uid pid snapshot now seconds base i =
     \<lparr> sub_UserID = uid, sub_PackageID = pid, sub_PackageSnapshot = snapshot, sub_StartAt = now,
       sub_EndAt = now + seconds * 1000000000, sub_CanceledAt = None,
       sub_ConsumptionOrder = wrap64 (unix_micro now + int i), sub_StackIndex = base + int i, sub_Status = ''active'',
       sub_IsGranted = True, sub_PurchasedUnitPriceUSD = 0, sub_AppliedCouponID = 0 \<rparr>"

definition granted_entry :: "nanos \<Rightarrow> nat \<Rightarrow> string \<Rightarrow> nat \<Rightarrow> int64 \<Rightarrow> billing_entry" where
  "granted_entry at_time uid currency subID balance =
     blank_entry \<lparr> be_UserID := uid, be_OccurredAt := at_time, be_EntryType := ''admin_grant_sub'', be_AmountUSD := 0,
       be_BalanceAfterUSD := balance, be_RelatedType := ''subscription'', be_RelatedID := subID,
       be_CurrencyOriginal := currency, be_AmountOriginal := 0 \<rparr>"

fun book_grants :: "nanos \<Rightarrow> nat \<Rightarrow> string \<Rightarrow> nat \<Rightarrow> int64 \<Rightarrow> nat list \<Rightarrow> unit tx" where
  "book_grants now uid currency i bal [] = tx_return ()"
| "book_grants now uid currency i bal (k # ks) =
     tx_bind (WriteBillingEntry now (granted_entry ((unix_micro now + int i) * 1000) uid currency k bal)) (\<lambda>_.
       book_grants now uid currency (Suc i) bal ks)"

definition bad_period :: "Package \<Rightarrow> bool" where
  "bad_period p \<longleftrightarrow> pk_BillingPeriodSeconds p \<le> 0 \<or> MaxBillingPeriodSeconds < pk_BillingPeriodSeconds p"

definition fresh_target :: "nat \<Rightarrow> unit tx" where
  "fresh_target uid = tx_bind (query_first (\<lambda>t. users t uid)) (\<lambda>u.
     if u_Role u \<noteq> ''user'' \<or> u_Status u \<noteq> 1 then tx_throw errTargetUserChanged else tx_return ())"

definition fresh_granted_package :: "nat \<Rightarrow> Package tx" where
  "fresh_granted_package pid = tx_bind (find_package pid) (\<lambda>p.
     if \<not> Package_IsEnabled p then tx_throw errPackageChanged
     else if pk_PriceAmount p < 0 then tx_throw errPackageChanged
     else if bad_period p then tx_throw errPackageInvalidPeriodInTx else tx_return p)"

definition grant_sub_body :: "nanos \<Rightarrow> nat \<Rightarrow> nat \<Rightarrow> nat \<Rightarrow> nat \<Rightarrow> int64 \<Rightarrow> nat list tx" where
  "grant_sub_body now op uid pid qty seconds =
     tx_bind (lockUserForUpdate uid) (\<lambda>_.
     tx_bind (fresh_target uid) (\<lambda>_.
     tx_bind (fresh_granted_package pid) (\<lambda>p.
     tx_bind (buildPackageSnapshotTx pid p) (\<lambda>snapshot.
     tx_bind (check_stack uid pid p qty now) (\<lambda>_.
     tx_bind (getNextStackIndex uid pid) (\<lambda>base.
     tx_bind (create_subs (\<lambda>i _. granted_sub uid pid snapshot now seconds base i) 0 (replicate qty ())) (\<lambda>ids.
     tx_bind (query_first (\<lambda>t. users t uid)) (\<lambda>fresh.
     tx_bind (book_grants now uid (pk_PriceCurrency p) 0 (u_Quota fresh) ids) (\<lambda>_.
     tx_bind (LogOperationByTx op uid ''admin'' ''GRANT_SUBSCRIPTION'') (\<lambda>_. tx_return ids))))))))))"

definition grant_error :: "db_error \<Rightarrow> response" where
  "grant_error e =
     (if e = errStackLimitExceeded then (409, ''ERR_STACK_LIMIT'')
      else if e = errTargetUserChanged then (409, ''ERR_TARGET_USER_CHANGED'')
      else if e = errPackageChanged then (409, ''ERR_PACKAGE_CHANGED'')
      else if e = errPackageInvalidPeriodInTx then (500, ''ERR_PACKAGE_INVALID_PERIOD'')
      else (500, ''ERR_DB_TRANSACTION''))"

text \<open>One grant to one user: what the answer says, and the subscriptions created.\<close>

definition executeAdminGrantForUser ::
  "nanos \<Rightarrow> nat \<Rightarrow> nat \<Rightarrow> nat \<Rightarrow> nat \<Rightarrow> int64 option \<Rightarrow> (response \<times> nat list) tx" where
  "executeAdminGrantForUser now op uid pid qty validSeconds =
     tx_bind (attempt (query_first (\<lambda>t. users t uid))) (\<lambda>r. case r of
       Inl _ \<Rightarrow> tx_return ((404, ''ERR_USER_NOT_FOUND''), [])
     | Inr u \<Rightarrow>
       if u_Role u \<noteq> ''user'' then tx_return ((403, ''ERR_TARGET_NOT_USER''), [])
       else if u_Status u \<noteq> 1 then tx_return ((400, ''ERR_TARGET_USER_INACTIVE''), [])
       else tx_bind (attempt (find_package pid)) (\<lambda>r2. case r2 of
           Inl _ \<Rightarrow> tx_return ((404, ''ERR_PACKAGE_NOT_FOUND''), [])
         | Inr p \<Rightarrow>
           if \<not> Package_IsEnabled p then tx_return ((400, ''ERR_PACKAGE_DISABLED''), [])
           else if pk_PriceAmount p < 0 then tx_return ((500, ''ERR_PACKAGE_INVALID_NUMERIC''), [])
           else if bad_period p then tx_return ((500, ''ERR_PACKAGE_INVALID_PERIOD''), [])
           else tx_bind (attempt (check_stack uid pid p qty now)) (\<lambda>c. case c of
               Inl e \<Rightarrow> tx_return (if e = errStackLimitExceeded then (409, ''ERR_STACK_LIMIT'') else (500, ''ERR_DB_QUERY''), [])
             | Inr _ \<Rightarrow> tx_bind (attempt (buildPackageSnapshot pid p)) (\<lambda>s. case s of
                 Inl _ \<Rightarrow> tx_return ((500, ''ERR_BUILD_SNAPSHOT''), [])
               | Inr _ \<Rightarrow>
                 let seconds = (case validSeconds of Some v \<Rightarrow> v | None \<Rightarrow> pk_BillingPeriodSeconds p) in
                 tx_bind (attempt (transaction (grant_sub_body now op uid pid qty seconds))) (\<lambda>g. case g of
                     Inl e \<Rightarrow> tx_return (grant_error e, [])
                   | Inr ids \<Rightarrow> tx_return ((200, ''SUCCESS_GRANTED''), ids))))))"

text \<open>The checks of a request that one user and a batch share.\<close>

definition check_grant :: "int option \<Rightarrow> int64 option \<Rightarrow> string \<Rightarrow> string + nat" where
  "check_grant quantity validSeconds reason0 =
     (case checked_quantity quantity 100 of Inl code \<Rightarrow> Inl code
      | Inr qty \<Rightarrow>
        (case (case validSeconds of None \<Rightarrow> None
           | Some v \<Rightarrow> if v \<le> 0 then Some ''ERR_INVALID_VALID_SECONDS''
               else if MaxBillingPeriodSeconds < v then Some ''ERR_VALID_SECONDS_TOO_LARGE'' else None) of
           Some code \<Rightarrow> Inl code
         | None \<Rightarrow> (let reason = TrimSpace reason0 in
             if reason = '''' then Inl ''ERR_REASON_REQUIRED''
             else case validateAdminReason reason of Some code \<Rightarrow> Inl code | None \<Rightarrow> Inr qty)))"

record grant_sub_request =
  gs_UserID :: nat
  gs_PackageID :: nat
  gs_Quantity :: "int option"
  gs_Reason :: string
  gs_ValidSeconds :: "int64 option"

definition AdminGrantSubscription :: "nanos \<Rightarrow> nat option \<Rightarrow> grant_sub_request option \<Rightarrow> response tx" where
  "AdminGrantSubscription now opID body = (case opID of None \<Rightarrow> tx_return (401, ''ERR_NO_AUTH'')
     | Some op \<Rightarrow> (case body of None \<Rightarrow> tx_return (400, ''ERR_PARSE_PAYLOAD'')
     | Some q \<Rightarrow>
       if gs_UserID q = 0 \<or> gs_PackageID q = 0 then tx_return (400, ''ERR_INVALID_PARAMS'')
       else if gs_UserID q = op then tx_return (400, ''ERR_GRANT_SELF'')
       else (case check_grant (gs_Quantity q) (gs_ValidSeconds q) (gs_Reason q) of
           Inl code \<Rightarrow> tx_return (400, code)
         | Inr qty \<Rightarrow> tx_bind (executeAdminGrantForUser now op (gs_UserID q) (gs_PackageID q) qty (gs_ValidSeconds q))
             (\<lambda>r. tx_return (fst r)))))"

text \<open>Every user of a batch has a transaction of its own; the answer lists what became of each.\<close>

record grant_batch_request =
  gb_UserIDs :: "nat list"
  gb_PackageID :: nat
  gb_Quantity :: "int option"
  gb_Reason :: string
  gb_ValidSeconds :: "int64 option"

definition unique_ids :: "nat list \<Rightarrow> nat list" where
  "unique_ids ids = rev (remdups (rev ids))"

fun grant_each :: "nanos \<Rightarrow> nat \<Rightarrow> nat \<Rightarrow> nat \<Rightarrow> int64 option \<Rightarrow> nat list \<Rightarrow> (nat \<times> response) list tx" where
  "grant_each now op pid qty secs [] = tx_return []"
| "grant_each now op pid qty secs (uid # uids) =
     tx_bind (executeAdminGrantForUser now op uid pid qty secs) (\<lambda>r.
       tx_bind (grant_each now op pid qty secs uids) (\<lambda>rs. tx_return ((uid, fst r) # rs)))"

definition AdminGrantSubscriptionBatch ::
  "nanos \<Rightarrow> nat option \<Rightarrow> grant_batch_request option \<Rightarrow> (response \<times> (nat \<times> response) list) tx" where
  "AdminGrantSubscriptionBatch now opID body = (case opID of None \<Rightarrow> tx_return ((401, ''ERR_NO_AUTH''), [])
     | Some op \<Rightarrow> (case body of None \<Rightarrow> tx_return ((400, ''ERR_PARSE_PAYLOAD''), [])
     | Some q \<Rightarrow>
       if gb_UserIDs q = [] \<or> gb_PackageID q = 0 then tx_return ((400, ''ERR_INVALID_PARAMS''), [])
       else if 200 < length (gb_UserIDs q) then tx_return ((400, ''ERR_BATCH_TOO_LARGE''), [])
       else let uids = unique_ids (filter (\<lambda>u. u \<noteq> 0 \<and> u \<noteq> op) (gb_UserIDs q)) in
         if uids = [] then tx_return ((400, ''ERR_NO_VALID_USERS''), [])
         else (case check_grant (gb_Quantity q) (gb_ValidSeconds q) (gb_Reason q) of
             Inl code \<Rightarrow> tx_return ((400, code), [])
           | Inr qty \<Rightarrow> tx_bind (grant_each now op (gb_PackageID q) qty (gb_ValidSeconds q) uids)
               (\<lambda>rs. tx_return ((200, ''''), rs)))))"

subsection \<open>Refunding (\<^verbatim>\<open>AdminRefundSubscription\<close>)\<close>

definition errSubRefundDuplicate :: db_error where
  "errSubRefundDuplicate = Rejected ''subscription refund billing already exists''"

definition errSubStateMachineMiss :: db_error where
  "errSubStateMachineMiss = Rejected ''subscription state machine guard rejected''"

definition refundable :: "user_subscription \<Rightarrow> bool" where
  "refundable s \<longleftrightarrow> \<not> sub_IsGranted s \<and> sub_Status s \<in> {''active'', ''canceled'', ''expired'', ''paused''}"

definition close_sub :: "string \<Rightarrow> nanos \<Rightarrow> user_subscription \<Rightarrow> user_subscription" where
  "close_sub st now s = s \<lparr> sub_Status := st,
     sub_CanceledAt := (case sub_CanceledAt s of None \<Rightarrow> Some now | Some c \<Rightarrow> Some c) \<rparr>"

definition refunds_booked :: "nat \<Rightarrow> tables \<Rightarrow> billing_entry list" where
  "refunds_booked i t = filter (\<lambda>e. be_RelatedType e \<in> {''subscription_refund'', ''subscription''}
     \<and> be_RelatedID e = i \<and> be_EntryType e = ''refund_sub'') (billing t)"

definition sub_refund_entry :: "nanos \<Rightarrow> nat \<Rightarrow> nat \<Rightarrow> int64 \<Rightarrow> int64 \<Rightarrow> billing_entry" where
  "sub_refund_entry now uid i amount balance =
     blank_entry \<lparr> be_UserID := uid, be_OccurredAt := now, be_EntryType := ''refund_sub'', be_AmountUSD := amount,
       be_BalanceAfterUSD := balance, be_RelatedType := ''subscription_refund'', be_RelatedID := i,
       be_SourceSubscriptionID := Some i \<rparr>"

definition refund_sub_body :: "nanos \<Rightarrow> nat \<Rightarrow> nat \<Rightarrow> user_subscription \<Rightarrow> int64 \<Rightarrow> unit tx" where
  "refund_sub_body now op i s amount =
     tx_bind (lockUserForUpdate (sub_UserID s)) (\<lambda>_.
     tx_bind (stmt (\<lambda>t. (length (refunds_booked i t), t))) (\<lambda>n.
       if 0 < n then tx_throw errSubRefundDuplicate
       else tx_bind (stmt (update_sub_if i refundable (close_sub ''refunded'' now))) (\<lambda>m.
         if m = 0 then tx_throw errSubStateMachineMiss
         else tx_bind (stmt (update_user_if (sub_UserID s) (\<lambda>_. True) (\<lambda>u. u \<lparr> u_Quota := u_Quota u + amount \<rparr>))) (\<lambda>_.
           tx_bind (query_first (\<lambda>t. users t (sub_UserID s))) (\<lambda>fresh.
           tx_bind (tx_catch (WriteBillingEntry now (sub_refund_entry now (sub_UserID s) i amount (u_Quota fresh)))
             (\<lambda>e. tx_throw (if e = errUnique then errSubRefundDuplicate else e))) (\<lambda>_.
           LogOperationByTx op (sub_UserID s) ''admin'' ''REFUND_SUBSCRIPTION''))))))"

definition refund_sub_response :: "(db_error + unit) \<Rightarrow> response" where
  "refund_sub_response r = (case r of Inr _ \<Rightarrow> (200, ''SUCCESS_REFUNDED'')
     | Inl e \<Rightarrow> if e = errSubRefundDuplicate then (409, ''ERR_SUB_REFUND_DUPLICATE'')
         else if e = errSubStateMachineMiss then (409, ''ERR_SUB_STATUS_NOT_REFUNDABLE'')
         else (500, ''ERR_DB_TRANSACTION''))"

definition find_sub :: "int \<Rightarrow> (nat \<times> user_subscription) tx" where
  "find_sub i = query_first (\<lambda>t. if i \<le> 0 then None else map_option (\<lambda>s. (nat i, s)) (subscriptions t (nat i)))"

text \<open>The body holds the amount in micro-dollars.\<close>

definition AdminRefundSubscription :: "nanos \<Rightarrow> nat option \<Rightarrow> string \<Rightarrow> int64 option \<Rightarrow> response tx" where
  "AdminRefundSubscription now opID idParam body = (case opID of None \<Rightarrow> tx_return (401, ''ERR_NO_AUTH'')
     | Some op \<Rightarrow> (case ParseInt 64 idParam of None \<Rightarrow> tx_return (400, ''ERR_INVALID_PARAMS'')
     | Some i \<Rightarrow> (case body of None \<Rightarrow> tx_return (400, ''ERR_PARSE_PAYLOAD'')
     | Some amount \<Rightarrow>
       if amount \<le> 0 then tx_return (400, ''ERR_REFUND_AMOUNT_INVALID'')
       else tx_bind (attempt (find_sub i)) (\<lambda>r. case r of
           Inl _ \<Rightarrow> tx_return (404, ''ERR_NOT_FOUND'')
         | Inr (k, s) \<Rightarrow>
           if sub_IsGranted s then tx_return (400, ''ERR_REFUND_GRANTED_SUB'')
           else if sub_PurchasedUnitPriceUSD s \<le> 0 then tx_return (400, ''ERR_REFUND_ZERO_PAID'')
           else if sub_PurchasedUnitPriceUSD s < amount then tx_return (400, ''ERR_REFUND_AMOUNT_EXCEEDS_PURCHASE'')
           else tx_bind (attempt (transaction (refund_sub_body now op k s amount))) (\<lambda>res.
             tx_return (refund_sub_response res))))))"

subsection \<open>Taking a grant back (\<^verbatim>\<open>AdminRevokeGrantedSubscription\<close>)\<close>

definition errRevokeGrantNotGranted :: db_error where
  "errRevokeGrantNotGranted = Rejected ''subscription is not admin-granted''"

definition errRevokeGrantBadStatus :: db_error where
  "errRevokeGrantBadStatus = Rejected ''granted subscription status cannot be revoked''"

definition revocable :: "user_subscription \<Rightarrow> bool" where
  "revocable s \<longleftrightarrow> sub_Status s \<in> {''active'', ''paused''}"

definition revoked_entry :: "nanos \<Rightarrow> nat \<Rightarrow> nat \<Rightarrow> int64 \<Rightarrow> billing_entry" where
  "revoked_entry now uid i balance =
     blank_entry \<lparr> be_UserID := uid, be_OccurredAt := now, be_EntryType := ''admin_revoke_grant'', be_AmountUSD := 0,
       be_BalanceAfterUSD := balance, be_RelatedType := ''subscription'', be_RelatedID := i \<rparr>"

definition revoke_grant_body :: "nanos \<Rightarrow> nat \<Rightarrow> nat \<Rightarrow> nat \<Rightarrow> unit tx" where
  "revoke_grant_body now op i uid =
     tx_bind (lockUserForUpdate uid) (\<lambda>_.
     tx_bind (query_first (\<lambda>t. subscriptions t i)) (\<lambda>s.
       if \<not> sub_IsGranted s then tx_throw errRevokeGrantNotGranted
       else if \<not> revocable s then tx_throw errRevokeGrantBadStatus
       else tx_bind (stmt (update_sub_if i (\<lambda>s. sub_IsGranted s \<and> revocable s) (close_sub ''revoked'' now))) (\<lambda>n.
         if n = 0 then tx_throw errSubStateMachineMiss
         else tx_bind (query_first (\<lambda>t. users t (sub_UserID s))) (\<lambda>fresh.
           tx_bind (WriteBillingEntry now (revoked_entry now (sub_UserID s) i (u_Quota fresh))) (\<lambda>_.
             LogOperationByTx op (sub_UserID s) ''admin'' ''REVOKE_GRANTED_SUBSCRIPTION'')))))"

definition revoke_grant_response :: "(db_error + unit) \<Rightarrow> response" where
  "revoke_grant_response r = (case r of Inr _ \<Rightarrow> (200, ''SUCCESS_GRANT_REVOKED'')
     | Inl e \<Rightarrow> if e = errRevokeGrantNotGranted then (400, ''ERR_REVOKE_NOT_GRANTED'')
         else if e = errRevokeGrantBadStatus \<or> e = errSubStateMachineMiss then (409, ''ERR_REVOKE_GRANTED_STATUS'')
         else (500, ''ERR_DB_TRANSACTION''))"

definition AdminRevokeGrantedSubscription :: "nanos \<Rightarrow> nat option \<Rightarrow> string \<Rightarrow> string option \<Rightarrow> response tx" where
  "AdminRevokeGrantedSubscription now opID idParam body = (case opID of None \<Rightarrow> tx_return (401, ''ERR_NO_AUTH'')
     | Some op \<Rightarrow> (case path_id idParam of None \<Rightarrow> tx_return (400, ''ERR_INVALID_PARAMS'')
     | Some i \<Rightarrow> (case body of None \<Rightarrow> tx_return (400, ''ERR_PARSE_PAYLOAD'')
     | Some reason0 \<Rightarrow>
       if TrimSpace reason0 = '''' then tx_return (400, ''ERR_REASON_REQUIRED'')
       else (case validateAdminReason (TrimSpace reason0) of Some code \<Rightarrow> tx_return (400, code)
       | None \<Rightarrow> tx_bind (attempt (find_sub (int i))) (\<lambda>r. case r of
           Inl _ \<Rightarrow> tx_return (404, ''ERR_NOT_FOUND'')
         | Inr (k, s) \<Rightarrow>
           if \<not> sub_IsGranted s then tx_return (400, ''ERR_REVOKE_NOT_GRANTED'')
           else if \<not> revocable s then tx_return (409, ''ERR_REVOKE_GRANTED_STATUS'')
           else tx_bind (attempt (transaction (revoke_grant_body now op k (sub_UserID s)))) (\<lambda>res.
             tx_return (revoke_grant_response res)))))))"

subsection \<open>Canceling and expiring\<close>

definition CancelSubscription :: "nanos \<Rightarrow> (nat \<times> user) option \<Rightarrow> string \<Rightarrow> response tx" where
  "CancelSubscription now usr idParam = (case usr of None \<Rightarrow> tx_return (401, ''ERR_NO_AUTH'')
     | Some u \<Rightarrow> (case ParseInt 64 idParam of None \<Rightarrow> tx_return (400, ''ERR_INVALID_PARAMS'')
     | Some i \<Rightarrow> tx_bind (attempt (find_sub i)) (\<lambda>r. case r of
           Inl _ \<Rightarrow> tx_return (404, ''ERR_NOT_FOUND'')
         | Inr (k, s) \<Rightarrow>
           if sub_UserID s \<noteq> fst u then tx_return (403, ''ERR_FORBIDDEN'')
           else if sub_Status s \<noteq> ''active'' then tx_return (400, ''ERR_NOT_ACTIVE'')
           else tx_bind (attempt (stmt (update_sub_if k (\<lambda>s. sub_Status s = ''active'')
               (\<lambda>s. s \<lparr> sub_Status := ''canceled'', sub_CanceledAt := Some now \<rparr>)))) (\<lambda>res. tx_return (case res of
                 Inl _ \<Rightarrow> (500, ''ERR_DB_UPDATE'')
               | Inr n \<Rightarrow> if n = 0 then (409, ''ERR_ALREADY_CANCELED'') else (200, ''SUCCESS_CANCELED''))))))"

text \<open>\<^verbatim>\<open>n, _ := strconv.Atoi(s)\<close>: out of range is the nearest bound, a syntax error \<open>0\<close>.\<close>

definition Atoi_value :: "string \<Rightarrow> int" where
  "Atoi_value s = (case ParseInt 64 s of Some n \<Rightarrow> n
     | None \<Rightarrow> let neg = prefix ''-'' s; body = (if neg \<or> prefix ''+'' s then tl s else s) in
         if body \<noteq> '''' \<and> list_all is_digit body then if neg then i64_min else i64_max else 0)"

definition expire_grace_cutoff :: "sysconfig \<Rightarrow> nanos \<Rightarrow> nanos" where
  "expire_grace_cutoff cfg now =
     (let v = TrimSpace (sysConfigValue cfg ''subscription_expired_grace_seconds'');
          grace = Atoi_value (if v = '''' then ''60'' else v)
      in now + wrap64 (wrap64 (- grace) * 1000000000))"

fun expire_each :: "nat list \<Rightarrow> unit tx" where
  "expire_each [] = tx_return ()"
| "expire_each (i # is) = tx_bind (try_tx (stmt (update_sub_if i (\<lambda>s. sub_Status s = ''active'')
       (\<lambda>s. s \<lparr> sub_Status := ''expired'' \<rparr>)))) (\<lambda>_. expire_each is)"

definition expireSubscriptions :: "sysconfig \<Rightarrow> nanos \<Rightarrow> unit tx" where
  "expireSubscriptions cfg now =
     tx_bind (try_tx (stmt (\<lambda>t. (take 200 (map fst (filter (\<lambda>(i, s). sub_Status s = ''active''
         \<and> sub_EndAt s < expire_grace_cutoff cfg now) (sub_rows t))), t)))) (\<lambda>r. case r of
       None \<Rightarrow> tx_return () | Some is \<Rightarrow> expire_each is)"

end
