(* ===== verification/SubscriptionAccounts.thy ===== *)
theory SubscriptionAccounts
  imports Subscriptions Served
begin

section \<open>Accounting for subscriptions and coupons\<close>

text \<open>
  Proofs about \<open>Subscriptions\<close> and \<open>Coupons\<close>. The step relation interleaves the transactions of
  any number of requests, on copies of rows read at any earlier time and under any schedule of
  faults, with whatever else the server does to the other tables. Its invariant says that every
  bought subscription was paid once at its price and refunded at most once and never above it,
  that a granted one is free and never refunded, and that a coupon pays for one subscription.
\<close>

subsection \<open>What the ledger says of a subscription\<close>

text \<open>What matters of an entry here: its type, the related row, the user and the amount.\<close>

type_synonym tag = "string \<times> string \<times> nat \<times> nat \<times> int64"

definition tag :: "billing_entry \<Rightarrow> tag" where
  "tag e = (be_EntryType e, be_RelatedType e, be_RelatedID e, be_UserID e, be_AmountUSD e)"

definition tags :: "tables \<Rightarrow> tag list" where
  "tags t = map tag (billing t)"

definition purchases_in :: "tag list \<Rightarrow> nat \<Rightarrow> (nat \<times> int64) list" where
  "purchases_in es i = map (\<lambda>(ty, rt, ri, u, a). (u, a))
     (filter (\<lambda>(ty, rt, ri, u, a). ty = ''purchase_sub'' \<and> rt = ''subscription'' \<and> ri = i) es)"

definition refunds_in :: "tag list \<Rightarrow> nat \<Rightarrow> (nat \<times> int64) list" where
  "refunds_in es i = map (\<lambda>(ty, rt, ri, u, a). (u, a))
     (filter (\<lambda>(ty, rt, ri, u, a). ty = ''refund_sub'' \<and> rt \<in> {''subscription_refund'', ''subscription''} \<and> ri = i) es)"

text \<open>Entries about no subscription's money.\<close>

definition neutral :: "tag list \<Rightarrow> bool" where
  "neutral es \<longleftrightarrow> list_all (\<lambda>(ty, rt, ri, u, a). ty \<noteq> ''purchase_sub'' \<and> ty \<noteq> ''refund_sub'') es"

lemma purchases_in_append [simp]: "purchases_in (es @ fs) i = purchases_in es i @ purchases_in fs i"
  by (simp add: purchases_in_def)

lemma refunds_in_append [simp]: "refunds_in (es @ fs) i = refunds_in es i @ refunds_in fs i"
  by (simp add: refunds_in_def)

lemma neutral_nothing: "neutral es \<Longrightarrow> purchases_in es i = [] \<and> refunds_in es i = []"
  by (auto simp: neutral_def purchases_in_def refunds_in_def filter_empty_conv list_all_iff)

lemma refunds_booked_tags: "length (refunds_booked i t) = length (refunds_in (tags t) i)"
  by (simp add: refunds_booked_def refunds_in_def tags_def filter_map o_def tag_def conj_ac)

definition sub_ok :: "tag list \<Rightarrow> nat \<Rightarrow> user_subscription \<Rightarrow> bool" where
  "sub_ok es i s \<longleftrightarrow>
     (if sub_IsGranted s then sub_PurchasedUnitPriceUSD s = 0 \<and> purchases_in es i = []
      else 0 \<le> sub_PurchasedUnitPriceUSD s \<and> purchases_in es i = [(sub_UserID s, - sub_PurchasedUnitPriceUSD s)])
     \<and> (if sub_Status s = ''refunded''
        then \<not> sub_IsGranted s \<and> (\<exists>a. refunds_in es i = [(sub_UserID s, a)] \<and> 0 < a \<and> a \<le> sub_PurchasedUnitPriceUSD s)
        else refunds_in es i = [])"

text \<open>What never changes of a row.\<close>

definition fixed :: "user_subscription \<Rightarrow> nat \<times> bool \<times> int64" where
  "fixed s = (sub_UserID s, sub_IsGranted s, sub_PurchasedUnitPriceUSD s)"

text \<open>A coupon and the subscription it paid for name each other.\<close>

definition coupon_ok :: "tables \<Rightarrow> UserCoupon \<Rightarrow> bool" where
  "coupon_ok t c \<longleftrightarrow> (if uc_Status c = ''used''
     then \<exists>i s. uc_UsedOnSubID c = Some i \<and> subscriptions t i = Some s \<and> sub_UserID s = uc_UserID c
       \<and> (\<forall>k r. subscriptions t k = Some r \<longrightarrow> (sub_AppliedCouponID r = uc_ID c \<longleftrightarrow> k = i))
     else \<forall>k r. subscriptions t k = Some r \<longrightarrow> sub_AppliedCouponID r \<noteq> uc_ID c)"

definition prices_fit :: "tables \<Rightarrow> bool" where
  "prices_fit t \<longleftrightarrow> list_all (\<lambda>(i, p). in_i64 (pk_PriceAmount p)) (packages t)"

definition subs_inv :: "tables \<Rightarrow> (nat \<times> user_subscription) set \<Rightarrow> bool" where
  "subs_inv t S \<longleftrightarrow> (\<forall>i s. subscriptions t i = Some s \<longrightarrow> i \<le> sub_seq t \<and> sub_ok (tags t) i s
       \<and> sub_AppliedCouponID s \<le> length (user_coupons t))
     \<and> (\<forall>i. subscriptions t i = None \<longrightarrow> purchases_in (tags t) i = [] \<and> refunds_in (tags t) i = [])
     \<and> (\<forall>(i, s) \<in> S. \<exists>r. subscriptions t i = Some r \<and> fixed r = fixed s)
     \<and> map uc_ID (user_coupons t) = [1..<Suc (length (user_coupons t))]
     \<and> (\<forall>c \<in> set (user_coupons t). coupon_ok t c) \<and> prices_fit t"

subsection \<open>The steps\<close>

inductive sub_step :: "tables \<times> (nat \<times> user_subscription) set \<Rightarrow> tables \<times> (nat \<times> user_subscription) set \<Rightarrow> bool" where
  look: "subscriptions t i = Some s \<Longrightarrow> sub_step (t, S) (t, insert (i, s) S)"
| buy: "0 < qty \<Longrightarrow> transaction (purchase_body cfg now uid pid qty couponID) (t, fs) = (r, (t', fs')) \<Longrightarrow> sub_step (t, S) (t', S)"
| grant: "transaction (grant_sub_body now op uid pid qty secs) (t, fs) = (r', (t', fs')) \<Longrightarrow> sub_step (t, S) (t', S)"
| refund: "(i, s) \<in> S \<Longrightarrow> \<not> sub_IsGranted s \<Longrightarrow> 0 < a \<Longrightarrow> a \<le> sub_PurchasedUnitPriceUSD s \<Longrightarrow>
    transaction (refund_sub_body now op i s a) (t, fs) = (u, (t', fs')) \<Longrightarrow> sub_step (t, S) (t', S)"
| revoke: "transaction (revoke_grant_body now op i uid) (t, fs) = (u, (t', fs')) \<Longrightarrow> sub_step (t, S) (t', S)"
| close: "st \<in> {''canceled'', ''expired''} \<Longrightarrow> (\<And>s. fixed (f s) = fixed s \<and> sub_Status (f s) = st \<and> sub_AppliedCouponID (f s) = sub_AppliedCouponID s) \<Longrightarrow>
    stmt (update_sub_if i (\<lambda>s. sub_Status s = ''active'') f) (t, fs) = (n, (t', fs')) \<Longrightarrow> sub_step (t, S) (t', S)"
| give: "transaction (grant_body uid tid op now rnds) (t, fs) = (u, (t', fs')) \<Longrightarrow> sub_step (t, S) (t', S)"
| give_many: "transaction (bulk_body tid op now rnd qty uids) (t, fs) = (u, (t', fs')) \<Longrightarrow> sub_step (t, S) (t', S)"
| withdraw: "transaction (revoke_body now op k) (t, fs) = (u, (t', fs')) \<Longrightarrow> sub_step (t, S) (t', S)"
| other: "subscriptions t' = subscriptions t \<Longrightarrow> sub_seq t' = sub_seq t \<Longrightarrow> user_coupons t' = user_coupons t \<Longrightarrow>
    tags t' = tags t @ es \<Longrightarrow> neutral es \<Longrightarrow> (prices_fit t \<Longrightarrow> prices_fit t') \<Longrightarrow> (\<And>opening. reconciled opening t \<Longrightarrow> reconciled opening t')
    \<Longrightarrow> sub_step (t, S) (t', S)"

definition no_subs :: "tables \<Rightarrow> bool" where
  "no_subs t \<longleftrightarrow> subscriptions t = Map.empty \<and> user_coupons t = [] \<and> prices_fit t \<and> neutral (tags t)"

lemma no_subs_inv: "no_subs t \<Longrightarrow> subs_inv t {}"
  by (simp add: no_subs_def subs_inv_def neutral_nothing)

subsection \<open>What the operations do\<close>

lemma update_sub_Inr: "stmt (update_sub_if i c f) (t, fs) = (Inr n, (t', fs')) \<Longrightarrow>
    (n = 0 \<and> t' = t) \<or> (\<exists>s. n = 1 \<and> subscriptions t i = Some s \<and> c s
       \<and> t' = t \<lparr> subscriptions := (subscriptions t)(i \<mapsto> f s) \<rparr>)"
  by (auto simp: stmt_Inr update_sub_if_def split: option.splits if_splits)

lemma LogOperation_Inr: "LogOperationByTx a b c d (t, fs) = (Inr u, (t', fs')) \<Longrightarrow> \<exists>ol. t' = t \<lparr> operation_logs := ol \<rparr>"
  by (auto simp: LogOperationByTx_def LogOperationByTxReturning_def tx_bind_Inr stmt_Inr)

lemma WriteBilling_tags:
  "WriteBillingEntry now e (t, fs) = (Inr u, (t', fs')) \<Longrightarrow> t' = t \<lparr> billing := billing t @ [booked now e] \<rparr> \<and> tag (booked now e) = tag e"
  unfolding WriteBillingEntry_Inr by (simp add: tag_def booked_def)

text \<open>A run of inserts of subscriptions, starting after the last key given.\<close>

definition subs_after :: "(nat \<Rightarrow> 'a \<Rightarrow> user_subscription) \<Rightarrow> nat \<Rightarrow> 'a list \<Rightarrow> nat \<Rightarrow> (nat \<rightharpoonup> user_subscription) \<Rightarrow> nat \<rightharpoonup> user_subscription" where
  "subs_after mk j xs n m = (\<lambda>i. if n < i \<and> i \<le> n + length xs
     then Some (mk (j + (i - Suc n)) (xs ! (i - Suc n))) else m i)"

lemma create_subs_Inr:
  assumes "create_subs mk j xs (t, fs) = (Inr ids, (t', fs'))"
  shows "ids = [Suc (sub_seq t)..<Suc (sub_seq t + length xs)]
    \<and> t' = t \<lparr> sub_seq := sub_seq t + length xs, subscriptions := subs_after mk j xs (sub_seq t) (subscriptions t) \<rparr>"
  using assms
proof (induction xs arbitrary: j t fs ids)
  case Nil
  have "subs_after mk j [] (sub_seq t) (subscriptions t) = subscriptions t"
    by (rule ext) (auto simp: subs_after_def)
  with Nil show ?case by simp
next
  case (Cons x xs)
  let ?t1 = "t \<lparr> sub_seq := Suc (sub_seq t), subscriptions := (subscriptions t)(Suc (sub_seq t) \<mapsto> mk j x) \<rparr>"
  obtain ks where c: "create_subs mk (Suc j) xs (?t1, tl fs) = (Inr ks, (t', fs'))" and ids: "ids = Suc (sub_seq t) # ks"
    using Cons.prems by (auto simp: tx_bind_Inr insert_sub_def stmt_Inr Let_def)
  note IH = Cons.IH [OF c]
  have eq: "subs_after mk (Suc j) xs (Suc (sub_seq t)) ((subscriptions t)(Suc (sub_seq t) \<mapsto> mk j x))
      = subs_after mk j (x # xs) (sub_seq t) (subscriptions t)"
  proof
    fix i
    consider "i \<le> sub_seq t" | "i = Suc (sub_seq t)" | k where "i = Suc (Suc (sub_seq t + k))"
      by (metis Suc_leI le_neq_implies_less less_imp_Suc_add not_le)
    then show "subs_after mk (Suc j) xs (Suc (sub_seq t)) ((subscriptions t)(Suc (sub_seq t) \<mapsto> mk j x)) i
        = subs_after mk j (x # xs) (sub_seq t) (subscriptions t) i"
      by cases (auto simp: subs_after_def)
  qed
  have "[Suc (sub_seq t)..<Suc (sub_seq t + length (x # xs))] = Suc (sub_seq t) # [Suc (Suc (sub_seq t))..<Suc (Suc (sub_seq t) + length xs)]"
    by (subst upt_conv_Cons) simp_all
  with IH ids show ?case unfolding eq [symmetric] by (simp del: upt_Suc fun_upd_apply)
qed

lemma book_units_Inr:
  "book_units now uid cur j bal us (t, fs) = (Inr u, (t', fs')) \<Longrightarrow>
    \<exists>es. t' = t \<lparr> billing := billing t @ es \<rparr> \<and> map tag es = map (\<lambda>(k, price). (''purchase_sub'', ''subscription'', k, uid, - price)) us"
proof (induction us arbitrary: j bal t fs)
  case (Cons x us)
  obtain k price where x: "x = (k, price)" by (cases x)
  let ?e = "purchase_entry (now + int j * 1000) uid cur k price (bal - price)"
  obtain t1 fs1 where 1: "WriteBillingEntry now ?e (t, fs) = (Inr (), (t1, fs1))"
    and 2: "book_units now uid cur (Suc j) (bal - price) us (t1, fs1) = (Inr u, (t', fs'))"
    using Cons.prems by (auto simp: x tx_bind_Inr)
  from Cons.IH [OF 2] obtain es where "t' = t1 \<lparr> billing := billing t1 @ es \<rparr>"
    "map tag es = map (\<lambda>(k, price). (''purchase_sub'', ''subscription'', k, uid, - price)) us" by blast
  moreover have "tag ?e = (''purchase_sub'', ''subscription'', k, uid, - price)"
    by (simp add: tag_def purchase_entry_def)
  ultimately show ?case using WriteBilling_tags [OF 1]
    by (intro exI [of _ "booked now ?e # es"]) (simp add: x)
qed (auto intro: exI [of _ "[]"])

text \<open>What the booked entries add up to is read off their tags.\<close>

lemma booked_sum_tags: "booked_sum uid es = sum_list (map (\<lambda>(ty, rt, ri, u, a). a) (filter (\<lambda>(ty, rt, ri, u, a). u = uid) (map tag es)))"
  by (simp add: booked_sum_def filter_map o_def tag_def)

lemma booked_sum_append [simp]: "booked_sum uid (es @ fs) = booked_sum uid es + booked_sum uid fs"
  by (simp add: booked_sum_def)

lemma booked_units:
  "map tag es = map (\<lambda>(k, price). (ty, rt, k, uid, - price)) us \<Longrightarrow>
    booked_sum j es = (if j = uid then - sum_list (map snd us) else 0)"
proof -
  have "sum_list (map (\<lambda>(ty, rt, ri, u, a). a) (filter (\<lambda>(ty, rt, ri, u, a). u = j) (map (\<lambda>(k, price). (ty, rt, k, uid, - price)) us)))
      = (if j = uid then - sum_list (map snd us) else 0)"
    by (induction us) auto
  then show "map tag es = map (\<lambda>(k, price). (ty, rt, k, uid, - price)) us \<Longrightarrow> ?thesis"
    unfolding booked_sum_tags by simp
qed

lemma booked_free: "list_all (\<lambda>e. be_AmountUSD e = 0) es \<Longrightarrow> booked_sum j es = 0"
  unfolding booked_sum_def by (induction es) auto

lemma book_grants_Inr:
  "book_grants now uid cur j bal ks (t, fs) = (Inr u, (t', fs')) \<Longrightarrow>
    \<exists>es. t' = t \<lparr> billing := billing t @ es \<rparr> \<and> neutral (map tag es) \<and> list_all (\<lambda>e. be_AmountUSD e = 0) es"
proof (induction ks arbitrary: j t fs)
  case (Cons k ks)
  let ?e = "granted_entry ((unix_micro now + int j) * 1000) uid cur k bal"
  obtain t1 fs1 where 1: "WriteBillingEntry now ?e (t, fs) = (Inr (), (t1, fs1))"
    and 2: "book_grants now uid cur (Suc j) bal ks (t1, fs1) = (Inr u, (t', fs'))"
    using Cons.prems by (auto simp: tx_bind_Inr)
  from Cons.IH [OF 2] obtain es where "t' = t1 \<lparr> billing := billing t1 @ es \<rparr>" "neutral (map tag es)" "list_all (\<lambda>e. be_AmountUSD e = 0) es" by blast
  moreover have "tag ?e = (''admin_grant_sub'', ''subscription'', k, uid, 0)" "be_AmountUSD (booked now ?e) = 0"
    by (simp_all add: tag_def granted_entry_def booked_def)
  ultimately show ?case using WriteBilling_tags [OF 1]
    by (intro exI [of _ "booked now ?e # es"]) (simp add: neutral_def)
qed (auto intro: exI [of _ "[]"] simp: neutral_def)

lemma pay_price_Inr:
  "pay_price uid cost (t, fs) = (Inr u, (t', fs')) \<Longrightarrow> 0 \<le> cost \<Longrightarrow>
    t' = t \<lparr> users := users t' \<rparr> \<and> (\<forall>k. k \<noteq> uid \<longrightarrow> users t' k = users t k)
    \<and> (\<forall>b. users t' uid = Some b \<longrightarrow> (\<exists>a. users t uid = Some a \<and> b = a \<lparr> u_Quota := u_Quota a - cost \<rparr> \<and> (0 < cost \<longrightarrow> cost \<le> u_Quota a)))"
  by (auto simp: pay_price_def tx_bind_Inr stmt_Inr update_user_if_def split: if_splits option.splits)

text \<open>The coupons after a purchase: the one used names the subscription.\<close>

definition coupons_after :: "UserCoupon option \<Rightarrow> nat \<Rightarrow> int64 \<Rightarrow> UserCoupon list \<Rightarrow> UserCoupon list" where
  "coupons_after c k saving us = (case c of None \<Rightarrow> us
     | Some v \<Rightarrow> map (\<lambda>r. if uc_ID r = uc_ID v then v \<lparr> uc_UsedOnSubID := Some k, uc_UsedSavingUSD := saving \<rparr> else r) us)"

lemma link_coupon_Inr:
  "link_coupon c k saving (t, fs) = (Inr u, (t', fs')) \<Longrightarrow>
    t' = t \<lparr> user_coupons := coupons_after c k saving (user_coupons t) \<rparr>"
  by (auto simp: link_coupon_def update_coupons_def coupons_after_def tx_bind_Inr stmt_Inr split: option.splits)

lemma referral_effect:
  assumes run: "ApplyReferralPaidSpendRewardTx now uid spend bps win occ rt ri (t, fs) = (Inr r, (t', fs'))"
  shows "\<exists>us es. t' = t \<lparr> users := us, billing := billing t @ es \<rparr> \<and> neutral (map tag es)
    \<and> (\<forall>b. users t uid = Some b \<longrightarrow> (\<exists>a. us uid = Some a \<and> u_Quota a = u_Quota b))"
proof (cases "0 < spend \<and> uid \<noteq> 0")
  case True
  have low: "\<exists>us. lower_floor uid t = t \<lparr> users := us \<rparr>
      \<and> (\<forall>b. users t uid = Some b \<longrightarrow> (\<exists>a. us uid = Some a \<and> u_Quota a = u_Quota b))"
    by (rule exI [of _ "users (lower_floor uid t)"], rule conjI) (auto simp: lower_floor_def split: option.split)
  then obtain us where us: "lower_floor uid t = t \<lparr> users := us \<rparr>"
      "\<forall>b. users t uid = Some b \<longrightarrow> (\<exists>a. us uid = Some a \<and> u_Quota a = u_Quota b)" by blast
  from run conjunct1 [OF True] conjunct2 [OF True] show ?thesis
  proof (cases rule: referral_Inr)
    case (none u)
    with us show ?thesis by (intro exI [of _ us] exI [of _ "[]"]) (simp add: neutral_def)
  next
    case (paid u v e)
    then have "us (u_ReferredByUserID u) = Some v"
      using us(1) lower_floor_other [of "u_ReferredByUserID u" uid t] by simp
    with paid us show ?thesis
      by (intro exI [of _ "us(u_ReferredByUserID u \<mapsto> v \<lparr> u_Quota := u_Quota v + be_AmountUSD e \<rparr>)"] exI [of _ "[e]"])
        (simp add: book_reward_def neutral_def tag_def)
  qed
next
  case False
  then have "t' = t" using run by (auto simp: ApplyReferralPaidSpendRewardTx_def Let_def)
  then show ?thesis by (intro exI [of _ "users t"] exI [of _ "[]"]) (simp add: neutral_def)
qed

text \<open>What is done once the price is known.\<close>

lemma sell_units_Inr:
  assumes "sell_units cfg now uid pid p snapshot c prices cost (t, fs) = (Inr r, (t', fs'))"
    and nn: "0 \<le> cost" and cost: "sum_list prices = cost"
  obtains base us es ns a where
    "t' = t \<lparr> users := us, billing := billing t @ es @ ns,
        subscriptions := subs_after (bought_sub uid pid p snapshot c now base) 0 prices (sub_seq t) (subscriptions t),
        sub_seq := sub_seq t + length prices,
        user_coupons := coupons_after c (hd [Suc (sub_seq t)..<Suc (sub_seq t + length prices)]) (pk_PriceAmount p - hd prices) (user_coupons t) \<rparr>"
    "map tag es = map (\<lambda>(k, price). (''purchase_sub'', ''subscription'', k, uid, - price)) (zip [Suc (sub_seq t)..<Suc (sub_seq t + length prices)] prices)"
    "neutral (map tag ns)" "users t uid = Some a" "0 < cost \<longrightarrow> cost \<le> u_Quota a"
    "\<exists>b. us uid = Some b \<and> u_Quota b = u_Quota a - cost"
    "\<And>opening. reconciled opening t \<Longrightarrow> reconciled opening t'"
proof -
  let ?ids = "[Suc (sub_seq t)..<Suc (sub_seq t + length prices)]"
  obtain t1 f1 t2 f2 t3 f3 t4 f4 t5 f5 base ids fresh where
    1: "pay_price uid cost (t, fs) = (Inr (), (t1, f1))" and
    2: "getNextStackIndex uid pid (t1, f1) = (Inr base, (t2, f2))" and
    3: "create_subs (bought_sub uid pid p snapshot c now base) 0 prices (t2, f2) = (Inr ids, (t3, f3))" and
    4: "query_first (\<lambda>t. users t uid) (t3, f3) = (Inr fresh, (t4, f4))" and
    5: "link_coupon c (hd ids) (pk_PriceAmount p - hd prices) (t4, f4) = (Inr (), (t5, f5))" and
    R: "tx_bind (book_units now uid (pk_PriceCurrency p) 0 (u_Quota fresh + cost) (zip ids prices)) (\<lambda>_.
       if 0 < cost
       then (case readReferralPaidSpendRewardConfig cfg of (bps, win) \<Rightarrow>
         ApplyReferralPaidSpendRewardTx now uid cost bps win now ''subscription'' (hd ids))
       else tx_return no_reward) (t5, f5) = (Inr r, (t', fs'))"
    using assms(1) unfolding sell_units_def by (auto simp: tx_bind_Inr simp del: upt_Suc)
  obtain t6 f6 where 6: "book_units now uid (pk_PriceCurrency p) 0 (u_Quota fresh + cost) (zip ids prices) (t5, f5) = (Inr (), (t6, f6))"
    and 7: "(if 0 < cost then (case readReferralPaidSpendRewardConfig cfg of (bps, win) \<Rightarrow>
         ApplyReferralPaidSpendRewardTx now uid cost bps win now ''subscription'' (hd ids)) else tx_return no_reward) (t6, f6) = (Inr r, (t', fs'))"
    using R by (auto simp: tx_bind_Inr)
  note pay = pay_price_Inr [OF 1 nn]
  obtain us1 where t1: "t1 = t \<lparr> users := us1 \<rparr>" using pay by blast
  have t2: "t2 = t1" using 2 by (auto simp: getNextStackIndex_def stmt_Inr)
  note mk = create_subs_Inr [OF 3]
  have q: "t4 = t3" "users t3 uid = Some fresh" using 4 by (simp_all add: query_first_Inr)
  note link = link_coupon_Inr [OF 5]
  from book_units_Inr [OF 6] obtain es where es: "t6 = t5 \<lparr> billing := billing t5 @ es \<rparr>"
    "map tag es = map (\<lambda>(k, price). (''purchase_sub'', ''subscription'', k, uid, - price)) (zip ids prices)" by blast
  obtain us ns where ref: "t' = t6 \<lparr> users := us, billing := billing t6 @ ns \<rparr>" "neutral (map tag ns)"
      "\<forall>b. users t6 uid = Some b \<longrightarrow> (\<exists>a. us uid = Some a \<and> u_Quota a = u_Quota b)"
      and rec67: "\<And>opening. reconciled opening t6 \<Longrightarrow> reconciled opening t'"
  proof (cases "0 < cost")
    case True
    obtain bps win where "readReferralPaidSpendRewardConfig cfg = (bps, win)" by force
    with 7 True have run: "ApplyReferralPaidSpendRewardTx now uid cost bps win now ''subscription'' (hd ids) (t6, f6) = (Inr r, (t', fs'))" by simp
    from referral_effect [OF run] show thesis using that referral_reconciled [OF run] by blast
  next
    case False
    with 7 have "t' = t6" by simp
    then show thesis using that [where us = "users t6" and ns = "[]"] by (simp add: neutral_def)
  qed
  have u1: "users t1 uid = Some fresh" using q mk t2 by simp
  from pay u1 obtain a where a: "users t uid = Some a" "fresh = a \<lparr> u_Quota := u_Quota a - cost \<rparr>" "0 < cost \<longrightarrow> cost \<le> u_Quota a"
    by blast
  have "sum_list (map snd (zip ids prices)) = cost" using mk cost by (simp del: upt_Suc)
  note sums = booked_units [OF es(2), unfolded this]
  have rec: "reconciled start t6" if "reconciled start t" for start
    unfolding reconciled_def
  proof (intro allI impI)
    fix k v assume "users t6 k = Some v"
    then have "users t1 k = Some v" using es(1) link q mk t2 by (simp del: upt_Suc)
    moreover have "billing t6 = billing t @ es" using es(1) link q(1) mk t2 by (simp add: t1 del: upt_Suc)
    ultimately show "u_Quota v = start k + booked_sum k (billing t6)"
      using that pay a u1 sums by (cases "k = uid") (auto simp: reconciled_def)
  qed
  show thesis
  proof (rule that [where us = us and es = es and ns = ns and base = base and a = a])
    have ids: "ids = ?ids" using mk t2 by (simp add: t1 del: upt_Suc)
    show "\<And>opening. reconciled opening t \<Longrightarrow> reconciled opening t'" using rec rec67 by blast
    show "map tag es = map (\<lambda>(k, price). (''purchase_sub'', ''subscription'', k, uid, - price)) (zip ?ids prices)"
      using es(2) unfolding ids .
    have t3: "t3 = t \<lparr> users := us1, sub_seq := sub_seq t + length prices,
        subscriptions := subs_after (bought_sub uid pid p snapshot c now base) 0 prices (sub_seq t) (subscriptions t) \<rparr>"
      using mk t2 by (simp add: t1 del: upt_Suc)
    show "t' = t \<lparr> users := us, billing := billing t @ es @ ns,
        subscriptions := subs_after (bought_sub uid pid p snapshot c now base) 0 prices (sub_seq t) (subscriptions t),
        sub_seq := sub_seq t + length prices,
        user_coupons := coupons_after c (hd ?ids) (pk_PriceAmount p - hd prices) (user_coupons t) \<rparr>"
      using ref(1) es(1) link q(1) unfolding ids t3 by (simp del: upt_Suc)
    have "users t6 uid = users t1 uid" using es(1) link q(1) mk t2 by (simp del: upt_Suc)
    then show "\<exists>b. us uid = Some b \<and> u_Quota b = u_Quota a - cost" using ref(3) u1 a(2) by auto
  qed (use ref(2) a in simp_all)
qed

definition used_coupon :: "nanos \<Rightarrow> UserCoupon \<Rightarrow> UserCoupon" where
  "used_coupon now u = u \<lparr> uc_Status := ''used'', uc_UsedAt := Some now \<rparr>"

lemma used_coupon_ids [simp]: "uc_ID (used_coupon now u) = uc_ID u" "uc_UserID (used_coupon now u) = uc_UserID u"
  "uc_Status (used_coupon now u) = ''used''"
  by (simp_all add: used_coupon_def)

lemma lockAndApply_Inr:
  assumes "lockAndApplyCoupon now uid cid pid p (t, fs) = (Inr v, (t', fs'))"
  shows "\<exists>u \<in> set (user_coupons t). uc_ID u = cid \<and> uc_UserID u = uid \<and> uc_Status u = ''available'' \<and> v = used_coupon now u
    \<and> (uc_SnapshotType u = ''fixed_price'' \<longrightarrow> 0 < uc_SnapshotValue u
        \<and> (0 < couponPackageEffectiveLowerBoundMicroUSD p \<longrightarrow> couponPackageEffectiveLowerBoundMicroUSD p \<le> uc_SnapshotValue u))
    \<and> t' = t \<lparr> user_coupons := map (\<lambda>r. if uc_ID r = cid \<and> uc_UserID r = uid \<and> open_coupon now r then used_coupon now r else r) (user_coupons t) \<rparr>"
proof -
  obtain u t1 f1 where q: "tx_catch (query_first (\<lambda>t. find (\<lambda>u. uc_ID u = cid \<and> uc_UserID u = uid) (user_coupons t)))
         (\<lambda>e. tx_throw (if e = RecordNotFound then errCouponInvalid else e)) (t, fs) = (Inr u, (t1, f1))"
    and r: "(if \<not> IsAvailable now u then tx_throw errCouponInvalid
       else case parsePackageIDsStrict (uc_SnapshotPackageIDs u) of
           None \<Rightarrow> tx_throw errCouponInvalid
         | Some allowed \<Rightarrow>
           if \<not> AppliesToPackage pid allowed then tx_throw errCouponNotApplicable
           else if uc_SnapshotType u = ''fixed_price'' \<and> uc_SnapshotValue u \<le> 0 then tx_throw errCouponInvalid
           else if uc_SnapshotType u = ''fixed_price'' \<and> 0 < couponPackageEffectiveLowerBoundMicroUSD p
               \<and> uc_SnapshotValue u < couponPackageEffectiveLowerBoundMicroUSD p
             then tx_throw errCouponSnapshotBelowCostFloor
           else tx_bind (update_coupons (\<lambda>r. uc_ID r = uc_ID u \<and> uc_UserID r = uid \<and> open_coupon now r)
               (\<lambda>r. r \<lparr> uc_Status := ''used'', uc_UsedAt := Some now \<rparr>)) (\<lambda>n.
             if n \<noteq> 1 then tx_throw errCouponInvalid
             else tx_return (u \<lparr> uc_Status := ''used'', uc_UsedAt := Some now \<rparr>))) (t1, f1) = (Inr v, (t', fs'))"
    using assms unfolding lockAndApplyCoupon_def tx_bind_Inr [of "tx_catch _ _"] by auto
  from q have f: "find (\<lambda>u. uc_ID u = cid \<and> uc_UserID u = uid) (user_coupons t) = Some u" "t1 = t"
    by (auto simp: tx_catch_Inr query_first_Inr)
  have u: "u \<in> set (user_coupons t)" "uc_ID u = cid" "uc_UserID u = uid"
    using f(1) by (auto simp: find_Some_iff)
  have "IsAvailable now u \<and> \<not> (uc_SnapshotType u = ''fixed_price'' \<and> uc_SnapshotValue u \<le> 0)
     \<and> \<not> (uc_SnapshotType u = ''fixed_price'' \<and> 0 < couponPackageEffectiveLowerBoundMicroUSD p
               \<and> uc_SnapshotValue u < couponPackageEffectiveLowerBoundMicroUSD p)
     \<and> v = used_coupon now u
     \<and> t' = t \<lparr> user_coupons := map (\<lambda>r. if uc_ID r = cid \<and> uc_UserID r = uid \<and> open_coupon now r then used_coupon now r else r) (user_coupons t) \<rparr>"
    using r f(2) u by (auto simp: tx_bind_Inr stmt_Inr update_coupons_def used_coupon_def split: if_splits option.splits)
  with u show ?thesis by (intro bexI [of _ u]) (auto simp: IsAvailable_def)
qed

lemma unit_prices_ok:
  assumes "0 \<le> pk_PriceAmount p" and "0 < qty"
  shows "length (unit_prices p qty c) = qty" "list_all (\<lambda>x. 0 \<le> x \<and> x \<le> pk_PriceAmount p) (unit_prices p qty c)"
  using assms by (auto simp: unit_prices_def SnapshotEffectivePrice_def list_all_iff split: option.splits)

lemma checked_prices:
  assumes "CheckedSumInt64 (unit_prices p qty c) = Some cost" and "0 \<le> pk_PriceAmount p" "in_i64 (pk_PriceAmount p)" and "0 < qty"
  shows "sum_list (unit_prices p qty c) = cost" "0 \<le> cost" "in_i64 cost"
proof -
  note ok = unit_prices_ok [OF assms(2,4), of c]
  have "list_all in_i64 (unit_prices p qty c)"
    using ok(2) assms(2,3) by (auto simp: list_all_iff i64_defs)
  from checked_sum_from_sound [OF _ this, of 0 cost] assms(1)
  show "sum_list (unit_prices p qty c) = cost" "in_i64 cost" by (auto simp: CheckedSumInt64_def)
  moreover have "0 \<le> sum_list (unit_prices p qty c)"
    using ok(2) by (intro sum_list_nonneg) (auto simp: list_all_iff)
  ultimately show "0 \<le> cost" by simp
qed

lemma fresh_package_Inr: "fresh_package pid (t, fs) = (Inr p, (t', fs')) \<Longrightarrow>
    t' = t \<and> map_of (packages t) pid = Some p \<and> Package_IsEnabled p \<and> pk_Public p \<and> 0 \<le> pk_PriceAmount p
    \<and> 0 < pk_BillingPeriodSeconds p \<and> pk_BillingPeriodSeconds p \<le> MaxBillingPeriodSeconds"
  by (auto simp: fresh_package_def find_package_def tx_bind_Inr tx_catch_Inr query_first_Inr split: if_splits)

lemma check_stack_Inr: "check_stack uid pid p qty now (t, fs) = (Inr u, (t', fs')) \<Longrightarrow>
    t' = t \<and> (0 < effective_max p \<longrightarrow> active_count uid pid now t + int qty \<le> effective_max p)"
  by (auto simp: check_stack_def count_active_def tx_bind_Inr stmt_Inr split: if_splits)

lemma buildPackageSnapshotTx_same: "buildPackageSnapshotTx pid p (t, fs) = (Inr s, (t', fs')) \<Longrightarrow> t' = t"
  by (erule buildPackageSnapshotTx_Inr) simp_all

text \<open>The coupon of a purchase before it is used, if any.\<close>

definition coupon_of :: "nanos \<Rightarrow> nat \<Rightarrow> nat \<Rightarrow> Package \<Rightarrow> tables \<Rightarrow> UserCoupon option \<Rightarrow> bool" where
  "coupon_of now uid cid p t c \<longleftrightarrow> (case c of None \<Rightarrow> cid = 0
     | Some v \<Rightarrow> 0 < cid \<and> (\<exists>u \<in> set (user_coupons t). uc_ID u = cid \<and> uc_UserID u = uid \<and> uc_Status u = ''available''
         \<and> v = used_coupon now u
         \<and> (uc_SnapshotType u = ''fixed_price'' \<longrightarrow> 0 < uc_SnapshotValue u
            \<and> (0 < couponPackageEffectiveLowerBoundMicroUSD p \<longrightarrow> couponPackageEffectiveLowerBoundMicroUSD p \<le> uc_SnapshotValue u))))"

lemma apply_coupon_Inr:
  assumes "apply_coupon now uid cid pid p (t, fs) = (Inr c, (t', fs'))"
  shows "coupon_of now uid cid p t c \<and> (\<exists>us. t' = t \<lparr> user_coupons := us \<rparr>
    \<and> (\<forall>k saving. coupons_after c k saving us = coupons_after c k saving (user_coupons t)))"
proof (cases "0 < cid")
  case True
  with assms obtain v where v: "lockAndApplyCoupon now uid cid pid p (t, fs) = (Inr v, (t', fs'))" "c = Some v"
    by (auto simp: apply_coupon_def tx_bind_Inr)
  from lockAndApply_Inr [OF v(1)] obtain u where u: "u \<in> set (user_coupons t)" "uc_ID u = cid" "uc_UserID u = uid"
    "uc_Status u = ''available''" "v = used_coupon now u"
    "uc_SnapshotType u = ''fixed_price'' \<longrightarrow> 0 < uc_SnapshotValue u
        \<and> (0 < couponPackageEffectiveLowerBoundMicroUSD p \<longrightarrow> couponPackageEffectiveLowerBoundMicroUSD p \<le> uc_SnapshotValue u)"
    "t' = t \<lparr> user_coupons := map (\<lambda>r. if uc_ID r = cid \<and> uc_UserID r = uid \<and> open_coupon now r then used_coupon now r else r) (user_coupons t) \<rparr>"
    by blast
  have "coupon_of now uid cid p t c" using True u v(2) by (auto simp: coupon_of_def)
  moreover have "coupons_after c k saving (map (\<lambda>r. if uc_ID r = cid \<and> uc_UserID r = uid \<and> open_coupon now r then used_coupon now r else r) (user_coupons t))
      = coupons_after c k saving (user_coupons t)" for k saving
    by (simp add: coupons_after_def v(2) u(2,5))
  ultimately show ?thesis using u(7) by blast
next
  case False
  with assms have "c = None" "t' = t" by (simp_all add: apply_coupon_def)
  with False show ?thesis by (intro conjI exI [of _ "user_coupons t"]) (simp_all add: coupon_of_def)
qed

lemma purchase_body_Inr:
  assumes "purchase_body cfg now uid pid qty cid (t, fs) = (Inr r, (t', fs'))" and "prices_fit t" "0 < qty"
  obtains p snapshot c cost base us es ns a f1 f2 where
    "map_of (packages t) pid = Some p" "Package_IsEnabled p" "pk_Public p" "0 \<le> pk_PriceAmount p"
    "0 < pk_BillingPeriodSeconds p" "pk_BillingPeriodSeconds p \<le> MaxBillingPeriodSeconds"
    "buildPackageSnapshotTx pid p (t, f1) = (Inr snapshot, (t, f2))"
    "0 < effective_max p \<longrightarrow> active_count uid pid now t + int qty \<le> effective_max p"
    "coupon_of now uid cid p t c" "sum_list (unit_prices p qty c) = cost" "in_i64 cost" "0 \<le> cost"
    "t' = t \<lparr> users := us, billing := billing t @ es @ ns,
        subscriptions := subs_after (bought_sub uid pid p snapshot c now base) 0 (unit_prices p qty c) (sub_seq t) (subscriptions t),
        sub_seq := sub_seq t + qty,
        user_coupons := coupons_after c (Suc (sub_seq t)) (pk_PriceAmount p - hd (unit_prices p qty c)) (user_coupons t) \<rparr>"
    "map tag es = map (\<lambda>(k, price). (''purchase_sub'', ''subscription'', k, uid, - price)) (zip [Suc (sub_seq t)..<Suc (sub_seq t + qty)] (unit_prices p qty c))"
    "neutral (map tag ns)" "users t uid = Some a" "0 < cost \<longrightarrow> cost \<le> u_Quota a"
    "\<exists>b. us uid = Some b \<and> u_Quota b = u_Quota a - cost"
    "\<And>opening. reconciled opening t \<Longrightarrow> reconciled opening t'"
proof -
  obtain t1 g1 t2 g2 t3 g3 t4 g4 t5 g5 p snapshot c where
    1: "lockUserForUpdate uid (t, fs) = (Inr (), (t1, g1))" and 2: "fresh_package pid (t1, g1) = (Inr p, (t2, g2))" and
    3: "buildPackageSnapshotTx pid p (t2, g2) = (Inr snapshot, (t3, g3))" and
    4: "check_stack uid pid p qty now (t3, g3) = (Inr (), (t4, g4))" and
    5: "apply_coupon now uid cid pid p (t4, g4) = (Inr c, (t5, g5))" and
    R: "(case CheckedSumInt64 (unit_prices p qty c) of None \<Rightarrow> tx_throw errPriceOverflow
       | Some cost \<Rightarrow> sell_units cfg now uid pid p snapshot c (unit_prices p qty c) cost) (t5, g5) = (Inr r, (t', fs'))"
    using assms(1) unfolding purchase_body_def by (auto simp: tx_bind_Inr)
  obtain cost where s: "CheckedSumInt64 (unit_prices p qty c) = Some cost"
    and 6: "sell_units cfg now uid pid p snapshot c (unit_prices p qty c) cost (t5, g5) = (Inr r, (t', fs'))"
    using R by (auto split: option.splits)
  note fp = fresh_package_Inr [OF 2]
  have t: "t1 = t" "t2 = t" "t3 = t" "t4 = t"
    using 1 fp buildPackageSnapshotTx_same [OF 3] check_stack_Inr [OF 4] by (simp_all add: lock_Inr)
  from apply_coupon_Inr [OF 5] obtain cs where c: "coupon_of now uid cid p t c" "t5 = t \<lparr> user_coupons := cs \<rparr>"
    "\<And>k saving. coupons_after c k saving cs = coupons_after c k saving (user_coupons t)" unfolding t by blast
  have fit: "in_i64 (pk_PriceAmount p)" using assms(2) fp map_of_SomeD [of "packages t" pid p] unfolding t
    by (auto simp: prices_fit_def list_all_iff)
  note cp = checked_prices [OF s _ fit assms(3)]
  have len: "length (unit_prices p qty c) = qty" using unit_prices_ok fp assms(3) by blast
  have hd: "hd [Suc (sub_seq t)..<Suc (sub_seq t + qty)] = Suc (sub_seq t)" using assms(3) by (simp add: hd_upt del: upt_Suc)
  have rec5: "reconciled start t5" if "reconciled start t" for start using that c(2) by (simp add: reconciled_def)
  from fp cp have cost: "sum_list (unit_prices p qty c) = cost" "0 \<le> cost" "in_i64 cost" by auto
  from 6 cost(2,1) show thesis
  proof (cases rule: sell_units_Inr)
    case S: (1 base us es ns a)
    show thesis
    proof (rule that [where p = p and snapshot = snapshot and c = c and cost = cost and base = base and us = us
          and es = es and ns = ns and a = a and ?f1.0 = g2 and ?f2.0 = g3])
      show "buildPackageSnapshotTx pid p (t, g2) = (Inr snapshot, (t, g3))" using 3 unfolding t .
      show "0 < effective_max p \<longrightarrow> active_count uid pid now t + int qty \<le> effective_max p"
        using check_stack_Inr [OF 4] unfolding t by blast
      show "\<exists>b. us uid = Some b \<and> u_Quota b = u_Quota a - cost" by (rule S(6))
      show "\<And>opening. reconciled opening t \<Longrightarrow> reconciled opening t'" using S(7) rec5 by blast
    qed (use fp c cost S(1-5) len hd in \<open>simp_all add: t(1) del: upt_Suc\<close>)
  qed
qed

subsection \<open>Every step keeps the invariant\<close>

lemma sub_ok_append: "purchases_in es i = [] \<Longrightarrow> refunds_in es i = [] \<Longrightarrow> sub_ok (l @ es) i s \<longleftrightarrow> sub_ok l i s"
  by (simp add: sub_ok_def)

lemma subs_after_old: "i \<le> n \<Longrightarrow> subs_after mk j xs n m i = m i"
  and subs_after_beyond: "n + length xs < i \<Longrightarrow> subs_after mk j xs n m i = m i"
  and subs_after_new: "k < length xs \<Longrightarrow> subs_after mk j xs n m (Suc (n + k)) = Some (mk (j + k) (xs ! k))"
  by (simp_all add: subs_after_def)

lemma subs_after_cases:
  obtains (old) "i \<le> n" "subs_after mk j xs n m i = m i"
  | (new) k where "i = Suc (n + k)" "k < length xs" "subs_after mk j xs n m i = Some (mk (j + k) (xs ! k))"
  | (beyond) "n + length xs < i" "subs_after mk j xs n m i = m i"
proof -
  consider "i \<le> n" | k where "i = Suc (n + k)" "k < length xs" | "n + length xs < i"
  proof -
    assume *: "i \<le> n \<Longrightarrow> thesis" "\<And>k. i = Suc (n + k) \<Longrightarrow> k < length xs \<Longrightarrow> thesis" "n + length xs < i \<Longrightarrow> thesis"
    show thesis
    proof (cases "i \<le> n \<or> n + length xs < i")
      case False
      then have "i = Suc (n + (i - Suc n))" "i - Suc n < length xs" by linarith+
      then show thesis by (rule *(2))
    qed (use * in blast)
  qed
  then show thesis by cases (auto simp: subs_after_old subs_after_beyond subs_after_new intro: that)
qed

lemma subs_inv_row: "subs_inv t S \<Longrightarrow> subscriptions t i = Some s \<Longrightarrow>
    i \<le> sub_seq t \<and> sub_ok (tags t) i s \<and> sub_AppliedCouponID s \<le> length (user_coupons t)"
  by (simp add: subs_inv_def)

lemma subs_inv_none: "subs_inv t S \<Longrightarrow> subscriptions t i = None \<Longrightarrow> purchases_in (tags t) i = [] \<and> refunds_in (tags t) i = []"
  by (simp add: subs_inv_def)

lemma subs_inv_beyond: "subs_inv t S \<Longrightarrow> sub_seq t < i \<Longrightarrow> subscriptions t i = None"
  by (cases "subscriptions t i") (auto dest: subs_inv_row)

text \<open>New rows after the last key, with entries about them only.\<close>

lemma new_rows_inv:
  assumes inv: "subs_inv t S"
    and subs: "subscriptions t' = subs_after mk 0 xs (sub_seq t) (subscriptions t)" "sub_seq t' = sub_seq t + length xs"
    and tags: "tags t' = tags t @ es"
    and new: "\<And>k. k < length xs \<Longrightarrow> sub_ok (tags t') (Suc (sub_seq t + k)) (mk k (xs ! k))
      \<and> sub_AppliedCouponID (mk k (xs ! k)) \<le> length (user_coupons t)"
    and others: "\<And>i. i \<le> sub_seq t \<or> sub_seq t + length xs < i \<Longrightarrow> purchases_in es i = [] \<and> refunds_in es i = []"
    and coupons: "map uc_ID (user_coupons t') = map uc_ID (user_coupons t)" "\<And>c. c \<in> set (user_coupons t') \<Longrightarrow> coupon_ok t' c"
    and pk: "prices_fit t'"
  shows "subs_inv t' S"
proof -
  have len: "length (user_coupons t') = length (user_coupons t)" using coupons(1) by (metis length_map)
  have row: "i \<le> sub_seq t' \<and> sub_ok (tags t') i s \<and> sub_AppliedCouponID s \<le> length (user_coupons t')"
    if "subscriptions t' i = Some s" for i s
    using that unfolding subs(1)
  proof (cases rule: subs_after_cases [where n = "sub_seq t" and i = i and xs = xs and mk = mk and j = 0 and m = "subscriptions t"])
    case old
    with that subs_inv_row [OF inv, of i s] others [of i] show ?thesis by (simp add: subs tags sub_ok_append len)
  next
    case (new k)
    with that assms(5) [of k] show ?thesis by (simp add: subs len)
  next
    case beyond
    with that subs_inv_beyond [OF inv, of i] show ?thesis by (simp add: subs)
  qed
  have none: "purchases_in (tags t') i = [] \<and> refunds_in (tags t') i = []" if "subscriptions t' i = None" for i
    using that unfolding subs(1)
    by (cases rule: subs_after_cases [where n = "sub_seq t" and i = i and xs = xs and mk = mk and j = 0 and m = "subscriptions t"])
      (use subs_inv_none [OF inv, of i] others [of i] in \<open>auto simp: tags\<close>)
  have views: "\<exists>r. subscriptions t' i = Some r \<and> fixed r = fixed s" if iS: "(i, s) \<in> S" for i s
  proof -
    from inv iS obtain r where r: "subscriptions t i = Some r" "fixed r = fixed s" by (auto simp: subs_inv_def)
    with subs_inv_row [OF inv r(1)] show ?thesis by (simp add: subs subs_after_old)
  qed
  show ?thesis unfolding subs_inv_def
    using row none views coupons inv pk len by (auto simp: subs_inv_def)
qed

text \<open>One row changed, with entries about it only.\<close>

definition link_of :: "user_subscription \<Rightarrow> nat \<times> nat" where
  "link_of s = (sub_UserID s, sub_AppliedCouponID s)"

lemma coupon_ok_cong:
  assumes eq: "\<And>k. map_option link_of (subscriptions t' k) = map_option link_of (subscriptions t k)" and ok: "coupon_ok t c"
  shows "coupon_ok t' c"
proof -
  have b: "\<exists>r. subscriptions t k = Some r \<and> sub_UserID r = sub_UserID r' \<and> sub_AppliedCouponID r = sub_AppliedCouponID r'"
    if "subscriptions t' k = Some r'" for k r' using eq [of k] that by (cases "subscriptions t k") (auto simp: link_of_def)
  have f: "\<exists>r. subscriptions t' k = Some r \<and> sub_UserID r = sub_UserID r'"
    if "subscriptions t k = Some r'" for k r' using eq [of k] that by (cases "subscriptions t' k") (auto simp: link_of_def)
  show ?thesis
  proof (cases "uc_Status c = ''used''")
    case True
    with ok obtain i s where i: "uc_UsedOnSubID c = Some i" "subscriptions t i = Some s" "sub_UserID s = uc_UserID c"
      "\<forall>k r. subscriptions t k = Some r \<longrightarrow> (sub_AppliedCouponID r = uc_ID c \<longleftrightarrow> k = i)" by (auto simp: coupon_ok_def)
    from f [OF i(2)] obtain s' where s': "subscriptions t' i = Some s'" "sub_UserID s' = sub_UserID s" by blast
    have "\<forall>k r. subscriptions t' k = Some r \<longrightarrow> (sub_AppliedCouponID r = uc_ID c \<longleftrightarrow> k = i)" using i(4) b by metis
    with True i s' show ?thesis by (simp add: coupon_ok_def)
  next
    case False
    with ok have "\<forall>k r. subscriptions t k = Some r \<longrightarrow> sub_AppliedCouponID r \<noteq> uc_ID c" by (simp add: coupon_ok_def)
    with b have "\<forall>k r. subscriptions t' k = Some r \<longrightarrow> sub_AppliedCouponID r \<noteq> uc_ID c" by metis
    with False show ?thesis by (simp add: coupon_ok_def)
  qed
qed

lemma changed_row_inv:
  assumes inv: "subs_inv t S" and i: "subscriptions t i = Some s"
    and subs: "subscriptions t' = (subscriptions t)(i \<mapsto> s')" "sub_seq t' = sub_seq t"
    and same: "fixed s' = fixed s" "sub_AppliedCouponID s' = sub_AppliedCouponID s"
    and tags: "tags t' = tags t @ es" and ok: "sub_ok (tags t') i s'"
    and others: "\<And>k. k \<noteq> i \<Longrightarrow> purchases_in es k = [] \<and> refunds_in es k = []"
    and rest: "user_coupons t' = user_coupons t" "prices_fit t'"
  shows "subs_inv t' S"
proof -
  have "map_option link_of (subscriptions t' k) = map_option link_of (subscriptions t k)" for k
    using same i by (simp add: subs link_of_def fixed_def)
  from coupon_ok_cong [OF this] inv have c: "\<forall>c \<in> set (user_coupons t'). coupon_ok t' c"
    by (simp add: subs_inv_def rest)
  have row: "k \<le> sub_seq t' \<and> sub_ok (tags t') k r \<and> sub_AppliedCouponID r \<le> length (user_coupons t')"
    if "subscriptions t' k = Some r" for k r
    using that ok same subs_inv_row [OF inv i] subs_inv_row [OF inv, of k r] others [of k]
    by (cases "k = i") (auto simp: subs rest tags sub_ok_append)
  have none: "purchases_in (tags t') k = [] \<and> refunds_in (tags t') k = []" if "subscriptions t' k = None" for k
    using that subs_inv_none [OF inv, of k] others [of k] by (auto simp: subs tags split: if_splits)
  have views: "\<exists>r. subscriptions t' k = Some r \<and> fixed r = fixed v" if "(k, v) \<in> S" for k v
    using that inv i same by (cases "k = i") (auto simp: subs_inv_def subs)
  show ?thesis unfolding subs_inv_def
    using row none views c inv rest by (auto simp: subs_inv_def)
qed

lemma unit_tags:
  "purchases_in (map (\<lambda>(k, price). (''purchase_sub'', ''subscription'', k, uid, - price)) (zip [Suc n..<Suc (n + length ps)] ps)) i
     = (if n < i \<and> i \<le> n + length ps then [(uid, - ps ! (i - Suc n))] else [])"
proof (induction ps arbitrary: n)
  case (Cons p ps)
  have z: "zip [Suc n..<Suc (n + length (p # ps))] (p # ps) = (Suc n, p) # zip [Suc (Suc n)..<Suc (Suc n + length ps)] ps"
    by (subst upt_conv_Cons) simp_all
  have "purchases_in (x # xs) i = purchases_in [x] i @ purchases_in xs i" for x and xs :: "tag list"
    using purchases_in_append [of "[x]" xs i] by simp
  then show ?case unfolding z list.map using Cons.IH [of "Suc n"]
    by (auto simp: purchases_in_def nth_Cons' simp del: upt_Suc)
qed (auto simp: purchases_in_def)

lemma unit_tags_refunds:
  "refunds_in (map (\<lambda>(k, price). (''purchase_sub'', ''subscription'', k, uid, - price)) us) i = []"
  by (induction us) (auto simp: refunds_in_def)

lemma prices_fit_frame: "packages t' = packages t \<Longrightarrow> prices_fit t \<Longrightarrow> prices_fit t'"
  by (simp add: prices_fit_def)

lemma coupon_ids: "subs_inv t S \<Longrightarrow> u \<in> set (user_coupons t) \<Longrightarrow> 0 < uc_ID u \<and> uc_ID u \<le> length (user_coupons t)"
proof -
  assume "subs_inv t S" "u \<in> set (user_coupons t)"
  then have "uc_ID u \<in> set [1..<Suc (length (user_coupons t))]" unfolding subs_inv_def by (metis image_eqI list.set_map)
  then show ?thesis by auto
qed

lemma coupons_after_ids: "map uc_ID (coupons_after c k saving us) = map uc_ID us"
  by (auto simp: coupons_after_def o_def split: option.split)

lemma tags_frame [simp]: "tags (t \<lparr> users := us \<rparr>) = tags t" "tags (t \<lparr> subscriptions := m \<rparr>) = tags t"
  "tags (t \<lparr> sub_seq := n \<rparr>) = tags t" "tags (t \<lparr> user_coupons := cs \<rparr>) = tags t" "tags (t \<lparr> operation_logs := ol \<rparr>) = tags t"
  "tags (t \<lparr> billing := es \<rparr>) = map tag es"
  by (simp_all add: tags_def)

text \<open>New rows that do not use a coupon leave it as it is.\<close>

lemma coupon_ok_more:
  assumes ok: "coupon_ok t u" and inv: "subs_inv t S"
    and keep: "\<And>k. k \<le> sub_seq t \<Longrightarrow> subscriptions t' k = subscriptions t k"
    and other: "\<And>k r. subscriptions t' k = Some r \<Longrightarrow> sub_seq t < k \<Longrightarrow> sub_AppliedCouponID r \<noteq> uc_ID u"
  shows "coupon_ok t' u"
proof (cases "uc_Status u = ''used''")
  case True
  with ok obtain i s where i: "uc_UsedOnSubID u = Some i" "subscriptions t i = Some s" "sub_UserID s = uc_UserID u"
    "\<forall>k r. subscriptions t k = Some r \<longrightarrow> (sub_AppliedCouponID r = uc_ID u \<longleftrightarrow> k = i)" by (auto simp: coupon_ok_def)
  have i_old: "i \<le> sub_seq t" using subs_inv_row [OF inv i(2)] by simp
  have "sub_AppliedCouponID r = uc_ID u \<longleftrightarrow> k = i" if "subscriptions t' k = Some r" for k r
    using that i(4) i_old keep [of k] other [OF that] by (cases "k \<le> sub_seq t") auto
  with True i i_old keep show ?thesis by (auto simp: coupon_ok_def)
next
  case False
  with ok have "\<forall>k r. subscriptions t k = Some r \<longrightarrow> sub_AppliedCouponID r \<noteq> uc_ID u" by (simp add: coupon_ok_def)
  with keep other have "sub_AppliedCouponID r \<noteq> uc_ID u" if "subscriptions t' k = Some r" for k r
    using that by (cases "k \<le> sub_seq t") auto
  with False show ?thesis by (simp add: coupon_ok_def)
qed

text \<open>The coupons of a purchase stay tied to one subscription each.\<close>

lemma bought_coupons_ok:
  assumes inv: "subs_inv t S" and c: "coupon_of now uid cid p t c" and u: "u \<in> set (coupons_after c (Suc (sub_seq t)) saving (user_coupons t))"
    and xs: "xs \<noteq> []"
    and subs: "subscriptions t' = subs_after (bought_sub uid pid p snapshot c now base) 0 xs (sub_seq t) (subscriptions t)"
  shows "coupon_ok t' u"
proof -
  let ?n = "sub_seq t"
  have keep: "subscriptions t' k = subscriptions t k" if "k \<le> ?n" for k using that by (simp add: subs subs_after_old)
  have new: "sub_AppliedCouponID r = (if k = Suc ?n then (case c of None \<Rightarrow> 0 | Some v \<Rightarrow> uc_ID v) else 0)"
    if "subscriptions t' k = Some r" "?n < k" for k r
    using that unfolding subs
    by (cases rule: subs_after_cases [where n = ?n and i = k and xs = xs and mk = "bought_sub uid pid p snapshot c now base"
          and j = 0 and m = "subscriptions t"])
      (auto simp: bought_sub_def subs_inv_beyond [OF inv] split: option.splits)
  have one: "\<exists>s. subscriptions t' (Suc ?n) = Some s \<and> sub_UserID s = uid"
    using xs subs_after_new [of 0 xs] unfolding subs by (auto simp: bought_sub_def)
  from c show ?thesis
  proof (cases c)
    case None
    with u have "u \<in> set (user_coupons t)" by (simp add: coupons_after_def)
    with inv have ok: "coupon_ok t u" and id: "0 < uc_ID u" using coupon_ids [OF inv] by (auto simp: subs_inv_def)
    have other: "sub_AppliedCouponID r \<noteq> uc_ID u" if "subscriptions t' k = Some r" "?n < k" for k r
      using new [OF that] id None by (auto split: if_splits)
    show ?thesis by (rule coupon_ok_more [OF ok inv keep other])
  next
    case (Some v)
    with c obtain w where w: "w \<in> set (user_coupons t)" "uc_ID w = cid" "uc_UserID w = uid" "uc_Status w = ''available''"
      "v = used_coupon now w" "0 < cid" by (auto simp: coupon_of_def)
    from u Some w(2,5) consider "u \<in> set (user_coupons t)" "uc_ID u \<noteq> cid"
      | "u = v \<lparr> uc_UsedOnSubID := Some (Suc ?n), uc_UsedSavingUSD := saving \<rparr>"
      by (auto simp: coupons_after_def split: if_splits)
    then show ?thesis
    proof cases
      case 1
      with inv have ok: "coupon_ok t u" and id: "0 < uc_ID u" using coupon_ids [OF inv] by (auto simp: subs_inv_def)
      have other: "sub_AppliedCouponID r \<noteq> uc_ID u" if "subscriptions t' k = Some r" "?n < k" for k r
        using new [OF that] id 1 w Some by (auto split: if_splits)
      show ?thesis by (rule coupon_ok_more [OF ok inv keep other])
    next
      case 2
      from inv w(1) have "coupon_ok t w" by (simp add: subs_inv_def)
      then have free: "sub_AppliedCouponID r \<noteq> cid" if "subscriptions t k = Some r" for k r
        using w that by (simp add: coupon_ok_def)
      have "sub_AppliedCouponID r = cid \<longleftrightarrow> k = Suc ?n" if "subscriptions t' k = Some r" for k r
      proof (cases "k \<le> ?n")
        case True
        with that keep free [of k r] show ?thesis by simp
      next
        case False
        with new [OF that] w Some show ?thesis by simp
      qed
      with 2 one w show ?thesis by (auto simp: coupon_ok_def)
    qed
  qed
qed

text \<open>A transaction that fails keeps everything; so a step needs a proof for a successful body only.\<close>

lemma transaction_keeps:
  assumes "transaction m (t, fs) = (r, (t', fs'))" and "P t"
    and "\<And>a fs''. m (t, fs) = (Inr a, (t', fs'')) \<Longrightarrow> P t'"
  shows "P t'"
  using assms by (cases r) (auto dest: transaction_rollback simp: transaction_Inr)

lemma buy_inv:
  assumes inv: "subs_inv t S" and "0 < qty" and run: "purchase_body cfg now uid pid qty cid (t, fs) = (Inr r, (t', fs'))"
  shows "subs_inv t' S"
proof -
  have fit: "prices_fit t" using inv by (simp add: subs_inv_def)
  from run fit assms(2) show ?thesis
  proof (cases rule: purchase_body_Inr)
    case B: (1 p snapshot c cost base us es ns a f1 f2)
    let ?ps = "unit_prices p qty c"
    note ps = unit_prices_ok [OF B(4) assms(2), of c]
    have tags: "tags t' = tags t @ (map tag es @ map tag ns)" by (simp add: B(13) tags_def)
    note no = neutral_nothing [OF B(15)]
    note pu = unit_tags [of uid "sub_seq t" ?ps, unfolded ps(1), folded B(14)]
    note re = unit_tags_refunds [of uid "zip [Suc (sub_seq t)..<Suc (sub_seq t + qty)] ?ps", folded B(14)]
    have cid: "sub_AppliedCouponID (bought_sub uid pid p snapshot c now base k x) \<le> length (user_coupons t)" for k x
      using B(9) coupon_ids [OF inv] by (auto simp: bought_sub_def coupon_of_def split: option.splits)
    show ?thesis
    proof (rule new_rows_inv [OF inv _ _ tags])
      show "subscriptions t' = subs_after (bought_sub uid pid p snapshot c now base) 0 ?ps (sub_seq t) (subscriptions t)"
        "sub_seq t' = sub_seq t + length ?ps" by (simp_all add: B(13) ps)
    next
      fix k assume k: "k < length ?ps"
      have "0 \<le> ?ps ! k" using ps k by (simp add: list_all_length)
      then show "sub_ok (tags t') (Suc (sub_seq t + k)) (bought_sub uid pid p snapshot c now base k (?ps ! k))
          \<and> sub_AppliedCouponID (bought_sub uid pid p snapshot c now base k (?ps ! k)) \<le> length (user_coupons t)"
        using k ps subs_inv_none [OF inv subs_inv_beyond [OF inv, of "Suc (sub_seq t + k)"]] no cid
        by (simp add: tags sub_ok_def pu re) (simp add: bought_sub_def)
    next
      show "\<And>i. i \<le> sub_seq t \<or> sub_seq t + length ?ps < i \<Longrightarrow>
          purchases_in (map tag es @ map tag ns) i = [] \<and> refunds_in (map tag es @ map tag ns) i = []"
        using no by (auto simp: pu re ps)
    next
      show "map uc_ID (user_coupons t') = map uc_ID (user_coupons t)" by (simp add: B(13) coupons_after_ids)
    next
      fix u assume "u \<in> set (user_coupons t')"
      moreover have "?ps \<noteq> []" using ps(1) assms(2) by auto
      ultimately show "coupon_ok t' u"
        by (intro bought_coupons_ok [OF inv B(9), where xs = ?ps]) (simp_all add: B(13))
    next
      show "prices_fit t'" using fit by (rule prices_fit_frame [rotated]) (simp add: B(13))
    qed
  qed
qed

text \<open>Granting.\<close>

lemma grant_sub_body_Inr:
  assumes "grant_sub_body now op uid pid qty secs (t, fs) = (Inr r, (t', fs'))"
  obtains p snapshot base es ol f1 f2 where
    "map_of (packages t) pid = Some p" "Package_IsEnabled p" "buildPackageSnapshotTx pid p (t, f1) = (Inr snapshot, (t, f2))"
    "0 < effective_max p \<longrightarrow> active_count uid pid now t + int qty \<le> effective_max p"
    "t' = t \<lparr> billing := billing t @ es, operation_logs := ol, sub_seq := sub_seq t + qty,
      subscriptions := subs_after (\<lambda>i _. granted_sub uid pid snapshot now secs base i) 0 (replicate qty ()) (sub_seq t) (subscriptions t) \<rparr>"
    "neutral (map tag es)" "list_all (\<lambda>e. be_AmountUSD e = 0) es"
proof -
  obtain t1 g1 t2 g2 t3 g3 t4 g4 t5 g5 t6 g6 t7 g7 t8 g8 t9 g9 p snapshot base ids fresh where
    1: "lockUserForUpdate uid (t, fs) = (Inr (), (t1, g1))" and 2: "fresh_target uid (t1, g1) = (Inr (), (t2, g2))" and
    3: "fresh_granted_package pid (t2, g2) = (Inr p, (t3, g3))" and
    4: "buildPackageSnapshotTx pid p (t3, g3) = (Inr snapshot, (t4, g4))" and
    5: "check_stack uid pid p qty now (t4, g4) = (Inr (), (t5, g5))" and
    6: "getNextStackIndex uid pid (t5, g5) = (Inr base, (t6, g6))" and
    7: "create_subs (\<lambda>i _. granted_sub uid pid snapshot now secs base i) 0 (replicate qty ()) (t6, g6) = (Inr ids, (t7, g7))" and
    8: "query_first (\<lambda>t. users t uid) (t7, g7) = (Inr fresh, (t8, g8))" and
    9: "book_grants now uid (pk_PriceCurrency p) 0 (u_Quota fresh) ids (t8, g8) = (Inr (), (t9, g9))" and
    10: "tx_bind (LogOperationByTx op uid ''admin'' ''GRANT_SUBSCRIPTION'') (\<lambda>_. tx_return ids) (t9, g9) = (Inr r, (t', fs'))"
    using assms unfolding grant_sub_body_def by (auto simp: tx_bind_Inr simp del: upt_Suc)
  have p: "t3 = t2" "map_of (packages t2) pid = Some p" "Package_IsEnabled p"
    using 3 by (auto simp: fresh_granted_package_def find_package_def tx_bind_Inr query_first_Inr split: if_splits)
  have t: "t1 = t" "t2 = t1" "t4 = t3" "t5 = t4" "t6 = t5" "t8 = t7"
    using 1 2 buildPackageSnapshotTx_same [OF 4] check_stack_Inr [OF 5] 6 8
    by (auto simp: lock_Inr fresh_target_def getNextStackIndex_def tx_bind_Inr query_first_Inr stmt_Inr split: if_splits)
  note mk = create_subs_Inr [OF 7]
  from book_grants_Inr [OF 9] obtain es where es: "t9 = t8 \<lparr> billing := billing t8 @ es \<rparr>"
    "neutral (map tag es)" "list_all (\<lambda>e. be_AmountUSD e = 0) es" by blast
  from 10 obtain ol where ol: "t' = t9 \<lparr> operation_logs := ol \<rparr>" by (auto simp: tx_bind_Inr dest: LogOperation_Inr)
  show thesis
  proof (rule that [where p = p and snapshot = snapshot and base = base and es = es and ol = ol and ?f1.0 = g3 and ?f2.0 = g4])
    show "buildPackageSnapshotTx pid p (t, g3) = (Inr snapshot, (t, g4))" using 4 t p(1) by simp
    show "0 < effective_max p \<longrightarrow> active_count uid pid now t + int qty \<le> effective_max p"
      using check_stack_Inr [OF 5] t p(1) by simp
  qed (use t p mk es ol in \<open>simp_all del: upt_Suc\<close>)
qed

lemma grant_inv:
  assumes inv: "subs_inv t S" and run: "grant_sub_body now op uid pid qty secs (t, fs) = (Inr r, (t', fs'))"
  shows "subs_inv t' S"
  using run
proof (cases rule: grant_sub_body_Inr)
  case G: (1 p snapshot base es ol f1 f2)
  let ?mk = "\<lambda>i _. granted_sub uid pid snapshot now secs base i"
  have tags: "tags t' = tags t @ map tag es" by (simp add: G(5) tags_def)
  note no = neutral_nothing [OF G(6)]
  show ?thesis
  proof (rule new_rows_inv [OF inv _ _ tags])
    show "subscriptions t' = subs_after ?mk 0 (replicate qty ()) (sub_seq t) (subscriptions t)"
      "sub_seq t' = sub_seq t + length (replicate qty ())" by (simp_all add: G(5))
  next
    fix k assume "k < length (replicate qty ())"
    show "sub_ok (tags t') (Suc (sub_seq t + k)) (?mk k (replicate qty () ! k))
        \<and> sub_AppliedCouponID (?mk k (replicate qty () ! k)) \<le> length (user_coupons t)"
      using subs_inv_none [OF inv subs_inv_beyond [OF inv, of "Suc (sub_seq t + k)"]] no
      by (simp add: tags sub_ok_def granted_sub_def)
  next
    fix u assume "u \<in> set (user_coupons t')"
    then have u: "u \<in> set (user_coupons t)" by (simp add: G(5))
    show "coupon_ok t' u"
    proof (rule coupon_ok_more [OF _ inv])
      show "coupon_ok t u" using inv u by (simp add: subs_inv_def)
      show "k \<le> sub_seq t \<Longrightarrow> subscriptions t' k = subscriptions t k" for k by (simp add: G(5) subs_after_old)
      show "sub_AppliedCouponID s \<noteq> uc_ID u" if "subscriptions t' k = Some s" "sub_seq t < k" for k s
      proof -
        have "sub_AppliedCouponID s = 0" using that unfolding G(5)
          by (cases rule: subs_after_cases [where n = "sub_seq t" and i = k and xs = "replicate qty ()" and mk = ?mk
              and j = 0 and m = "subscriptions t"]) (auto simp: granted_sub_def subs_inv_beyond [OF inv])
        with coupon_ids [OF inv u] show ?thesis by simp
      qed
    qed
  qed (use no inv in \<open>auto simp: G(5) subs_inv_def prices_fit_def\<close>)
qed

text \<open>Ending.\<close>

lemma refund_sub_body_Inr:
  assumes "refund_sub_body now op i s a (t, fs) = (Inr r, (t', fs'))"
  obtains x u e ol where "refunds_booked i t = []" "subscriptions t i = Some x" "refundable x"
    "users t (sub_UserID s) = Some u" "tag e = (''refund_sub'', ''subscription_refund'', i, sub_UserID s, a)"
    "t' = t \<lparr> subscriptions := (subscriptions t)(i \<mapsto> close_sub ''refunded'' now x),
       users := (users t)(sub_UserID s \<mapsto> u \<lparr> u_Quota := u_Quota u + a \<rparr>), billing := billing t @ [e], operation_logs := ol \<rparr>"
proof -
  let ?up = "\<lambda>u. u \<lparr> u_Quota := u_Quota u + a \<rparr> :: user"
  obtain t1 g1 t2 g2 t3 g3 t4 g4 t5 g5 t6 g6 n m k fresh where
    1: "lockUserForUpdate (sub_UserID s) (t, fs) = (Inr (), (t1, g1))" and
    2: "stmt (\<lambda>t. (length (refunds_booked i t), t)) (t1, g1) = (Inr n, (t2, g2))" and n: "n = 0" and
    3: "stmt (update_sub_if i refundable (close_sub ''refunded'' now)) (t2, g2) = (Inr m, (t3, g3))" and m: "m \<noteq> 0" and
    4: "stmt (update_user_if (sub_UserID s) (\<lambda>_. True) ?up) (t3, g3) = (Inr k, (t4, g4))" and
    5: "query_first (\<lambda>t. users t (sub_UserID s)) (t4, g4) = (Inr fresh, (t5, g5))" and
    6: "tx_catch (WriteBillingEntry now (sub_refund_entry now (sub_UserID s) i a (u_Quota fresh)))
             (\<lambda>e. tx_throw (if e = errUnique then errSubRefundDuplicate else e)) (t5, g5) = (Inr (), (t6, g6))" and
    7: "LogOperationByTx op (sub_UserID s) ''admin'' ''REFUND_SUBSCRIPTION'' (t6, g6) = (Inr r, (t', fs'))"
    using assms unfolding refund_sub_body_def by (auto simp: tx_bind_Inr split: if_splits)
  have t: "t1 = t" "t2 = t" "refunds_booked i t = []" "t5 = t4" "users t4 (sub_UserID s) = Some fresh"
    using 1 2 n 5 by (auto simp: lock_Inr stmt_Inr query_first_Inr)
  from update_sub_Inr [OF 3] m obtain x where x: "subscriptions t i = Some x" "refundable x"
    "t3 = t \<lparr> subscriptions := (subscriptions t)(i \<mapsto> close_sub ''refunded'' now x) \<rparr>" unfolding t by blast
  have W: "WriteBillingEntry now (sub_refund_entry now (sub_UserID s) i a (u_Quota fresh)) (t5, g5) = (Inr (), (t6, g6))"
    using 6 by (auto simp: tx_catch_Inr)
  from 4 t(5) x(3) obtain u where u: "users t (sub_UserID s) = Some u" "t4 = t3 \<lparr> users := (users t)(sub_UserID s \<mapsto> ?up u) \<rparr>"
    by (auto simp: stmt_Inr update_user_if_def split: option.splits)
  from LogOperation_Inr [OF 7] obtain ol where ol: "t' = t6 \<lparr> operation_logs := ol \<rparr>" by blast
  show thesis
    using that [OF t(3) x(1,2) u(1), of "booked now (sub_refund_entry now (sub_UserID s) i a (u_Quota fresh))" ol]
      WriteBilling_tags [OF W] x(3) u(2) t(4) ol by (simp add: tag_def sub_refund_entry_def)
qed

lemma refund_tags:
  "refunds_in [(''refund_sub'', ''subscription_refund'', i, uid, a)] k = (if k = i then [(uid, a)] else [])"
  "purchases_in [(''refund_sub'', ''subscription_refund'', i, uid, a)] k = []"
  by (simp_all add: refunds_in_def purchases_in_def)

lemma refund_sub_inv:
  assumes inv: "subs_inv t S" and v: "(i, s) \<in> S" "\<not> sub_IsGranted s" "0 < a" "a \<le> sub_PurchasedUnitPriceUSD s"
    and run: "refund_sub_body now op i s a (t, fs) = (Inr r, (t', fs'))"
  shows "subs_inv t' S"
  using run
proof (cases rule: refund_sub_body_Inr)
  case R: (1 x u e ol)
  from inv v(1) R(2) have fx: "fixed x = fixed s" by (auto simp: subs_inv_def)
  have tags: "tags t' = tags t @ [tag e]" by (simp add: R(6) tags_def)
  have x: "sub_ok (tags t) i x" using subs_inv_row [OF inv R(2)] by simp
  have none: "refunds_in (tags t) i = []" using R(1) refunds_booked_tags [of i t] by simp
  show ?thesis
  proof (rule changed_row_inv [OF inv R(2) _ _ _ _ tags])
    show "sub_ok (tags t') i (close_sub ''refunded'' now x)"
      using x none fx v R(5) by (auto simp: tags sub_ok_def close_sub_def refund_tags fixed_def)
  qed (use R fx inv in \<open>auto simp: close_sub_def fixed_def refund_tags subs_inv_def prices_fit_def\<close>)
qed

lemma revoke_grant_body_Inr:
  assumes "revoke_grant_body now op i uid (t, fs) = (Inr r, (t', fs'))"
  obtains x e ol where "subscriptions t i = Some x" "sub_IsGranted x" "revocable x" "neutral [tag e]" "be_AmountUSD e = 0"
    "t' = t \<lparr> subscriptions := (subscriptions t)(i \<mapsto> close_sub ''revoked'' now x), billing := billing t @ [e], operation_logs := ol \<rparr>"
proof -
  obtain t1 g1 t2 g2 t3 g3 t4 g4 t5 g5 n x fresh where
    1: "lockUserForUpdate uid (t, fs) = (Inr (), (t1, g1))" and
    2: "query_first (\<lambda>t. subscriptions t i) (t1, g1) = (Inr x, (t2, g2))" and x: "sub_IsGranted x" "revocable x" and
    3: "stmt (update_sub_if i (\<lambda>s. sub_IsGranted s \<and> revocable s) (close_sub ''revoked'' now)) (t2, g2) = (Inr n, (t3, g3))" and n: "n \<noteq> 0" and
    4: "query_first (\<lambda>t. users t (sub_UserID x)) (t3, g3) = (Inr fresh, (t4, g4))" and
    5: "WriteBillingEntry now (revoked_entry now (sub_UserID x) i (u_Quota fresh)) (t4, g4) = (Inr (), (t5, g5))" and
    6: "LogOperationByTx op (sub_UserID x) ''admin'' ''REVOKE_GRANTED_SUBSCRIPTION'' (t5, g5) = (Inr r, (t', fs'))"
    using assms unfolding revoke_grant_body_def by (auto simp: tx_bind_Inr split: if_splits)
  have t: "t2 = t" "subscriptions t i = Some x" "t4 = t3" using 1 2 4 by (auto simp: lock_Inr query_first_Inr)
  from update_sub_Inr [OF 3] n t have t3: "t3 = t \<lparr> subscriptions := (subscriptions t)(i \<mapsto> close_sub ''revoked'' now x) \<rparr>" by auto
  from LogOperation_Inr [OF 6] obtain ol where ol: "t' = t5 \<lparr> operation_logs := ol \<rparr>" by blast
  show thesis
    using that [OF t(2) x, of "booked now (revoked_entry now (sub_UserID x) i (u_Quota fresh))" ol]
      WriteBilling_tags [OF 5] t3 t(3) ol by (simp add: neutral_def tag_def revoked_entry_def)
qed

lemma revoke_grant_inv:
  assumes inv: "subs_inv t S" and run: "revoke_grant_body now op i uid (t, fs) = (Inr r, (t', fs'))"
  shows "subs_inv t' S"
  using run
proof (cases rule: revoke_grant_body_Inr)
  case R: (1 x e ol)
  have tags: "tags t' = tags t @ [tag e]" by (simp add: R(6) tags_def)
  note no = neutral_nothing [OF R(4)]
  have x: "sub_ok (tags t) i x" using subs_inv_row [OF inv R(1)] by simp
  show ?thesis
  proof (rule changed_row_inv [OF inv R(1) _ _ _ _ tags])
    show "sub_ok (tags t') i (close_sub ''revoked'' now x)"
      using x no R(2,3) by (auto simp: tags sub_ok_def close_sub_def revocable_def)
  qed (use R no inv in \<open>auto simp: close_sub_def fixed_def subs_inv_def prices_fit_def\<close>)
qed

lemma close_inv:
  assumes inv: "subs_inv t S" and st: "st \<in> {''canceled'', ''expired''}"
    and f: "\<And>s. fixed (f s) = fixed s \<and> sub_Status (f s) = st \<and> sub_AppliedCouponID (f s) = sub_AppliedCouponID s"
    and run: "stmt (update_sub_if i (\<lambda>s. sub_Status s = ''active'') f) (t, fs) = (Inr n, (t', fs'))"
  shows "subs_inv t' S"
  using update_sub_Inr [OF run]
proof (elim disjE exE conjE)
  fix s assume s: "subscriptions t i = Some s" "sub_Status s = ''active''" "t' = t \<lparr> subscriptions := (subscriptions t)(i \<mapsto> f s) \<rparr>"
  have x: "sub_ok (tags t) i s" using subs_inv_row [OF inv s(1)] by simp
  show ?thesis
  proof (rule changed_row_inv [OF inv s(1), where es = "[]"])
    show "sub_ok (tags t') i (f s)"
      using x s(2) f [of s] st by (auto simp: s(3) sub_ok_def fixed_def split: if_splits)
  qed (use s f inv in \<open>auto simp: purchases_in_def refunds_in_def subs_inv_def prices_fit_def\<close>)
qed (use inv in simp)

subsection \<open>Coupons given and taken back\<close>

text \<open>New coupons at the end, with the next keys, all available.\<close>

definition given :: "UserCoupon list \<Rightarrow> tables \<Rightarrow> tables \<Rightarrow> bool" where
  "given new t t' \<longleftrightarrow> (\<exists>ol. t' = t \<lparr> user_coupons := user_coupons t @ new, operation_logs := ol \<rparr>)
     \<and> map uc_ID new = [Suc (length (user_coupons t))..<Suc (length (user_coupons t) + length new)]
     \<and> list_all (\<lambda>c. uc_Status c = ''available'') new"

lemma given_refl: "given [] t t"
  by (simp add: given_def) (metis tables.surjective tables.update_convs(12))

lemma given_trans: "given xs t t1 \<Longrightarrow> given ys t1 t2 \<Longrightarrow> given (xs @ ys) t t2"
  by (auto simp: given_def upt_add_eq_append [symmetric] simp del: upt_Suc)
    (metis (no_types, lifting) add.assoc add_Suc le_add1 upt_add_eq_append)

lemma given_log: "LogOperationByTx a b c d (t, fs) = (Inr u, (t', fs')) \<Longrightarrow> given [] t t'"
  using LogOperation_Inr by (auto simp: given_def)

lemma create_coupons_Inr:
  "create_coupons uid c op now rs (t, fs) = (Inr u, (t', fs')) \<Longrightarrow>
    \<exists>new. given new t t' \<and> length new = length rs \<and> list_all (\<lambda>x. uc_UserID x = uid \<and> uc_TemplateID x = ct_ID c) new"
proof (induction rs arbitrary: t fs)
  case Nil
  then show ?case using given_refl by auto
next
  case (Cons r rs)
  then obtain x where x: "buildCouponFromTemplate uid c op now r = Some x" by (auto split: option.splits)
  with Cons.prems obtain i t1 f1 where 1: "insert_coupon x (t, fs) = (Inr i, (t1, f1))"
    and 2: "create_coupons uid c op now rs (t1, f1) = (Inr u, (t', fs'))" by (auto simp: tx_bind_Inr)
  from 1 have t1: "t1 = t \<lparr> user_coupons := user_coupons t @ [x \<lparr> uc_ID := Suc (length (user_coupons t)) \<rparr>] \<rparr>"
    by (auto simp: insert_coupon_def tx_bind_Inr stmt_Inr Let_def split: if_splits)
  have xs: "uc_Status x = ''available''" "uc_UserID x = uid" "uc_TemplateID x = ct_ID c"
    using x by (auto simp: buildCouponFromTemplate_def snapshotTemplate_def)
  have g: "given [x \<lparr> uc_ID := Suc (length (user_coupons t)) \<rparr>] t t1"
    by (simp add: given_def t1 xs) (metis tables.surjective tables.update_convs(12) tables.update_convs(19))
  from Cons.IH [OF 2] obtain new where new: "given new t1 t'" "length new = length rs"
      "list_all (\<lambda>x. uc_UserID x = uid \<and> uc_TemplateID x = ct_ID c) new" by blast
  from given_trans [OF g new(1)] new(2,3) xs show ?case
    by (intro exI [of _ "[x \<lparr> uc_ID := Suc (length (user_coupons t)) \<rparr>] @ new"]) simp
qed

lemma target_active_Inr: "target_active uid (t, fs) = (Inr u, (t', fs')) \<Longrightarrow> t' = t \<and> (\<exists>a. users t uid = Some a \<and> u_Status a = 1)"
  by (auto simp: target_active_def tx_bind_Inr lock_Inr query_first_Inr split: if_splits)

lemma enabled_template_Inr: "enabled_template tid (t, fs) = (Inr c, (t', fs')) \<Longrightarrow>
    t' = t \<and> c \<in> set (coupon_templates t) \<and> ct_ID c = tid \<and> CouponTemplate_IsEnabled c"
  by (auto simp: enabled_template_def find_template_def tx_bind_Inr query_first_Inr find_Some_iff split: if_splits)

lemma grant_body_Inr:
  assumes "grant_body uid tid op now rnds (t, fs) = (Inr u, (t', fs'))"
  shows "\<exists>new. given new t t' \<and> length new = length rnds \<and> list_all (\<lambda>x. uc_UserID x = uid \<and> uc_TemplateID x = tid) new"
proof -
  obtain t1 g1 t2 g2 t3 g3 c where 1: "target_active uid (t, fs) = (Inr (), (t1, g1))" and
    2: "enabled_template tid (t1, g1) = (Inr c, (t2, g2))" and 3: "create_coupons uid c op now rnds (t2, g2) = (Inr (), (t3, g3))" and
    4: "LogOperationByTx op uid ''admin'' ''GRANT_COUPON'' (t3, g3) = (Inr u, (t', fs'))"
    using assms by (auto simp: grant_body_def tx_bind_Inr)
  from target_active_Inr [OF 1] enabled_template_Inr [OF 2] have t: "t1 = t" "t2 = t" "ct_ID c = tid" by auto
  from create_coupons_Inr [OF 3] obtain new where "given new t t3" "length new = length rnds"
    "list_all (\<lambda>x. uc_UserID x = uid \<and> uc_TemplateID x = tid) new" unfolding t by blast
  with given_trans [OF _ given_log [OF 4], of new t] show ?thesis by auto
qed

lemma bulk_users_Inr:
  "bulk_users c op now rnd qty uids (t, fs) = (Inr u, (t', fs')) \<Longrightarrow>
    \<exists>new. given new t t' \<and> map uc_UserID new = concat (map (replicate qty) uids) \<and> list_all (\<lambda>x. uc_TemplateID x = ct_ID c) new
      \<and> (\<forall>uid \<in> set uids. \<exists>a. users t uid = Some a \<and> u_Status a = 1)"
proof (induction uids arbitrary: t fs)
  case Nil
  then show ?case using given_refl by auto
next
  case (Cons uid uids)
  then obtain t1 g1 t2 g2 t3 g3 where 1: "target_active uid (t, fs) = (Inr (), (t1, g1))" and
    2: "create_coupons uid c op now (map (rnd uid) [0..<qty]) (t1, g1) = (Inr (), (t2, g2))" and
    3: "LogOperationByTx op uid ''admin'' ''GRANT_COUPON_BULK'' (t2, g2) = (Inr (), (t3, g3))" and
    4: "bulk_users c op now rnd qty uids (t3, g3) = (Inr u, (t', fs'))"
    by (auto simp: tx_bind_Inr)
  from target_active_Inr [OF 1] have t: "t1 = t" "\<exists>a. users t uid = Some a \<and> u_Status a = 1" by auto
  from create_coupons_Inr [OF 2] obtain n1 where n1: "given n1 t t2" "length n1 = qty"
    "list_all (\<lambda>x. uc_UserID x = uid \<and> uc_TemplateID x = ct_ID c) n1" unfolding t by auto
  then have m1: "map uc_UserID n1 = replicate qty uid" by (intro nth_equalityI) (auto simp: list_all_length)
  from given_trans [OF n1(1) given_log [OF 3]] have g3: "given n1 t t3" by simp
  from Cons.IH [OF 4] obtain n2 where n2: "given n2 t3 t'" "map uc_UserID n2 = concat (map (replicate qty) uids)"
    "list_all (\<lambda>x. uc_TemplateID x = ct_ID c) n2" "\<forall>uid \<in> set uids. \<exists>a. users t3 uid = Some a \<and> u_Status a = 1" by blast
  have "users t3 = users t" using g3 by (auto simp: given_def)
  with given_trans [OF g3 n2(1)] n2 n1 m1 t show ?case
    by (intro exI [of _ "n1 @ n2"]) (auto simp: list_all_iff)
qed

lemma bulk_body_Inr:
  assumes "bulk_body tid op now rnd qty uids (t, fs) = (Inr u, (t', fs'))"
  shows "\<exists>new c. given new t t' \<and> map uc_UserID new = concat (map (replicate qty) uids) \<and> list_all (\<lambda>x. uc_TemplateID x = tid) new
    \<and> c \<in> set (coupon_templates t) \<and> ct_ID c = tid \<and> CouponTemplate_IsEnabled c
    \<and> (\<forall>uid \<in> set uids. \<exists>a. users t uid = Some a \<and> u_Status a = 1)"
proof -
  obtain t1 g1 c where 1: "enabled_template tid (t, fs) = (Inr c, (t1, g1))" and
    2: "bulk_users c op now rnd qty uids (t1, g1) = (Inr u, (t', fs'))"
    using assms by (auto simp: bulk_body_def tx_bind_Inr)
  from enabled_template_Inr [OF 1] bulk_users_Inr [OF 2] show ?thesis by blast
qed

lemma given_inv:
  assumes inv: "subs_inv t S" and g: "given new t t'"
  shows "subs_inv t' S"
proof -
  let ?n = "length (user_coupons t)"
  from g obtain ol where t': "t' = t \<lparr> user_coupons := user_coupons t @ new, operation_logs := ol \<rparr>"
    and ids: "map uc_ID new = [Suc ?n..<Suc (?n + length new)]" and av: "list_all (\<lambda>c. uc_Status c = ''available'') new"
    by (auto simp: given_def)
  have old: "coupon_ok t' c" if "c \<in> set (user_coupons t)" for c
  proof (rule coupon_ok_cong [of t' t])
    show "coupon_ok t c" using inv that by (simp add: subs_inv_def)
  qed (simp add: t')
  have new: "coupon_ok t' c" if c: "c \<in> set new" for c
  proof -
    have "uc_ID c \<in> set [Suc ?n..<Suc (?n + length new)]" using c unfolding ids [symmetric] by simp
    then have "?n < uc_ID c" by auto
    then have "sub_AppliedCouponID r \<noteq> uc_ID c" if "subscriptions t' k = Some r" for k r
      using subs_inv_row [OF inv, of k r] that by (auto simp: t')
    moreover have "uc_Status c \<noteq> ''used''" using av c by (auto simp: list_all_iff)
    ultimately show ?thesis by (simp add: coupon_ok_def)
  qed
  have "map uc_ID (user_coupons t') = [1..<Suc (length (user_coupons t'))]"
    using inv ids upt_add_eq_append [of 1 "Suc ?n" "length new"] by (simp add: t' subs_inv_def del: upt_Suc)
  moreover have "subscriptions t' = subscriptions t" "tags t' = tags t" "sub_seq t' = sub_seq t" "packages t' = packages t"
    "?n \<le> length (user_coupons t')" by (simp_all add: t')
  moreover have "\<forall>c \<in> set (user_coupons t'). coupon_ok t' c" using old new by (auto simp: t')
  ultimately show ?thesis using inv prices_fit_frame [of t' t] unfolding subs_inv_def by (auto intro: order_trans)
qed

lemma revoke_body_Inr:
  assumes "revoke_body now op k (t, fs) = (Inr u, (t', fs'))"
  shows "\<exists>ol. t' = t \<lparr> user_coupons := map (\<lambda>r. if int (uc_ID r) = k \<and> open_coupon now r then r \<lparr> uc_Status := ''revoked'' \<rparr> else r) (user_coupons t),
    operation_logs := ol \<rparr>"
  using assms by (fastforce simp: revoke_body_def tx_bind_Inr tx_catch_Inr query_first_Inr update_coupons_def stmt_Inr
      dest!: LogOperation_Inr split: if_splits)

lemma withdraw_inv:
  assumes inv: "subs_inv t S" and run: "revoke_body now op k (t, fs) = (Inr u, (t', fs'))"
  shows "subs_inv t' S"
proof -
  let ?f = "\<lambda>r. if int (uc_ID r) = k \<and> open_coupon now r then r \<lparr> uc_Status := ''revoked'' \<rparr> else r"
  from revoke_body_Inr [OF run] obtain ol where t': "t' = t \<lparr> user_coupons := map ?f (user_coupons t), operation_logs := ol \<rparr>" by blast
  have "coupon_ok t' (?f c)" if "c \<in> set (user_coupons t)" for c
  proof -
    have ok: "coupon_ok t c" using inv that by (simp add: subs_inv_def)
    have "coupon_ok t (?f c)" using ok by (auto simp: coupon_ok_def open_coupon_def)
    then show ?thesis by (rule coupon_ok_cong [rotated]) (simp add: t')
  qed
  then have "\<forall>c \<in> set (map ?f (user_coupons t)). coupon_ok t' c" unfolding set_map by blast
  moreover have "user_coupons t' = map ?f (user_coupons t)" by (simp add: t')
  ultimately have "\<forall>c \<in> set (user_coupons t'). coupon_ok t' c" by (simp only:)
  moreover have "map uc_ID (user_coupons t') = map uc_ID (user_coupons t)" by (simp add: t')
  moreover have "subscriptions t' = subscriptions t" "sub_seq t' = sub_seq t" "tags t' = tags t" "packages t' = packages t"
    "length (user_coupons t') = length (user_coupons t)" by (simp_all add: t')
  ultimately show ?thesis using inv unfolding subs_inv_def prices_fit_def by (simp only:) simp
qed

lemma other_subs_inv:
  assumes inv: "subs_inv t S" and "subscriptions t' = subscriptions t" "sub_seq t' = sub_seq t" "user_coupons t' = user_coupons t"
    "tags t' = tags t @ es" "neutral es" "prices_fit t \<Longrightarrow> prices_fit t'"
  shows "subs_inv t' S"
proof -
  have "coupon_ok t' c" if "coupon_ok t c" for c by (rule coupon_ok_cong [OF _ that]) (simp add: assms)
  with inv show ?thesis using neutral_nothing [OF assms(6)] by (simp add: subs_inv_def assms sub_ok_append)
qed

lemma sub_step_inv: "sub_step x y \<Longrightarrow> subs_inv (fst x) (snd x) \<Longrightarrow> subs_inv (fst y) (snd y)"
proof (induction rule: sub_step.induct)
  case (look t i s S)
  then show ?case by (auto simp: subs_inv_def)
next
  case (buy qty cfg now uid pid couponID t fs r t' fs' S)
  from buy(2) show ?case unfolding fst_conv snd_conv
    by (rule transaction_keeps) (use buy in \<open>auto intro: buy_inv\<close>)
next
  case (grant now op uid pid qty secs t fs r' t' fs' S)
  from grant(1) show ?case unfolding fst_conv snd_conv
    by (rule transaction_keeps) (use grant in \<open>auto intro: grant_inv\<close>)
next
  case (refund i s S a now op t fs u t' fs')
  from refund(5) show ?case unfolding fst_conv snd_conv
    by (rule transaction_keeps) (use refund in \<open>auto intro: refund_sub_inv\<close>)
next
  case (revoke now op i uid t fs u t' fs' S)
  from revoke(1) show ?case unfolding fst_conv snd_conv
    by (rule transaction_keeps) (use revoke in \<open>auto intro: revoke_grant_inv\<close>)
next
  case (close st f i t fs n t' fs' S)
  from close(3) show ?case
  proof (cases n)
    case (Inl e)
    with close(3,4) show ?thesis by (simp add: stmt_Inl)
  next
    case (Inr k)
    show ?thesis using close_inv [OF _ close(1,2) close(3) [unfolded Inr]] close(4) by simp
  qed
next
  case (give uid tid op now rnds t fs u t' fs' S)
  from give(1) show ?case unfolding fst_conv snd_conv
    by (rule transaction_keeps) (use give in \<open>auto dest!: grant_body_Inr intro: given_inv\<close>)
next
  case (give_many tid op now rnd qty uids t fs u t' fs' S)
  from give_many(1) show ?case unfolding fst_conv snd_conv
    by (rule transaction_keeps) (use give_many in \<open>auto dest!: bulk_body_Inr intro: given_inv\<close>)
next
  case (withdraw now op k t fs u t' fs' S)
  from withdraw(1) show ?case unfolding fst_conv snd_conv
    by (rule transaction_keeps) (use withdraw in \<open>auto intro: withdraw_inv\<close>)
next
  case (other t' t es S)
  then show ?case by (auto intro: other_subs_inv)
qed

lemma given_reconciled: "given new t t' \<Longrightarrow> reconciled opening t \<Longrightarrow> reconciled opening t'"
  by (auto simp: given_def reconciled_def)

lemma refund_sub_reconciled:
  assumes "reconciled opening t" and run: "refund_sub_body now op i s a (t, fs) = (Inr r, (t', fs'))"
  shows "reconciled opening t'"
  using run
proof (cases rule: refund_sub_body_Inr)
  case (1 x u e ol)
  then have e: "be_UserID e = sub_UserID s" "be_AmountUSD e = a" by (simp_all add: tag_def)
  have "users t (be_UserID e) = Some u" using 1 e by simp
  then show ?thesis
    by (rule reconciled_post [OF assms(1)]) (use 1 e in \<open>auto split: if_splits\<close>)
qed

lemma sub_step_reconciled:
  "sub_step x y \<Longrightarrow> subs_inv (fst x) (snd x) \<Longrightarrow> reconciled start (fst x) \<Longrightarrow> reconciled start (fst y)"
proof (induction rule: sub_step.induct)
  case (buy qty cfg now uid pid couponID t fs r t' fs' S)
  have fit: "prices_fit t" using buy.prems(1) by (simp add: subs_inv_def)
  from buy(2) show ?case unfolding fst_conv
  proof (rule transaction_keeps)
    fix a fs'' assume "purchase_body cfg now uid pid qty couponID (t, fs) = (Inr a, (t', fs''))"
    from this fit buy(1) show "reconciled start t'"
      by (cases rule: purchase_body_Inr) (use buy.prems(2) in auto)
  qed (use buy in simp)
next
  case (grant now op uid pid qty secs t fs r' t' fs' S)
  from grant(1) show ?case unfolding fst_conv
  proof (rule transaction_keeps)
    fix a fs'' assume "grant_sub_body now op uid pid qty secs (t, fs) = (Inr a, (t', fs''))"
    then show "reconciled start t'"
      by (cases rule: grant_sub_body_Inr) (use grant.prems(2) in \<open>auto simp: reconciled_def booked_free\<close>)
  qed (use grant in simp)
next
  case (refund i s S a now op t fs u t' fs')
  from refund(5) show ?case unfolding fst_conv
    by (rule transaction_keeps) (use refund in \<open>auto intro: refund_sub_reconciled\<close>)
next
  case (revoke now op i uid t fs u t' fs' S)
  from revoke(1) show ?case unfolding fst_conv
  proof (rule transaction_keeps)
    fix a fs'' assume "revoke_grant_body now op i uid (t, fs) = (Inr a, (t', fs''))"
    then show "reconciled start t'"
      by (cases rule: revoke_grant_body_Inr) (use revoke.prems(2) in \<open>auto simp: reconciled_def booked_free\<close>)
  qed (use revoke in simp)
next
  case (close st f i t fs n t' fs' S)
  then have "users t' = users t \<and> billing t' = billing t"
    by (cases n) (auto simp: stmt_Inl dest: update_sub_Inr)
  with close.prems show ?case by (simp add: reconciled_def)
next
  case (give uid tid op now rnds t fs u t' fs' S)
  from give(1) show ?case unfolding fst_conv
    by (rule transaction_keeps) (use give in \<open>auto dest!: grant_body_Inr intro: given_reconciled\<close>)
next
  case (give_many tid op now rnd qty uids t fs u t' fs' S)
  from give_many(1) show ?case unfolding fst_conv
    by (rule transaction_keeps) (use give_many in \<open>auto dest!: bulk_body_Inr intro: given_reconciled\<close>)
next
  case (withdraw now op k t fs u t' fs' S)
  from withdraw(1) show ?case unfolding fst_conv
    by (rule transaction_keeps) (use withdraw in \<open>auto dest!: revoke_body_Inr simp: reconciled_def\<close>)
qed simp_all

lemma other_step:
  "t' = t \<lparr> operation_logs := ol \<rparr> \<Longrightarrow> sub_step (t, S) (t', S)"
  "t' = t \<lparr> template_seq := n, coupon_templates := cs \<rparr> \<Longrightarrow> sub_step (t, S) (t', S)"
  by (rule sub_step.other [where es = "[]"]; simp add: tags_def neutral_def prices_fit_def reconciled_def)+

text \<open>The machine of the sales.\<close>

interpretation sales: server "\<lambda>w. no_subs (fst w) \<and> snd w = {}" sub_step "\<lambda>w. subs_inv (fst w) (snd w)"
proof unfold_locales
  fix w show "sub_step w w"
    by (cases w) (auto intro: other_step(1) [where ol = "operation_logs (fst w)"])
qed (auto dest: no_subs_inv intro: sub_step_inv sub_step_reconciled)

lemmas sales_reachable = sales.reachable_inv [of "(t0, {})" "(t, S)" for t0 t S, simplified]

subsection \<open>The limit on active subscriptions\<close>

lemma sub_rows_after:
  assumes "subscriptions t' = subs_after mk 0 xs (sub_seq t) (subscriptions t)" "sub_seq t' = sub_seq t + length xs"
  shows "sub_rows t' = sub_rows t @ map (\<lambda>k. (Suc (sub_seq t + k), mk k (xs ! k))) [0..<length xs]"
proof -
  let ?n = "sub_seq t"
  let ?row = "\<lambda>m i. case m i of None \<Rightarrow> [] | Some s \<Rightarrow> [(i, s)]"
  have split: "[1..<Suc (sub_seq t')] = [1..<Suc ?n] @ map (\<lambda>k. Suc (?n + k)) [0..<length xs]"
  proof -
    have "map (\<lambda>k. Suc (?n + k)) [0..<length xs] = map (\<lambda>k. k + Suc ?n) [0..<length xs]" by simp
    also have "\<dots> = [Suc ?n..<Suc ?n + length xs]" by (simp only: map_add_upt add.commute [of "length xs"])
    finally show ?thesis using upt_add_eq_append [of 1 "Suc ?n" "length xs"] by (simp add: assms(2) del: upt_Suc)
  qed
  have old: "concat (map (?row (subscriptions t')) [1..<Suc ?n]) = sub_rows t"
    unfolding sub_rows_def by (rule arg_cong [of _ _ concat], rule map_cong) (auto simp: assms(1) subs_after_old)
  have new: "concat (map (?row (subscriptions t')) (map (\<lambda>k. Suc (?n + k)) ks)) = map (\<lambda>k. (Suc (?n + k), mk k (xs ! k))) ks"
    if "\<forall>k \<in> set ks. k < length xs" for ks
    using that by (induction ks) (auto simp: assms(1) subs_after_new)
  have r: "\<forall>k \<in> set [0..<length xs]. k < length xs" by simp
  show ?thesis unfolding sub_rows_def [of t'] split map_append concat_append old new [OF r] ..
qed

lemma active_count_after:
  assumes "subscriptions t' = subs_after mk 0 xs (sub_seq t) (subscriptions t)" "sub_seq t' = sub_seq t + length xs"
    and "\<And>k. k < length xs \<Longrightarrow> sub_UserID (mk k (xs ! k)) = uid \<and> sub_PackageID (mk k (xs ! k)) = pid
      \<and> sub_Status (mk k (xs ! k)) = ''active'' \<and> now < sub_EndAt (mk k (xs ! k))"
  shows "active_count uid pid now t' = active_count uid pid now t + int (length xs)"
proof -
  let ?P = "\<lambda>(i, s). sub_UserID s = uid \<and> sub_PackageID s = pid \<and> sub_Status s = ''active'' \<and> now < sub_EndAt s"
  have "filter ?P (map (\<lambda>k. (Suc (sub_seq t + k), mk k (xs ! k))) [0..<length xs]) = map (\<lambda>k. (Suc (sub_seq t + k), mk k (xs ! k))) [0..<length xs]"
    by (rule filter_True) (use assms(3) in auto)
  then show ?thesis by (simp add: active_count_def sub_rows_after [OF assms(1,2)])
qed

subsection \<open>Properties\<close>

text \<open>C5: What was paid for a subscription is exactly what the ledger says. In every state the server can
  reach, a bought subscription has one purchase entry, of its user and of minus its price, and a
  granted one has none and no price; it has one refund entry exactly when it is refunded, of a
  positive amount that is at most the price, and granted ones are never refunded. The balances
  stay the opening balances plus what is booked.\<close>

theorem subscription_paid_once:
  assumes "no_subs t0" and "sub_step\<^sup>*\<^sup>* (t0, {}) (t, S)" and "subscriptions t i = Some s"
  shows "purchases_in (tags t) i = (if sub_IsGranted s then [] else [(sub_UserID s, - sub_PurchasedUnitPriceUSD s)])
    \<and> 0 \<le> sub_PurchasedUnitPriceUSD s \<and> (sub_IsGranted s \<longrightarrow> sub_PurchasedUnitPriceUSD s = 0)
    \<and> (if sub_Status s = ''refunded''
       then \<not> sub_IsGranted s \<and> (\<exists>a. refunds_in (tags t) i = [(sub_UserID s, a)] \<and> 0 < a \<and> a \<le> sub_PurchasedUnitPriceUSD s)
       else refunds_in (tags t) i = [])
    \<and> (reconciled start t0 \<longrightarrow> reconciled start t)"
proof -
  have "subs_inv t S" "reconciled start t0 \<longrightarrow> reconciled start t"
    using sales_reachable [OF assms(1,2)] sales.reachable_books [OF _ assms(2)] assms(1) by simp_all
  with subs_inv_row [OF this(1) assms(3)] show ?thesis by (auto simp: sub_ok_def)
qed

text \<open>C8: A coupon pays for one subscription at most: in every reachable state a used coupon names a
  subscription of its own user, the only one that was bought with it, and no subscription was
  bought with a coupon that is not used; keys are never given twice.\<close>

theorem coupon_used_once:
  assumes "no_subs t0" and "sub_step\<^sup>*\<^sup>* (t0, {}) (t, S)" and "c \<in> set (user_coupons t)"
  shows "(uc_Status c = ''used'' \<longrightarrow> (\<exists>i s. uc_UsedOnSubID c = Some i \<and> subscriptions t i = Some s \<and> sub_UserID s = uc_UserID c
        \<and> (\<forall>k r. subscriptions t k = Some r \<longrightarrow> (sub_AppliedCouponID r = uc_ID c \<longleftrightarrow> k = i))))
    \<and> (uc_Status c \<noteq> ''used'' \<longrightarrow> (\<forall>k r. subscriptions t k = Some r \<longrightarrow> sub_AppliedCouponID r \<noteq> uc_ID c))
    \<and> distinct (map uc_ID (user_coupons t))"
proof -
  have inv: "subs_inv t S" by (rule sales_reachable [OF assms(1,2)])
  then have "map uc_ID (user_coupons t) = [1..<Suc (length (user_coupons t))]" by (simp add: subs_inv_def del: upt_Suc)
  then have "distinct (map uc_ID (user_coupons t))" by (metis distinct_upt)
  moreover have "coupon_ok t c" using inv assms(3) by (simp add: subs_inv_def)
  ultimately show ?thesis by (auto simp: coupon_ok_def)
qed

text \<open>C7: A purchase does all of what it should or nothing. When it fails the tables stay as they were,
  whatever failed. When it succeeds the package is there, enabled and public; the balance of the
  buyer falls by exactly the sum of the unit prices, which it covered; every unit is an active
  subscription for the period of the package with its own price and the snapshot of the package;
  the coupon was an available one of the buyer, not below the floor of the package; and with the new
  units the buyer still holds at most the allowed number.\<close>

theorem purchase_exact:
  assumes "transaction (purchase_body cfg now uid pid qty cid) (t, fs) = (r, (t', fs'))" and "prices_fit t" and "0 < qty"
  shows "case r of Inl e \<Rightarrow> t' = t
    | Inr reward \<Rightarrow> \<exists>p c snapshot a b f1 f2. map_of (packages t) pid = Some p \<and> Package_IsEnabled p \<and> pk_Public p
      \<and> coupon_of now uid cid p t c \<and> buildPackageSnapshotTx pid p (t, f1) = (Inr snapshot, (t, f2))
      \<and> users t uid = Some a \<and> users t' uid = Some b \<and> u_Quota b = u_Quota a - sum_list (unit_prices p qty c)
      \<and> (0 < sum_list (unit_prices p qty c) \<longrightarrow> 0 \<le> u_Quota b)
      \<and> (\<forall>k < qty. \<exists>s. subscriptions t' (Suc (sub_seq t + k)) = Some s \<and> sub_UserID s = uid \<and> sub_PackageID s = pid
           \<and> sub_Status s = ''active'' \<and> sub_PackageSnapshot s = snapshot \<and> sub_PurchasedUnitPriceUSD s = unit_prices p qty c ! k
           \<and> sub_StartAt s = now \<and> sub_EndAt s = now + pk_BillingPeriodSeconds p * 1000000000)
      \<and> (0 < effective_max p \<longrightarrow> active_count uid pid now t' \<le> effective_max p)"
proof (cases r)
  case (Inl e)
  with assms(1) show ?thesis by (auto dest: transaction_rollback)
next
  case (Inr reward)
  with assms(1) obtain f where "purchase_body cfg now uid pid qty cid (t, fs) = (Inr reward, (t', f))" by (auto simp: transaction_Inr)
  from this assms(2,3) show ?thesis
  proof (cases rule: purchase_body_Inr)
    case B: (1 p snapshot c cost base us es ns a f1 f2)
    let ?mk = "bought_sub uid pid p snapshot c now base" and ?ps = "unit_prices p qty c"
    have len: "length ?ps = qty" by (rule unit_prices_ok [OF B(4) assms(3)])
    have subs: "subscriptions t' = subs_after ?mk 0 ?ps (sub_seq t) (subscriptions t)" "sub_seq t' = sub_seq t + length ?ps"
      by (simp_all add: B(13) len)
    have unit: "\<exists>s. subscriptions t' (Suc (sub_seq t + k)) = Some s \<and> sub_UserID s = uid \<and> sub_PackageID s = pid
           \<and> sub_Status s = ''active'' \<and> sub_PackageSnapshot s = snapshot \<and> sub_PurchasedUnitPriceUSD s = ?ps ! k
           \<and> sub_StartAt s = now \<and> sub_EndAt s = now + pk_BillingPeriodSeconds p * 1000000000" if "k < qty" for k
      using that subs_after_new [of k ?ps ?mk 0 "sub_seq t" "subscriptions t"] by (simp add: subs len) (simp add: bought_sub_def)
    have "active_count uid pid now t' = active_count uid pid now t + int qty"
      using active_count_after [OF subs, of uid pid now] B(5) by (simp add: len) (simp add: bought_sub_def)
    with B(8) have "0 < effective_max p \<longrightarrow> active_count uid pid now t' \<le> effective_max p" by simp
    moreover obtain b where "us uid = Some b" "u_Quota b = u_Quota a - cost" using B(18) by blast
    then have "users t' uid = Some b" "u_Quota b = u_Quota a - sum_list ?ps" by (simp_all add: B(13) B(10))
    ultimately show ?thesis unfolding Inr using B unit by (simp, blast)
  qed
qed

subsection \<open>A run\<close>

text \<open>Ann (5) is given a coupon, buys two units with it and is refunded part of the first.\<close>

lemma snapshot_frame:
  "buildPackageSnapshotTx pid p (t, []) = (Inr s, (t, [])) \<Longrightarrow> package_plans t' = package_plans t \<Longrightarrow> quota_plans t' = quota_plans t
    \<Longrightarrow> buildPackageSnapshotTx pid p (t', []) = (Inr s, (t', []))"
  by (auto simp: buildPackageSnapshotTx_def tx_bind_def bindings_of_def split: if_splits option.splits)

definition coupon_shop :: tables where
  "coupon_shop = demo_shop \<lparr> coupon_templates := [\<lparr> ct_ID = 1, ct_Name = ''two'', ct_DiscountType = ''fixed_price'',
     ct_DiscountValue = 2000000, ct_PackageIDs = '''', ct_ValidDays = 30, ct_Enabled = None \<rparr>] \<rparr>"

definition demo_coupon :: UserCoupon where
  "demo_coupon = \<lparr> uc_ID = 1, uc_UserID = 5, uc_TemplateID = 1, uc_Code = generateCouponCode 5 1 ''ab'',
     uc_Status = ''available'', uc_SnapshotName = ''two'', uc_SnapshotType = ''fixed_price'', uc_SnapshotValue = 2000000,
     uc_SnapshotPackageIDs = '''', uc_GrantedBy = 1, uc_GrantedAt = 1000, uc_ExpiresAt = Some 2592000000001000,
     uc_UsedAt = None, uc_UsedOnSubID = None, uc_UsedSavingUSD = 0 \<rparr>"

definition given_shop :: tables where
  "given_shop = coupon_shop \<lparr> user_coupons := [demo_coupon],
     operation_logs := operation_logs (fst (snd (grant_body 5 1 1 1000 [Some ''ab''] (coupon_shop, [])))) \<rparr>"

lemma demo_given: "transaction (grant_body 5 1 1 1000 [Some ''ab'']) (coupon_shop, []) = (Inr (), (given_shop, []))"
  by (simp add: transaction_def given_shop_def grant_body_def target_active_def lockUserForUpdate_def tx_bind_def coupon_shop_def demo_shop_def
      enabled_template_def find_template_def CouponTemplate_IsEnabled_def buildCouponFromTemplate_def snapshotTemplate_def
      insert_coupon_def LogOperationByTx_def LogOperationByTxReturning_def demo_coupon_def Let_def)

definition bought_shop :: tables where
  "bought_shop = fst (snd (purchase_body Map.empty 2000 5 1 2 1 (given_shop, [])))"

lemma demo_bought: "\<exists>r. transaction (purchase_body Map.empty 2000 5 1 2 1) (given_shop, []) = (Inr r, (bought_shop, []))"
proof -
  obtain s where "buildPackageSnapshotTx 1 demo_package (demo_shop, []) = (Inr s, (demo_shop, []))" by (rule demo_snapshot)
  then have s: "buildPackageSnapshotTx 1 demo_package (given_shop, []) = (Inr s, (given_shop, []))"
    by (rule snapshot_frame) (simp_all add: given_shop_def coupon_shop_def)
  have p: "fresh_package 1 (given_shop, []) = (Inr demo_package, (given_shop, []))"
    by (simp add: fresh_package_def tx_catch_def tx_bind_def find_package_def given_shop_def coupon_shop_def demo_shop_def demo_package_def
        Package_IsEnabled_def MaxBillingPeriodSeconds_def)
  have k: "check_stack 5 1 demo_package 2 2000 (given_shop, []) = (Inr (), (given_shop, []))"
    by (simp add: check_stack_def effective_max_def IsStackable_def demo_package_def count_active_def tx_bind_def active_count_def
        sub_rows_def given_shop_def coupon_shop_def demo_shop_def)
  have c: "apply_coupon 2000 5 1 1 demo_package (given_shop, []) =
      (Inr (Some (used_coupon 2000 demo_coupon)), (given_shop \<lparr> user_coupons := [used_coupon 2000 demo_coupon] \<rparr>, []))"
    by (simp add: apply_coupon_def lockAndApplyCoupon_def tx_catch_def tx_bind_def given_shop_def demo_coupon_def IsAvailable_def
        parsePackageIDsStrict_def AppliesToPackage_def couponPackageEffectiveLowerBoundMicroUSD_def demo_package_def
        update_coupons_def open_coupon_def used_coupon_def)
  have l: "lockUserForUpdate 5 (given_shop, []) = (Inr (), (given_shop, []))"
    by (simp add: lockUserForUpdate_def tx_bind_def given_shop_def coupon_shop_def demo_shop_def)
  have u: "unit_prices demo_package 2 (Some (used_coupon 2000 demo_coupon)) = [2000000, 5000000]"
    by (simp add: unit_prices_def SnapshotEffectivePrice_def used_coupon_def demo_coupon_def demo_package_def)
  have b: "purchase_body Map.empty 2000 5 1 2 1 (given_shop, []) = sell_units Map.empty 2000 5 1 demo_package s
      (Some (used_coupon 2000 demo_coupon)) [2000000, 5000000] 7000000 (given_shop \<lparr> user_coupons := [used_coupon 2000 demo_coupon] \<rparr>, [])"
    by (simp add: purchase_body_def tx_bind_def l p s k c u CheckedSumInt64_def CheckedAddInt64_def i64_defs del: One_nat_def)
  have "\<exists>r t. purchase_body Map.empty 2000 5 1 2 1 (given_shop, []) = (Inr r, (t, []))"
    unfolding b by (simp add: sell_units_def pay_price_def update_user_if_def given_shop_def coupon_shop_def demo_shop_def tx_bind_def
        getNextStackIndex_def sub_rows_def insert_sub_def Let_def link_coupon_def update_coupons_def
        purchase_entry_def WriteBillingEntry_def insert_entry_def related_taken_def blank_entry_def IsKnownBillingType_def
        IsKnownBillingState_def known_states_def IsZeroAmountBillingType_def readReferralPaidSpendRewardConfig_def
        ApplyReferralPaidSpendRewardTx_def no_reward_def demo_package_def split: prod.split)
  then show ?thesis by (auto simp: transaction_def bought_shop_def)
qed

lemma no_subs_demo: "no_subs coupon_shop"
  by (simp add: no_subs_def coupon_shop_def demo_shop_def prices_fit_def demo_package_def neutral_def tags_def i64_defs)

lemma prices_fit_given: "prices_fit given_shop"
  by (simp add: prices_fit_def given_shop_def coupon_shop_def demo_shop_def demo_package_def i64_defs)

lemma demo_sub_run: "sub_step\<^sup>*\<^sup>* (coupon_shop, {}) (bought_shop, {})"
proof -
  have "sub_step (coupon_shop, {}) (given_shop, {})" using demo_given by (rule sub_step.give)
  moreover obtain r where "transaction (purchase_body Map.empty 2000 5 1 2 1) (given_shop, []) = (Inr r, (bought_shop, []))"
    using demo_bought by blast
  then have "sub_step (given_shop, {}) (bought_shop, {})" by (rule sub_step.buy [rotated]) simp
  ultimately show ?thesis by (meson r_into_rtranclp rtranclp.rtrancl_into_rtrancl)
qed

lemma demo_rows_bought:
  obtains s1 s2 where "subscriptions bought_shop 1 = Some s1" "subscriptions bought_shop 2 = Some s2"
    "\<not> sub_IsGranted s1" "sub_Status s1 = ''active''" "sub_UserID s1 = 5" "sub_PurchasedUnitPriceUSD s1 = 2000000" "sub_AppliedCouponID s1 = 1"
    "sub_PurchasedUnitPriceUSD s2 = 5000000" "sub_AppliedCouponID s2 = 0"
    "users bought_shop 5 \<noteq> None" "length (user_coupons bought_shop) = 1" "uc_Status (hd (user_coupons bought_shop)) = ''used''"
    "uc_UsedOnSubID (hd (user_coupons bought_shop)) = Some 1"
proof -
  obtain r where "transaction (purchase_body Map.empty 2000 5 1 2 1) (given_shop, []) = (Inr r, (bought_shop, []))"
    using demo_bought by blast
  then obtain f where run: "purchase_body Map.empty 2000 5 1 2 1 (given_shop, []) = (Inr r, (bought_shop, f))"
    by (auto simp: transaction_Inr)
  have two: "0 < (2::nat)" by simp
  from run prices_fit_given two show thesis
  proof (cases rule: purchase_body_Inr)
    case (1 p snapshot c cost base us es ns a f1 f2)
    have p: "p = demo_package" using 1(1) by (simp add: given_shop_def coupon_shop_def demo_shop_def)
    have c: "c = Some (used_coupon 2000 demo_coupon)"
      using 1(9) by (auto simp: coupon_of_def given_shop_def split: option.splits)
    have pa: "pk_PriceAmount p = 5000000" by (simp add: p demo_package_def)
    have u: "unit_prices p 2 c = [2000000, 5000000]"
      by (simp add: p c unit_prices_def SnapshotEffectivePrice_def used_coupon_def demo_coupon_def demo_package_def)
    have q: "sub_seq given_shop = 0" "users bought_shop = us" by (simp_all add: given_shop_def coupon_shop_def demo_shop_def 1(13))
    have us: "us 5 \<noteq> None" using 1(18) by auto
    have s: "subscriptions bought_shop (Suc k) = Some (bought_sub 5 1 p snapshot c 2000 base k ([2000000, 5000000] ! k))" if "k < 2" for k
      using that subs_after_new [of k "[2000000, 5000000]" "bought_sub 5 1 p snapshot c 2000 base" 0 0] unfolding 1(13)
      by (simp add: q u)
    have cs: "user_coupons bought_shop = [used_coupon 2000 demo_coupon \<lparr> uc_UsedOnSubID := Some 1, uc_UsedSavingUSD := 3000000 \<rparr>]"
      using pa unfolding 1(13) u q by (simp add: c coupons_after_def given_shop_def)
    show thesis
      by (rule that [of "bought_sub 5 1 p snapshot c 2000 base 0 2000000" "bought_sub 5 1 p snapshot c 2000 base 1 5000000"])
        (use s [of 0] s [of 1] cs us q in \<open>simp_all add: bought_sub_def c demo_coupon_def used_coupon_def numeral_2_eq_2\<close>)
  qed
qed

text \<open>Without failures a refund goes through.\<close>

lemma refund_unbooked: "refunds_booked i t = [] \<Longrightarrow> \<not> related_taken (sub_refund_entry now uid i a b) t"
  by (auto simp: related_taken_def list_ex_iff sub_refund_entry_def refunds_booked_def filter_empty_conv)

lemma refund_sub_ok:
  assumes "users t (sub_UserID s) = Some u" "sub_UserID s \<noteq> 0" "subscriptions t i = Some x" "refundable x" "refunds_booked i t = []"
  shows "\<exists>t'. refund_sub_body now op i s a (t, []) = (Inr (), (t', []))"
proof -
  have ok: "entry_ok (booked now (sub_refund_entry now (sub_UserID s) i a b))" for b
    using assms(2) by (simp add: entry_ok_def booked_def sub_refund_entry_def blank_entry_def IsKnownBillingType_def
        IsKnownBillingState_def known_states_def IsZeroAmountBillingType_def)
  have no: "\<not> related_taken (sub_refund_entry now (sub_UserID s) i a b) (t \<lparr> users := us, subscriptions := m \<rparr>)"
    "\<not> related_taken (sub_refund_entry now (sub_UserID s) i a b) (t \<lparr> subscriptions := m, users := us \<rparr>)" for b us m
    using refund_unbooked [OF assms(5)] by (simp_all add: related_taken_def)
  show ?thesis
    using assms by (simp add: refund_sub_body_def tx_bind_def lockUserForUpdate_def update_sub_if_def update_user_if_def tx_catch_def
        WriteBillingEntry_ok [OF ok no(1)] WriteBillingEntry_ok [OF ok no(2)] LogOperationByTx_def LogOperationByTxReturning_def)
qed

text \<open>The first unit is refunded in part.\<close>

lemma demo_refund:
  obtains t S s where "sub_step\<^sup>*\<^sup>* (coupon_shop, {}) (t, S)" "subscriptions t 1 = Some s" "\<not> sub_IsGranted s"
    "sub_UserID s = 5" "sub_PurchasedUnitPriceUSD s = 2000000" "sub_Status s = ''refunded''"
proof -
  obtain s1 where s1: "subscriptions bought_shop 1 = Some s1" "\<not> sub_IsGranted s1" "sub_Status s1 = ''active''" "sub_UserID s1 = 5"
    "sub_PurchasedUnitPriceUSD s1 = 2000000" "users bought_shop 5 \<noteq> None" by (rule demo_rows_bought) blast
  have inv: "subs_inv bought_shop {}" by (rule sales_reachable [OF no_subs_demo demo_sub_run])
  have "refunds_in (tags bought_shop) 1 = []" using subs_inv_row [OF inv s1(1)] s1(3) by (simp add: sub_ok_def)
  then have nb: "refunds_booked 1 bought_shop = []" using refunds_booked_tags [of 1 bought_shop] by simp
  obtain u where u: "users bought_shop (sub_UserID s1) = Some u" using s1(4,6) by auto
  have "sub_UserID s1 \<noteq> 0" "refundable s1" using s1 by (simp_all add: refundable_def)
  from refund_sub_ok [OF u this(1) s1(1) this(2) nb, of 3000 1 1500000] obtain t' where
    run: "refund_sub_body 3000 1 1 s1 1500000 (bought_shop, []) = (Inr (), (t', []))" by blast
  then have "transaction (refund_sub_body 3000 1 1 s1 1500000) (bought_shop, []) = (Inr (), (t', []))" by (rule transaction_ok)
  then have "sub_step (bought_shop, {(1, s1)}) (t', {(1, s1)})"
    by (rule sub_step.refund [rotated 4]) (use s1 in simp_all)
  moreover have "sub_step (bought_shop, {}) (bought_shop, insert (1, s1) {})" using s1(1) by (rule sub_step.look)
  ultimately have r: "sub_step\<^sup>*\<^sup>* (coupon_shop, {}) (t', {(1, s1)})"
    using demo_sub_run by (meson rtranclp.rtrancl_into_rtrancl)
  from run show thesis
  proof (cases rule: refund_sub_body_Inr)
    case (1 x u e ol)
    show thesis by (rule that [OF r, of "close_sub ''refunded'' 3000 s1"]) (use 1 s1 in \<open>simp_all add: close_sub_def\<close>)
  qed
qed

theorem subscription_paid_once_witness:
  "\<exists>t S s a. sub_step\<^sup>*\<^sup>* (coupon_shop, {}) (t, S) \<and> subscriptions t 1 = Some s \<and> purchases_in (tags t) 1 = [(5, - 2000000)]
    \<and> refunds_in (tags t) 1 = [(5, a)] \<and> a \<le> 2000000"
proof -
  obtain t S s where r: "sub_step\<^sup>*\<^sup>* (coupon_shop, {}) (t, S)" and s: "subscriptions t 1 = Some s" "\<not> sub_IsGranted s"
    "sub_UserID s = 5" "sub_PurchasedUnitPriceUSD s = 2000000" "sub_Status s = ''refunded''" by (rule demo_refund)
  from subscription_paid_once [OF no_subs_demo r s(1)] s obtain a where
    "purchases_in (tags t) 1 = [(5, - 2000000)]" "refunds_in (tags t) 1 = [(5, a)]" "a \<le> 2000000" by auto
  with r s(1) show ?thesis by blast
qed

theorem coupon_used_once_witness:
  "\<exists>c \<in> set (user_coupons bought_shop). uc_Status c = ''used'' \<and> uc_UsedOnSubID c = Some 1
    \<and> (\<forall>k r. subscriptions bought_shop k = Some r \<longrightarrow> (sub_AppliedCouponID r = uc_ID c \<longleftrightarrow> k = 1))"
proof -
  have l: "length (user_coupons bought_shop) = 1" "uc_Status (hd (user_coupons bought_shop)) = ''used''"
    "uc_UsedOnSubID (hd (user_coupons bought_shop)) = Some 1" by (rule demo_rows_bought, simp)+
  then have c: "hd (user_coupons bought_shop) \<in> set (user_coupons bought_shop)" by (cases "user_coupons bought_shop") auto
  from coupon_used_once [OF no_subs_demo demo_sub_run c] l show ?thesis by (intro bexI [OF _ c]) auto
qed

theorem purchase_exact_witness:
  "\<exists>a b. users given_shop 5 = Some a \<and> users bought_shop 5 = Some b \<and> u_Quota a = 20000000 \<and> u_Quota b = 13000000
    \<and> active_count 5 1 2000 bought_shop \<le> 3"
proof -
  obtain r where run: "transaction (purchase_body Map.empty 2000 5 1 2 1) (given_shop, []) = (Inr r, (bought_shop, []))"
    using demo_bought by blast
  have two: "0 < (2::nat)" by simp
  from purchase_exact [OF run prices_fit_given two] obtain p c a b where
    p: "map_of (packages given_shop) 1 = Some p" and c: "coupon_of 2000 5 1 p given_shop c" and
    a: "users given_shop 5 = Some a" and b: "users bought_shop 5 = Some b" "u_Quota b = u_Quota a - sum_list (unit_prices p 2 c)"
    and m: "0 < effective_max p \<longrightarrow> active_count 5 1 2000 bought_shop \<le> effective_max p" by auto
  have p': "p = demo_package" using p by (simp add: given_shop_def coupon_shop_def demo_shop_def)
  have c': "c = Some (used_coupon 2000 demo_coupon)" using c by (auto simp: coupon_of_def given_shop_def split: option.splits)
  have "sum_list (unit_prices p 2 c) = 7000000"
    by (simp add: p' c' unit_prices_def SnapshotEffectivePrice_def used_coupon_def demo_coupon_def demo_package_def)
  moreover have "u_Quota a = 20000000" using a by (auto simp: given_shop_def coupon_shop_def demo_shop_def)
  moreover have "effective_max p = 3" by (simp add: p' effective_max_def IsStackable_def demo_package_def)
  ultimately show ?thesis using a b m by simp
qed

subsection \<open>Coupons for many users\<close>

lemma count_batch: "distinct us \<Longrightarrow> count_list (concat (map (replicate q) us)) u = (if u \<in> set us then q else 0)"
proof (induction us)
  case (Cons a us)
  have "count_list (replicate q a) u = (if a = u then q else 0)" by (induction q) auto
  with Cons show ?case by (auto simp: count_list_append)
qed simp

text \<open>C9: A batch is granted to all of its users or to none. Whatever fails, the request is answered; with
  success every user named in it, once or more, has exactly the asked number of new coupons of the
  enabled template, all available and owned by active users, and nothing else changed but the log; with any other
  answer the tables are as they were.\<close>

theorem bulk_grant_all_or_nothing:
  assumes "AdminBulkGrantCoupon now rnd op (Some q) (t, fs) = (r, (t', fs'))"
  shows "\<exists>resp. r = Inr resp \<and> (if resp = (200, ''SUCCESS_BULK_GRANTED'')
    then \<exists>new ol qty c. checked_quantity (bg_Quantity q) 10 = Inr qty
      \<and> t' = t \<lparr> user_coupons := user_coupons t @ new, operation_logs := ol \<rparr>
      \<and> (\<forall>uid. count_list (map uc_UserID new) uid = (if uid \<in> set (bg_UserIDs q) \<and> 0 < uid then qty else 0))
      \<and> (\<forall>x \<in> set new. uc_TemplateID x = bg_TemplateID q \<and> uc_Status x = ''available'' \<and> (\<exists>a. users t (uc_UserID x) = Some a \<and> u_Status a = 1))
      \<and> c \<in> set (coupon_templates t) \<and> ct_ID c = bg_TemplateID q \<and> CouponTemplate_IsEnabled c
    else t' = t)"
proof -
  let ?body = "\<lambda>qty. bulk_body (bg_TemplateID q) op now rnd qty (batch_users (bg_UserIDs q))"
  have "(t' = t \<and> (\<exists>resp. r = Inr resp \<and> resp \<noteq> (200, ''SUCCESS_BULK_GRANTED'')))
      \<or> (\<exists>qty f1 f2. checked_quantity (bg_Quantity q) 10 = Inr qty \<and> ?body qty (t, f1) = (Inr (), (t', f2)) \<and> r = Inr (200, ''SUCCESS_BULK_GRANTED''))"
  proof (cases "bg_UserIDs q = [] \<or> bg_TemplateID q = 0 \<or> 50 < length (bg_UserIDs q) \<or> (\<exists>c. checked_quantity (bg_Quantity q) 10 = Inl c)
      \<or> validateAdminReason (TrimSpace (bg_Reason q)) \<noteq> None")
    case True
    then show ?thesis using assms by (auto simp: AdminBulkGrantCoupon_def split: if_splits sum.splits option.splits)
  next
    case False
    then obtain qty where qty: "checked_quantity (bg_Quantity q) 10 = Inr qty" by (cases "checked_quantity (bg_Quantity q) 10") auto
    obtain x t1 f1 where a: "attempt (find_template (int (bg_TemplateID q))) (t, fs) = (Inr x, (t1, f1))" by (rule attempt_result)
    have t1: "t1 = t" using attempt_read [OF a [unfolded find_template_def]] .
    obtain y t2 f2 where b: "attempt (transaction (?body qty)) (t, f1) = (Inr y, (t2, f2))" by (rule attempt_result)
    have run: "(case x of Inl _ \<Rightarrow> tx_return (404, ''ERR_TEMPLATE_NOT_FOUND'')
           | Inr tpl \<Rightarrow> if \<not> CouponTemplate_IsEnabled tpl then tx_return (400, ''ERR_TEMPLATE_DISABLED'')
               else tx_bind (attempt (transaction (?body qty)))
                 (\<lambda>r. tx_return (case r of Inl _ \<Rightarrow> (409, ''ERR_BULK_GRANT_ABORTED'')
                    | Inr _ \<Rightarrow> (200, ''SUCCESS_BULK_GRANTED'')))) (t, f1) = (r, (t', fs'))"
      using assms False qty a t1 by (simp add: AdminBulkGrantCoupon_def bind_attempt)
    show ?thesis
    proof (cases "\<exists>tpl. x = Inr tpl \<and> CouponTemplate_IsEnabled tpl")
      case True
      with run b have "t' = t2" "r = Inr (case y of Inl _ \<Rightarrow> (409, ''ERR_BULK_GRANT_ABORTED'') | Inr _ \<Rightarrow> (200, ''SUCCESS_BULK_GRANTED''))"
        by (auto simp: bind_attempt)
      with attempt_transaction [OF b] qty show ?thesis by (cases y) auto
    next
      case False
      with run show ?thesis by (cases x) auto
    qed
  qed
  then show ?thesis
  proof (elim disjE exE conjE)
    fix qty f1 f2 assume q: "checked_quantity (bg_Quantity q) 10 = Inr qty" and run: "?body qty (t, f1) = (Inr (), (t', f2))"
      and r: "r = Inr (200, ''SUCCESS_BULK_GRANTED'')"
    from bulk_body_Inr [OF run] obtain new c where n: "given new t t'" "map uc_UserID new = concat (map (replicate qty) (batch_users (bg_UserIDs q)))"
      "list_all (\<lambda>x. uc_TemplateID x = bg_TemplateID q) new" "c \<in> set (coupon_templates t)" "ct_ID c = bg_TemplateID q" "CouponTemplate_IsEnabled c"
      "\<forall>uid \<in> set (batch_users (bg_UserIDs q)). \<exists>a. users t uid = Some a \<and> u_Status a = 1" by blast
    have "uc_UserID x \<in> set (batch_users (bg_UserIDs q))" if "x \<in> set new" for x
    proof -
      have "uc_UserID x \<in> set (map uc_UserID new)" using that by simp
      then show ?thesis unfolding n(2) by auto
    qed
    moreover have "count_list (map uc_UserID new) uid = (if uid \<in> set (bg_UserIDs q) \<and> 0 < uid then qty else 0)" for uid
      unfolding n(2) by (subst count_batch) (auto simp: batch_users_def)
    ultimately show ?thesis using n r q by (auto simp: given_def list_all_iff)
  qed auto
qed

theorem bulk_grant_all_or_nothing_witness:
  "\<exists>t'. AdminBulkGrantCoupon 1000 (\<lambda>_ i. Some (if i = 0 then ''a'' else ''b'')) 1
      (Some \<lparr> bg_UserIDs = [5, 0, 5], bg_TemplateID = 1, bg_Reason = '''', bg_Quantity = Some 2 \<rparr>) (coupon_shop, [])
      = (Inr (200, ''SUCCESS_BULK_GRANTED''), (t', []))
    \<and> count_list (map uc_UserID (user_coupons t')) 5 = 2"
proof -
  let ?rnd = "\<lambda>_ i. Some (if i = 0 then ''a'' else ''b'') :: string option"
  let ?q = "\<lparr> bg_UserIDs = [5, 0, 5], bg_TemplateID = 1, bg_Reason = '''', bg_Quantity = Some 2 \<rparr> :: bulk_grant_request"
  have b: "batch_users [5, 0, 5] = [5]" by (simp add: batch_users_def)
  have v: "validateAdminReason '''' = None" "TrimSpace '''' = ''''" by (simp_all add: validateAdminReason_def)
  have "\<exists>t'. AdminBulkGrantCoupon 1000 ?rnd 1 (Some ?q) (coupon_shop, []) = (Inr (200, ''SUCCESS_BULK_GRANTED''), (t', []))"
    by (simp add: AdminBulkGrantCoupon_def checked_quantity_def v b numeral_2_eq_2 bind_attempt attempt_def tx_catch_def tx_bind_def find_template_def
        coupon_shop_def demo_shop_def CouponTemplate_IsEnabled_def transaction_def bulk_body_def enabled_template_def target_active_def
        lockUserForUpdate_def buildCouponFromTemplate_def snapshotTemplate_def insert_coupon_def generateCouponCode_def hex_encode_def hex_char_def Let_def
        LogOperationByTx_def LogOperationByTxReturning_def)
  then obtain t' where run: "AdminBulkGrantCoupon 1000 ?rnd 1 (Some ?q) (coupon_shop, []) = (Inr (200, ''SUCCESS_BULK_GRANTED''), (t', []))" by blast
  from bulk_grant_all_or_nothing [OF run] obtain new ol qty where q: "checked_quantity (bg_Quantity ?q) 10 = Inr qty"
    and n: "t' = coupon_shop \<lparr> user_coupons := user_coupons coupon_shop @ new, operation_logs := ol \<rparr>"
      "count_list (map uc_UserID new) 5 = qty" by auto
  have "user_coupons coupon_shop = []" by (simp add: coupon_shop_def demo_shop_def)
  with q n have "count_list (map uc_UserID (user_coupons t')) 5 = 2" by (simp add: checked_quantity_def)
  with run show ?thesis by blast
qed

end
