(* ===== verification/SubscriptionRequests.thy ===== *)
theory SubscriptionRequests
  imports SubscriptionAccounts
begin

section \<open>Requests about subscriptions and coupons refine the steps\<close>

text \<open>
  The handlers of \<open>Subscriptions\<close> and \<open>Coupons\<close> read rows, check them and run transactions; any number of
  them run at once. Each is a program over the steps of \<open>SubscriptionAccounts\<close>: what it read before is
  one of the copies the step relation lets it act on. The calculus of \<open>Served\<close> does the proofs.
\<close>

abbreviation "served \<equiv> served_by sub_step"
abbreviation "answered \<equiv> answered_by sub_step"

text \<open>A row that is read becomes a copy to act on.\<close>

lemma served_find_sub:
  "served (\<lambda>_. True) (attempt (find_sub i)) (\<lambda>r S. case r of Inl _ \<Rightarrow> True | Inr (k, s) \<Rightarrow> (k, s) \<in> S)"
proof (rule servedI)
  fix S t fs r t' fs' assume run: "attempt (find_sub i) (t, fs) = (r, (t', fs'))"
  obtain x t1 fs1 where a: "attempt (find_sub i) (t, fs) = (Inr x, (t1, fs1))" by (rule attempt_result)
  have t: "t1 = t" using attempt_read [OF a [unfolded find_sub_def]] .
  show "\<exists>a S'. r = Inr a \<and> S \<subseteq> S' \<and> (case a of Inl _ \<Rightarrow> True | Inr (k, s) \<Rightarrow> (k, s) \<in> S') \<and> sub_step\<^sup>*\<^sup>* (t, S) (t', S')"
  proof (cases x)
    case (Inl e)
    with a t run show ?thesis by auto
  next
    case (Inr ks)
    obtain k s where ks: "ks = (k, s)" by (cases ks)
    have "subscriptions t k = Some s"
      using a by (auto simp: Inr ks attempt_Inr find_sub_def query_first_Inr split: if_splits)
    then have "sub_step (t, S) (t, insert (k, s) S)" by (rule sub_step.look)
    with a t run Inr ks show ?thesis by (intro exI [of _ "Inr (k, s)"] exI [of _ "insert (k, s) S"]) auto
  qed
qed

subsection \<open>Buying\<close>

lemma check_stack_same: "check_stack uid pid p qty now (t, fs) = (r, (t', fs')) \<Longrightarrow> t' = t"
  by (auto simp: check_stack_def count_active_def tx_bind_def stmt_def split: if_splits prod.splits sum.splits)

lemma log_reward_same: "LogOperationByTx a b c d (t, fs) = (r, (t', fs')) \<Longrightarrow> sub_step (t, S) (t', S)"
proof (cases r)
  case (Inl e)
  assume "LogOperationByTx a b c d (t, fs) = (r, (t', fs'))"
  with Inl have "t' = t" by (auto simp: LogOperationByTx_def LogOperationByTxReturning_def tx_bind_Inl stmt_Inl stmt_Inr)
  then show ?thesis by (simp add: sales.idle)
next
  case (Inr u)
  assume "LogOperationByTx a b c d (t, fs) = (r, (t', fs'))"
  with Inr show ?thesis by (auto dest!: LogOperation_Inr intro: other_step)
qed

lemma answered_log_reward: "answered (log_reward r)"
  unfolding log_reward_def
  by (intro served_if answered_return served_bind [OF answered_try]) (auto intro: log_reward_same answered_return)

lemma answered_purchaseAsInstant: "0 < qty \<Longrightarrow> answered (purchaseAsInstant cfg now usr pkg qty cid)"
  unfolding purchaseAsInstant_def
  by (intro served_if served_option served_sum answered_return answered_step served_bind [OF answered_log_reward])
    (auto intro: sub_step.buy)

lemma checked_quantity_pos: "checked_quantity q limit = Inr n \<Longrightarrow> 0 < n"
  by (auto simp: checked_quantity_def Let_def split: if_splits option.splits)

lemma answered_stack: "(\<And>r. answered (f r)) \<Longrightarrow> answered (tx_bind (attempt (check_stack uid pid p qty now)) f)"
  by (rule answered_step) (auto dest: check_stack_same intro: sales.idle)

lemma answered_purchase: "answered (PurchasePackage cfg now usr body)"
  unfolding PurchasePackage_def find_package_def
  by (intro served_if served_option served_sum answered_return answered_read answered_stack answered_purchaseAsInstant)
    (auto dest: checked_quantity_pos)

subsection \<open>Granting\<close>

lemma buildPackageSnapshot_same: "buildPackageSnapshot pid p (t, fs) = (r, (t', fs')) \<Longrightarrow> t' = t"
  by (auto simp: buildPackageSnapshot_def buildPackageSnapshotTx_def tx_bind_def stmt_def
      split: if_splits prod.splits sum.splits option.splits)

lemma answered_grant_user: "answered (executeAdminGrantForUser now op uid pid qty secs)"
  unfolding executeAdminGrantForUser_def find_package_def Let_def
  by (intro served_if served_option served_sum answered_return answered_read answered_stack answered_step)
    (auto dest: buildPackageSnapshot_same intro: sales.idle sub_step.grant)

lemma answered_grant: "answered (AdminGrantSubscription now op body)"
  unfolding AdminGrantSubscription_def
  by (intro served_if served_option served_sum answered_return served_bind [OF answered_grant_user])

lemma answered_grant_each: "answered (grant_each now op pid qty secs uids)"
proof (induction uids)
  case (Cons uid uids)
  show ?case unfolding grant_each.simps
    by (intro served_bind [OF answered_grant_user] served_bind [OF Cons.IH] answered_return)
qed (simp only: grant_each.simps answered_return)

lemma answered_grant_batch: "answered (AdminGrantSubscriptionBatch now op body)"
  unfolding AdminGrantSubscriptionBatch_def Let_def
  by (intro served_if served_option served_sum answered_return served_bind [OF answered_grant_each])

subsection \<open>Ending\<close>

lemma answered_find_sub:
  assumes "\<And>e. answered (f (Inl e))" and "\<And>k s. served (\<lambda>S. (k, s) \<in> S) (f (Inr (k, s))) (\<lambda>_. anyway)"
  shows "answered (tx_bind (attempt (find_sub i)) f)"
proof (rule served_bind [OF served_find_sub])
  fix a
  show "served (\<lambda>S. case a of Inl _ \<Rightarrow> True | Inr (k, s) \<Rightarrow> (k, s) \<in> S) (f a) (\<lambda>_. anyway)"
    using assms by (cases a) auto
qed

lemma refund_served:
  assumes "\<not> sub_IsGranted s" "0 < a" "a \<le> sub_PurchasedUnitPriceUSD s"
  shows "served (\<lambda>S. (k, s) \<in> S) (tx_bind (attempt (transaction (refund_sub_body now op k s a))) (\<lambda>res. tx_return (g res))) (\<lambda>_. anyway)"
  by (rule served_bind [OF served_step]) (use assms in \<open>auto intro: sub_step.refund answered_return\<close>)

lemma answered_refund: "answered (AdminRefundSubscription now op i body)"
  unfolding AdminRefundSubscription_def
  by (intro served_option served_if answered_return answered_find_sub; simp only: sum.case prod.case)
    (intro served_if answered_return refund_served; simp)+

lemma answered_revoke: "answered (AdminRevokeGrantedSubscription now op i body)"
  unfolding AdminRevokeGrantedSubscription_def
  by (intro served_option served_if answered_return answered_find_sub; simp only: sum.case prod.case)
    (intro served_if answered_return answered_any [OF answered_step] sub_step.revoke; simp)+

lemma close_step:
  assumes run: "stmt (update_sub_if i (\<lambda>s. sub_Status s = ''active'') f) (t, fs) = (n, (t', fs'))"
    and f: "\<And>s. fixed (f s) = fixed s \<and> sub_Status (f s) = st \<and> sub_AppliedCouponID (f s) = sub_AppliedCouponID s"
    and st: "st \<in> {''canceled'', ''expired''}"
  shows "sub_step (t, S) (t', S)"
  by (rule sub_step.close [OF st f run])

lemma answered_cancel: "answered (CancelSubscription now usr i)"
  unfolding CancelSubscription_def
  by (intro served_option served_if answered_return answered_find_sub; simp only: sum.case prod.case)
    (intro served_if answered_return answered_any [OF answered_step], (erule close_step, auto simp: fixed_def)?)+

lemma answered_expire: "answered (expireSubscriptions cfg now)"
proof -
  have each: "answered (expire_each is)" for "is"
  proof (induction "is")
    case (Cons i "is")
    show ?case unfolding expire_each.simps
      by (intro served_bind [OF answered_try] Cons.IH) (erule close_step, auto simp: fixed_def)
  qed (simp only: expire_each.simps answered_return)
  show ?thesis unfolding expireSubscriptions_def
    by (intro served_bind [OF answered_try] served_option answered_return each) (auto simp: stmt_def intro: sales.idle split: if_splits)
qed

subsection \<open>Coupons\<close>

lemma template_step: "stmt (\<lambda>t. (g t, t \<lparr> template_seq := n t, coupon_templates := cs t \<rparr>)) (t, fs) = (r, (t', fs')) \<Longrightarrow> sub_step (t, S) (t', S)"
  by (auto simp: stmt_def intro: sales.idle other_step(2) split: if_splits)

lemma templates_step: "stmt (\<lambda>t. (g t, t \<lparr> coupon_templates := cs t \<rparr>)) (t, fs) = (r, (t', fs')) \<Longrightarrow> sub_step (t, S) (t', S)"
  by (auto simp: stmt_def intro: sales.idle other_step(2) [where n = "template_seq t"] split: if_splits)

lemma validateTemplate_same: "validateTemplate c (t, fs) = (r, (t', fs')) \<Longrightarrow> t' = t"
  by (auto simp: validateTemplate_def validateTemplateFixedPriceCostFloor_def tx_bind_def stmt_def Let_def
      split: if_splits prod.splits sum.splits option.splits)

lemma answered_validate: "(\<And>r. answered (f r)) \<Longrightarrow> answered (tx_bind (attempt (validateTemplate c)) f)"
  by (rule answered_step) (auto dest: validateTemplate_same intro: sales.idle)

lemma answered_create_template: "answered (AdminCreateCouponTemplate body)"
  unfolding AdminCreateCouponTemplate_def insert_template_def Let_def
  by (intro served_option served_sum answered_return answered_validate answered_step) (erule template_step)

lemma answered_update_template: "answered (AdminUpdateCouponTemplate i body)"
  unfolding AdminUpdateCouponTemplate_def find_template_def update_templates_def
  by (intro served_option served_sum answered_return answered_validate answered_read answered_step) (erule templates_step)

lemma answered_delete_template: "answered (AdminDeleteCouponTemplate i)"
  unfolding AdminDeleteCouponTemplate_def
  by (intro served_option served_sum answered_return answered_step) (erule templates_step)

lemma answered_grant_coupon: "answered (AdminGrantCoupon now rnd op body)"
  unfolding AdminGrantCoupon_def find_template_def
  by (intro served_option served_sum served_if answered_return answered_read answered_step) (erule sub_step.give)

lemma answered_bulk_coupon: "answered (AdminBulkGrantCoupon now rnds op body)"
  unfolding AdminBulkGrantCoupon_def find_template_def
  by (intro served_option served_sum served_if answered_return answered_read answered_step) (erule sub_step.give_many)

lemma answered_revoke_coupon: "answered (AdminRevokeCoupon now op i reason)"
  unfolding AdminRevokeCoupon_def
  by (intro served_option answered_return answered_step) (erule sub_step.withdraw)

subsection \<open>Properties\<close>

datatype sub_request =
    Purchase "(nat \<times> user) option" "purchase_request option"
  | GrantSub "nat option" "grant_sub_request option"
  | GrantSubs "nat option" "grant_batch_request option"
  | RefundSub "nat option" string "int64 option"
  | RevokeSub "nat option" string "string option"
  | CancelSub "(nat \<times> user) option" string
  | ExpireSubs
  | CreateTemplate "template_request option"
  | UpdateTemplate string "template_request option"
  | DeleteTemplate string
  | GrantCoupon nat "grant_coupon_request option"
  | GrantCoupons nat "bulk_grant_request option"
  | RevokeCoupon nat string "string option"

text \<open>The answer of a request; the sweep has none.\<close>

definition serve_sub :: "sysconfig \<Rightarrow> nanos \<Rightarrow> (nat \<Rightarrow> nat \<Rightarrow> string option) \<Rightarrow> sub_request \<Rightarrow> response tx" where
  "serve_sub cfg now rnd req = (case req of
      Purchase usr body \<Rightarrow> PurchasePackage cfg now usr body
    | GrantSub op body \<Rightarrow> AdminGrantSubscription now op body
    | GrantSubs op body \<Rightarrow> tx_bind (AdminGrantSubscriptionBatch now op body) (\<lambda>r. tx_return (fst r))
    | RefundSub op i body \<Rightarrow> AdminRefundSubscription now op i body
    | RevokeSub op i body \<Rightarrow> AdminRevokeGrantedSubscription now op i body
    | CancelSub usr i \<Rightarrow> CancelSubscription now usr i
    | ExpireSubs \<Rightarrow> tx_bind (expireSubscriptions cfg now) (\<lambda>_. tx_return (200, ''''))
    | CreateTemplate body \<Rightarrow> AdminCreateCouponTemplate body
    | UpdateTemplate i body \<Rightarrow> AdminUpdateCouponTemplate i body
    | DeleteTemplate i \<Rightarrow> AdminDeleteCouponTemplate i
    | GrantCoupon op body \<Rightarrow> AdminGrantCoupon now (rnd 0) op body
    | GrantCoupons op body \<Rightarrow> AdminBulkGrantCoupon now rnd op body
    | RevokeCoupon op i reason \<Rightarrow> AdminRevokeCoupon now op i reason)"

lemma answered_serve: "answered (serve_sub cfg now rnd req)"
  unfolding serve_sub_def
  by (cases req) (simp_all only: sub_request.case answered_purchase answered_grant served_bind [OF answered_grant_batch answered_return]
    answered_refund answered_revoke answered_cancel served_bind [OF answered_expire answered_return] answered_create_template
    answered_update_template answered_delete_template answered_grant_coupon answered_bulk_coupon answered_revoke_coupon)

text \<open>C6: Every request about subscriptions and coupons refines the step relation: whatever it contains,
  whatever the tables hold and whichever statements fail, it is answered, and its effect on the tables
  is a run of steps, started from any copies that requests before it had read. So what holds of every
  reachable state of the steps, that subscriptions are paid and refunded once and coupons used once,
  holds of the handlers under any interleaving of requests.\<close>

theorem subscription_requests_refine:
  assumes "serve_sub cfg now rnd req (t, fs) = (r, (t', fs'))"
  shows "(\<exists>resp. r = Inr resp) \<and> (\<exists>S'. S \<subseteq> S' \<and> sub_step\<^sup>*\<^sup>* (t, S) (t', S'))"
  using servedD [OF answered_serve _ assms, of S] by auto

theorem subscription_requests_refine_witness:
  "\<exists>S'. sub_step\<^sup>*\<^sup>* (bought_shop, {}) (fst (snd (serve_sub Map.empty 4000 (\<lambda>_ _. None)
     (RefundSub (Some 1) ''1'' (Some 1000)) (bought_shop, []))), S')"
  using subscription_requests_refine [of Map.empty 4000 "\<lambda>_ _. None" "RefundSub (Some 1) ''1'' (Some 1000)" bought_shop "[]" _ _ _ "{}"]
  by (metis prod.collapse)

subsection \<open>The expiry sweep\<close>

text \<open>The subscriptions a sweep looks for, in the order of their keys.\<close>

definition overdue :: "sysconfig \<Rightarrow> nanos \<Rightarrow> tables \<Rightarrow> (nat \<times> user_subscription) list" where
  "overdue cfg now t = filter (\<lambda>(i, s). sub_Status s = ''active'' \<and> sub_EndAt s < expire_grace_cutoff cfg now) (sub_rows t)"

definition expired_rows :: "nat set \<Rightarrow> tables \<Rightarrow> tables" where
  "expired_rows I t = t \<lparr> subscriptions := (\<lambda>i. if i \<in> I then map_option
     (\<lambda>s. if sub_Status s = ''active'' then s \<lparr> sub_Status := ''expired'' \<rparr> else s) (subscriptions t i) else subscriptions t i) \<rparr>"

text \<open>The elements of a list whose statements do not fail, one statement for each.\<close>

fun spared :: "bool list \<Rightarrow> 'a list \<Rightarrow> 'a list" where
  "spared fs [] = []"
| "spared fs (x # xs) = (if fs \<noteq> [] \<and> hd fs then [] else [x]) @ spared (tl fs) xs"

lemma spared_none [simp]: "spared [] xs = xs"
  by (induction xs) auto

lemma spared_subset: "set (spared fs xs) \<subseteq> set xs"
  by (induction fs xs rule: spared.induct) auto

text \<open>The subscriptions one sweep expires: at most two hundred of the overdue ones, less those whose
  update fails; none when the query fails.\<close>

definition swept :: "sysconfig \<Rightarrow> nanos \<Rightarrow> tables \<Rightarrow> bool list \<Rightarrow> nat list" where
  "swept cfg now t fs = (if fs \<noteq> [] \<and> hd fs then [] else spared (tl fs) (map fst (take 200 (overdue cfg now t))))"

lemma expired_none [simp]: "expired_rows {} t = t"
  by (simp add: expired_rows_def)

lemma expired_twice: "expired_rows I (expired_rows J t) = expired_rows (I \<union> J) t"
  by (auto simp: expired_rows_def fun_eq_iff option.map_comp o_def intro!: tables.equality map_option_cong)

lemma expire_each_run: "expire_each ids (t, fs) = (Inr (), (expired_rows (set (spared fs ids)) t, drop (length ids) fs))"
proof (induction ids arbitrary: t fs)
  case Nil
  show ?case by simp
next
  case (Cons i ids)
  have one: "snd (update_sub_if i (\<lambda>s. sub_Status s = ''active'') (\<lambda>s. s \<lparr> sub_Status := ''expired'' \<rparr>) t) = expired_rows {i} t"
    by (auto simp: update_sub_if_def expired_rows_def fun_upd_def split: option.split intro!: tables.equality)
  show ?case unfolding expire_each.simps
    by (simp add: tx_bind_def try_tx_def tx_catch_def stmt_def case_prod_beta one Cons.IH expired_twice drop_Suc
        Un_commute insert_def [symmetric])
qed

lemma sweep_run: "expireSubscriptions cfg now (t, fs)
    = (Inr (), (expired_rows (set (swept cfg now t fs)) t,
        drop (if fs \<noteq> [] \<and> hd fs then 1 else Suc (length (take 200 (overdue cfg now t)))) fs))"
  by (simp add: expireSubscriptions_def swept_def try_tx_def tx_catch_def tx_bind_def stmt_def take_map overdue_def
      expire_each_run drop_Suc)

lemma sub_rows_expired: "sub_rows (expired_rows I t) = map (\<lambda>(i, s). (i, if i \<in> I \<and> sub_Status s = ''active''
     then s \<lparr> sub_Status := ''expired'' \<rparr> else s)) (sub_rows t)"
  unfolding sub_rows_def map_concat map_map
  by (rule arg_cong [of _ _ concat], rule map_cong) (auto simp: expired_rows_def split: option.splits)

lemma filter_drop_keys: "distinct (map fst xs) \<Longrightarrow> filter (\<lambda>x. fst x \<notin> set (map fst (take n xs))) xs = drop n xs"
proof -
  assume d: "distinct (map fst xs)"
  have "distinct (map fst (take n xs) @ map fst (drop n xs))" using d by (metis append_take_drop_id map_append)
  then have dis: "set (map fst (take n xs)) \<inter> set (map fst (drop n xs)) = {}" by (simp only: distinct_append)
  have a: "filter (\<lambda>x. fst x \<notin> set (map fst (take n xs))) (take n xs) = []" by (auto simp: filter_empty_conv)
  have b: "filter (\<lambda>x. fst x \<notin> set (map fst (take n xs))) (drop n xs) = drop n xs"
    using dis by (intro filter_True) auto
  have "filter P xs = filter P (take n xs) @ filter P (drop n xs)" for P by (metis append_take_drop_id filter_append)
  with a b show ?thesis by (metis append_Nil)
qed

lemma sub_rows_distinct: "distinct (map fst (sub_rows t))"
proof -
  have "map fst (concat (map (\<lambda>i. case subscriptions t i of None \<Rightarrow> [] | Some s \<Rightarrow> [(i, s)]) is)) = filter (\<lambda>i. subscriptions t i \<noteq> None) is" for "is"
    by (induction "is") (auto split: option.split)
  then show ?thesis unfolding sub_rows_def by (simp del: upt_Suc)
qed

lemma overdue_distinct: "distinct (map fst (overdue cfg now t))"
  using sub_rows_distinct unfolding overdue_def by (rule distinct_map_filter)

text \<open>What a sweep leaves of the rows overdue at any clock, in order.\<close>

lemma overdue_expired: "overdue cfg now (expired_rows I t) = filter (\<lambda>x. fst x \<notin> I) (overdue cfg now t)"
proof -
  let ?P = "\<lambda>(i, s). sub_Status s = ''active'' \<and> sub_EndAt s < expire_grace_cutoff cfg now"
  have "filter ?P (map (\<lambda>(i, s). (i, if i \<in> I \<and> sub_Status s = ''active'' then s \<lparr> sub_Status := ''expired'' \<rparr> else s)) rs)
      = filter (\<lambda>x. fst x \<notin> I) (filter ?P rs)" for rs :: "(nat \<times> user_subscription) list"
    by (induction rs) (auto split: if_splits)
  then show ?thesis by (simp only: overdue_def sub_rows_expired)
qed

lemma overdue_mono: "now \<le> now' \<Longrightarrow> set (overdue cfg now t) \<subseteq> set (overdue cfg now' t)"
  by (auto simp: overdue_def expire_grace_cutoff_def Let_def)

lemma swept_clean: "swept cfg now t [] = map fst (take 200 (overdue cfg now t))"
  by (simp add: swept_def)

lemma length_filter_keys:
  assumes "distinct ys" and "distinct xs" and "set xs \<subseteq> set ys"
  shows "length (filter (\<lambda>i. i \<notin> set xs) ys) + length xs = length ys"
proof -
  have "length (filter (\<lambda>i. i \<notin> set xs) ys) = card (set ys - set xs)"
    using distinct_card [OF distinct_filter [OF assms(1)], of "\<lambda>i. i \<notin> set xs"] by (simp add: set_diff_eq)
  also have "\<dots> = card (set ys) - card (set xs)" by (rule card_Diff_subset) (use assms(3) in auto)
  also have "\<dots> = length ys - length xs" by (simp only: distinct_card [OF assms(1)] distinct_card [OF assms(2)])
  finally have "length (filter (\<lambda>i. i \<notin> set xs) ys) = length ys - length xs" .
  moreover have "length xs \<le> length ys"
    using card_mono [OF _ assms(3)] by (simp add: distinct_card [OF assms(1)] distinct_card [OF assms(2)])
  ultimately show ?thesis by simp
qed

text \<open>A sweep without failures, at its clock: the first two hundred overdue rows leave the backlog of
  every later clock, or else nothing that was overdue at an earlier clock is left.\<close>

lemma sweep_progress:
  assumes "lo \<le> now" and "now \<le> hi" and u: "u = expired_rows (set (swept cfg now t [])) t"
  shows "length (overdue cfg hi u) + 200 \<le> length (overdue cfg hi t) \<or> overdue cfg lo u = []"
proof (cases "length (overdue cfg now t) \<le> 200")
  case True
  have "fst x \<in> set (swept cfg now t [])" if "x \<in> set (overdue cfg lo t)" for x
    using that overdue_mono [OF assms(1)] True by (auto simp: swept_clean)
  then have "overdue cfg lo u = []" unfolding u overdue_expired by (auto simp: filter_empty_conv)
  then show ?thesis ..
next
  case False
  define xs where "xs = swept cfg now t []"
  have dx: "distinct xs" unfolding xs_def swept_clean take_map [symmetric] by (intro distinct_take overdue_distinct)
  have lx: "length xs = 200" using False by (simp add: xs_def swept_clean)
  have sub: "set xs \<subseteq> set (map fst (overdue cfg hi t))"
    using overdue_mono [OF assms(2), of cfg t] by (auto simp: xs_def swept_clean dest: in_set_takeD)
  have "map fst (overdue cfg hi u) = filter (\<lambda>i. i \<notin> set xs) (map fst (overdue cfg hi t))"
    by (simp add: u overdue_expired xs_def filter_map o_def)
  then have "length (overdue cfg hi u) = length (filter (\<lambda>i. i \<notin> set xs) (map fst (overdue cfg hi t)))"
    by (metis length_map)
  then show ?thesis using length_filter_keys [OF overdue_distinct dx sub] lx by simp
qed

text \<open>The tables after sweeps at the given clocks that meet no failure.\<close>

fun sweeps :: "sysconfig \<Rightarrow> nanos list \<Rightarrow> tables \<Rightarrow> tables" where
  "sweeps cfg [] t = t"
| "sweeps cfg (now # nows) t = sweeps cfg nows (fst (snd (expireSubscriptions cfg now (t, []))))"

lemma sweeps_done: "overdue cfg lo t = [] \<Longrightarrow> overdue cfg lo (sweeps cfg nows t) = []"
  by (induction nows arbitrary: t) (simp_all add: sweep_run overdue_expired)

lemma sweeps_drain:
  assumes "\<forall>now \<in> set nows. lo \<le> now \<and> now \<le> hi" and "lo \<le> hi"
    and "length (overdue cfg hi t) \<le> 200 * length nows"
  shows "overdue cfg lo (sweeps cfg nows t) = []"
  using assms(1,3)
proof (induction nows arbitrary: t)
  case Nil
  then show ?case using overdue_mono [OF assms(2), of cfg t] by simp
next
  case (Cons now nows)
  define u where "u = expired_rows (set (swept cfg now t [])) t"
  have s: "sweeps cfg (now # nows) t = sweeps cfg nows u" by (simp add: sweep_run u_def)
  from sweep_progress [of lo now hi u cfg t, OF _ _ u_def] Cons.prems(1)
  consider "length (overdue cfg hi u) + 200 \<le> length (overdue cfg hi t)" | "overdue cfg lo u = []" by auto
  then show ?case
  proof cases
    case 1
    then show ?thesis unfolding s by (intro Cons.IH) (use Cons.prems in auto)
  next
    case 2
    then show ?thesis unfolding s by (rule sweeps_done)
  qed
qed

text \<open>C26: The expiry sweep drains its backlog. Under any failures of its statements a run returns, uses at
  most one query and two hundred updates, and changes nothing but this: exactly those of the
  first two hundred overdue subscriptions whose update does not fail become expired (none when
  the query fails), so no backlog ever grows and the others keep their order. When no statement
  fails and no subscription falls due in between but those of the last clock, runs at any clocks
  from \<open>lo\<close> to \<open>hi\<close> come to an end: as soon as there is one for every two hundred subscriptions
  overdue at \<open>hi\<close>, none that was overdue at \<open>lo\<close> is left.\<close>

theorem expiry_drains_backlog:
  "(\<exists>k \<le> 201. expireSubscriptions cfg now (t, fs) = (Inr (), (expired_rows (set (swept cfg now t fs)) t, drop k fs)))
    \<and> set (swept cfg now t fs) \<subseteq> set (map fst (take 200 (overdue cfg now t)))
    \<and> overdue cfg clock (fst (snd (expireSubscriptions cfg now (t, fs))))
        = filter (\<lambda>x. fst x \<notin> set (swept cfg now t fs)) (overdue cfg clock t)
    \<and> overdue cfg now (fst (snd (expireSubscriptions cfg now (t, [])))) = drop 200 (overdue cfg now t)
    \<and> (lo \<le> hi \<longrightarrow> (\<forall>c \<in> set nows. lo \<le> c \<and> c \<le> hi) \<longrightarrow> length (overdue cfg hi t) \<le> 200 * length nows
        \<longrightarrow> overdue cfg lo (sweeps cfg nows t) = [])"
proof -
  have "\<exists>k \<le> 201. expireSubscriptions cfg now (t, fs) = (Inr (), (expired_rows (set (swept cfg now t fs)) t, drop k fs))"
    unfolding sweep_run by (rule exI, rule conjI [rotated], rule refl) simp
  moreover have "set (swept cfg now t fs) \<subseteq> set (map fst (take 200 (overdue cfg now t)))"
    using spared_subset [of "tl fs" "map fst (take 200 (overdue cfg now t))"] by (simp add: swept_def)
  moreover have "overdue cfg clock (fst (snd (expireSubscriptions cfg now (t, fs))))
      = filter (\<lambda>x. fst x \<notin> set (swept cfg now t fs)) (overdue cfg clock t)"
    by (simp add: sweep_run overdue_expired)
  moreover have "overdue cfg now (fst (snd (expireSubscriptions cfg now (t, [])))) = drop 200 (overdue cfg now t)"
    using filter_drop_keys [OF overdue_distinct, of 200 cfg now t]
    by (simp add: sweep_run overdue_expired swept_clean del: list.set_map)
  ultimately show ?thesis using sweeps_drain by blast
qed

definition overdue_shop :: tables where
  "overdue_shop = empty_tables \<lparr> sub_seq := 1, subscriptions := [1 \<mapsto> granted_sub 5 1 '''' 0 60 1 0] \<rparr>"

theorem expiry_drains_backlog_witness:
  "map fst (overdue Map.empty 1000000000000 overdue_shop) = [1]
    \<and> overdue Map.empty 1000000000000 (sweeps Map.empty [1000000000000, 1000000000000] overdue_shop) = []"
proof -
  have "overdue Map.empty 1000000000000 overdue_shop = [(1, granted_sub 5 1 '''' 0 60 1 0)]"
  proof -
    have p: "ParseInt 64 ''60'' = Some 60"
      by (simp add: ParseInt_def ParseDigits_def is_digit_def digits_val_def digit_val_def char_of_def bit_0 i64_defs)
    have "TrimSpace '''' = ''''" by code_simp
    with p have "expire_grace_cutoff Map.empty 1000000000000 = 940000000000"
      by (simp add: expire_grace_cutoff_def sysConfigValue_def Atoi_value_def i64_defs)
    then show ?thesis by (simp add: overdue_def overdue_shop_def sub_rows_def granted_sub_def)
  qed
  with expiry_drains_backlog [where cfg = Map.empty and t = overdue_shop and lo = 1000000000000 and hi = 1000000000000
      and nows = "[1000000000000, 1000000000000]"]
  show ?thesis by simp
qed

end
