(* ===== verification/ChannelCircuit.thy ===== *)
theory ChannelCircuit
  imports SysConfig
begin

section \<open>The per-channel circuit breaker (\<^verbatim>\<open>proxy/channel_circuit.go\<close>)\<close>

text \<open>
  The in-memory state of every upstream channel: a failure count, the open period with its
  cooldown, and the flag that lets a single probe through once the period is over; beside it
  the rate-limit and per-model cooldowns. Every operation takes the current time in
  nanoseconds; an operation is one atomic step (the source uses one atomic read-modify-write
  per field). Timestamps are far from the int64 bounds and are added as integers; the failure
  counter wraps at 32 bits as \<^verbatim>\<open>atomic.Int32\<close> does.
\<close>

record circuitState =
  cooldownSec :: int64
  openUntilNano :: nanos

record channelHealth =
  consecutiveFailures :: int
  cstate :: "circuitState option"
  halfOpenInflight :: bool
  lastFailureNano :: nanos

record circuitConfig =
  OpenThreshold :: int
  InitialCooldown :: nanos
  MaxCooldown :: nanos
  BackoffFactor :: int

record circuits =
  channelCircuits :: "nat \<rightharpoonup> channelHealth"
  channelRateLimitCooldowns :: "nat \<rightharpoonup> nanos"
  channelModelUnhealthyUntilNs :: "string \<rightharpoonup> nanos"

definition second :: nanos where
  "second = 1000000000"

definition wrap32 :: "int \<Rightarrow> int" where
  "wrap32 x = (x + 2147483648) mod 4294967296 - 2147483648"

subsection \<open>Configuration\<close>

definition in_range_config :: "sysconfig \<Rightarrow> string \<Rightarrow> nat \<Rightarrow> int \<Rightarrow> int option" where
  "in_range_config cfg key bits hi =
     (let v = TrimSpace (sysConfigValue cfg key) in
      if v = '''' then None
      else case ParseInt bits v of None \<Rightarrow> None
           | Some n \<Rightarrow> if 1 \<le> n \<and> n \<le> hi then Some n else None)"

definition read_circuit_config :: "sysconfig \<Rightarrow> circuitConfig" where
  "read_circuit_config cfg =
     \<lparr> OpenThreshold = (case in_range_config cfg ''channel_circuit_open_threshold'' 32 1000 of
         None \<Rightarrow> 5 | Some n \<Rightarrow> n),
       InitialCooldown = (case in_range_config cfg ''channel_circuit_initial_cooldown_seconds'' 64 3600 of
         None \<Rightarrow> 30 * second | Some n \<Rightarrow> n * second),
       MaxCooldown = (case in_range_config cfg ''channel_circuit_max_cooldown_seconds'' 64 86400 of
         None \<Rightarrow> 300 * second | Some n \<Rightarrow> n * second),
       BackoffFactor = 2 \<rparr>"

text \<open>The configuration is read once and kept until \<open>ResetCircuitConfigCache\<close>; the second
  component is the cache.\<close>

definition loadCircuitConfig :: "sysconfig \<Rightarrow> circuitConfig option \<Rightarrow> circuitConfig \<times> circuitConfig option" where
  "loadCircuitConfig cfg cached =
     (case cached of Some c \<Rightarrow> (c, cached)
      | None \<Rightarrow> let c = read_circuit_config cfg in (c, Some c))"

definition ResetCircuitConfigCache :: "circuitConfig option \<Rightarrow> circuitConfig option" where
  "ResetCircuitConfigCache cached = None"

definition valid_config :: "circuitConfig \<Rightarrow> bool" where
  "valid_config c \<longleftrightarrow> 1 \<le> OpenThreshold c \<and> OpenThreshold c \<le> 1000
     \<and> (\<exists>i. 1 \<le> i \<and> i \<le> 3600 \<and> InitialCooldown c = i * second)
     \<and> (\<exists>m. 1 \<le> m \<and> m \<le> 86400 \<and> MaxCooldown c = m * second)
     \<and> BackoffFactor c = 2"

definition initial_sec :: "circuitConfig \<Rightarrow> int64" where
  "initial_sec c = InitialCooldown c sdiv second"

definition max_sec :: "circuitConfig \<Rightarrow> int64" where
  "max_sec c = MaxCooldown c sdiv second"

subsection \<open>Operations on one channel\<close>

definition new_health :: channelHealth where
  "new_health = \<lparr> consecutiveFailures = 0, cstate = None, halfOpenInflight = False, lastFailureNano = 0 \<rparr>"

definition openCircuit :: "nanos \<Rightarrow> nanos \<Rightarrow> int64 \<Rightarrow> channelHealth \<Rightarrow> channelHealth" where
  "openCircuit now cooldownNano sec h =
     h \<lparr> cstate := Some \<lparr> cooldownSec = sec, openUntilNano = now + cooldownNano \<rparr>,
         halfOpenInflight := False \<rparr>"

definition extendCircuitOpen :: "circuitConfig \<Rightarrow> nanos \<Rightarrow> channelHealth \<Rightarrow> channelHealth" where
  "extendCircuitOpen c now h =
     (let cur0 = (case cstate h of None \<Rightarrow> 0 | Some s \<Rightarrow> cooldownSec s);
          cur = (if cur0 = 0 then initial_sec c else cur0);
          next0 = cur * BackoffFactor c;
          nextSec = (if max_sec c < next0 then max_sec c else next0)
      in h \<lparr> cstate := Some \<lparr> cooldownSec = nextSec, openUntilNano = now + nextSec * second \<rparr>,
             halfOpenInflight := False \<rparr>)"

definition check_health :: "nanos \<Rightarrow> channelHealth \<Rightarrow> bool \<times> channelHealth" where
  "check_health now h =
     (case cstate h of None \<Rightarrow> (False, h)
      | Some s \<Rightarrow>
          if openUntilNano s = 0 then (False, h)
          else if now < openUntilNano s then (True, h)
          else if \<not> halfOpenInflight h then (False, h \<lparr> halfOpenInflight := True \<rparr>)
          else (True, h))"

definition success_health :: "channelHealth \<Rightarrow> channelHealth" where
  "success_health h = h \<lparr> consecutiveFailures := 0, cstate := None, halfOpenInflight := False \<rparr>"

definition failure_health :: "circuitConfig \<Rightarrow> nanos \<Rightarrow> channelHealth \<Rightarrow> channelHealth" where
  "failure_health c now h0 =
     (let h = h0 \<lparr> lastFailureNano := now, consecutiveFailures := wrap32 (consecutiveFailures h0 + 1) \<rparr> in
      if halfOpenInflight h then extendCircuitOpen c now (h \<lparr> halfOpenInflight := False \<rparr>)
      else if OpenThreshold c \<le> consecutiveFailures h then
        (if (case cstate h of None \<Rightarrow> True | Some s \<Rightarrow> openUntilNano s = 0 \<or> cooldownSec s = 0)
         then openCircuit now (InitialCooldown c) (initial_sec c) h
         else extendCircuitOpen c now h)
      else h)"

subsection \<open>Operations on the table of channels\<close>

definition getChannelHealth :: "nat \<Rightarrow> circuits \<Rightarrow> channelHealth" where
  "getChannelHealth ch cs = (case channelCircuits cs ch of None \<Rightarrow> new_health | Some h \<Rightarrow> h)"

definition put_health :: "nat \<Rightarrow> channelHealth \<Rightarrow> circuits \<Rightarrow> circuits" where
  "put_health ch h cs = cs \<lparr> channelCircuits := (channelCircuits cs)(ch \<mapsto> h) \<rparr>"

definition IsChannelCircuitOpen :: "nanos \<Rightarrow> nat \<Rightarrow> circuits \<Rightarrow> bool \<times> circuits" where
  "IsChannelCircuitOpen now ch cs =
     (let (r, h) = check_health now (getChannelHealth ch cs) in (r, put_health ch h cs))"

definition MarkChannelSuccess :: "nat \<Rightarrow> circuits \<Rightarrow> circuits" where
  "MarkChannelSuccess ch cs = put_health ch (success_health (getChannelHealth ch cs)) cs"

definition MarkChannelSoftFailure :: "nanos \<Rightarrow> nat \<Rightarrow> circuits \<Rightarrow> circuits" where
  "MarkChannelSoftFailure now ch cs = put_health ch ((getChannelHealth ch cs) \<lparr> lastFailureNano := now \<rparr>) cs"

definition releaseChannelProbe :: "nat \<Rightarrow> circuits \<Rightarrow> circuits" where
  "releaseChannelProbe ch cs = put_health ch ((getChannelHealth ch cs) \<lparr> halfOpenInflight := False \<rparr>) cs"

definition MarkChannelFailure :: "circuitConfig \<Rightarrow> nanos \<Rightarrow> nat \<Rightarrow> circuits \<Rightarrow> circuits" where
  "MarkChannelFailure c now ch cs = put_health ch (failure_health c now (getChannelHealth ch cs)) cs"

definition ForceCloseChannelCircuit :: "nat \<Rightarrow> circuits \<Rightarrow> circuits" where
  "ForceCloseChannelCircuit ch cs = MarkChannelSuccess ch cs"

definition setChannelRateLimitCooldown :: "nanos \<Rightarrow> nat \<Rightarrow> nanos \<Rightarrow> circuits \<Rightarrow> circuits" where
  "setChannelRateLimitCooldown now ch retryAfter cs0 =
     (let cs = MarkChannelSoftFailure now ch cs0 in
      if retryAfter \<le> 0 then cs
      else let r = (if 3600 * second < retryAfter then 3600 * second else retryAfter)
           in cs \<lparr> channelRateLimitCooldowns := (channelRateLimitCooldowns cs)(ch \<mapsto> now + r) \<rparr>)"

definition IsChannelRateLimited :: "nanos \<Rightarrow> nat \<Rightarrow> circuits \<Rightarrow> bool \<times> circuits" where
  "IsChannelRateLimited now ch cs =
     (case channelRateLimitCooldowns cs ch of None \<Rightarrow> (False, cs)
      | Some until \<Rightarrow>
          if until \<le> now
          then (False, cs \<lparr> channelRateLimitCooldowns := (channelRateLimitCooldowns cs)(ch := None) \<rparr>)
          else (True, cs))"

definition channelModelHealthKey :: "nat \<Rightarrow> string \<Rightarrow> string" where
  "channelModelHealthKey ch modelName = show_nat ch @ [CHR 0x00] @ TrimSpace modelName"

definition markChannelModelUnhealthy :: "nanos \<Rightarrow> nat \<Rightarrow> string \<Rightarrow> circuits \<Rightarrow> circuits" where
  "markChannelModelUnhealthy now ch modelName cs0 =
     (let cs = MarkChannelSoftFailure now ch cs0
      in cs \<lparr> channelModelUnhealthyUntilNs :=
           (channelModelUnhealthyUntilNs cs)(channelModelHealthKey ch modelName \<mapsto> now + 300 * second) \<rparr>)"

definition IsChannelModelUnhealthy :: "nanos \<Rightarrow> nat \<Rightarrow> string \<Rightarrow> circuits \<Rightarrow> bool \<times> circuits" where
  "IsChannelModelUnhealthy now ch modelName cs =
     (let key = channelModelHealthKey ch modelName in
      case channelModelUnhealthyUntilNs cs key of None \<Rightarrow> (False, cs)
      | Some until \<Rightarrow>
          if until \<le> now
          then (False, cs \<lparr> channelModelUnhealthyUntilNs := (channelModelUnhealthyUntilNs cs)(key := None) \<rparr>)
          else (True, cs))"

subsection \<open>Snapshots\<close>

datatype circuit_phase = Closed | Open | HalfOpen

record circuitSnapshot =
  SnapFailures :: int
  SnapOpenUntil :: "nanos option"
  SnapCooldownSec :: int64
  SnapState :: circuit_phase

definition snapshot_health :: "nanos \<Rightarrow> channelHealth \<Rightarrow> circuitSnapshot" where
  "snapshot_health now h =
     (let until = (case cstate h of None \<Rightarrow> 0 | Some s \<Rightarrow> openUntilNano s);
          sec = (case cstate h of None \<Rightarrow> 0 | Some s \<Rightarrow> cooldownSec s)
      in \<lparr> SnapFailures = consecutiveFailures h,
           SnapOpenUntil = (if until = 0 then None else Some until),
           SnapCooldownSec = sec,
           SnapState = (if until = 0 then Closed else if now < until then Open else HalfOpen) \<rparr>)"

definition GetChannelCircuitSnapshot :: "nanos \<Rightarrow> nat list \<Rightarrow> circuits \<Rightarrow> (nat \<times> circuitSnapshot) list" where
  "GetChannelCircuitSnapshot now keys cs =
     concat (map (\<lambda>k. case channelCircuits cs k of None \<Rightarrow> [] | Some h \<Rightarrow> [(k, snapshot_health now h)]) keys)"

subsection \<open>Retry back-off\<close>

definition retryBackoffBaseDelayMS :: "int64 \<Rightarrow> int64" where
  "retryBackoffBaseDelayMS attempt =
     (if attempt \<le> 0 then 0
      else let shift = attempt - 1 in
        if 5 \<le> shift then 2000
        else let delay = push_bit (nat shift) 100 in if 2000 < delay then 2000 else delay)"

text \<open>\<open>jitter\<close> is what \<^verbatim>\<open>mrand.Int64N(delay / 2)\<close> returned; the result is in nanoseconds.\<close>

definition computeRetryBackoff :: "int64 \<Rightarrow> int64 \<Rightarrow> nanos" where
  "computeRetryBackoff attempt jitter =
     (let delay = retryBackoffBaseDelayMS attempt
      in (delay + (if 1 < delay then jitter else 0)) * 1000000)"

subsection \<open>Invariant of a channel\<close>

lemma read_circuit_config_valid: "valid_config (read_circuit_config cfg)"
proof -
  have r: "1 \<le> n \<and> n \<le> hi" if "in_range_config cfg k b hi = Some n" for k b hi n
    using that by (auto simp: in_range_config_def Let_def split: if_splits option.splits)
  let ?t = "in_range_config cfg ''channel_circuit_open_threshold'' 32 1000"
    and ?i = "in_range_config cfg ''channel_circuit_initial_cooldown_seconds'' 64 3600"
    and ?m = "in_range_config cfg ''channel_circuit_max_cooldown_seconds'' 64 86400"
  have t: "1 \<le> (case ?t of None \<Rightarrow> 5 | Some n \<Rightarrow> n) \<and> (case ?t of None \<Rightarrow> 5 | Some n \<Rightarrow> n) \<le> 1000"
    by (auto split: option.split dest: r)
  have i: "\<exists>i. 1 \<le> i \<and> i \<le> 3600 \<and> (case ?i of None \<Rightarrow> 30 * second | Some n \<Rightarrow> n * second) = i * second"
    by (cases ?i) (auto dest: r intro: exI [of _ 30])
  have m: "\<exists>i. 1 \<le> i \<and> i \<le> 86400 \<and> (case ?m of None \<Rightarrow> 300 * second | Some n \<Rightarrow> n * second) = i * second"
    by (cases ?m) (auto dest: r intro: exI [of _ 300])
  show ?thesis using t i m by (simp add: valid_config_def read_circuit_config_def)
qed

lemma loadCircuitConfig_valid:
  "(\<And>c. cached = Some c \<Longrightarrow> valid_config c) \<Longrightarrow> valid_config (fst (loadCircuitConfig cfg cached))"
  by (simp add: loadCircuitConfig_def read_circuit_config_valid Let_def split: option.split)

lemma sec_of: "(i * second) sdiv second = i"
  by (simp add: second_def sdiv_mult_cancel)

lemma valid_config_sec:
  assumes "valid_config c"
  shows "1 \<le> initial_sec c" "1 \<le> max_sec c" "InitialCooldown c = initial_sec c * second"
    and "BackoffFactor c = 2"
  using assms by (auto simp: valid_config_def initial_sec_def max_sec_def sec_of)

definition cooldown_bound :: "circuitConfig \<Rightarrow> int64" where
  "cooldown_bound c = max (initial_sec c) (max_sec c)"

definition health_inv :: "circuitConfig \<Rightarrow> nanos \<Rightarrow> channelHealth \<Rightarrow> bool" where
  "health_inv c now h \<longleftrightarrow>
     (case cstate h of None \<Rightarrow> \<not> halfOpenInflight h
      | Some s \<Rightarrow> 1 \<le> cooldownSec s \<and> cooldownSec s \<le> cooldown_bound c
          \<and> 0 < openUntilNano s \<and> openUntilNano s \<le> now + cooldownSec s * second
          \<and> (halfOpenInflight h \<longrightarrow> openUntilNano s \<le> now))"

lemma health_inv_new [simp]: "health_inv c now new_health"
  by (simp add: health_inv_def new_health_def)

lemma health_inv_later: "health_inv c now h \<Longrightarrow> now \<le> now' \<Longrightarrow> health_inv c now' h"
  by (auto simp: health_inv_def split: option.splits)

lemma second_pos: "0 < second"
  by (simp add: second_def)

lemma openCircuit_inv:
  assumes c: "valid_config c" and now: "0 < now"
  shows "health_inv c now (openCircuit now (InitialCooldown c) (initial_sec c) h)"
  using valid_config_sec [OF c] now second_pos
  by (auto simp: health_inv_def openCircuit_def cooldown_bound_def intro!: add_pos_nonneg)

lemma extendCircuitOpen_inv:
  assumes c: "valid_config c" and now: "0 < now"
    and h: "\<And>s. cstate h = Some s \<Longrightarrow> 0 \<le> cooldownSec s"
  shows "health_inv c now (extendCircuitOpen c now h)"
proof -
  note v = valid_config_sec [OF c]
  define cur0 where "cur0 = (case cstate h of None \<Rightarrow> 0 | Some s \<Rightarrow> cooldownSec s)"
  define cur where "cur = (if cur0 = 0 then initial_sec c else cur0)"
  define nxt where "nxt = (if max_sec c < cur * BackoffFactor c then max_sec c else cur * BackoffFactor c)"
  have "0 \<le> cur0" using h by (auto simp: cur0_def split: option.split)
  then have "1 \<le> cur" using v by (auto simp: cur_def)
  then have n: "1 \<le> nxt" "nxt \<le> max_sec c" using v by (auto simp: nxt_def)
  have e: "extendCircuitOpen c now h = h \<lparr> cstate := Some \<lparr> cooldownSec = nxt, openUntilNano = now + nxt * second \<rparr>,
      halfOpenInflight := False \<rparr>"
    by (simp add: extendCircuitOpen_def Let_def cur0_def cur_def nxt_def)
  show ?thesis using n now second_pos
    by (auto simp: e health_inv_def cooldown_bound_def intro!: add_pos_nonneg)
qed

lemma check_inv: "health_inv c now h \<Longrightarrow> health_inv c now (snd (check_health now h))"
  by (auto simp: health_inv_def check_health_def split: option.splits if_splits)

lemma success_inv: "health_inv c now (success_health h)"
  by (simp add: health_inv_def success_health_def)

lemma soft_inv: "health_inv c now h \<Longrightarrow> health_inv c now (h \<lparr> lastFailureNano := t \<rparr>)"
  by (simp add: health_inv_def split: option.splits)

lemma release_inv: "health_inv c now h \<Longrightarrow> health_inv c now (h \<lparr> halfOpenInflight := False \<rparr>)"
  by (auto simp: health_inv_def split: option.splits)

lemma failure_inv:
  assumes c: "valid_config c" and now: "0 < now" and h: "health_inv c now h"
  shows "health_inv c now (failure_health c now h)"
proof -
  have "0 \<le> cooldownSec s" if "cstate h = Some s" for s using h that by (simp add: health_inv_def)
  then show ?thesis using h
    by (auto simp: failure_health_def Let_def intro!: openCircuit_inv extendCircuitOpen_inv c now split: option.splits)
      (auto simp: health_inv_def split: option.splits)
qed

subsection \<open>The table as a transition system\<close>

text \<open>One step: time passes, or one operation runs on one channel.\<close>

inductive circuit_step :: "circuitConfig \<Rightarrow> nanos \<times> circuits \<Rightarrow> nanos \<times> circuits \<Rightarrow> bool" where
  tick: "now \<le> now' \<Longrightarrow> circuit_step c (now, cs) (now', cs)"
| check: "circuit_step c (now, cs) (now, snd (IsChannelCircuitOpen now ch cs))"
| success: "circuit_step c (now, cs) (now, MarkChannelSuccess ch cs)"
| failure: "circuit_step c (now, cs) (now, MarkChannelFailure c now ch cs)"
| soft: "circuit_step c (now, cs) (now, MarkChannelSoftFailure now ch cs)"
| release: "circuit_step c (now, cs) (now, releaseChannelProbe ch cs)"
| force: "circuit_step c (now, cs) (now, ForceCloseChannelCircuit ch cs)"
| rate_set: "circuit_step c (now, cs) (now, setChannelRateLimitCooldown now ch r cs)"
| rate_check: "circuit_step c (now, cs) (now, snd (IsChannelRateLimited now ch cs))"
| model_mark: "circuit_step c (now, cs) (now, markChannelModelUnhealthy now ch m cs)"
| model_check: "circuit_step c (now, cs) (now, snd (IsChannelModelUnhealthy now ch m cs))"

inductive circuit_reachable :: "circuitConfig \<Rightarrow> nanos \<times> circuits \<Rightarrow> bool" for c where
  circuit_start: "0 < now \<Longrightarrow> circuit_reachable c (now, \<lparr> channelCircuits = Map.empty,
     channelRateLimitCooldowns = Map.empty, channelModelUnhealthyUntilNs = Map.empty \<rparr>)"
| circuit_next: "circuit_reachable c s \<Longrightarrow> circuit_step c s t \<Longrightarrow> circuit_reachable c t"

definition circuits_inv :: "circuitConfig \<Rightarrow> nanos \<times> circuits \<Rightarrow> bool" where
  "circuits_inv c s \<longleftrightarrow> 0 < fst s
     \<and> (\<forall>ch h. channelCircuits (snd s) ch = Some h \<longrightarrow> health_inv c (fst s) h)
     \<and> (\<forall>ch u. channelRateLimitCooldowns (snd s) ch = Some u \<longrightarrow> u \<le> fst s + 3600 * second)
     \<and> (\<forall>k u. channelModelUnhealthyUntilNs (snd s) k = Some u \<longrightarrow> u \<le> fst s + 300 * second)"

lemma getChannelHealth_inv: "circuits_inv c (now, cs) \<Longrightarrow> health_inv c now (getChannelHealth ch cs)"
  by (auto simp: circuits_inv_def getChannelHealth_def split: option.split)

lemma put_health_inv:
  "circuits_inv c (now, cs) \<Longrightarrow> health_inv c now h \<Longrightarrow> circuits_inv c (now, put_health ch h cs)"
  by (simp add: circuits_inv_def put_health_def)

lemmas circuit_inv_rules =
  put_health_inv getChannelHealth_inv check_inv success_inv soft_inv release_inv failure_inv

lemma circuit_step_inv:
  "circuit_step c s t \<Longrightarrow> valid_config c \<Longrightarrow> circuits_inv c s \<Longrightarrow> circuits_inv c t"
proof (induction rule: circuit_step.induct)
  case (tick now now' c cs)
  then show ?case by (force simp: circuits_inv_def intro: health_inv_later)
next
  case (check c now cs ch)
  then show ?case
    by (simp add: IsChannelCircuitOpen_def case_prod_beta circuit_inv_rules)
next
  case (failure c now cs ch)
  then have "0 < now" by (simp add: circuits_inv_def)
  with failure show ?case by (simp add: MarkChannelFailure_def circuit_inv_rules)
next
  case (rate_set c now cs ch r)
  then have "circuits_inv c (now, MarkChannelSoftFailure now ch cs)"
    by (simp add: MarkChannelSoftFailure_def circuit_inv_rules)
  then show ?case by (auto simp: setChannelRateLimitCooldown_def Let_def circuits_inv_def)
next
  case (model_mark c now cs ch m)
  then have "circuits_inv c (now, MarkChannelSoftFailure now ch cs)"
    by (simp add: MarkChannelSoftFailure_def circuit_inv_rules)
  then show ?case by (auto simp: markChannelModelUnhealthy_def Let_def circuits_inv_def)
qed (auto simp: MarkChannelSuccess_def MarkChannelSoftFailure_def releaseChannelProbe_def
    ForceCloseChannelCircuit_def IsChannelRateLimited_def IsChannelModelUnhealthy_def Let_def
    circuit_inv_rules, auto simp: circuits_inv_def split: option.split)

definition circuit_init :: "nanos \<times> circuits \<Rightarrow> bool" where
  "circuit_init s \<longleftrightarrow> 0 < fst s \<and> snd s = \<lparr> channelCircuits = Map.empty,
     channelRateLimitCooldowns = Map.empty, channelModelUnhealthyUntilNs = Map.empty \<rparr>"

lemma circuit_init_inv: "circuit_init s \<Longrightarrow> circuits_inv c s"
  by (cases s) (simp add: circuit_init_def circuits_inv_def)

interpretation circuit: transition_system circuit_init "circuit_step c"
  "\<lambda>s. valid_config c \<longrightarrow> circuits_inv c s" for c
  by unfold_locales (use circuit_init_inv circuit_step_inv in blast)+

lemma circuit_reachable_steps: "circuit_reachable c s \<Longrightarrow> \<exists>s0. circuit_init s0 \<and> (circuit_step c)\<^sup>*\<^sup>* s0 s"
  by (induction rule: circuit_reachable.induct)
    (fastforce simp: circuit_init_def intro: rtranclp.rtrancl_into_rtrancl)+

lemma circuit_reachable_inv: "circuit_reachable c s \<Longrightarrow> valid_config c \<Longrightarrow> circuits_inv c s"
  using circuit_reachable_steps circuit.reachable_inv by blast

subsection \<open>Admission\<close>

text \<open>The answers of a run of checks, \<open>False\<close> where the request may pass.\<close>

fun checks :: "nanos list \<Rightarrow> channelHealth \<Rightarrow> bool list" where
  "checks [] h = []"
| "checks (t # ts) h = fst (check_health t h) # checks ts (snd (check_health t h))"

definition admitted :: "nanos list \<Rightarrow> channelHealth \<Rightarrow> nat" where
  "admitted ts h = length (filter Not (checks ts h))"

lemma checks_inflight:
  "cstate h = Some s \<Longrightarrow> openUntilNano s \<noteq> 0 \<Longrightarrow> halfOpenInflight h \<Longrightarrow> admitted ts h = 0"
  by (induction ts) (auto simp: admitted_def check_health_def)

lemma admitted_open:
  "cstate h = Some s \<Longrightarrow> openUntilNano s \<noteq> 0 \<Longrightarrow> \<not> halfOpenInflight h \<Longrightarrow>
    admitted ts h = (if \<exists>t \<in> set ts. openUntilNano s \<le> t then 1 else 0)"
proof (induction ts)
  case (Cons t ts)
  show ?case
  proof (cases "t < openUntilNano s")
    case True
    then show ?thesis using Cons by (auto simp: admitted_def check_health_def)
  next
    case False
    have "admitted ts (h \<lparr> halfOpenInflight := True \<rparr>) = 0" using Cons by (intro checks_inflight) auto
    then show ?thesis using Cons False by (auto simp: admitted_def check_health_def)
  qed
qed (simp add: admitted_def)

lemma admitted_closed: "cstate h = None \<Longrightarrow> admitted ts h = length ts"
  by (induction ts) (auto simp: admitted_def check_health_def)

subsection \<open>Back-off of the open period\<close>

definition probe_fails :: "circuitConfig \<Rightarrow> channelHealth \<Rightarrow> nanos \<Rightarrow> channelHealth" where
  "probe_fails c h now = failure_health c now (snd (check_health now h))"

lemma probe_fails_cooldown:
  assumes c: "valid_config c" and s: "cstate h = Some s" "0 < openUntilNano s" "openUntilNano s \<le> now"
    and cd: "1 \<le> cooldownSec s"
  shows "cstate (probe_fails c h now) = Some \<lparr> cooldownSec = min (2 * cooldownSec s) (max_sec c),
    openUntilNano = now + min (2 * cooldownSec s) (max_sec c) * second \<rparr>
    \<and> \<not> halfOpenInflight (probe_fails c h now)"
  using assms valid_config_sec [OF c]
  by (cases "halfOpenInflight h")
    (auto simp: probe_fails_def failure_health_def check_health_def extendCircuitOpen_def Let_def min_def)

text \<open>A run of probes, each made once the previous open period is over, and each failing.\<close>

fun probe_run :: "circuitConfig \<Rightarrow> channelHealth \<Rightarrow> nanos list \<Rightarrow> channelHealth option" where
  "probe_run c h [] = Some h"
| "probe_run c h (t # ts) =
     (case cstate h of None \<Rightarrow> None
      | Some s \<Rightarrow> if openUntilNano s \<le> t then probe_run c (probe_fails c h t) ts else None)"

lemma min_double: "0 \<le> a \<Longrightarrow> 0 \<le> m \<Longrightarrow> min (2 ^ n * min (2 * a) m) m = min (2 ^ Suc n * a) (m :: int)"
proof -
  assume a: "0 \<le> a" "0 \<le> m"
  show ?thesis
  proof (cases "2 * a \<le> m")
    case True
    then show ?thesis by (simp add: ac_simps)
  next
    case False
    have "m * 1 \<le> 2 ^ n * m" using mult_left_mono [of 1 "2 ^ n" m] a by (simp add: mult.commute)
    moreover have "2 ^ n * m \<le> 2 ^ n * (2 * a)" by (rule mult_left_mono) (use False in auto)
    moreover have "2 ^ Suc n * a = 2 ^ n * (2 * a)" by simp
    ultimately have "m \<le> 2 ^ n * m" "m \<le> 2 ^ Suc n * a" "m \<le> 2 * a" using False by linarith+
    then show ?thesis by (simp only: min_absorb2)
  qed
qed

lemma probe_run_cooldown:
  assumes c: "valid_config c" and "cstate h = Some s" "0 < openUntilNano s"
    and "1 \<le> cooldownSec s" "probe_run c h ts = Some h'" "ts \<noteq> []"
  shows "\<exists>s'. cstate h' = Some s' \<and> cooldownSec s' = min (2 ^ length ts * cooldownSec s) (max_sec c)
    \<and> openUntilNano s' = last ts + cooldownSec s' * second"
  using assms(2-)
proof (induction ts arbitrary: h s)
  case (Cons t ts)
  have t: "openUntilNano s \<le> t" "probe_run c (probe_fails c h t) ts = Some h'"
    using Cons.prems by (auto split: if_splits)
  define m where "m = min (2 * cooldownSec s) (max_sec c)"
  have m: "1 \<le> m" using Cons.prems valid_config_sec [OF c] by (auto simp: m_def)
  have st: "cstate (probe_fails c h t) = Some \<lparr> cooldownSec = m, openUntilNano = t + m * second \<rparr>"
    using probe_fails_cooldown [OF c Cons.prems(1,2) t(1)] Cons.prems by (simp add: m_def)
  show ?case
  proof (cases "ts = []")
    case True
    then show ?thesis using st t(2) by (auto simp: m_def)
  next
    case False
    have "0 < t + m * second" using Cons.prems(2) t(1) m second_pos by (auto intro!: add_pos_nonneg)
    then have "\<exists>s'. cstate h' = Some s' \<and> cooldownSec s' = min (2 ^ length ts * m) (max_sec c)
      \<and> openUntilNano s' = last ts + cooldownSec s' * second"
      using Cons.IH [OF st _ _ t(2) False] m by simp
    moreover have "min (2 ^ length ts * m) (max_sec c) = min (2 ^ length (t # ts) * cooldownSec s) (max_sec c)"
      unfolding m_def using min_double [of "cooldownSec s" "max_sec c" "length ts"] Cons.prems
        valid_config_sec [OF c] by simp
    ultimately show ?thesis using False by simp
  qed
qed simp

subsection \<open>Keys and delays\<close>

lemma show_nat_inj: "show_nat m = show_nat n \<Longrightarrow> m = n"
  by (metis digits_val_show)

lemma channelModelHealthKey_inj:
  "channelModelHealthKey a m = channelModelHealthKey b n \<longleftrightarrow> a = b \<and> TrimSpace m = TrimSpace n"
proof
  assume k: "channelModelHealthKey a m = channelModelHealthKey b n"
  have nz: "CHR 0x00 \<notin> set (show_nat x)" for x
    using show_nat_all_digit [of x] by (auto simp: list_all_iff is_digit_def)
  have "takeWhile (\<lambda>c. c \<noteq> CHR 0x00) (channelModelHealthKey x p) = show_nat x"
    "dropWhile (\<lambda>c. c \<noteq> CHR 0x00) (channelModelHealthKey x p) = CHR 0x00 # TrimSpace p" for x p
    using nz [of x] by (auto simp: channelModelHealthKey_def takeWhile_append dropWhile_append)
  then have "show_nat a = show_nat b" "TrimSpace m = TrimSpace n"
    using k by (metis, metis list.inject)
  then show "a = b \<and> TrimSpace m = TrimSpace n" by (auto dest: show_nat_inj)
qed (simp add: channelModelHealthKey_def)

lemma retryBackoff_bounds:
  "0 \<le> retryBackoffBaseDelayMS a \<and> retryBackoffBaseDelayMS a \<le> 2000
    \<and> (0 < a \<longrightarrow> 100 \<le> retryBackoffBaseDelayMS a)"
proof (cases "0 < a \<and> a \<le> 5")
  case True
  then have "a = 1 \<or> a = 2 \<or> a = 3 \<or> a = 4 \<or> a = 5" by arith
  then show ?thesis by (auto simp: retryBackoffBaseDelayMS_def Let_def push_bit_eq_mult)
qed (auto simp: retryBackoffBaseDelayMS_def Let_def)

subsection \<open>Opening at the threshold\<close>

lemma wrap32_id: "0 \<le> x \<Longrightarrow> x < 2147483648 \<Longrightarrow> wrap32 x = x"
  by (simp add: wrap32_def)

lemma failures_below:
  assumes "cstate h = None" "\<not> halfOpenInflight h" "0 \<le> consecutiveFailures h"
    and "consecutiveFailures h + int (length ts) < OpenThreshold c" and "OpenThreshold c \<le> 1000"
  shows "cstate (fold (failure_health c) ts h) = None \<and> \<not> halfOpenInflight (fold (failure_health c) ts h)
    \<and> consecutiveFailures (fold (failure_health c) ts h) = consecutiveFailures h + int (length ts)"
  using assms(1-4)
proof (induction ts arbitrary: h)
  case (Cons t ts)
  let ?h = "failure_health c t h"
  have h: "cstate ?h = None" "\<not> halfOpenInflight ?h" "consecutiveFailures ?h = consecutiveFailures h + 1"
    using Cons.prems assms(5) by (simp_all add: failure_health_def Let_def wrap32_id)
  show ?case using Cons.IH [OF h(1,2)] Cons.prems h(3) by simp
qed simp

lemma failure_opens:
  assumes "cstate h = None" "\<not> halfOpenInflight h"
    and "consecutiveFailures h + 1 = OpenThreshold c" and "OpenThreshold c \<le> 1000" "1 \<le> OpenThreshold c"
  shows "cstate (failure_health c t h) = Some \<lparr> cooldownSec = initial_sec c, openUntilNano = t + InitialCooldown c \<rparr>
    \<and> \<not> halfOpenInflight (failure_health c t h)"
  using assms by (simp add: failure_health_def Let_def wrap32_id openCircuit_def)

lemma success_then_failures:
  assumes c: "valid_config c" and n: "int (length ts) + 1 = OpenThreshold c"
  shows "cstate (fold (failure_health c) ts (success_health h)) = None
    \<and> cstate (failure_health c t (fold (failure_health c) ts (success_health h)))
        = Some \<lparr> cooldownSec = initial_sec c, openUntilNano = t + InitialCooldown c \<rparr>"
proof -
  have s: "cstate (success_health h) = None" "\<not> halfOpenInflight (success_health h)"
    "consecutiveFailures (success_health h) = 0" by (simp_all add: success_health_def)
  have th: "OpenThreshold c \<le> 1000" "1 \<le> OpenThreshold c" using c by (simp_all add: valid_config_def)
  have b: "cstate (fold (failure_health c) ts (success_health h)) = None
    \<and> \<not> halfOpenInflight (fold (failure_health c) ts (success_health h))
    \<and> consecutiveFailures (fold (failure_health c) ts (success_health h)) = int (length ts)"
    using failures_below [OF s(1,2), of ts c] s(3) n th by simp
  show ?thesis using b n failure_opens [of "fold (failure_health c) ts (success_health h)" c t] th by simp
qed

subsection \<open>Properties\<close>

lemma check_after_put: "fst (IsChannelCircuitOpen later ch (put_health ch k cs)) = fst (check_health later k)"
  by (simp add: IsChannelCircuitOpen_def getChannelHealth_def put_health_def case_prod_beta)

lemma check_answer: "fst (check_health later k) \<longleftrightarrow> (\<exists>x. cstate k = Some x \<and> openUntilNano x \<noteq> 0
    \<and> (later < openUntilNano x \<or> halfOpenInflight k))"
  by (simp add: check_health_def split: option.split)

text \<open>C23: Open periods are bounded, and what reopens a channel is stated exactly. In every state
  reachable from the empty table by any interleaving of the operations and the passing of time,
  under any stored configuration, an open period ends at most the larger of the two configured
  cooldowns from now, the rate-limit cooldown within an hour and a model cooldown within five
  minutes. A check is refused exactly before the end of the open period or while a probe is in
  flight; so once the period is over the next check passes provided that no probe is in flight.
  As long as one is, and nobody reports on the channel, no check passes, however late; any
  report ends that: a success closes the channel, a release lets the next check pass, and a
  failure opens a new period with the same bound and no probe in flight.\<close>

theorem circuit_recovery_bounded:
  assumes "circuit_reachable (read_circuit_config cfg) (now, cs)"
    and "channelCircuits cs ch = Some h" and "cstate h = Some s"
  shows "openUntilNano s \<le> now + cooldown_bound (read_circuit_config cfg) * second
    \<and> (\<forall>u. channelRateLimitCooldowns cs ch = Some u \<longrightarrow> u \<le> now + 3600 * second)
    \<and> (\<forall>u. channelModelUnhealthyUntilNs cs (channelModelHealthKey ch m) = Some u \<longrightarrow> u \<le> now + 300 * second)
    \<and> (fst (IsChannelCircuitOpen later ch cs) \<longleftrightarrow> later < openUntilNano s \<or> halfOpenInflight h)
    \<and> (halfOpenInflight h \<longrightarrow> admitted ts h = 0)
    \<and> \<not> fst (IsChannelCircuitOpen later ch (MarkChannelSuccess ch cs))
    \<and> (fst (IsChannelCircuitOpen later ch (releaseChannelProbe ch cs)) \<longleftrightarrow> later < openUntilNano s)
    \<and> (halfOpenInflight h \<longrightarrow> now + cooldown_bound (read_circuit_config cfg) * second \<le> later \<longrightarrow>
        \<not> fst (IsChannelCircuitOpen later ch (MarkChannelFailure (read_circuit_config cfg) now ch cs)))"
proof -
  let ?c = "read_circuit_config cfg"
  have v: "valid_config ?c" by (rule read_circuit_config_valid)
  have I: "circuits_inv ?c (now, cs)" by (rule circuit_reachable_inv [OF assms(1) v])
  then have h: "health_inv ?c now h" and now: "0 < now" using assms(2) by (simp_all add: circuits_inv_def)
  have bound: "cooldownSec x * second \<le> cooldown_bound ?c * second" if "health_inv ?c now k" "cstate k = Some x" for k x
    using that by (intro mult_right_mono) (simp_all add: health_inv_def second_def)
  have u: "openUntilNano s \<noteq> 0" using h assms(3) by (simp add: health_inv_def)
  have get: "getChannelHealth ch cs = h" using assms(2) by (simp add: getChannelHealth_def)
  have fin: "\<not> fst (IsChannelCircuitOpen later ch (MarkChannelFailure ?c now ch cs))"
    if p: "halfOpenInflight h" "now + cooldown_bound ?c * second \<le> later"
  proof -
    define k where "k = failure_health ?c now h"
    have k: "health_inv ?c now k" unfolding k_def by (rule failure_inv [OF v now h])
    have nf: "\<not> halfOpenInflight k" using p(1) by (simp add: k_def failure_health_def extendCircuitOpen_def Let_def)
    have "openUntilNano x \<le> later" if "cstate k = Some x" for x
      using k bound [OF k that] p(2) that by (simp add: health_inv_def)
    then show ?thesis
      using nf unfolding MarkChannelFailure_def get k_def [symmetric] check_after_put check_answer by force
  qed
  have "openUntilNano s \<le> now + cooldown_bound ?c * second"
    using h assms(3) bound [OF h assms(3)] by (simp add: health_inv_def)
  moreover have "fst (IsChannelCircuitOpen later ch cs) \<longleftrightarrow> later < openUntilNano s \<or> halfOpenInflight h"
    using assms(3) u by (simp add: IsChannelCircuitOpen_def get case_prod_beta check_answer)
  moreover have "\<not> fst (IsChannelCircuitOpen later ch (MarkChannelSuccess ch cs))"
    by (simp add: MarkChannelSuccess_def check_after_put check_answer success_health_def)
  moreover have "fst (IsChannelCircuitOpen later ch (releaseChannelProbe ch cs)) \<longleftrightarrow> later < openUntilNano s"
    using assms(3) u by (simp add: releaseChannelProbe_def check_after_put check_answer get)
  ultimately show ?thesis
    using I fin checks_inflight [OF assms(3) u] by (simp add: circuits_inv_def)
qed

definition one_failure_config :: sysconfig where
  "one_failure_config = [''channel_circuit_open_threshold'' \<mapsto> ''1'']"

lemma one_failure_config_value: "read_circuit_config one_failure_config =
  \<lparr> OpenThreshold = 1, InitialCooldown = 30000000000, MaxCooldown = 300000000000, BackoffFactor = 2 \<rparr>"
  by code_simp

definition one_failure_state :: "nanos \<times> circuits" where
  "one_failure_state = (1, MarkChannelFailure (read_circuit_config one_failure_config) 1 7
     \<lparr> channelCircuits = Map.empty, channelRateLimitCooldowns = Map.empty, channelModelUnhealthyUntilNs = Map.empty \<rparr>)"

definition one_failure_health :: channelHealth where
  "one_failure_health = \<lparr> consecutiveFailures = 1,
     cstate = Some \<lparr> cooldownSec = 30, openUntilNano = 30000000001 \<rparr>,
     halfOpenInflight = False, lastFailureNano = 1 \<rparr>"

lemma one_failure_facts:
  "circuit_reachable (read_circuit_config one_failure_config) (1, snd one_failure_state)"
  "channelCircuits (snd one_failure_state) 7 = Some one_failure_health"
proof -
  show "circuit_reachable (read_circuit_config one_failure_config) (1, snd one_failure_state)"
    unfolding one_failure_state_def snd_conv
    by (rule circuit_next [OF circuit_start circuit_step.failure]) simp
  show "channelCircuits (snd one_failure_state) 7 = Some one_failure_health"
    unfolding one_failure_state_def snd_conv MarkChannelFailure_def one_failure_config_value
    by (simp add: put_health_def getChannelHealth_def new_health_def failure_health_def wrap32_def
        openCircuit_def initial_sec_def second_def sdiv_nonneg one_failure_health_def)
qed

theorem circuit_recovery_bounded_witness:
  "30000000001 \<le> 1 + cooldown_bound (read_circuit_config one_failure_config) * second
    \<and> \<not> fst (IsChannelCircuitOpen 30000000001 7 (snd one_failure_state))"
  using circuit_recovery_bounded [OF one_failure_facts(1,2), where later = 30000000001
      and s = "\<lparr> cooldownSec = 30, openUntilNano = 30000000001 \<rparr>"]
  by (simp add: one_failure_health_def)

text \<open>C24: Half-open means one probe: once a channel is open, whatever checks follow, at whatever
  times, at most one request is admitted until the probe reports, exactly one if any check
  comes after the open period; a closed channel admits all.\<close>

theorem half_open_single_probe:
  assumes "circuit_reachable c (now, cs)" and "valid_config c" and "channelCircuits cs ch = Some h"
  shows "admitted ts h = (case cstate h of None \<Rightarrow> length ts
    | Some s \<Rightarrow> if \<not> halfOpenInflight h \<and> (\<exists>t \<in> set ts. openUntilNano s \<le> t) then 1 else 0)"
proof -
  have I: "health_inv c now h" using circuit_reachable_inv [OF assms(1,2)] assms(3)
    by (simp add: circuits_inv_def)
  show ?thesis
  proof (cases "cstate h")
    case None
    then show ?thesis by (simp add: admitted_closed)
  next
    case (Some s)
    with I have "openUntilNano s \<noteq> 0" by (simp add: health_inv_def)
    with Some show ?thesis
      by (cases "halfOpenInflight h") (simp_all add: checks_inflight admitted_open)
  qed
qed

theorem half_open_single_probe_witness:
  "admitted [1, 30000000001, 30000000002, 99999999999] one_failure_health = 1"
  using half_open_single_probe [OF one_failure_facts(1) read_circuit_config_valid one_failure_facts(2),
      of "[1, 30000000001, 30000000002, 99999999999]"]
  by (simp add: one_failure_health_def)

text \<open>After a success a channel takes exactly the configured number of consecutive failures to
  open: one fewer leaves it closed, and the next one opens it for the initial cooldown.\<close>

theorem circuit_opens_at_threshold:
  assumes "valid_config c" and "int (length ts) + 1 = OpenThreshold c"
  shows "cstate (fold (failure_health c) ts (success_health h)) = None
    \<and> cstate (failure_health c t (fold (failure_health c) ts (success_health h)))
        = Some \<lparr> cooldownSec = initial_sec c, openUntilNano = t + InitialCooldown c \<rparr>"
  using assms by (rule success_then_failures)

theorem circuit_opens_at_threshold_witness:
  "cstate (failure_health (read_circuit_config one_failure_config) 5 (success_health new_health))
    = Some \<lparr> cooldownSec = 30, openUntilNano = 30000000005 \<rparr>"
  using circuit_opens_at_threshold [OF read_circuit_config_valid [of one_failure_config],
      where ts = "[]" and t = 5 and h = new_health]
  by (simp add: one_failure_config_value initial_sec_def second_def sdiv_nonneg)

text \<open>The cooldown backs off exponentially: after \<open>n\<close> probes, each let through once the previous
  period was over and each failing, the open period is \<open>2 ^ n\<close> times the first one, capped at
  the configured maximum, counted from the last failure.\<close>

theorem circuit_backoff_exponential:
  assumes "valid_config c" and "cstate h = Some s" and "0 < openUntilNano s" and "1 \<le> cooldownSec s"
    and "probe_run c h ts = Some h'" and "ts \<noteq> []"
  shows "\<exists>s'. cstate h' = Some s' \<and> cooldownSec s' = min (2 ^ length ts * cooldownSec s) (max_sec c)
    \<and> openUntilNano s' = last ts + cooldownSec s' * second"
  using assms by (rule probe_run_cooldown)

theorem circuit_backoff_exponential_witness:
  "\<exists>h' s'. probe_run (read_circuit_config one_failure_config) one_failure_health [40000000000, 200000000000] = Some h'
    \<and> cstate h' = Some s' \<and> cooldownSec s' = 120"
proof -
  have "probe_run (read_circuit_config one_failure_config) one_failure_health [40000000000, 200000000000] \<noteq> None"
    by (simp add: one_failure_config_value one_failure_health_def probe_fails_def check_health_def
        failure_health_def extendCircuitOpen_def max_sec_def second_def sdiv_nonneg Let_def)
  then obtain h' where h': "probe_run (read_circuit_config one_failure_config) one_failure_health
      [40000000000, 200000000000] = Some h'" by blast
  from circuit_backoff_exponential [OF read_circuit_config_valid [of one_failure_config] _ _ _ h']
  show ?thesis using h' by (auto simp: one_failure_health_def one_failure_config_value max_sec_def
        second_def sdiv_nonneg)
qed

end
