(* ===== verification/ChannelRoutes.thy ===== *)
theory ChannelRoutes
  imports ChannelCircuit
begin

section \<open>Routing around open channels\<close>

text \<open>
  How the handlers use the circuit breaker (\<^verbatim>\<open>proxy/stream.go\<close>, \<^verbatim>\<open>proxy/image_upstream.go\<close>,
  \<^verbatim>\<open>proxy/stream_status.go\<close>): the pass that filters the routes of a model before one of them is
  selected, the weighted selection, and what a handler reports about the selected channel once
  the upstream has answered. The clock is read again at every route, so a pass runs over pairs
  of a time and a route; the random number of a selection is a parameter.
\<close>

record route =
  ChannelID :: nat
  Weight :: int64

type_synonym visit = "nanos \<times> route"

subsection \<open>The filters\<close>

definition text_route_ok :: "nat set \<Rightarrow> string \<Rightarrow> nanos \<Rightarrow> route \<Rightarrow> circuits \<Rightarrow> bool \<times> circuits" where
  "text_route_ok failed m now r cs =
     (if ChannelID r \<in> failed then (False, cs)
      else let (limited, cs1) = IsChannelRateLimited now (ChannelID r) cs in
        if limited then (False, cs1)
        else let (sick, cs2) = IsChannelModelUnhealthy now (ChannelID r) m cs1 in
          if sick then (False, cs2)
          else let (shut, cs3) = IsChannelCircuitOpen now (ChannelID r) cs2 in (\<not> shut, cs3))"

definition image_route_ok :: "nat set \<Rightarrow> string \<Rightarrow> nanos \<Rightarrow> route \<Rightarrow> circuits \<Rightarrow> bool \<times> circuits" where
  "image_route_ok failed m now r cs =
     (if ChannelID r \<in> failed then (False, cs)
      else let (limited, cs1) = IsChannelRateLimited now (ChannelID r) cs in
        if limited then (False, cs1)
        else let (shut, cs2) = IsChannelCircuitOpen now (ChannelID r) cs1 in
          if shut then (False, cs2)
          else let (sick, cs3) = IsChannelModelUnhealthy now (ChannelID r) m cs2 in (\<not> sick, cs3))"

fun available_routes ::
  "(nanos \<Rightarrow> route \<Rightarrow> circuits \<Rightarrow> bool \<times> circuits) \<Rightarrow> visit list \<Rightarrow> circuits \<Rightarrow> route list \<times> circuits" where
  "available_routes ok [] cs = ([], cs)"
| "available_routes ok ((now, r) # vs) cs =
     (let (b, cs1) = ok now r cs; (out, cs2) = available_routes ok vs cs1
      in (if b then r # out else out, cs2))"

definition availableTextRoutes :: "nat set \<Rightarrow> string \<Rightarrow> visit list \<Rightarrow> circuits \<Rightarrow> route list \<times> circuits" where
  "availableTextRoutes failed m = available_routes (text_route_ok failed m)"

definition availableImageRoutes :: "nat set \<Rightarrow> string \<Rightarrow> visit list \<Rightarrow> circuits \<Rightarrow> route list \<times> circuits" where
  "availableImageRoutes failed m = available_routes (image_route_ok failed m)"

subsection \<open>The selection\<close>

fun weighted_pick :: "int64 \<Rightarrow> int64 \<Rightarrow> route list \<Rightarrow> route option" where
  "weighted_pick rNum acc [] = None"
| "weighted_pick rNum acc (r # rs) =
     (if rNum < acc + Weight r then Some r else weighted_pick rNum (acc + Weight r) rs)"

definition chooseWeightedImageRoute :: "int64 \<Rightarrow> route list \<Rightarrow> int64 \<Rightarrow> route" where
  "chooseWeightedImageRoute rNum routes totalWeight =
     (if length routes = 1 \<or> totalWeight \<le> 0 then hd routes
      else case weighted_pick rNum 0 routes of None \<Rightarrow> hd routes | Some r \<Rightarrow> r)"

subsection \<open>Reports\<close>

datatype StatusAction = ActionSuccess | ActionRetryableTransient | ActionRateLimit | ActionUpstreamFatal
  | ActionConfigError | ActionClientError | ActionAuthError | ActionUnknown

definition classifyUpstreamStatus :: "int \<Rightarrow> StatusAction" where
  "classifyUpstreamStatus status =
     (if 200 \<le> status \<and> status \<le> 299 then ActionSuccess
      else if status \<in> {408, 502, 503, 504} then ActionRetryableTransient
      else if status = 429 then ActionRateLimit
      else if status \<in> {404, 410} then ActionConfigError
      else if status \<in> {400, 422} then ActionClientError
      else if status \<in> {401, 403} then ActionAuthError
      else if 500 \<le> status then ActionUpstreamFatal
      else ActionUnknown)"

text \<open>What the text handler does to the channel it selected. \<open>routeNotFound\<close> tells a 404 of the
  relay itself from one about the model.\<close>

definition report_text ::
  "circuitConfig \<Rightarrow> nanos \<Rightarrow> string \<Rightarrow> StatusAction \<Rightarrow> nanos \<Rightarrow> bool \<Rightarrow> nat \<Rightarrow> circuits \<Rightarrow> circuits" where
  "report_text c now m action retryAfter routeNotFound ch cs =
     (case action of
        ActionSuccess \<Rightarrow> MarkChannelSuccess ch cs
      | ActionClientError \<Rightarrow> releaseChannelProbe ch cs
      | ActionRateLimit \<Rightarrow> releaseChannelProbe ch (setChannelRateLimitCooldown now ch retryAfter cs)
      | ActionConfigError \<Rightarrow>
          releaseChannelProbe ch (if routeNotFound then cs else markChannelModelUnhealthy now ch m cs)
      | ActionAuthError \<Rightarrow> releaseChannelProbe ch (MarkChannelSoftFailure now ch cs)
      | _ \<Rightarrow> MarkChannelFailure c now ch cs)"

definition report_image ::
  "circuitConfig \<Rightarrow> nanos \<Rightarrow> string \<Rightarrow> StatusAction \<Rightarrow> nanos \<Rightarrow> nat \<Rightarrow> circuits \<Rightarrow> circuits" where
  "report_image c now m action retryAfter ch cs =
     (case action of
        ActionSuccess \<Rightarrow> MarkChannelSuccess ch cs
      | ActionClientError \<Rightarrow> MarkChannelSuccess ch cs
      | ActionRateLimit \<Rightarrow> setChannelRateLimitCooldown now ch retryAfter cs
      | ActionConfigError \<Rightarrow> markChannelModelUnhealthy now ch m cs
      | _ \<Rightarrow> MarkChannelFailure c now ch cs)"

subsection \<open>A probe in flight\<close>

definition probing :: "channelHealth \<Rightarrow> bool" where
  "probing h \<longleftrightarrow> (\<exists>s. cstate h = Some s \<and> openUntilNano s \<noteq> 0 \<and> halfOpenInflight h)"

definition overdue :: "nanos \<Rightarrow> channelHealth \<Rightarrow> bool" where
  "overdue now h \<longleftrightarrow> (\<exists>s. cstate h = Some s \<and> openUntilNano s \<noteq> 0 \<and> openUntilNano s \<le> now)"

definition in_flight :: "nat \<Rightarrow> circuits \<Rightarrow> bool" where
  "in_flight ch cs \<longleftrightarrow> probing (getChannelHealth ch cs)"

text \<open>The open period of a channel is over and nothing else holds its routes for the model back.\<close>

definition half_open :: "string \<Rightarrow> nanos \<Rightarrow> nat \<Rightarrow> circuits \<Rightarrow> bool" where
  "half_open m now ch cs \<longleftrightarrow> overdue now (getChannelHealth ch cs) \<and> channelRateLimitCooldowns cs ch = None
     \<and> channelModelUnhealthyUntilNs cs (channelModelHealthKey ch m) = None"

lemma get_put: "getChannelHealth ch (put_health k h cs) = (if ch = k then h else getChannelHealth ch cs)"
  by (simp add: getChannelHealth_def put_health_def)

lemma put_tables [simp]:
  "channelRateLimitCooldowns (put_health k h cs) = channelRateLimitCooldowns cs"
  "channelModelUnhealthyUntilNs (put_health k h cs) = channelModelUnhealthyUntilNs cs"
  by (simp_all add: put_health_def)

lemma get_cong: "channelCircuits cs' = channelCircuits cs \<Longrightarrow> getChannelHealth ch cs' = getChannelHealth ch cs"
  by (simp add: getChannelHealth_def)

lemma check_probing: "probing h \<Longrightarrow> fst (check_health now h) \<and> probing (snd (check_health now h))"
  by (auto simp: probing_def check_health_def)

lemma check_overdue: "overdue t h \<Longrightarrow> overdue t (snd (check_health now h))"
  by (auto simp: overdue_def check_health_def)

lemma check_claims: "overdue now h \<Longrightarrow> probing (snd (check_health now h))"
  by (auto simp: overdue_def probing_def check_health_def)

lemma rate_check_frame:
  "getChannelHealth ch (snd (IsChannelRateLimited now k cs)) = getChannelHealth ch cs"
  "channelModelUnhealthyUntilNs (snd (IsChannelRateLimited now k cs)) = channelModelUnhealthyUntilNs cs"
  "channelRateLimitCooldowns cs ch = None \<Longrightarrow> channelRateLimitCooldowns (snd (IsChannelRateLimited now k cs)) ch = None"
  "channelRateLimitCooldowns cs k = None \<Longrightarrow> IsChannelRateLimited now k cs = (False, cs)"
  by (auto simp: IsChannelRateLimited_def getChannelHealth_def split: option.split)

lemma model_check_frame:
  "getChannelHealth ch (snd (IsChannelModelUnhealthy now k m cs)) = getChannelHealth ch cs"
  "channelRateLimitCooldowns (snd (IsChannelModelUnhealthy now k m cs)) = channelRateLimitCooldowns cs"
  "channelModelUnhealthyUntilNs cs key = None \<Longrightarrow> channelModelUnhealthyUntilNs (snd (IsChannelModelUnhealthy now k m cs)) key = None"
  "channelModelUnhealthyUntilNs cs (channelModelHealthKey k m) = None \<Longrightarrow> IsChannelModelUnhealthy now k m cs = (False, cs)"
  by (auto simp: IsChannelModelUnhealthy_def getChannelHealth_def Let_def split: option.split)

lemma circuit_check:
  "IsChannelCircuitOpen now k cs = (fst (check_health now (getChannelHealth k cs)),
     put_health k (snd (check_health now (getChannelHealth k cs))) cs)"
  by (simp add: IsChannelCircuitOpen_def case_prod_beta)

text \<open>What a filter does at one route: a probe in flight stays, and its channel is not offered; a
  half-open channel stays half-open, and after a visit that may use it a probe is in flight.\<close>

definition claims :: "nat set \<Rightarrow> string \<Rightarrow> (nanos \<Rightarrow> route \<Rightarrow> circuits \<Rightarrow> bool \<times> circuits) \<Rightarrow> bool" where
  "claims failed m ok \<longleftrightarrow> (\<forall>now r cs ch t.
     (in_flight ch cs \<longrightarrow> in_flight ch (snd (ok now r cs)) \<and> (fst (ok now r cs) \<longrightarrow> ChannelID r \<noteq> ch))
     \<and> (half_open m t ch cs \<longrightarrow> half_open m t ch (snd (ok now r cs)))
     \<and> (half_open m now (ChannelID r) cs \<longrightarrow> ChannelID r \<notin> failed \<longrightarrow> in_flight (ChannelID r) (snd (ok now r cs))))"

lemma text_claims: "claims failed m (text_route_ok failed m)"
  unfolding claims_def
  by (auto simp: text_route_ok_def in_flight_def half_open_def Let_def case_prod_beta rate_check_frame model_check_frame
      circuit_check get_put check_probing check_overdue check_claims)

lemma image_claims: "claims failed m (image_route_ok failed m)"
  unfolding claims_def
  by (auto simp: image_route_ok_def in_flight_def half_open_def Let_def case_prod_beta rate_check_frame model_check_frame
      circuit_check get_put check_probing check_overdue check_claims)

lemma pass_in_flight:
  assumes "claims failed m ok" and "in_flight ch cs"
  shows "in_flight ch (snd (available_routes ok vs cs)) \<and> ch \<notin> ChannelID ` set (fst (available_routes ok vs cs))"
  using assms(2)
proof (induction vs arbitrary: cs)
  case (Cons v vs)
  obtain now r where v: "v = (now, r)" by (cases v)
  have "in_flight ch (snd (ok now r cs))" "fst (ok now r cs) \<Longrightarrow> ChannelID r \<noteq> ch"
    using assms(1) Cons.prems unfolding claims_def by blast+
  with Cons.IH [of "snd (ok now r cs)"] show ?case by (auto simp: v Let_def case_prod_beta)
qed simp

lemma pass_claims:
  assumes "claims failed m ok" and "half_open m now (ChannelID r) cs" and "(now, r) \<in> set vs" and "ChannelID r \<notin> failed"
  shows "in_flight (ChannelID r) (snd (available_routes ok vs cs))"
  using assms(2,3)
proof (induction vs arbitrary: cs)
  case (Cons v vs)
  obtain t q where v: "v = (t, q)" by (cases v)
  have step: "snd (available_routes ok (v # vs) cs) = snd (available_routes ok vs (snd (ok t q cs)))"
    by (simp add: v case_prod_beta)
  show ?case
  proof (cases "v = (now, r)")
    case True
    then have "in_flight (ChannelID r) (snd (ok t q cs))"
      using assms(1,4) Cons.prems(1) v unfolding claims_def by auto
    then show ?thesis unfolding step using pass_in_flight [OF assms(1)] by blast
  next
    case False
    have "half_open m now (ChannelID r) (snd (ok t q cs))"
      using assms(1) Cons.prems(1) unfolding claims_def by blast
    then show ?thesis unfolding step using Cons.IH Cons.prems(2) False by auto
  qed
qed simp

subsection \<open>What the handlers do with the other channels\<close>

text \<open>Any handler may filter routes again, and report on any channel but the given one.\<close>

inductive elsewhere :: "circuitConfig \<Rightarrow> nat \<Rightarrow> circuits \<Rightarrow> circuits \<Rightarrow> bool" for c ch where
  pass_text: "elsewhere c ch cs (snd (availableTextRoutes failed m vs cs))"
| pass_image: "elsewhere c ch cs (snd (availableImageRoutes failed m vs cs))"
| other_text: "k \<noteq> ch \<Longrightarrow> elsewhere c ch cs (report_text c now m action retryAfter routeNotFound k cs)"
| other_image: "k \<noteq> ch \<Longrightarrow> elsewhere c ch cs (report_image c now m action retryAfter k cs)"

lemmas operations = MarkChannelSuccess_def MarkChannelFailure_def MarkChannelSoftFailure_def releaseChannelProbe_def
  setChannelRateLimitCooldown_def markChannelModelUnhealthy_def

lemma operations_other:
  assumes "k \<noteq> ch"
  shows "getChannelHealth ch (MarkChannelSuccess k cs) = getChannelHealth ch cs"
    "getChannelHealth ch (MarkChannelFailure c now k cs) = getChannelHealth ch cs"
    "getChannelHealth ch (MarkChannelSoftFailure now k cs) = getChannelHealth ch cs"
    "getChannelHealth ch (releaseChannelProbe k cs) = getChannelHealth ch cs"
    "getChannelHealth ch (setChannelRateLimitCooldown now k a cs) = getChannelHealth ch cs"
    "getChannelHealth ch (markChannelModelUnhealthy now k m cs) = getChannelHealth ch cs"
  using assms by (auto simp: operations get_put Let_def getChannelHealth_def put_health_def)

lemma elsewhere_in_flight: "elsewhere c ch cs cs' \<Longrightarrow> in_flight ch cs \<Longrightarrow> in_flight ch cs'"
proof (induction rule: elsewhere.induct)
  case (pass_text cs failed m vs)
  then show ?case using pass_in_flight [OF text_claims] by (simp add: availableTextRoutes_def)
next
  case (pass_image cs failed m vs)
  then show ?case using pass_in_flight [OF image_claims] by (simp add: availableImageRoutes_def)
qed (simp_all add: in_flight_def report_text_def report_image_def operations_other split: StatusAction.split)

lemma elsewhere_steps: "(elsewhere c ch)\<^sup>*\<^sup>* cs cs' \<Longrightarrow> in_flight ch cs \<Longrightarrow> in_flight ch cs'"
  by (induction rule: rtranclp_induct) (auto dest: elsewhere_in_flight)

subsection \<open>Properties\<close>

text \<open>The probe of a channel is claimed by the filter, not by the selection. When the text handler
  filters the routes of a model, every half-open channel among them gets a probe in flight, and
  only one route is selected. As long as nobody reports on the others, whatever the handlers
  filter and report elsewhere, no pass of any handler ever offers them again; so nobody can
  report on them, and they stay shut out until an administrator resets them.\<close>

theorem unselected_probe_stranded:
  assumes "half_open m now (ChannelID r) cs" and "(now, r) \<in> set vs" and "ChannelID r \<notin> failed"
    and "(elsewhere c (ChannelID r))\<^sup>*\<^sup>* (snd (availableTextRoutes failed m vs cs)) cs'"
  shows "ChannelID r \<notin> ChannelID ` set (fst (availableTextRoutes failed' m' vs' cs'))
    \<and> ChannelID r \<notin> ChannelID ` set (fst (availableImageRoutes failed' m' vs' cs'))"
proof -
  have "in_flight (ChannelID r) (snd (availableTextRoutes failed m vs cs))"
    unfolding availableTextRoutes_def by (rule pass_claims [OF text_claims assms(1-3)])
  then have "in_flight (ChannelID r) cs'" by (rule elsewhere_steps [OF assms(4)])
  then show ?thesis
    unfolding availableTextRoutes_def availableImageRoutes_def
    using pass_in_flight [OF text_claims] pass_in_flight [OF image_claims] by blast
qed

definition two_half_open :: circuits where
  "two_half_open = \<lparr> channelCircuits = [7 \<mapsto> one_failure_health, 8 \<mapsto> one_failure_health],
     channelRateLimitCooldowns = Map.empty, channelModelUnhealthyUntilNs = Map.empty \<rparr>"

definition two_visits :: "visit list" where
  "two_visits = [(40000000000, \<lparr> ChannelID = 7, Weight = 1 \<rparr>), (40000000000, \<lparr> ChannelID = 8, Weight = 1 \<rparr>)]"

theorem unselected_probe_stranded_witness:
  "map ChannelID (fst (availableTextRoutes {} ''gpt'' two_visits two_half_open)) = [7, 8]
    \<and> 8 \<notin> ChannelID ` set (fst (availableTextRoutes {} ''gpt'' vs
        (MarkChannelSuccess 7 (snd (availableTextRoutes {} ''gpt'' two_visits two_half_open)))))"
proof -
  let ?cs = "snd (availableTextRoutes {} ''gpt'' two_visits two_half_open)"
  define c where "c = read_circuit_config Map.empty"
  have h: "half_open ''gpt'' 40000000000 (ChannelID \<lparr> ChannelID = 8, Weight = 1 \<rparr>) two_half_open"
    by (simp add: half_open_def two_half_open_def getChannelHealth_def overdue_def one_failure_health_def)
  have "elsewhere c 8 ?cs (report_text c 0 '''' ActionSuccess 0 False 7 ?cs)"
    by (rule other_text) simp
  then have "(elsewhere c (ChannelID \<lparr> ChannelID = 8, Weight = 1 \<rparr>))\<^sup>*\<^sup>* ?cs (MarkChannelSuccess 7 ?cs)"
    by (simp add: report_text_def r_into_rtranclp)
  then have "8 \<notin> ChannelID ` set (fst (availableTextRoutes {} ''gpt'' vs (MarkChannelSuccess 7 ?cs)))"
    using unselected_probe_stranded [OF h, of two_visits "{}"] by (simp add: two_visits_def)
  moreover have "map ChannelID (fst (availableTextRoutes {} ''gpt'' two_visits two_half_open)) = [7, 8]"
    by (simp add: availableTextRoutes_def two_visits_def two_half_open_def text_route_ok_def IsChannelRateLimited_def
        IsChannelModelUnhealthy_def circuit_check getChannelHealth_def check_health_def one_failure_health_def put_health_def Let_def)
  ultimately show ?thesis by blast
qed

text \<open>The text handler ends the probe of the channel it selected whatever the upstream answered,
  so that the next check after the open period passes.\<close>

theorem text_report_ends_probe: "\<not> in_flight ch (report_text c now m action retryAfter routeNotFound ch cs)"
  by (cases action) (simp_all add: report_text_def in_flight_def probing_def operations get_put success_health_def
      failure_health_def extendCircuitOpen_def openCircuit_def Let_def)

text \<open>The image handler does not: after a 429, 404 or 410 the probe stays in flight.\<close>

theorem image_report_keeps_probe:
  assumes "in_flight ch cs" and "status \<in> {429, 404, 410}"
  shows "in_flight ch (report_image c now m (classifyUpstreamStatus status) retryAfter ch cs)"
  using assms
  by (auto simp: classifyUpstreamStatus_def report_image_def in_flight_def probing_def operations get_put
      getChannelHealth_def put_health_def Let_def split: if_splits)

end
