(* ===== verification/BalanceConsume.thy ===== *)
theory BalanceConsume
  imports Ledger Money
begin

section \<open>Spending from the balance (\<^verbatim>\<open>proxy/balance_consume.go\<close>)\<close>

text \<open>
  The per-user spending window: whether a user's balance may be used at all, the limit per
  window, the reset of an expired window and the two ways of accumulating (checked before the
  service, forced after it). The lemmas show that the read-only check agrees with the
  transactional one, that a checked accumulation never passes the limit, and that a forced one
  loses nothing.
\<close>

text \<open>\<^verbatim>\<open>d.Seconds()\<close>: whole seconds plus the fraction, in floating point.\<close>

definition duration_seconds :: "nanos \<Rightarrow> f64" where
  "duration_seconds d = f64_add (f64_of_int (d sdiv 1000000000))
     (f64_div_const (f64_of_int (d smod 1000000000)) 1000000000)"

definition window_expired :: "nanos \<Rightarrow> user \<Rightarrow> bool" where
  "window_expired now u \<longleftrightarrow>
     (case u_BalanceConsumeWindowStartAt u of None \<Rightarrow> True
      | Some s \<Rightarrow> f64_less (f64_of_int (u_BalanceConsumeWindowSeconds u)) (duration_seconds (now - s)))"

text \<open>The accumulating update, with the limit as its \<^verbatim>\<open>WHERE\<close> clause when \<open>limited\<close>.\<close>

definition accumulate :: "nat \<Rightarrow> int64 \<Rightarrow> bool \<Rightarrow> nat tx" where
  "accumulate uid delta limited = stmt (update_user_if uid
     (\<lambda>u. u_BalanceConsumeEnabled u
        \<and> (limited \<longrightarrow> u_BalanceConsumeLimitUSD u = 0
            \<or> u_BalanceConsumedInWindow u + delta \<le> u_BalanceConsumeLimitUSD u))
     (\<lambda>u. u \<lparr> u_BalanceConsumedInWindow := u_BalanceConsumedInWindow u + delta \<rparr>))"

definition reset_window :: "nanos \<Rightarrow> nat \<Rightarrow> nanos option \<Rightarrow> nat tx" where
  "reset_window now uid seen = stmt (update_user_if uid
     (\<lambda>u. u_BalanceConsumeWindowStartAt u = seen)
     (\<lambda>u. u \<lparr> u_BalanceConsumeWindowStartAt := Some now, u_BalanceConsumedInWindow := 0 \<rparr>))"

text \<open>An expired window is reset first.\<close>

definition roll_window :: "nanos \<Rightarrow> nat \<Rightarrow> user \<Rightarrow> unit tx" where
  "roll_window now uid u =
     (if window_expired now u
      then tx_bind (reset_window now uid (u_BalanceConsumeWindowStartAt u)) (\<lambda>_. tx_return ())
      else tx_return ())"

definition TryConsumeBalanceTx :: "nanos \<Rightarrow> nat \<Rightarrow> int64 \<Rightarrow> bool \<Rightarrow> bool tx" where
  "TryConsumeBalanceTx now uid delta forceTrack =
     (if uid = 0 \<or> delta \<le> 0 then tx_return False
      else tx_catch
        (tx_bind (query_first (\<lambda>t. users t uid)) (\<lambda>u.
           if \<not> u_BalanceConsumeEnabled u then tx_return False
           else tx_bind (roll_window now uid u) (\<lambda>_.
             tx_bind (accumulate uid delta (\<not> forceTrack \<and> 0 < u_BalanceConsumeLimitUSD u)) (\<lambda>n.
               tx_return (0 < n)))))
        (\<lambda>_. tx_return False))"

definition CheckBalanceConsumeAllowed :: "nanos \<Rightarrow> user option \<Rightarrow> int64 \<Rightarrow> bool" where
  "CheckBalanceConsumeAllowed now ou delta =
     (case ou of None \<Rightarrow> False
      | Some u \<Rightarrow>
          if \<not> u_BalanceConsumeEnabled u then False
          else if u_BalanceConsumeLimitUSD u \<le> 0 then True
          else if window_expired now u then delta \<le> u_BalanceConsumeLimitUSD u
          else case CheckedAddInt64 (u_BalanceConsumedInWindow u) delta of
                 None \<Rightarrow> False | Some summed \<Rightarrow> summed \<le> u_BalanceConsumeLimitUSD u)"

record balance_status =
  bs_Enabled :: bool
  bs_LimitMicroUSD :: int64
  bs_WindowSeconds :: int
  bs_WindowStartAt :: nanos
  bs_ConsumedInWindowMicroUSD :: int64
  bs_ResetsAt :: nanos

definition GetBalanceConsumeStatus :: "nanos \<Rightarrow> user \<Rightarrow> balance_status" where
  "GetBalanceConsumeStatus now u =
     (let startAt = (case u_BalanceConsumeWindowStartAt u of None \<Rightarrow> now | Some s \<Rightarrow> s);
          resets0 = startAt + u_BalanceConsumeWindowSeconds u * 1000000000;
          resets = (if resets0 < now then now else resets0)
      in \<lparr> bs_Enabled = u_BalanceConsumeEnabled u,
           bs_LimitMicroUSD = u_BalanceConsumeLimitUSD u,
           bs_WindowSeconds = u_BalanceConsumeWindowSeconds u,
           bs_WindowStartAt = startAt,
           bs_ConsumedInWindowMicroUSD = u_BalanceConsumedInWindow u,
           bs_ResetsAt = resets \<rparr>)"

subsection \<open>What a successful accumulation does\<close>

definition window_of :: "nanos \<Rightarrow> user \<Rightarrow> user" where
  "window_of now u = (if window_expired now u
     then u \<lparr> u_BalanceConsumeWindowStartAt := Some now, u_BalanceConsumedInWindow := 0 \<rparr> else u)"

lemma window_of_simps [simp]:
  "u_Quota (window_of now u) = u_Quota u" "u_PaidQuota (window_of now u) = u_PaidQuota u"
  "u_BalanceConsumeEnabled (window_of now u) = u_BalanceConsumeEnabled u"
  "u_BalanceConsumeLimitUSD (window_of now u) = u_BalanceConsumeLimitUSD u"
  by (simp_all add: window_of_def)

definition consume_in_window :: "int64 \<Rightarrow> user \<Rightarrow> user" where
  "consume_in_window delta u = u \<lparr> u_BalanceConsumedInWindow := u_BalanceConsumedInWindow u + delta \<rparr>"

lemma consume_in_window_simps [simp]:
  "u_Quota (consume_in_window d u) = u_Quota u" "u_PaidQuota (consume_in_window d u) = u_PaidQuota u"
  "u_BalanceConsumedInWindow (consume_in_window d u) = u_BalanceConsumedInWindow u + d"
  "u_BalanceConsumeLimitUSD (consume_in_window d u) = u_BalanceConsumeLimitUSD u"
  "u_BalanceConsumeEnabled (consume_in_window d u) = u_BalanceConsumeEnabled u"
  by (simp_all add: consume_in_window_def)

text \<open>The tables differ at most in the window columns of the rows of one user.\<close>

definition same_but_window :: "user \<Rightarrow> user \<Rightarrow> bool" where
  "same_but_window u v \<longleftrightarrow> v \<lparr> u_BalanceConsumeWindowStartAt := None, u_BalanceConsumedInWindow := 0 \<rparr>
     = u \<lparr> u_BalanceConsumeWindowStartAt := None, u_BalanceConsumedInWindow := 0 \<rparr>"

definition window_frame :: "nat \<Rightarrow> tables \<Rightarrow> tables \<Rightarrow> bool" where
  "window_frame uid t t' \<longleftrightarrow> t' = t \<lparr> users := users t' \<rparr>
     \<and> (\<forall>k. k \<noteq> uid \<longrightarrow> users t' k = users t k)
     \<and> rel_option same_but_window (users t uid) (users t' uid)"

lemma same_but_window_eqs:
  "same_but_window u v \<Longrightarrow> u_Quota v = u_Quota u \<and> u_PaidQuota v = u_PaidQuota u
    \<and> u_BalanceConsumeEnabled v = u_BalanceConsumeEnabled u"
  by (cases u, cases v) (simp add: same_but_window_def)

lemma reflp_window_frame: "reflp (window_frame uid)"
  by (rule reflpI) (auto simp: window_frame_def same_but_window_def option.rel_refl)

lemma transp_window_frame: "transp (window_frame uid)"
proof (rule transpI)
  fix a b c assume ab: "window_frame uid a b" and bc: "window_frame uid b c"
  from ab bc have "c = a \<lparr> users := users c \<rparr>"
    by (cases a, cases b, cases c) (simp add: window_frame_def)
  moreover have "rel_option same_but_window (users a uid) (users b uid)"
    "rel_option same_but_window (users b uid) (users c uid)"
    using ab bc unfolding window_frame_def by blast+
  then have "rel_option same_but_window (users a uid) (users c uid)"
    by (auto simp: option_rel_Some1 option_rel_Some2 same_but_window_def elim!: option.rel_cases)
  moreover have "users c k = users a k" if "k \<noteq> uid" for k
    using ab bc that by (metis window_frame_def)
  ultimately show "window_frame uid a c" unfolding window_frame_def by blast
qed

text \<open>It never raises, and it touches nothing but the window columns of its user.\<close>

lemma TryConsume_keeps: "keeps (window_frame uid) (TryConsumeBalanceTx now uid delta force)"
  unfolding TryConsumeBalanceTx_def accumulate_def reset_window_def roll_window_def
  by (intro keeps_intros keeps_update_user reflp_window_frame transp_window_frame)
    (auto simp: window_frame_def same_but_window_def)

lemma TryConsume_total: "\<exists>b w'. TryConsumeBalanceTx now uid delta force w = (Inr b, w')"
proof -
  have total: "\<exists>b w'. tx_catch m (\<lambda>_. tx_return False) w = (Inr b, w')" for m
    by (auto simp: tx_catch_def split: prod.split sum.split)
  show ?thesis
    by (cases "uid = 0 \<or> delta \<le> 0") (simp_all only: TryConsumeBalanceTx_def if_True if_False total
        tx_return_apply, auto)
qed

text \<open>Without faults, on an existing user: the answer, and the row after.\<close>

lemma TryConsume_nofault:
  assumes u: "users t uid = Some u" and "uid \<noteq> 0" and "0 < delta"
  shows "TryConsumeBalanceTx now uid delta force (t, []) =
    (let w = window_of now u;
         ok = u_BalanceConsumeEnabled u \<and> (force \<or> u_BalanceConsumeLimitUSD u \<le> 0
                \<or> u_BalanceConsumedInWindow w + delta \<le> u_BalanceConsumeLimitUSD u)
     in (Inr ok, (t \<lparr> users := (users t)(uid \<mapsto>
           if ok then consume_in_window delta w
           else if u_BalanceConsumeEnabled u then w else u) \<rparr>, [])))"
  using assms
  by (auto simp: TryConsumeBalanceTx_def tx_catch_def tx_bind_def roll_window_def reset_window_def accumulate_def
      update_user_if_def window_of_def consume_in_window_def Let_def fun_upd_idem)

text \<open>A success under any faults: the guard of the update has seen the row it changed.\<close>

lemma accumulate_Inr:
  "accumulate uid delta limited (t, fs) = (Inr n, (t', fs')) \<Longrightarrow> 0 < n \<Longrightarrow>
    \<exists>u. users t uid = Some u \<and> users t' uid = Some (consume_in_window delta u)
      \<and> (limited \<longrightarrow> u_BalanceConsumeLimitUSD u = 0
          \<or> u_BalanceConsumedInWindow u + delta \<le> u_BalanceConsumeLimitUSD u)"
  by (auto simp: accumulate_def stmt_Inr update_user_if_def consume_in_window_def
      split: option.splits if_splits)

lemma reset_window_limit:
  "reset_window now uid seen (t, fs) = (Inr n, (t1, fs1)) \<Longrightarrow> users t1 uid = Some u1 \<Longrightarrow>
    \<exists>u. users t uid = Some u \<and> u_BalanceConsumeLimitUSD u1 = u_BalanceConsumeLimitUSD u"
  by (auto simp: reset_window_def stmt_Inr update_user_if_def split: option.splits if_splits)

lemma consume_success_limit:
  assumes run: "TryConsumeBalanceTx now uid delta False (t, fs) = (Inr True, (t', fs'))"
    and u': "users t' uid = Some u'" and lim: "0 < u_BalanceConsumeLimitUSD u'"
  shows "u_BalanceConsumedInWindow u' \<le> u_BalanceConsumeLimitUSD u'"
proof -
  from run obtain u t1 fs1 fs2 n where u: "users t uid = Some u"
    and r: "roll_window now uid u (t, fs1) = (Inr (), (t1, fs2))"
    and acc: "accumulate uid delta (0 < u_BalanceConsumeLimitUSD u) (t1, fs2) = (Inr n, (t', fs'))" and n: "0 < n"
    by (auto simp: TryConsumeBalanceTx_def tx_catch_Inr tx_bind_Inr query_first_Inr split: if_splits)
  from accumulate_Inr [OF acc n] obtain u1 where u1: "users t1 uid = Some u1" "u' = consume_in_window delta u1"
    "0 < u_BalanceConsumeLimitUSD u \<longrightarrow> u_BalanceConsumeLimitUSD u1 = 0
      \<or> u_BalanceConsumedInWindow u1 + delta \<le> u_BalanceConsumeLimitUSD u1" using u' by auto
  have "u_BalanceConsumeLimitUSD u1 = u_BalanceConsumeLimitUSD u"
    using r u u1(1) by (auto simp: roll_window_def tx_bind_Inr dest: reset_window_limit split: if_splits)
  then show ?thesis using u1 lim by auto
qed

lemma check_agrees:
  assumes u: "users t uid = Some u" and "uid \<noteq> 0" and d: "0 < delta" "in_i64 delta"
    and c: "in_i64 (u_BalanceConsumedInWindow u)" "in_i64 (u_BalanceConsumeLimitUSD u)"
  shows "fst (TryConsumeBalanceTx now uid delta False (t, []))
    = Inr (CheckBalanceConsumeAllowed now (Some u) delta)"
proof -
  have "\<not> in_i64 (u_BalanceConsumedInWindow u + delta) \<Longrightarrow>
      u_BalanceConsumeLimitUSD u < u_BalanceConsumedInWindow u + delta"
    using c d by (auto simp: i64_defs)
  then show ?thesis using assms
    by (auto simp: TryConsume_nofault Let_def CheckBalanceConsumeAllowed_def window_of_def
        CheckedAddInt64_eq)
qed

subsection \<open>Properties\<close>

text \<open>The check made before a request agrees with the accumulation made after it: for a stored
  user with in-range columns, the read-only check says yes exactly when the checked
  accumulation of the same amount at the same time would succeed, overflow included.\<close>

theorem precheck_agrees_with_consume:
  assumes "users t uid = Some u" and "uid \<noteq> 0" and "0 < delta" and "in_i64 delta"
    and "in_i64 (u_BalanceConsumedInWindow u)" and "in_i64 (u_BalanceConsumeLimitUSD u)"
  shows "fst (TryConsumeBalanceTx now uid delta False (t, []))
    = Inr (CheckBalanceConsumeAllowed now (Some u) delta)"
  using assms by (rule check_agrees)

definition demo_user :: user where
  "demo_user = \<lparr> u_Username = ''ann'', u_Role = ''user'', u_Status = 1, u_Quota = 5000000,
     u_PaidQuota = 3000000, u_ReferredByUserID = 0, u_ReferredAt = None,
     u_BalanceConsumeEnabled = True, u_BalanceConsumeLimitUSD = 100,
     u_BalanceConsumeWindowSeconds = 3600, u_BalanceConsumeWindowStartAt = None,
     u_BalanceConsumedInWindow = 90 \<rparr>"

definition demo_tables :: tables where
  "demo_tables = empty_tables \<lparr> users := [3 \<mapsto> demo_user] \<rparr>"

lemma demo_tables_simps [simp]: "users demo_tables = [3 \<mapsto> demo_user]" "billing demo_tables = []"
  by (simp_all add: demo_tables_def empty_tables_def)

theorem precheck_agrees_with_consume_witness:
  "fst (TryConsumeBalanceTx 7 3 40 False (demo_tables, []))
    = Inr (CheckBalanceConsumeAllowed 7 (Some demo_user) 40) \<and> CheckBalanceConsumeAllowed 7 (Some demo_user) 40"
  using precheck_agrees_with_consume [of demo_tables 3 demo_user 40 7]
  by (simp add: demo_user_def i64_defs CheckBalanceConsumeAllowed_def window_expired_def)

text \<open>C25: A spending limit holds: whatever statements of the accumulation fail, after a checked
  accumulation that reports success the spending of the window is at most the limit (when one
  is set), the balance columns and every other user are untouched, and the call never raises.\<close>

theorem window_limit_kept:
  assumes "TryConsumeBalanceTx now uid delta False (t, fs) = (r, (t', fs'))"
  shows "window_frame uid t t' \<and> (\<exists>b. r = Inr b)
    \<and> (r = Inr True \<longrightarrow> (\<forall>u. users t' uid = Some u \<longrightarrow>
        0 < u_BalanceConsumeLimitUSD u \<longrightarrow> u_BalanceConsumedInWindow u \<le> u_BalanceConsumeLimitUSD u))"
proof -
  have f: "window_frame uid t t'" using TryConsume_keeps assms by (rule keepsD)
  obtain b where b: "r = Inr b" using TryConsume_total [of now uid delta False "(t, fs)"] assms by auto
  have "u_BalanceConsumedInWindow u' \<le> u_BalanceConsumeLimitUSD u'"
    if T: "r = Inr True" and u': "users t' uid = Some u'" and lim: "0 < u_BalanceConsumeLimitUSD u'" for u'
    using consume_success_limit [of now uid delta t fs t' fs' u'] assms T u' lim by simp
  then show ?thesis using f b by auto
qed

theorem window_limit_kept_witness:
  "window_frame 3 demo_tables (fst (snd (TryConsumeBalanceTx 7 3 40 False (demo_tables, [False, True]))))"
proof -
  obtain r t' fs' where run: "TryConsumeBalanceTx 7 3 40 False (demo_tables, [False, True]) = (r, (t', fs'))"
    by (metis prod.collapse)
  from window_limit_kept [OF run] show ?thesis by (simp add: run)
qed

end
