(* ===== verification/DistributedLock.thy ===== *)
theory DistributedLock
  imports GoStr
begin

section \<open>The distributed lock (\<^verbatim>\<open>database/distributed_lock_helper.go\<close>)\<close>

text \<open>
  A table of leases, one row per key (the key column is unique). Acquiring is two statements:
  taking over an expired row, then inserting a fresh one; other processes may run between
  them. The functions below are the statements and their compositions; \<open>lock_step\<close>
  interleaves the statements of any number of owners, each with the clock reading its caller
  made earlier. The lemmas show mutual exclusion of live leases under every interleaving.
\<close>

record lock_row =
  OwnerID :: string
  AcquiredAt :: nanos
  HeartbeatAt :: nanos
  ExpiresAt :: nanos

type_synonym locks = "string \<rightharpoonup> lock_row"

datatype lock_error = BadInput string | Driver string

subsection \<open>The operations\<close>

definition validateDistributedLockInput :: "string \<Rightarrow> string \<Rightarrow> nanos \<Rightarrow> lock_error option" where
  "validateDistributedLockInput key ownerID ttl =
     (if TrimSpace key = '''' then Some (BadInput ''lock key is required'')
      else if 128 < length key then Some (BadInput ''lock key exceeds 128 bytes'')
      else if TrimSpace ownerID = '''' then Some (BadInput ''lock owner is required'')
      else if 64 < length ownerID then Some (BadInput ''lock owner exceeds 64 bytes'')
      else if ttl \<le> 0 then Some (BadInput ''lock ttl must be positive'')
      else None)"

definition isTransientLockError :: "string \<Rightarrow> bool" where
  "isTransientLockError msg \<longleftrightarrow> list_ex (\<lambda>p. sublist p (ToLower msg))
     [''database is locked'', ''database table is locked'', ''deadlock detected'',
      ''lock wait timeout'', ''could not serialize access'', ''sqlstate 40001'',
      ''sqlstate 40p01'', ''sqlstate 55p03'']"

text \<open>The two statements of an attempt; the first component is the number of rows affected.\<close>

definition take_over :: "nanos \<Rightarrow> string \<Rightarrow> string \<Rightarrow> nanos \<Rightarrow> locks \<Rightarrow> nat \<times> locks" where
  "take_over now key ownerID ttl L =
     (case L key of None \<Rightarrow> (0, L)
      | Some r \<Rightarrow>
          if ExpiresAt r \<le> now
          then (1, L(key \<mapsto> r \<lparr> OwnerID := ownerID, AcquiredAt := now, HeartbeatAt := now,
                             ExpiresAt := now + ttl \<rparr>))
          else (0, L))"

definition insert_lock :: "nanos \<Rightarrow> string \<Rightarrow> string \<Rightarrow> nanos \<Rightarrow> locks \<Rightarrow> nat \<times> locks" where
  "insert_lock now key ownerID ttl L =
     (if L key = None
      then (1, L(key \<mapsto> \<lparr> OwnerID = ownerID, AcquiredAt = now, HeartbeatAt = now, ExpiresAt = now + ttl \<rparr>))
      else (0, L))"

text \<open>One attempt; \<open>e1\<close> and \<open>e2\<close> are the messages of the errors its statements met, if any.\<close>

definition tryAcquireLockForOwner ::
  "nanos \<Rightarrow> string option \<Rightarrow> string option \<Rightarrow> string \<Rightarrow> string \<Rightarrow> nanos \<Rightarrow> locks
    \<Rightarrow> (lock_error + bool) \<times> locks" where
  "tryAcquireLockForOwner now e1 e2 key ownerID ttl L =
     (case e1 of Some m \<Rightarrow> (Inl (Driver m), L)
      | None \<Rightarrow> let (n, L1) = take_over now key ownerID ttl L in
          if 0 < n then (Inr True, L1)
          else case e2 of Some m \<Rightarrow> (Inl (Driver m), L1)
               | None \<Rightarrow> let (n2, L2) = insert_lock now key ownerID ttl L1 in (Inr (0 < n2), L2))"

text \<open>The environment of the attempts: for each, the time and the errors.\<close>

type_synonym lock_env = "nat \<Rightarrow> nanos \<times> string option \<times> string option"

fun acquire_attempts ::
  "nat \<Rightarrow> nat \<Rightarrow> lock_env \<Rightarrow> lock_error option \<Rightarrow> string \<Rightarrow> string \<Rightarrow> nanos \<Rightarrow> locks
    \<Rightarrow> (lock_error option + bool) \<times> locks" where
  "acquire_attempts 0 k env lastErr key ownerID ttl L = (Inl lastErr, L)"
| "acquire_attempts (Suc n) k env lastErr key ownerID ttl L =
     (case env k of (now, e1, e2) \<Rightarrow>
       (case tryAcquireLockForOwner now e1 e2 key ownerID ttl L of
          (Inr acquired, L') \<Rightarrow> (Inr acquired, L')
        | (Inl err, L') \<Rightarrow>
            if \<not> (case err of Driver m \<Rightarrow> isTransientLockError m | BadInput _ \<Rightarrow> False)
            then (Inl (Some err), L')
            else acquire_attempts n (Suc k) env (Some err) key ownerID ttl L'))"

definition acquireLockForOwner ::
  "lock_env \<Rightarrow> string \<Rightarrow> string \<Rightarrow> nanos \<Rightarrow> locks \<Rightarrow> (lock_error option + bool) \<times> locks" where
  "acquireLockForOwner env key ownerID ttl L =
     (case validateDistributedLockInput key ownerID ttl of
        Some e \<Rightarrow> (Inl (Some e), L)
      | None \<Rightarrow> acquire_attempts 5 0 env None key ownerID ttl L)"

definition AcquireLock ::
  "string \<Rightarrow> lock_env \<Rightarrow> string \<Rightarrow> nanos \<Rightarrow> locks \<Rightarrow> string \<times> (lock_error option + bool) \<times> locks" where
  "AcquireLock processOwner env key ttl L = (processOwner, acquireLockForOwner env key processOwner ttl L)"

definition renew_stmt :: "nanos \<Rightarrow> string \<Rightarrow> string \<Rightarrow> nanos \<Rightarrow> locks \<Rightarrow> nat \<times> locks" where
  "renew_stmt now key ownerID ttl L =
     (case L key of None \<Rightarrow> (0, L)
      | Some r \<Rightarrow>
          if OwnerID r = ownerID \<and> now < ExpiresAt r
          then (1, L(key \<mapsto> r \<lparr> HeartbeatAt := now, ExpiresAt := now + ttl \<rparr>))
          else (0, L))"

definition RenewLock ::
  "nanos \<Rightarrow> string option \<Rightarrow> string \<Rightarrow> string \<Rightarrow> nanos \<Rightarrow> locks \<Rightarrow> (lock_error + bool) \<times> locks" where
  "RenewLock now err key ownerID ttl L =
     (case validateDistributedLockInput key ownerID ttl of
        Some e \<Rightarrow> (Inl e, L)
      | None \<Rightarrow> (case err of Some m \<Rightarrow> (Inl (Driver m), L)
          | None \<Rightarrow> let (n, L') = renew_stmt now key ownerID ttl L in (Inr (0 < n), L')))"

definition release_stmt :: "string \<Rightarrow> string \<Rightarrow> locks \<Rightarrow> locks" where
  "release_stmt key ownerID L =
     (case L key of None \<Rightarrow> L | Some r \<Rightarrow> if OwnerID r = ownerID then L(key := None) else L)"

definition ReleaseLock :: "string option \<Rightarrow> string \<Rightarrow> string \<Rightarrow> locks \<Rightarrow> lock_error option \<times> locks" where
  "ReleaseLock err key0 ownerID0 L =
     (let key = TrimSpace key0; ownerID = TrimSpace ownerID0 in
      if key = '''' then (Some (BadInput ''lock key is required''), L)
      else if ownerID = '''' then (Some (BadInput ''lock owner is required''), L)
      else case err of Some m \<Rightarrow> (Some (Driver m), L)
           | None \<Rightarrow> (None, release_stmt key ownerID L))"

subsection \<open>The contract of an attempt\<close>

text \<open>What an attempt promises: a free or expired key becomes the caller's, any other stays.\<close>

definition free_at :: "nanos \<Rightarrow> string \<Rightarrow> locks \<Rightarrow> bool" where
  "free_at now key L \<longleftrightarrow> (case L key of None \<Rightarrow> True | Some r \<Rightarrow> ExpiresAt r \<le> now)"

definition fresh_row :: "nanos \<Rightarrow> string \<Rightarrow> nanos \<Rightarrow> lock_row" where
  "fresh_row now ownerID ttl =
     \<lparr> OwnerID = ownerID, AcquiredAt = now, HeartbeatAt = now, ExpiresAt = now + ttl \<rparr>"

lemma tryAcquire_spec:
  "tryAcquireLockForOwner now None None key ownerID ttl L =
    (if free_at now key L then (Inr True, L(key \<mapsto> fresh_row now ownerID ttl)) else (Inr False, L))"
  by (auto simp: tryAcquireLockForOwner_def take_over_def insert_lock_def free_at_def fresh_row_def
      intro: lock_row.equality split: option.splits)

lemma tryAcquire_cases:
  "tryAcquireLockForOwner now e1 e2 key ownerID ttl L = (r, L') \<Longrightarrow>
    (r = Inr True \<and> free_at now key L \<and> L' = L(key \<mapsto> fresh_row now ownerID ttl)) \<or> (r \<noteq> Inr True \<and> L' = L)"
  by (auto simp: tryAcquireLockForOwner_def take_over_def insert_lock_def free_at_def fresh_row_def
      intro: lock_row.equality split: option.splits if_splits)

lemma acquire_attempts_sound:
  "acquire_attempts n k env lastErr key ownerID ttl L = (r, L') \<Longrightarrow>
    (r = Inr True \<and> (\<exists>i. k \<le> i \<and> i < k + n \<and> free_at (fst (env i)) key L
        \<and> L' = L(key \<mapsto> fresh_row (fst (env i)) ownerID ttl)))
    \<or> (r \<noteq> Inr True \<and> L' = L)"
proof (induction n arbitrary: k lastErr)
  case (Suc n)
  obtain now e1 e2 where e: "env k = (now, e1, e2)" by (cases "env k")
  obtain r1 L1 where a: "tryAcquireLockForOwner now e1 e2 key ownerID ttl L = (r1, L1)" by force
  show ?case
  proof (cases r1)
    case (Inr b)
    then show ?thesis using Suc.prems e a tryAcquire_cases [OF a]
      by (auto intro!: exI [of _ k])
  next
    case (Inl err)
    then have L1: "L1 = L" using tryAcquire_cases [OF a] by simp
    show ?thesis
    proof (cases "case err of Driver m \<Rightarrow> isTransientLockError m | BadInput _ \<Rightarrow> False")
      case True
      with Suc.prems e a Inl L1
      have "acquire_attempts n (Suc k) env (Some err) key ownerID ttl L = (r, L')" by simp
      from Suc.IH [OF this] show ?thesis by (auto intro: Suc_leD)
    next
      case False
      with Suc.prems e a Inl L1 show ?thesis by auto
    qed
  qed
qed auto

text \<open>Up to four transient errors are waited out.\<close>

lemma acquire_attempts_retry:
  assumes "i < n" and "\<And>j. j < i \<Longrightarrow> \<exists>t m. env (k + j) = (t, Some m, None) \<and> isTransientLockError m"
    and "env (k + i) = (now, None, None)"
  shows "acquire_attempts n k env lastErr key ownerID ttl L
    = (Inr (free_at now key L), if free_at now key L then L(key \<mapsto> fresh_row now ownerID ttl) else L)"
  using assms
proof (induction i arbitrary: n k lastErr)
  case 0
  then obtain n' where "n = Suc n'" by (cases n) auto
  with 0 show ?case by (simp add: tryAcquire_spec)
next
  case (Suc i)
  then obtain n' where n: "n = Suc n'" by (cases n) auto
  from Suc.prems(2) [of 0] obtain t m where e: "env k = (t, Some m, None)" "isTransientLockError m" by auto
  have "acquire_attempts n' (Suc k) env (Some (Driver m)) key ownerID ttl L
    = (Inr (free_at now key L), if free_at now key L then L(key \<mapsto> fresh_row now ownerID ttl) else L)"
  proof (rule Suc.IH)
    show "\<exists>t m. env (Suc k + j) = (t, Some m, None) \<and> isTransientLockError m" if "j < i" for j
      using Suc.prems(2) [of "Suc j"] that by simp
  qed (use Suc.prems n in auto)
  with n e show ?case by (simp add: tryAcquireLockForOwner_def)
qed

subsection \<open>Interleaved owners\<close>

text \<open>
  The state of the system: the time, the table, and for every owner and key the end of the
  lease it was last told it has (\<open>0\<close> when it has been told of none, or has released it). A
  statement uses a time \<open>t\<close> its caller read at or before now.
\<close>

record lock_world =
  clock :: nanos
  lock_table :: locks
  granted :: "string \<Rightarrow> string \<Rightarrow> nanos"

definition grant :: "string \<Rightarrow> string \<Rightarrow> nanos \<Rightarrow> lock_world \<Rightarrow> lock_world" where
  "grant ownerID key e w = w \<lparr> granted := (granted w)(ownerID := (granted w ownerID)(key := e)) \<rparr>"

definition granted_if :: "nat \<times> locks \<Rightarrow> string \<Rightarrow> string \<Rightarrow> nanos \<Rightarrow> lock_world \<Rightarrow> lock_world" where
  "granted_if res ownerID key e w =
     (if 0 < fst res then grant ownerID key e (w \<lparr> lock_table := snd res \<rparr>) else w \<lparr> lock_table := snd res \<rparr>)"

inductive lock_step :: "lock_world \<Rightarrow> lock_world \<Rightarrow> bool" where
  pass: "clock w \<le> t \<Longrightarrow> lock_step w (w \<lparr> clock := t \<rparr>)"
| over: "t \<le> clock w \<Longrightarrow> 0 < ttl \<Longrightarrow>
    lock_step w (granted_if (take_over t key o1 ttl (lock_table w)) o1 key (t + ttl) w)"
| insert: "t \<le> clock w \<Longrightarrow> 0 < ttl \<Longrightarrow>
    lock_step w (granted_if (insert_lock t key o1 ttl (lock_table w)) o1 key (t + ttl) w)"
| renew: "t \<le> clock w \<Longrightarrow> 0 < ttl \<Longrightarrow>
    lock_step w (granted_if (renew_stmt t key o1 ttl (lock_table w)) o1 key (t + ttl) w)"
| release: "lock_step w (grant o1 key 0 (w \<lparr> lock_table := release_stmt key o1 (lock_table w) \<rparr>))"

definition lock_init :: "lock_world \<Rightarrow> bool" where
  "lock_init w \<longleftrightarrow> 0 < clock w \<and> lock_table w = Map.empty \<and> granted w = (\<lambda>_ _. 0)"

definition live :: "lock_world \<Rightarrow> string \<Rightarrow> string \<Rightarrow> bool" where
  "live w ownerID key \<longleftrightarrow> clock w < granted w ownerID key"

definition lock_inv :: "lock_world \<Rightarrow> bool" where
  "lock_inv w \<longleftrightarrow> 0 < clock w \<and> (\<forall>ownerID key. live w ownerID key \<longrightarrow>
     (\<exists>r. lock_table w key = Some r \<and> OwnerID r = ownerID \<and> ExpiresAt r = granted w ownerID key))"

lemma lock_inv_live: "lock_inv w \<Longrightarrow> clock w < granted w q key \<Longrightarrow>
    \<exists>r. lock_table w key = Some r \<and> OwnerID r = q \<and> ExpiresAt r = granted w q key"
  by (simp add: lock_inv_def live_def)

lemma lock_step_inv: "lock_inv w \<Longrightarrow> lock_step w w' \<Longrightarrow> lock_inv w'"
proof -
  assume inv: "lock_inv w" and st: "lock_step w w'"
  from st inv show ?thesis
  proof cases
    case (over t ttl key q)
    show ?thesis
    proof (cases "free_at t key (lock_table w) \<and> lock_table w key \<noteq> None")
      case True
      then have "\<not> clock w < granted w p key" for p
        using lock_inv_live [OF inv, of p key] over by (auto simp: free_at_def)
      then show ?thesis using inv over True
        by (auto simp: lock_inv_def live_def granted_if_def grant_def take_over_def free_at_def)
    next
      case False
      then show ?thesis using inv over
        by (auto simp: granted_if_def take_over_def free_at_def split: option.splits)
    qed
  next
    case (insert t ttl key q)
    show ?thesis
    proof (cases "lock_table w key = None")
      case True
      then have "\<not> clock w < granted w p key" for p
        using lock_inv_live [OF inv, of p key] by auto
      then show ?thesis using inv insert True
        by (auto simp: lock_inv_def live_def granted_if_def grant_def insert_lock_def)
    next
      case False
      then show ?thesis using inv insert by (auto simp: granted_if_def insert_lock_def)
    qed
  next
    case (renew t ttl key q)
    have other: "\<not> clock w < granted w p key" if "lock_table w key = Some r" "p \<noteq> OwnerID r" for p r
      using lock_inv_live [OF inv, of p key] that by auto
    show ?thesis using inv renew other
      by (auto simp: lock_inv_def live_def granted_if_def grant_def renew_stmt_def split: option.splits)
  next
    case (release q key)
    have other: "\<not> clock w < granted w p key" if "lock_table w key = Some r" "p \<noteq> OwnerID r" for p r
      using lock_inv_live [OF inv, of p key] that by auto
    show ?thesis using inv release other
      by (auto simp: lock_inv_def live_def grant_def release_stmt_def split: option.splits)
  qed (auto simp: lock_inv_def live_def)
qed

interpretation lock: transition_system lock_init lock_step lock_inv
proof unfold_locales
  show "lock_inv s" if "lock_init s" for s
    using that by (simp add: lock_init_def lock_inv_def live_def)
qed (rule lock_step_inv)

subsection \<open>Properties\<close>

text \<open>C21: Mutual exclusion: however the statements of any number of owners interleave, with clock
  readings as stale as they like, two owners never both hold an unexpired lease on a key, and
  the holder of an unexpired lease is the owner in the table.\<close>

theorem lock_mutual_exclusion:
  assumes "lock_init w0" and "lock_step\<^sup>*\<^sup>* w0 w" and "live w p key" and "live w q key"
  shows "p = q \<and> (\<exists>r. lock_table w key = Some r \<and> OwnerID r = p \<and> clock w < ExpiresAt r)"
proof -
  have inv: "lock_inv w" using lock.reachable_inv [OF assms(1,2)] .
  from lock_inv_live [OF inv, of p key] lock_inv_live [OF inv, of q key] assms(3,4) show ?thesis
    by (auto simp: live_def)
qed

definition lock_start :: lock_world where
  "lock_start = \<lparr> clock = 1, lock_table = Map.empty, granted = (\<lambda>_ _. 0) \<rparr>"

theorem lock_mutual_exclusion_witness:
  "\<exists>w. lock_step\<^sup>*\<^sup>* lock_start w \<and> live w ''a'' ''k'' \<and> (\<exists>r. lock_table w ''k'' = Some r \<and> OwnerID r = ''a'')"
proof -
  define w where "w = granted_if (insert_lock 1 ''k'' ''a'' 10 (lock_table lock_start)) ''a'' ''k'' (1 + 10) lock_start"
  have st: "lock_step lock_start w"
    unfolding w_def by (rule lock_step.insert) (simp_all add: lock_start_def)
  have init: "lock_init lock_start" by (simp add: lock_init_def lock_start_def)
  have live: "live w ''a'' ''k''"
    by (simp add: w_def live_def granted_if_def insert_lock_def grant_def lock_start_def)
  from lock_mutual_exclusion [OF init r_into_rtranclp [of lock_step, OF st] live live] st live show ?thesis by blast
qed

text \<open>C34: Acquiring is exact: on valid input it waits out up to four transient errors and then takes
  the lock exactly when no live row holds the key, writing a row that is the caller's for the
  given time; whatever errors it meets, a call that does not report the lock as acquired
  leaves the table as it was.\<close>

theorem acquire_exact:
  assumes "validateDistributedLockInput key ownerID ttl = None"
    and "i < 5" and "\<forall>j < i. \<exists>t m. env j = (t, Some m, None) \<and> isTransientLockError m"
    and "env i = (now, None, None)"
  shows "acquireLockForOwner env key ownerID ttl L
      = (Inr (free_at now key L), if free_at now key L then L(key \<mapsto> fresh_row now ownerID ttl) else L)
    \<and> (\<forall>env'. fst (acquireLockForOwner env' key ownerID ttl L) \<noteq> Inr True
        \<longrightarrow> snd (acquireLockForOwner env' key ownerID ttl L) = L)"
proof
  show "acquireLockForOwner env key ownerID ttl L
      = (Inr (free_at now key L), if free_at now key L then L(key \<mapsto> fresh_row now ownerID ttl) else L)"
    using assms(1) acquire_attempts_retry [of i 5 env 0 now] assms(2-4)
    by (simp add: acquireLockForOwner_def)
  show "\<forall>env'. fst (acquireLockForOwner env' key ownerID ttl L) \<noteq> Inr True
        \<longrightarrow> snd (acquireLockForOwner env' key ownerID ttl L) = L"
  proof (intro allI impI)
    fix env' assume n: "fst (acquireLockForOwner env' key ownerID ttl L) \<noteq> Inr True"
    obtain r L' where a: "acquire_attempts 5 0 env' None key ownerID ttl L = (r, L')" by force
    from acquire_attempts_sound [OF a] n a assms(1)
    show "snd (acquireLockForOwner env' key ownerID ttl L) = L" by (auto simp: acquireLockForOwner_def)
  qed
qed

theorem acquire_exact_witness:
  "fst (acquireLockForOwner (\<lambda>j. if j = 0 then (5, Some ''database is locked'', None) else (6, None, None))
      ''cron'' ''host-1'' 30 Map.empty) = Inr True"
proof -
  have v: "validateDistributedLockInput ''cron'' ''host-1'' 30 = None" by code_simp
  have m: "isTransientLockError ''database is locked''" by code_simp
  show ?thesis
    using acquire_exact [OF v, of 1 "\<lambda>j. if j = 0 then (5, Some ''database is locked'', None) else (6, None, None)" 6 Map.empty] m
    by (simp add: free_at_def)
qed

text \<open>A key with surrounding blanks is never released: acquiring accepts and stores the key as
  given, while releasing looks for the trimmed key, so the release reports success and the
  lease stays until it expires.\<close>

theorem padded_key_not_released:
  assumes "TrimSpace key \<noteq> key" and "TrimSpace key \<noteq> ''''" and "TrimSpace ownerID \<noteq> ''''"
    and "free_at now key L"
  shows "(let L1 = snd (tryAcquireLockForOwner now None None key ownerID ttl L);
             (e, L2) = ReleaseLock None key ownerID L1
          in e = None \<and> L2 key = Some (fresh_row now ownerID ttl))"
  using assms by (auto simp: tryAcquire_spec ReleaseLock_def release_stmt_def Let_def split: option.split)

theorem padded_key_not_released_witness:
  "validateDistributedLockInput '' cron'' ''h'' 30 = None
    \<and> snd (ReleaseLock None '' cron'' ''h'' (snd (tryAcquireLockForOwner 5 None None '' cron'' ''h'' 30 Map.empty))) '' cron''
      = Some (fresh_row 5 ''h'' 30)"
proof -
  have t: "TrimSpace '' cron'' = ''cron''" "TrimSpace ''h'' = ''h''" by code_simp+
  have v: "validateDistributedLockInput '' cron'' ''h'' 30 = None" by code_simp
  from padded_key_not_released [of "'' cron''" "''h''" 5 Map.empty 30] t v show ?thesis
    by (simp add: free_at_def case_prod_beta Let_def)
qed

end
