(* ===== verification/Usage.thy ===== *)
theory Usage
  imports BillingRules
begin

section \<open>Token usage reported by the upstream (\<^verbatim>\<open>proxy/stream_usage.go\<close>)\<close>

text \<open>
  The usage object of an upstream response, in the dialects of the vendors, as one record of
  token counts. OpenAI and Gemini report a prompt total that includes cached tokens; Anthropic
  reports cached and cache-writing tokens beside the prompt, and they are added to it. Gemini
  reports thoughts beside the candidates, and they are added to the completion. The queries on
  the object are a parameter (\<open>gj\<close>).
\<close>

record usageTokenCounts =
  PromptTokens :: int64
  CompletionTokens :: int64
  CachedTokens :: int64
  CacheWriteTokens :: int64
  CacheWrite5mTokens :: int64
  CacheWrite1hTokens :: int64
  ReasoningTokens :: int64
  HasPromptTokens :: bool
  HasCompletionTokens :: bool
  HasCachedTokens :: bool
  HasCacheWriteTokens :: bool
  HasReasoningTokens :: bool

definition no_usage :: usageTokenCounts where
  "no_usage = \<lparr> PromptTokens = 0, CompletionTokens = 0, CachedTokens = 0, CacheWriteTokens = 0,
     CacheWrite5mTokens = 0, CacheWrite1hTokens = 0, ReasoningTokens = 0, HasPromptTokens = False,
     HasCompletionTokens = False, HasCachedTokens = False, HasCacheWriteTokens = False,
     HasReasoningTokens = False \<rparr>"

definition HasAny :: "usageTokenCounts \<Rightarrow> bool" where
  "HasAny u \<longleftrightarrow> HasPromptTokens u \<or> HasCompletionTokens u \<or> HasCachedTokens u
     \<or> HasCacheWriteTokens u \<or> HasReasoningTokens u"

definition HasBillableTokens :: "usageTokenCounts \<Rightarrow> bool" where
  "HasBillableTokens u \<longleftrightarrow> 0 < wrap64 (PromptTokens u + CompletionTokens u)"

fun usageInt :: "gj \<Rightarrow> string list \<Rightarrow> int64 option" where
  "usageInt usage [] = None"
| "usageInt usage (path # paths) =
     (let v = ResGet usage path in if ResExists v then Some (ResInt v) else usageInt usage paths)"

subsection \<open>The stages of the extraction\<close>

definition prompt_counts :: "gj \<Rightarrow> usageTokenCounts \<Rightarrow> usageTokenCounts" where
  "prompt_counts usage out =
     (case (usageInt usage [''prompt_tokens''], usageInt usage [''input_tokens''],
            usageInt usage [''promptTokenCount'', ''prompt_token_count'']) of
        (Some p, _, _) \<Rightarrow> out \<lparr> PromptTokens := p, HasPromptTokens := True \<rparr>
      | (None, Some p, _) \<Rightarrow> out \<lparr> PromptTokens := p, HasPromptTokens := True \<rparr>
      | (None, None, Some p) \<Rightarrow> out \<lparr> PromptTokens := p, HasPromptTokens := True \<rparr>
      | (None, None, None) \<Rightarrow> out)"

definition completion_counts :: "gj \<Rightarrow> usageTokenCounts \<Rightarrow> usageTokenCounts" where
  "completion_counts usage out =
     (case usageInt usage [''completion_tokens'', ''output_tokens'', ''candidatesTokenCount'',
             ''candidates_token_count''] of
        None \<Rightarrow> out | Some v \<Rightarrow> out \<lparr> CompletionTokens := v, HasCompletionTokens := True \<rparr>)"

definition cached_counts :: "gj \<Rightarrow> usageTokenCounts \<Rightarrow> usageTokenCounts" where
  "cached_counts usage out =
     (case usageInt usage [''prompt_tokens_details.cached_tokens'', ''input_tokens_details.cached_tokens'',
             ''cache_read_input_tokens'', ''cachedContentTokenCount'', ''cached_content_token_count''] of
        None \<Rightarrow> out | Some v \<Rightarrow> out \<lparr> CachedTokens := v, HasCachedTokens := True \<rparr>)"

definition cache_write_counts :: "gj \<Rightarrow> usageTokenCounts \<Rightarrow> usageTokenCounts" where
  "cache_write_counts usage out =
     (let w5 = usageInt usage [''cache_creation.ephemeral_5m_input_tokens'',
                 ''cache_creation.ephemeral5m_input_tokens'', ''cache_creation_5m_input_tokens'',
                 ''cache_write_5m_input_tokens''];
          w1 = usageInt usage [''cache_creation.ephemeral_1h_input_tokens'',
                 ''cache_creation.ephemeral1h_input_tokens'', ''cache_creation_1h_input_tokens'',
                 ''cache_write_1h_input_tokens''];
          n5 = (case w5 of None \<Rightarrow> 0 | Some n \<Rightarrow> n); n1 = (case w1 of None \<Rightarrow> 0 | Some n \<Rightarrow> n) in
      if w5 \<noteq> None \<or> w1 \<noteq> None
      then out \<lparr> CacheWrite5mTokens := n5, CacheWrite1hTokens := n1, CacheWriteTokens := wrap64 (n5 + n1),
                 HasCacheWriteTokens := True \<rparr>
      else case usageInt usage [''cache_creation_input_tokens'', ''cache_write_input_tokens'',
                  ''prompt_tokens_details.cache_creation_tokens'', ''input_tokens_details.cache_creation_tokens''] of
             None \<Rightarrow> out
           | Some v \<Rightarrow> out \<lparr> CacheWriteTokens := v, CacheWrite5mTokens := v, HasCacheWriteTokens := True \<rparr>)"

definition reasoning_counts :: "gj \<Rightarrow> usageTokenCounts \<Rightarrow> usageTokenCounts" where
  "reasoning_counts usage out =
     (let out1 = (case usageInt usage [''completion_tokens_details.reasoning_tokens'',
                    ''output_tokens_details.reasoning_tokens'', ''reasoning_tokens'', ''thoughtsTokenCount'',
                    ''thoughts_token_count''] of
                    None \<Rightarrow> out | Some v \<Rightarrow> out \<lparr> ReasoningTokens := v, HasReasoningTokens := True \<rparr>) in
      if HasReasoningTokens out1
         \<and> (ResExists (ResGet usage ''thoughtsTokenCount'') \<or> ResExists (ResGet usage ''thoughts_token_count''))
      then out1 \<lparr> CompletionTokens := wrap64 (CompletionTokens out1 + ReasoningTokens out1),
                  HasCompletionTokens := True \<rparr>
      else out1)"

definition detailsContainsCacheTokens :: "gj \<Rightarrow> string \<Rightarrow> bool" where
  "detailsContainsCacheTokens usage detailsKey =
     (let d = ResGet usage detailsKey in
      if \<not> ResExists d \<or> \<not> ResIsObject d then False
      else list_ex (\<lambda>k. ResExists (ResGet d k))
             [''cached_tokens'', ''cache_read_tokens'', ''cache_creation_tokens'', ''cache_write_tokens''])"

definition promptIncludesCache :: "gj \<Rightarrow> bool" where
  "promptIncludesCache usage \<longleftrightarrow>
     usageInt usage [''prompt_tokens''] \<noteq> None
   \<or> usageInt usage [''promptTokenCount'', ''prompt_token_count''] \<noteq> None
   \<or> detailsContainsCacheTokens usage ''prompt_tokens_details''
   \<or> detailsContainsCacheTokens usage ''input_tokens_details''
   \<or> ResExists (ResGet usage ''promptTokenCount'') \<or> ResExists (ResGet usage ''prompt_token_count'')"

text \<open>A prompt that is missing beside cache counters is made of them.\<close>

definition prompt_from_cache :: "usageTokenCounts \<Rightarrow> usageTokenCounts" where
  "prompt_from_cache out =
     (if \<not> HasPromptTokens out \<and> (HasCachedTokens out \<or> HasCacheWriteTokens out)
      then out \<lparr> PromptTokens := wrap64 (CachedTokens out + CacheWriteTokens out), HasPromptTokens := True \<rparr>
      else out)"

definition extractUsageTokenCounts :: "gj \<Rightarrow> usageTokenCounts" where
  "extractUsageTokenCounts usage =
     (if \<not> ResExists usage then no_usage
      else let out = prompt_from_cache (reasoning_counts usage (cache_write_counts usage
                 (cached_counts usage (completion_counts usage (prompt_counts usage no_usage))))) in
        if HasPromptTokens out \<and> \<not> promptIncludesCache usage
        then out \<lparr> PromptTokens := wrap64 (PromptTokens out + wrap64 (CachedTokens out + CacheWriteTokens out)) \<rparr>
        else out)"

subsection \<open>The dialects of the vendors\<close>

text \<open>A usage object with integer members at the given paths.\<close>

definition count_value :: "int64 \<Rightarrow> gj" where
  "count_value n = Gj GNumber (show_int n) (show_int n) (f64_of_int n) n False False [] (\<lambda>_. GjNone)"

definition usage_object :: "(string \<times> int64) list \<Rightarrow> gj" where
  "usage_object ms = Gj GJSON '''' '''' (Fin 0) 0 True False []
     (\<lambda>path. case map_of ms path of None \<Rightarrow> GjNone | Some n \<Rightarrow> count_value n)"

lemma usage_object_simps [simp]:
  "ResExists (usage_object ms)"
  "ResExists (ResGet (usage_object ms) p) \<longleftrightarrow> map_of ms p \<noteq> None"
  "ResInt (ResGet (usage_object ms) p) = (case map_of ms p of None \<Rightarrow> 0 | Some n \<Rightarrow> n)"
  "ResIsObject (ResGet (usage_object ms) p) = False"
  by (simp_all add: usage_object_def count_value_def ResExists_def split: option.split)

lemma usageInt_object: "usageInt (usage_object ms) ps
    = (case filter (\<lambda>p. map_of ms p \<noteq> None) ps of [] \<Rightarrow> None | p # _ \<Rightarrow> map_of ms p)"
  by (induction ps) (auto simp: Let_def)

text \<open>The same traffic as the vendors report it: \<open>i\<close> fresh, \<open>c\<close> cached and \<open>w\<close> cache-writing input
  tokens, \<open>o\<close> output tokens of which \<open>r\<close> are reasoning.\<close>

definition anthropic_usage :: "int64 \<Rightarrow> int64 \<Rightarrow> int64 \<Rightarrow> int64 \<Rightarrow> gj" where
  "anthropic_usage i c w out = usage_object
     [(''input_tokens'', i), (''cache_read_input_tokens'', c), (''cache_creation_input_tokens'', w),
      (''output_tokens'', out)]"

definition openai_usage :: "int64 \<Rightarrow> int64 \<Rightarrow> int64 \<Rightarrow> int64 \<Rightarrow> int64 \<Rightarrow> gj" where
  "openai_usage i c w out r = usage_object
     [(''prompt_tokens'', i + c + w), (''prompt_tokens_details.cached_tokens'', c),
      (''prompt_tokens_details.cache_creation_tokens'', w), (''completion_tokens'', out),
      (''completion_tokens_details.reasoning_tokens'', r)]"

definition gemini_usage :: "int64 \<Rightarrow> int64 \<Rightarrow> int64 \<Rightarrow> int64 \<Rightarrow> gj" where
  "gemini_usage i c out r = usage_object
     [(''promptTokenCount'', i + c), (''cachedContentTokenCount'', c),
      (''candidatesTokenCount'', out - r), (''thoughtsTokenCount'', r)]"

lemmas extract_defs = extractUsageTokenCounts_def prompt_from_cache_def promptIncludesCache_def
  detailsContainsCacheTokens_def reasoning_counts_def cache_write_counts_def cached_counts_def
  completion_counts_def prompt_counts_def no_usage_def

lemma anthropic_counts:
  assumes "in_i64 (c + w)" "in_i64 (i + (c + w))"
  shows "extractUsageTokenCounts (anthropic_usage i c w out) = no_usage
    \<lparr> PromptTokens := i + (c + w), CompletionTokens := out, CachedTokens := c, CacheWriteTokens := w,
      CacheWrite5mTokens := w, HasPromptTokens := True, HasCompletionTokens := True,
      HasCachedTokens := True, HasCacheWriteTokens := True \<rparr>"
  using assms by (simp add: extract_defs anthropic_usage_def usageInt_object)

lemma openai_counts:
  "extractUsageTokenCounts (openai_usage i c w out r) = no_usage
    \<lparr> PromptTokens := i + c + w, CompletionTokens := out, CachedTokens := c, CacheWriteTokens := w,
      CacheWrite5mTokens := w, ReasoningTokens := r, HasPromptTokens := True, HasCompletionTokens := True,
      HasCachedTokens := True, HasCacheWriteTokens := True, HasReasoningTokens := True \<rparr>"
  by (simp add: extract_defs openai_usage_def usageInt_object)

lemma gemini_counts:
  assumes "in_i64 out"
  shows "extractUsageTokenCounts (gemini_usage i c out r) = no_usage
    \<lparr> PromptTokens := i + c, CompletionTokens := out, CachedTokens := c, ReasoningTokens := r,
      HasPromptTokens := True, HasCompletionTokens := True, HasCachedTokens := True,
      HasReasoningTokens := True \<rparr>"
  using assms by (simp add: extract_defs gemini_usage_def usageInt_object)

subsection \<open>Properties\<close>

text \<open>The same traffic gives the same counts in every vendor's dialect: the prompt total, the
  cached and the cache-writing part and the completion agree between an Anthropic report, which
  keeps the parts apart, and an OpenAI report, which sums them up, and without cache writes
  with a Gemini report, which keeps the reasoning apart.\<close>

theorem vendors_agree:
  assumes "in_i64 (c + w)" and "in_i64 (i + c + w)" and "in_i64 out"
  shows "(\<lambda>u. (PromptTokens u, CachedTokens u, CacheWriteTokens u, CacheWrite5mTokens u,
               CacheWrite1hTokens u, CompletionTokens u)) (extractUsageTokenCounts (anthropic_usage i c w out))
    = (i + c + w, c, w, w, 0, out)
   \<and> extractUsageTokenCounts (openai_usage i c w out r) = (extractUsageTokenCounts (anthropic_usage i c w out))
        \<lparr> ReasoningTokens := r, HasReasoningTokens := True \<rparr>
   \<and> extractUsageTokenCounts (gemini_usage i c out r) = (extractUsageTokenCounts (openai_usage i c 0 out r))
        \<lparr> HasCacheWriteTokens := False \<rparr>"
  using assms by (simp add: anthropic_counts openai_counts gemini_counts no_usage_def algebra_simps)

theorem vendors_agree_witness:
  "PromptTokens (extractUsageTokenCounts (anthropic_usage 10 200 30 50)) = 240
    \<and> PromptTokens (extractUsageTokenCounts (openai_usage 10 200 30 50 20)) = 240"
  using vendors_agree [of 200 30 10 50 20] by (simp add: i64_defs)

text \<open>Only the first stage and the last two touch the prompt.\<close>

lemma stages_keep_prompt [simp]:
  "HasPromptTokens (completion_counts usage out) = HasPromptTokens out"
  "HasPromptTokens (cached_counts usage out) = HasPromptTokens out"
  "HasPromptTokens (cache_write_counts usage out) = HasPromptTokens out"
  "HasPromptTokens (reasoning_counts usage out) = HasPromptTokens out"
  by (auto simp: completion_counts_def cached_counts_def cache_write_counts_def reasoning_counts_def Let_def
      split: option.split)

definition no_input_count :: "gj \<Rightarrow> bool" where
  "no_input_count usage \<longleftrightarrow> list_all (\<lambda>k. \<not> ResExists (ResGet usage k))
     [''prompt_tokens'', ''input_tokens'', ''promptTokenCount'', ''prompt_token_count'']"

lemma prompt_counts_none: "no_input_count usage \<Longrightarrow> prompt_counts usage out = out"
  by (simp add: no_input_count_def prompt_counts_def)

lemma includes_details: "no_input_count usage \<Longrightarrow> promptIncludesCache usage
    \<longleftrightarrow> detailsContainsCacheTokens usage ''prompt_tokens_details'' \<or> detailsContainsCacheTokens usage ''input_tokens_details''"
  by (simp add: no_input_count_def promptIncludesCache_def)

text \<open>C40: A report without any input count is counted by its cache counters, and twice. For every usage
  object that has none of the four input counts but some counter of cached or cache-writing
  tokens, whatever else it reports, the prompt is made of the sum of these counters; and unless
  one of the two details objects carries a cache counter (then the sum stands), the same sum is
  added to it once more. In the dialect of Anthropic, whose cache counters are no part of
  details, the prompt is so twice the tokens that were reported.\<close>

theorem cache_only_prompt_doubled:
  assumes "ResExists usage" and "no_input_count usage"
    and "HasCachedTokens (extractUsageTokenCounts usage) \<or> HasCacheWriteTokens (extractUsageTokenCounts usage)"
    and "s = CachedTokens (extractUsageTokenCounts usage) + CacheWriteTokens (extractUsageTokenCounts usage)"
    and "in_i64 s" and "in_i64 (2 * s)"
  shows "PromptTokens (extractUsageTokenCounts usage) =
    (if detailsContainsCacheTokens usage ''prompt_tokens_details'' \<or> detailsContainsCacheTokens usage ''input_tokens_details''
     then s else 2 * s)"
proof -
  define out where "out = reasoning_counts usage (cache_write_counts usage (cached_counts usage (completion_counts usage no_usage)))"
  have np: "\<not> HasPromptTokens out" by (simp add: out_def no_usage_def)
  have e: "extractUsageTokenCounts usage = (let o' = prompt_from_cache out in
      if HasPromptTokens o' \<and> \<not> promptIncludesCache usage
      then o' \<lparr> PromptTokens := wrap64 (PromptTokens o' + wrap64 (CachedTokens o' + CacheWriteTokens o')) \<rparr> else o')"
    using assms(1) prompt_counts_none [OF assms(2)] by (simp add: extractUsageTokenCounts_def out_def Let_def)
  have has: "HasCachedTokens out \<or> HasCacheWriteTokens out" and s: "s = CachedTokens out + CacheWriteTokens out"
    using assms(3,4) unfolding e Let_def by (auto simp: prompt_from_cache_def split: if_splits)
  have w: "wrap64 s = s" "wrap64 (s + s) = 2 * s" "wrap64 (2 * s) = 2 * s" using assms(5,6) by simp_all
  have p: "prompt_from_cache out = out \<lparr> PromptTokens := s, HasPromptTokens := True \<rparr>"
    using np has by (simp add: prompt_from_cache_def s [symmetric] w)
  have "PromptTokens (extractUsageTokenCounts usage) = (if promptIncludesCache usage then s else 2 * s)"
    unfolding e p by (simp add: Let_def s [symmetric] w)
  then show ?thesis unfolding includes_details [OF assms(2)] .
qed

definition cache_report :: gj where
  "cache_report = usage_object
     [(''cache_read_input_tokens'', 100), (''cache_creation_input_tokens'', 30), (''output_tokens'', 7)]"

lemma cache_report_counts:
  "CachedTokens (extractUsageTokenCounts cache_report) = 100" "CacheWriteTokens (extractUsageTokenCounts cache_report) = 30"
  "HasCachedTokens (extractUsageTokenCounts cache_report)"
  by (simp_all add: cache_report_def extract_defs usageInt_object i64_defs)

theorem cache_only_prompt_doubled_witness: "PromptTokens (extractUsageTokenCounts cache_report) = 260"
proof -
  have "ResExists cache_report" "no_input_count cache_report"
    "\<not> detailsContainsCacheTokens cache_report ''prompt_tokens_details''"
    "\<not> detailsContainsCacheTokens cache_report ''input_tokens_details''"
    by (simp_all add: cache_report_def no_input_count_def detailsContainsCacheTokens_def)
  then show ?thesis
    using cache_only_prompt_doubled [of cache_report 130] cache_report_counts by (simp add: i64_defs)
qed

end
