(* ===== verification/Precheck.thy ===== *)
theory Precheck
  imports SubscriptionEngine
begin

section \<open>Estimates before a request (\<^verbatim>\<open>proxy/stream_precheck.go\<close>)\<close>

text \<open>
  The rough token count of a request body and the amount held against the balance before the
  upstream is called. \<open>cjk\<close> stands for the four Unicode script tables of Go's
  \<^verbatim>\<open>unicode\<close> package, which the counter consults; \<open>routes\<close> is the route cache.
\<close>

subsection \<open>Tokens of texts\<close>

definition ceil_div :: "int \<Rightarrow> int \<Rightarrow> int" where
  "ceil_div n d = (if n \<le> 0 then 0 else (n + d - 1) sdiv d)"

definition estimateTextPrecheckTokens :: "(string \<Rightarrow> bool) \<Rightarrow> string \<Rightarrow> int" where
  "estimateTextPrecheckTokens cjk s =
     (let rs = utf8_runes s;
          cjkRunes = int (length (filter cjk rs));
          asciiLike = int (length (filter (\<lambda>r. \<not> cjk r \<and> length r = 1) rs));
          other = int (length (filter (\<lambda>r. \<not> cjk r \<and> length r \<noteq> 1) rs))
      in cjkRunes + ceil_div asciiLike 2 + ceil_div other 2)"

text \<open>Each part of a content gives its text tokens or counts as one part that is not text.\<close>

definition content_part :: "(string \<Rightarrow> bool) \<Rightarrow> gj \<Rightarrow> int \<times> int" where
  "content_part cjk p =
     (let txt = (\<lambda>s. (estimateTextPrecheckTokens cjk s, 0)) in
      if ResType p = GString then txt (ResString p)
      else let t = ToLower (TrimSpace (ResString (ResGet p ''type''))); x = ResGet p ''text'' in
        if t \<in> {''text'', ''input_text'', ''output_text'', ''''}
        then (if ResExists x then txt (ResString x)
              else if list_ex (\<lambda>k. ResExists (ResGet p k)) [''image_url'', ''source'', ''inline_data'', ''file_data'']
              then (0, 1) else (0, 0))
        else if t \<in> {''image'', ''image_url'', ''input_image'', ''input_audio'', ''audio'', ''video'', ''file'', ''input_file''}
        then (0, 1)
        else if ResExists x then txt (ResString x) else (0, 1))"

definition plus2 :: "int \<times> int \<Rightarrow> int \<times> int \<Rightarrow> int \<times> int" where
  "plus2 a b = (fst a + fst b, snd a + snd b)"

definition sum_parts :: "('a \<Rightarrow> int \<times> int) \<Rightarrow> 'a list \<Rightarrow> int \<times> int" where
  "sum_parts f xs = foldr (\<lambda>x acc. plus2 (f x) acc) xs (0, 0)"

definition content_tokens :: "(string \<Rightarrow> bool) \<Rightarrow> gj \<Rightarrow> int \<times> int" where
  "content_tokens cjk content =
     (if \<not> ResExists content then (0, 0)
      else if ResIsArray content then sum_parts (content_part cjk) (ResItems content)
      else content_part cjk content)"

definition text_tokens :: "(string \<Rightarrow> bool) \<Rightarrow> string \<Rightarrow> int \<times> int" where
  "text_tokens cjk s = (estimateTextPrecheckTokens cjk s, 0)"

definition if_present :: "(gj \<Rightarrow> int \<times> int) \<Rightarrow> gj \<Rightarrow> int \<times> int" where
  "if_present f v = (if ResExists v then f v else (0, 0))"

subsection \<open>Tokens of a request body\<close>

definition message_tokens :: "(string \<Rightarrow> bool) \<Rightarrow> gj \<Rightarrow> int \<times> int" where
  "message_tokens cjk m = plus2 (text_tokens cjk (ResString (ResGet m ''role''))) (content_tokens cjk (ResGet m ''content''))"

definition input_item_tokens :: "(string \<Rightarrow> bool) \<Rightarrow> gj \<Rightarrow> int \<times> int" where
  "input_item_tokens cjk item =
     (if ResType item = GString then text_tokens cjk (ResString item)
      else sum_parts id
        [message_tokens cjk item,
         if_present (\<lambda>v. text_tokens cjk (ResString v)) (ResGet item ''text''),
         if_present (content_tokens cjk) (ResGet item ''output''),
         if_present (\<lambda>v. text_tokens cjk (ResString v)) (ResGet item ''arguments'')])"

definition gemini_part_tokens :: "(string \<Rightarrow> bool) \<Rightarrow> gj \<Rightarrow> int \<times> int" where
  "gemini_part_tokens cjk p =
     (let x = ResGet p ''text'' in if ResExists x then text_tokens cjk (ResString x) else (0, 1))"

definition array_or_text :: "(string \<Rightarrow> bool) \<Rightarrow> (gj \<Rightarrow> int \<times> int) \<Rightarrow> gj \<Rightarrow> int \<times> int" where
  "array_or_text cjk item v = (if \<not> ResExists v then (0, 0)
     else if ResIsArray v then sum_parts item (ResItems v) else text_tokens cjk (ResString v))"

definition array_only :: "(gj \<Rightarrow> int \<times> int) \<Rightarrow> gj \<Rightarrow> int \<times> int" where
  "array_only item v = (if ResIsArray v then sum_parts item (ResItems v) else (0, 0))"

definition estimatePrecheckTokens :: "(string \<Rightarrow> bool) \<Rightarrow> gj_body \<Rightarrow> int" where
  "estimatePrecheckTokens cjk body =
     (let get = body_get body;
          (totalTokens, nonTextParts) = sum_parts id
            [array_only (message_tokens cjk) (get ''messages''),
             array_or_text cjk (\<lambda>p. text_tokens cjk (ResString (ResGet p ''text''))) (get ''system''),
             array_or_text cjk (\<lambda>p. text_tokens cjk (ResString p)) (get ''prompt''),
             array_or_text cjk (input_item_tokens cjk) (get ''input''),
             if_present (\<lambda>v. text_tokens cjk (ResString v)) (get ''instructions''),
             array_only (\<lambda>c. plus2 (text_tokens cjk (ResString (ResGet c ''role'')))
                (sum_parts (gemini_part_tokens cjk) (ResItems (ResGet c ''parts'')))) (get ''contents''),
             array_only (\<lambda>p. if_present (\<lambda>v. text_tokens cjk (ResString v)) (ResGet p ''text''))
                (get ''systemInstruction.parts''),
             array_only (\<lambda>p. text_tokens cjk (ResRaw p)) (get ''tools''),
             array_only (\<lambda>p. text_tokens cjk (ResRaw p)) (get ''functions'')];
          estimated = totalTokens + nonTextParts * 200
      in if estimated < 1 \<and> 0 < totalTokens then 1 else estimated)"

subsection \<open>The amount to hold\<close>

definition firstNonEmptyString :: "string list \<Rightarrow> string" where
  "firstNonEmptyString values = (case find (\<lambda>v. TrimSpace v \<noteq> '''') values of None \<Rightarrow> '''' | Some v \<Rightarrow> v)"

definition precheckQuotaMicroValues :: "EngineDecision \<Rightarrow> int64 \<times> int64 \<times> int64" where
  "precheckQuotaMicroValues decision =
     (case ed_Block decision of None \<Rightarrow> (0, 0, 0)
      | Some d \<Rightarrow>
        if pl_Unit d \<noteq> ''api_cost_usd'' then (0, 0, 0)
        else if 0 < pl_LimitMicroUSD d \<or> 0 < pl_ConsumedMicroUSD d \<or> 0 < pl_RemainingMicroUSD d
        then (pl_LimitMicroUSD d, pl_ConsumedMicroUSD d, pl_RemainingMicroUSD d)
        else let conv = (\<lambda>x. case USDToMicro x of None \<Rightarrow> 0 | Some n \<Rightarrow> n) in
          (conv (pl_LimitValue d), conv (pl_ConsumedValue d), conv (math_Max (Fin 0) (pl_Remaining d))))"

type_synonym routes = "string \<Rightarrow> channel_model list"

text \<open>The prices of a route for the estimated input: the higher tier from its threshold on.\<close>

definition route_prices :: "int64 \<Rightarrow> channel_model \<Rightarrow> int64 \<times> int64" where
  "route_prices inputTokens r =
     (let high = 0 < cm_ContextPriceThreshold r \<and> cm_ContextPriceThreshold r \<le> inputTokens in
      (if high \<and> 0 < cm_HighInputPricePicoPerToken r then cm_HighInputPricePicoPerToken r
       else cm_InputPricePicoPerToken r,
       if high \<and> 0 < cm_HighOutputPricePicoPerToken r then cm_HighOutputPricePicoPerToken r
       else cm_OutputPricePicoPerToken r))"

definition fallbackPricePicoPerToken :: int64 where
  "fallbackPricePicoPerToken = 30 * 1000000000"

definition minDeltaMicroUSD :: int64 where
  "minDeltaMicroUSD = 100"

definition max_price :: "int64 list \<Rightarrow> int64" where
  "max_price ps = (let m = fold max ps 0 in if m \<le> 0 then fallbackPricePicoPerToken else m)"

definition estimatePrecheckBalanceDelta :: "channel_model list \<Rightarrow> int64 \<Rightarrow> int64 \<Rightarrow> int64" where
  "estimatePrecheckBalanceDelta rts inputTokens outputTokens =
     (let inP = max_price (map (fst \<circ> route_prices inputTokens) rts);
          outP = max_price (map (snd \<circ> route_prices inputTokens) rts) in
      case checkedCostMicroUSD [(inputTokens, inP), (0, 0), (outputTokens, outP), (0, 0), (0, 0), (0, 0)] of
        None \<Rightarrow> minDeltaMicroUSD
      | Some delta \<Rightarrow> if delta < minDeltaMicroUSD then minDeltaMicroUSD else delta)"

end
