(* ===== verification/TextPricing.thy ===== *)
theory TextPricing
  imports Usage Precheck
begin

section \<open>The price of a text request (\<^verbatim>\<open>proxy/text_billing.go\<close>, \<^verbatim>\<open>CommitTextTurn\<close>)\<close>

text \<open>
  From the reported token counts and the prices of the selected route to the raw cost: the
  defensive clamping of the counts, the price tiers, the six priced parts, and the audit lines
  by part. All arithmetic is Go's on 64-bit integers.
\<close>

subsection \<open>Clamping the reported counts\<close>

definition zero_neg :: "int64 \<Rightarrow> int64" where
  "zero_neg n = (if n < 0 then 0 else n)"

text \<open>The two kinds of cache writes are cut to a cap, the five-minute kind first.\<close>

definition cut_cache_writes :: "int64 \<Rightarrow> int64 \<Rightarrow> int64 \<Rightarrow> int64 \<times> int64" where
  "cut_cache_writes w5 w1 cap =
     (if cap < wrap64 (w5 + w1)
      then let overflow = wrap64 (wrap64 (w5 + w1) - cap) in
        if overflow \<le> w5 then (w5 - overflow, w1)
        else (0, zero_neg (wrap64 (w1 - (overflow - w5))))
      else (w5, w1))"

definition clamp_usage :: "usageTokenCounts \<Rightarrow> usageTokenCounts" where
  "clamp_usage u =
     (let prompt = zero_neg (PromptTokens u); completion = zero_neg (CompletionTokens u);
          cached0 = zero_neg (CachedTokens u);
          w5 = zero_neg (CacheWrite5mTokens u); w1 = zero_neg (CacheWrite1hTokens u);
          reasoning = zero_neg (ReasoningTokens u);
          write0 = wrap64 (w5 + w1);
          cached = (if prompt < cached0 then prompt else cached0);
          write = (if prompt < wrap64 (cached + write0) then zero_neg (prompt - cached) else write0);
          cut = cut_cache_writes w5 w1 write
      in u \<lparr> PromptTokens := prompt, CompletionTokens := completion, CachedTokens := cached,
             CacheWriteTokens := write, CacheWrite5mTokens := fst cut, CacheWrite1hTokens := snd cut,
             ReasoningTokens := (if completion < reasoning then completion else reasoning) \<rparr>)"

definition standardInputTokens :: "usageTokenCounts \<Rightarrow> int64" where
  "standardInputTokens u = zero_neg (wrap64 (PromptTokens u - CachedTokens u - CacheWriteTokens u))"

definition nonReasoningCompletion :: "usageTokenCounts \<Rightarrow> int64" where
  "nonReasoningCompletion u = zero_neg (CompletionTokens u - ReasoningTokens u)"

subsection \<open>Prices\<close>

record text_prices =
  tp_Input :: int64
  tp_Cached :: int64
  tp_Write5m :: int64
  tp_Write1h :: int64
  tp_Output :: int64

definition tier :: "bool \<Rightarrow> int64 \<Rightarrow> int64 \<Rightarrow> int64" where
  "tier high hp p = (if high \<and> 0 < hp then hp else p)"

definition text_prices_of :: "channel_model \<Rightarrow> usageTokenCounts \<Rightarrow> text_prices" where
  "text_prices_of cm u =
     (let high = 0 < cm_ContextPriceThreshold cm \<and> cm_ContextPriceThreshold cm \<le> PromptTokens u;
          inputP = tier high (cm_HighInputPricePicoPerToken cm) (cm_InputPricePicoPerToken cm);
          cachedP = tier high (cm_HighCachedInputPricePicoPerToken cm) (cm_CachedInputPricePicoPerToken cm);
          outputP = tier high (cm_HighOutputPricePicoPerToken cm) (cm_OutputPricePicoPerToken cm)
      in \<lparr> tp_Input = inputP, tp_Cached = cachedP,
           tp_Write5m = (if cm_CacheWriteInputPricePicoPerToken cm \<le> 0
             then (if 0 < CacheWriteTokens u then wrap64 (inputP * 125) sdiv 100 else inputP)
             else cm_CacheWriteInputPricePicoPerToken cm),
           tp_Write1h = (if cm_CacheWrite1hInputPricePicoPerToken cm \<le> 0 then wrap64 (inputP * 2)
             else cm_CacheWrite1hInputPricePicoPerToken cm),
           tp_Output = outputP \<rparr>)"

definition text_parts :: "usageTokenCounts \<Rightarrow> text_prices \<Rightarrow> (int64 \<times> int64) list" where
  "text_parts u p =
     [(standardInputTokens u, tp_Input p), (CachedTokens u, tp_Cached p),
      (CacheWrite5mTokens u, tp_Write5m p), (CacheWrite1hTokens u, tp_Write1h p),
      (nonReasoningCompletion u, tp_Output p), (ReasoningTokens u, tp_Output p)]"

definition text_cost :: "channel_model \<Rightarrow> usageTokenCounts \<Rightarrow> int64 option" where
  "text_cost cm u = checkedCostMicroUSD (text_parts u (text_prices_of cm u))"

subsection \<open>Audit lines\<close>

definition ceilDivPicoToMicro :: "int64 \<Rightarrow> int64 \<Rightarrow> int64" where
  "ceilDivPicoToMicro tokens picoPerToken =
     (if tokens \<le> 0 \<or> picoPerToken \<le> 0 then 0
      else let prod = tokens * picoPerToken;
               q = prod sdiv 1000000000 + (if 0 < prod smod 1000000000 then 1 else 0)
           in if in_i64 q then q else 0)"

definition line_specs :: "usageTokenCounts \<Rightarrow> text_prices \<Rightarrow> (string \<times> int64 \<times> int64) list" where
  "line_specs u p =
     [(''input'', standardInputTokens u, tp_Input p), (''cache_read'', CachedTokens u, tp_Cached p),
      (''cache_write_5m'', CacheWrite5mTokens u, tp_Write5m p),
      (''cache_write_1h'', CacheWrite1hTokens u, tp_Write1h p), (''output'', CompletionTokens u, tp_Output p)]"

definition usage_line_of :: "nat \<Rightarrow> string \<times> int64 \<times> int64 \<Rightarrow> usage_line" where
  "usage_line_of logID s = (case s of (direction, quantity, pricePico) \<Rightarrow>
     \<lparr> ul_ApiLogID = logID, ul_Direction = direction, ul_Quantity = quantity,
       ul_UnitPriceMicro = pricePico sdiv 1000000000,
       ul_AmountMicroUSD = ceilDivPicoToMicro quantity pricePico \<rparr>)"

definition text_usage_lines :: "nat \<Rightarrow> usageTokenCounts \<Rightarrow> text_prices \<Rightarrow> usage_line list" where
  "text_usage_lines logID u p =
     map (usage_line_of logID) (filter (\<lambda>(d, quantity, q). 0 < quantity) (line_specs u p))"

text \<open>Each line is a statement of its own; a lost one is only logged.\<close>

fun write_lines :: "usage_line list \<Rightarrow> unit tx" where
  "write_lines [] = tx_return ()"
| "write_lines (l # ls) =
     tx_bind (tx_catch (stmt (\<lambda>t. ((), t \<lparr> usage_lines := usage_lines t @ [l] \<rparr>))) (\<lambda>_. tx_return ()))
       (\<lambda>_. write_lines ls)"

definition writeTextUsageLines :: "nat \<Rightarrow> usageTokenCounts \<Rightarrow> text_prices \<Rightarrow> unit tx" where
  "writeTextUsageLines logID u p = write_lines (text_usage_lines logID u p)"

subsection \<open>Facts about the clamped counts\<close>

text \<open>Counts below this bound cannot wrap when three of them are added.\<close>

definition sane_count :: "int64 \<Rightarrow> bool" where
  "sane_count n \<longleftrightarrow> n \<le> 2305843009213693951"

definition sane_usage :: "usageTokenCounts \<Rightarrow> bool" where
  "sane_usage u \<longleftrightarrow> sane_count (PromptTokens u) \<and> sane_count (CompletionTokens u) \<and> sane_count (CachedTokens u)
     \<and> sane_count (CacheWrite5mTokens u) \<and> sane_count (CacheWrite1hTokens u)"

definition well_clamped :: "usageTokenCounts \<Rightarrow> bool" where
  "well_clamped u \<longleftrightarrow> 0 \<le> CachedTokens u \<and> 0 \<le> CacheWrite5mTokens u \<and> 0 \<le> CacheWrite1hTokens u
     \<and> CacheWriteTokens u = CacheWrite5mTokens u + CacheWrite1hTokens u
     \<and> CachedTokens u + CacheWriteTokens u \<le> PromptTokens u \<and> sane_count (PromptTokens u)
     \<and> 0 \<le> ReasoningTokens u \<and> ReasoningTokens u \<le> CompletionTokens u \<and> sane_count (CompletionTokens u)"

lemma zero_neg_simps [simp]: "0 \<le> zero_neg n" "0 \<le> n \<Longrightarrow> zero_neg n = n" "zero_neg (zero_neg n) = zero_neg n"
  by (simp_all add: zero_neg_def)

lemma zero_neg_sane: "sane_count n \<Longrightarrow> sane_count (zero_neg n)"
  by (simp add: zero_neg_def sane_count_def)

lemma sane_in_i64:
  "0 \<le> a \<Longrightarrow> sane_count a \<Longrightarrow> in_i64 a"
  "0 \<le> a \<Longrightarrow> 0 \<le> b \<Longrightarrow> sane_count a \<Longrightarrow> sane_count b \<Longrightarrow> in_i64 (a + b)"
  "0 \<le> a \<Longrightarrow> 0 \<le> b \<Longrightarrow> 0 \<le> c \<Longrightarrow> sane_count a \<Longrightarrow> sane_count b \<Longrightarrow> sane_count c \<Longrightarrow> in_i64 (a + (b + c))"
  by (simp_all add: sane_count_def i64_defs)

lemma cut_cache_writes_sum:
  assumes "0 \<le> a" "0 \<le> b" "0 \<le> cap" "sane_count a" "sane_count b" "sane_count cap"
  shows "0 \<le> fst (cut_cache_writes a b cap) \<and> 0 \<le> snd (cut_cache_writes a b cap)
    \<and> fst (cut_cache_writes a b cap) + snd (cut_cache_writes a b cap) = min cap (a + b)"
proof -
  have i: "in_i64 (a + b)" "in_i64 (a + b - cap)" "in_i64 (b - (a + b - cap - a))"
    using assms by (simp_all add: sane_count_def i64_defs)
  show ?thesis
    using assms i by (auto simp: cut_cache_writes_def Let_def zero_neg_def)
qed

lemma clamp_well:
  assumes "sane_usage u"
  shows "well_clamped (clamp_usage u)"
proof -
  define p where "p = zero_neg (PromptTokens u)"
  define c0 where "c0 = zero_neg (CachedTokens u)"
  define w5 where "w5 = zero_neg (CacheWrite5mTokens u)"
  define w1 where "w1 = zero_neg (CacheWrite1hTokens u)"
  define c where "c = (if p < c0 then p else c0)"
  define w where "w = (if p < wrap64 (c + wrap64 (w5 + w1)) then zero_neg (p - c) else wrap64 (w5 + w1))"
  have s: "sane_count p" "sane_count c0" "sane_count w5" "sane_count w1"
    and n: "0 \<le> p" "0 \<le> c0" "0 \<le> w5" "0 \<le> w1"
    using assms by (auto simp: sane_usage_def p_def c0_def w5_def w1_def intro: zero_neg_sane)
  have c: "0 \<le> c" "c \<le> p" "sane_count c" using s n by (auto simp: c_def)
  have sum: "wrap64 (w5 + w1) = w5 + w1" using s n by (simp add: sane_in_i64)
  have sum3: "wrap64 (c + (w5 + w1)) = c + (w5 + w1)" using s n c by (simp add: sane_in_i64)
  have w: "w = min (p - c) (w5 + w1)"
    using c by (auto simp: w_def sum sum3 zero_neg_def)
  have w': "0 \<le> w" "sane_count w" "w \<le> w5 + w1" "c + w \<le> p" using w c n s by (auto simp: sane_count_def)
  from cut_cache_writes_sum [OF n(3,4) w'(1) s(3,4) w'(2)]
  have cut: "0 \<le> fst (cut_cache_writes w5 w1 w)" "0 \<le> snd (cut_cache_writes w5 w1 w)"
    "w = fst (cut_cache_writes w5 w1 w) + snd (cut_cache_writes w5 w1 w)" using w' by auto
  have o: "sane_count (zero_neg (CompletionTokens u))" using assms by (auto simp: sane_usage_def intro: zero_neg_sane)
  have eq: "clamp_usage u = u \<lparr> PromptTokens := p, CompletionTokens := zero_neg (CompletionTokens u),
      CachedTokens := c, CacheWriteTokens := w, CacheWrite5mTokens := fst (cut_cache_writes w5 w1 w),
      CacheWrite1hTokens := snd (cut_cache_writes w5 w1 w),
      ReasoningTokens := (if zero_neg (CompletionTokens u) < zero_neg (ReasoningTokens u)
        then zero_neg (CompletionTokens u) else zero_neg (ReasoningTokens u)) \<rparr>"
    unfolding clamp_usage_def Let_def p_def c0_def w5_def w1_def c_def w_def ..
  show ?thesis unfolding eq well_clamped_def using cut c w' s o by simp
qed

lemma clamp_id: "well_clamped u \<Longrightarrow> clamp_usage u = u"
proof -
  assume w: "well_clamped u"
  then have "in_i64 (CacheWrite5mTokens u + CacheWrite1hTokens u)"
    "in_i64 (CachedTokens u + (CacheWrite5mTokens u + CacheWrite1hTokens u))"
    by (auto simp: well_clamped_def sane_count_def i64_defs)
  with w show ?thesis
    by (simp add: clamp_usage_def Let_def well_clamped_def cut_cache_writes_def)
qed

lemma standard_input: "well_clamped u \<Longrightarrow> standardInputTokens u
    = PromptTokens u - CachedTokens u - CacheWrite5mTokens u - CacheWrite1hTokens u"
  by (simp add: standardInputTokens_def well_clamped_def sane_count_def i64_defs)

lemma non_reasoning: "well_clamped u \<Longrightarrow> nonReasoningCompletion u = CompletionTokens u - ReasoningTokens u"
  by (simp add: nonReasoningCompletion_def well_clamped_def)

text \<open>The priced parts cover each token once.\<close>

lemma text_parts_cover:
  "well_clamped u \<Longrightarrow> sum_list (map fst (text_parts u p)) = PromptTokens u + CompletionTokens u"
  by (simp add: text_parts_def standard_input non_reasoning)

lemma text_parts_nonneg: "well_clamped u \<Longrightarrow> list_all (\<lambda>tp. 0 \<le> fst tp) (text_parts u p)"
  by (simp add: text_parts_def standardInputTokens_def nonReasoningCompletion_def well_clamped_def)

subsection \<open>Costs of lines and holds\<close>

lemma cdiv_div_mod: "0 < b \<Longrightarrow> cdiv a b = a div b + (if 0 < a mod b then 1 else 0)"
proof -
  assume b: "0 < b"
  obtain q r where qr: "q = a div b" "r = a mod b" by blast
  then have a: "a = q * b + r" "0 \<le> r" "r < b" using b by simp_all
  show ?thesis
    unfolding qr [symmetric]
    by (rule cdiv_unique [OF b]) (use a b in \<open>auto simp: distrib_right\<close>)
qed

lemma ceilDiv_cdiv:
  assumes "0 \<le> t" "0 \<le> p" "in_i64 (cdiv (t * p) 1000000000)"
  shows "ceilDivPicoToMicro t p = cdiv (t * p) 1000000000"
proof (cases "t = 0 \<or> p = 0")
  case False
  then have "0 < t * p" using assms by simp
  then show ?thesis using False assms
    by (simp add: ceilDivPicoToMicro_def Let_def sdiv_nonneg smod_nonneg cdiv_div_mod)
qed (auto simp: ceilDivPicoToMicro_def)

lemma cdiv_sum_bounds:
  assumes "0 < b"
  shows "cdiv (sum_list xs) b \<le> sum_list (map (\<lambda>x. cdiv x b) xs)
    \<and> (xs \<noteq> [] \<longrightarrow> sum_list (map (\<lambda>x. cdiv x b) xs) < cdiv (sum_list xs) b + int (length xs))"
proof
  show "cdiv (sum_list xs) b \<le> sum_list (map (\<lambda>x. cdiv x b) xs)"
  proof (induction xs)
    case (Cons x xs)
    then show ?case using cdiv_add_le [OF assms, of x "sum_list xs"] by simp
  qed (simp add: assms)
  have "sum_list (map (\<lambda>x. cdiv x b) xs) * b < sum_list xs + int (length xs) * b" if "xs \<noteq> []"
    using that
  proof (induction xs)
    case (Cons x xs)
    have "cdiv x b * b < x + b" by (rule cdiv_le [OF assms])
    then show ?case using Cons by (cases "xs = []") (auto simp: distrib_right)
  qed simp
  moreover have "sum_list xs \<le> cdiv (sum_list xs) b * b" by (rule cdiv_ge [OF assms])
  ultimately have "xs \<noteq> [] \<longrightarrow>
      sum_list (map (\<lambda>x. cdiv x b) xs) * b < (cdiv (sum_list xs) b + int (length xs)) * b"
    by (force simp: distrib_right)
  then show "xs \<noteq> [] \<longrightarrow> sum_list (map (\<lambda>x. cdiv x b) xs) < cdiv (sum_list xs) b + int (length xs)"
    using assms by (simp add: mult_less_cancel_right)
qed

lemma line_part_le: "x \<in> set xs \<Longrightarrow> (\<And>y. y \<in> set xs \<Longrightarrow> 0 \<le> y) \<Longrightarrow> x \<le> sum_list xs" for x :: int
  by (rule member_le_sum_list)

lemma text_lines_sum:
  fixes logID :: nat
  assumes w: "well_clamped u" and c: "text_cost cm u = Some c"
  defines "ls \<equiv> text_usage_lines logID u (text_prices_of cm u)"
  shows "c \<le> sum_list (map ul_AmountMicroUSD ls) \<and> sum_list (map ul_AmountMicroUSD ls) \<le> c + 4"
proof -
  define p where "p = text_prices_of cm u"
  define xs where "xs = map (\<lambda>(d, q, pr). q * pr) (line_specs u p)"
  have ok: "list_all valid_price (text_parts u p)" and cc: "c = cdiv (pico_cost (text_parts u p)) 1000000000"
    and ci: "in_i64 c" using c by (auto simp: text_cost_def p_def checkedCost_eq split: if_splits)
  have total: "pico_cost (text_parts u p) = sum_list xs"
    using w by (simp add: text_parts_def xs_def line_specs_def non_reasoning algebra_simps)
  have nn: "0 \<le> q" "0 \<le> pr" if "(d, q, pr) \<in> set (line_specs u p)" for d q pr
    using that ok w by (auto simp: line_specs_def text_parts_def valid_price_def well_clamped_def)
  have xs0: "\<And>y. y \<in> set xs \<Longrightarrow> 0 \<le> y" using nn by (fastforce simp: xs_def)
  have amt: "ceilDivPicoToMicro q pr = cdiv (q * pr) 1000000000"
    if "(d, q, pr) \<in> set (line_specs u p)" for d q pr
  proof (rule ceilDiv_cdiv)
    show n: "0 \<le> q" "0 \<le> pr" using nn that by blast+
    have "q * pr \<in> set xs" using that by (force simp: xs_def)
    then have "q * pr \<le> sum_list xs" using xs0 by (rule line_part_le)
    then have "cdiv (q * pr) 1000000000 \<le> c" unfolding cc total by (rule cdiv_mono [rotated]) simp
    moreover have "0 \<le> cdiv (q * pr) 1000000000" using n by (simp add: cdiv_nonneg)
    ultimately show "in_i64 (cdiv (q * pr) 1000000000)" using ci by (auto simp: i64_defs)
  qed
  have drop0: "sum_list (map g (filter (\<lambda>(d, q, pr). 0 < q) zs)) = sum_list (map g zs)"
    if "\<And>z. z \<in> set zs \<Longrightarrow> \<not> 0 < fst (snd z) \<Longrightarrow> g z = 0" for g :: "string \<times> int \<times> int \<Rightarrow> int" and zs
    using that by (induction zs) auto
  have "sum_list (map ul_AmountMicroUSD ls)
      = sum_list (map (\<lambda>(d, q, pr). ceilDivPicoToMicro q pr) (filter (\<lambda>(d, q, pr). 0 < q) (line_specs u p)))"
    by (simp add: ls_def text_usage_lines_def p_def comp_def usage_line_of_def case_prod_unfold)
  also have "\<dots> = sum_list (map (\<lambda>(d, q, pr). ceilDivPicoToMicro q pr) (line_specs u p))"
    by (rule drop0) (auto simp: ceilDivPicoToMicro_def)
  also have "\<dots> = sum_list (map (\<lambda>x. cdiv x 1000000000) xs)"
    unfolding xs_def map_map comp_def
    by (intro arg_cong [of _ _ sum_list] map_cong refl) (auto simp: amt)
  finally have s: "sum_list (map ul_AmountMicroUSD ls) = sum_list (map (\<lambda>x. cdiv x 1000000000) xs)" .
  have "length xs = 5" by (simp add: xs_def line_specs_def)
  then show ?thesis
    using cdiv_sum_bounds [of 1000000000 xs] unfolding s cc total by (cases xs) auto
qed

text \<open>The cost does not depend on the split of the output into reasoning and the rest.\<close>

lemma text_cost_cong:
  assumes "well_clamped u" "well_clamped v"
    and "PromptTokens v = PromptTokens u" "CachedTokens v = CachedTokens u"
    "CacheWrite5mTokens v = CacheWrite5mTokens u" "CacheWrite1hTokens v = CacheWrite1hTokens u"
    "CompletionTokens v = CompletionTokens u"
  shows "text_cost cm v = text_cost cm u"
proof -
  have cw: "CacheWriteTokens v = CacheWriteTokens u" using assms by (simp add: well_clamped_def)
  then have p: "text_prices_of cm v = text_prices_of cm u" using assms by (simp add: text_prices_of_def Let_def)
  have s: "standardInputTokens v = standardInputTokens u" using assms by (simp add: standard_input)
  have "pico_cost (text_parts v q) = pico_cost (text_parts u q)" for q
    using assms by (simp add: text_parts_def s non_reasoning algebra_simps)
  moreover have "list_all valid_price (text_parts v q) = list_all valid_price (text_parts u q)" for q
    using assms(3-) text_parts_nonneg [OF assms(1), of q] text_parts_nonneg [OF assms(2), of q]
    by (simp add: text_parts_def valid_price_def s)
  ultimately show ?thesis by (simp add: text_cost_def checkedCost_eq p)
qed

lemma fold_max_acc: "a \<le> fold max xs a" for a :: int
proof (induction xs arbitrary: a)
  case (Cons x xs)
  show ?case using Cons [of "max x a"] by simp
qed simp

lemma fold_max_le: "x \<in> set xs \<Longrightarrow> x \<le> fold max xs a" for x :: int
proof (induction xs arbitrary: a)
  case (Cons y ys)
  then show ?case using fold_max_acc [of "max y a" ys] by auto
qed simp

lemma max_price_le: "x \<in> set xs \<Longrightarrow> x \<le> max_price xs"
  using fold_max_le [of x xs 0] by (auto simp: max_price_def Let_def fallbackPricePicoPerToken_def)

lemma fold_max_bound: "(\<And>x. x \<in> set xs \<Longrightarrow> x \<le> b) \<Longrightarrow> a \<le> b \<Longrightarrow> fold max xs a \<le> b" for b :: int
  by (induction xs arbitrary: a) auto

lemma max_price_range:
  "(\<And>x. x \<in> set xs \<Longrightarrow> x \<le> MaxChannelModelPricePicoPerToken) \<Longrightarrow>
    0 \<le> max_price xs \<and> max_price xs \<le> MaxChannelModelPricePicoPerToken"
  using fold_max_bound [of xs MaxChannelModelPricePicoPerToken 0]
  by (auto simp: max_price_def Let_def fallbackPricePicoPerToken_def MaxChannelModelPricePicoPerToken_def)

lemma Validate_prices:
  "ValidateChannelModelPricing (Some r) \<Longrightarrow>
    fst (route_prices n r) \<le> MaxChannelModelPricePicoPerToken \<and> snd (route_prices n r) \<le> MaxChannelModelPricePicoPerToken"
  by (auto simp: ValidateChannelModelPricing_def route_prices_def Let_def)

lemma text_prices_route:
  "tp_Input (text_prices_of cm u) = fst (route_prices (PromptTokens u) cm)"
  "tp_Output (text_prices_of cm u) = snd (route_prices (PromptTokens u) cm)"
  by (simp_all add: text_prices_of_def route_prices_def tier_def Let_def)

subsection \<open>Properties\<close>

text \<open>C36: The clamped counts are well typed: whatever the upstream reports (below 2^61, negative or
  contradictory), after clamping the cached and cache-writing tokens are part of the prompt, the
  two kinds of cache writes add up to their total, the reasoning is part of the completion, and
  the six priced parts cover every token of prompt and completion exactly once. Clamping
  changes no consistent report and is idempotent.\<close>

theorem clamped_usage_consistent:
  assumes "sane_usage u"
  shows "well_clamped (clamp_usage u) \<and> clamp_usage (clamp_usage u) = clamp_usage u
    \<and> (well_clamped u \<longrightarrow> clamp_usage u = u)
    \<and> sum_list (map fst (text_parts (clamp_usage u) p))
        = zero_neg (PromptTokens u) + zero_neg (CompletionTokens u)"
proof -
  have w: "well_clamped (clamp_usage u)" using assms by (rule clamp_well)
  moreover have "PromptTokens (clamp_usage u) = zero_neg (PromptTokens u)"
    "CompletionTokens (clamp_usage u) = zero_neg (CompletionTokens u)"
    by (simp_all add: clamp_usage_def Let_def)
  ultimately show ?thesis using text_parts_cover [OF w] by (simp add: clamp_id)
qed

theorem clamped_usage_consistent_witness:
  "well_clamped (clamp_usage (no_usage \<lparr> PromptTokens := 100, CachedTokens := 70,
     CacheWrite5mTokens := 50, CacheWrite1hTokens := -3, CompletionTokens := -1, ReasoningTokens := 9 \<rparr>))"
  using clamped_usage_consistent
    [of "no_usage \<lparr> PromptTokens := 100, CachedTokens := 70,
     CacheWrite5mTokens := 50, CacheWrite1hTokens := -3, CompletionTokens := -1, ReasoningTokens := 9 \<rparr>"]
  by (simp add: sane_usage_def sane_count_def no_usage_def)

text \<open>C39: The audit lines account for the cost: the amounts of the lines add up to at least the cost of
  the request and at most four micro-dollars more (each line is rounded up on its own, the
  cost once), so they need not be equal to it.\<close>

theorem usage_lines_cover_cost:
  assumes "well_clamped u" and "text_cost cm u = Some c"
  shows "c \<le> sum_list (map ul_AmountMicroUSD (text_usage_lines logID u (text_prices_of cm u)))
    \<and> sum_list (map ul_AmountMicroUSD (text_usage_lines logID u (text_prices_of cm u))) \<le> c + 4"
  using assms by (rule text_lines_sum)

definition demo_route :: channel_model where
  "demo_route = \<lparr> cm_InputPricePicoPerToken = 1, cm_OutputPricePicoPerToken = 1,
     cm_CachedInputPricePicoPerToken = 1, cm_CacheWriteInputPricePicoPerToken = 0,
     cm_CacheWrite1hInputPricePicoPerToken = 0, cm_ContextPriceThreshold = 0,
     cm_HighInputPricePicoPerToken = 0, cm_HighCachedInputPricePicoPerToken = 0,
     cm_HighOutputPricePicoPerToken = 0, cm_Weight = 1 \<rparr>"

definition demo_usage :: usageTokenCounts where
  "demo_usage = no_usage \<lparr> PromptTokens := 1, CompletionTokens := 1 \<rparr>"

lemma demo_usage_cost: "well_clamped demo_usage" "text_cost demo_route demo_usage = Some 1"
  by (simp_all add: demo_usage_def well_clamped_def sane_count_def no_usage_def text_cost_def text_parts_def
      text_prices_of_def demo_route_def tier_def Let_def standardInputTokens_def nonReasoningCompletion_def
      checkedCost_eq valid_price_def MaxChannelModelPricePicoPerToken_def cdiv_def i64_defs)

theorem usage_lines_cover_cost_witness:
  "text_cost demo_route demo_usage = Some 1
    \<and> sum_list (map ul_AmountMicroUSD (text_usage_lines 7 demo_usage (text_prices_of demo_route demo_usage))) = 2
    \<and> (2 :: int) \<le> 1 + 4"
proof -
  have "sum_list (map ul_AmountMicroUSD (text_usage_lines 7 demo_usage (text_prices_of demo_route demo_usage))) = 2"
    by (simp add: text_usage_lines_def line_specs_def usage_line_of_def ceilDivPicoToMicro_def Let_def
        demo_usage_def no_usage_def demo_route_def text_prices_of_def tier_def standardInputTokens_def
        sdiv_nonneg smod_nonneg i64_defs)
  then show ?thesis using usage_lines_cover_cost [OF demo_usage_cost, of 7] demo_usage_cost by simp
qed

text \<open>What a request can cost beyond fresh input and output: cached tokens that are dearer than fresh
  ones, and the premium of cache writes, which the estimate does not know of.\<close>

definition cache_premium :: "usageTokenCounts \<Rightarrow> text_prices \<Rightarrow> int" where
  "cache_premium u p = CachedTokens u * max 0 (tp_Cached p - tp_Input p)
     + CacheWrite5mTokens u * max 0 (tp_Write5m p - tp_Input p)
     + CacheWrite1hTokens u * max 0 (tp_Write1h p - tp_Input p)"

definition rising_tiers :: "channel_model \<Rightarrow> bool" where
  "rising_tiers cm \<longleftrightarrow>
     (0 < cm_HighInputPricePicoPerToken cm \<longrightarrow> cm_InputPricePicoPerToken cm \<le> cm_HighInputPricePicoPerToken cm)
     \<and> (0 < cm_HighOutputPricePicoPerToken cm \<longrightarrow> cm_OutputPricePicoPerToken cm \<le> cm_HighOutputPricePicoPerToken cm)"

lemma route_prices_rise:
  assumes "n \<le> m" and "m = n \<or> rising_tiers cm"
  shows "fst (route_prices n cm) \<le> fst (route_prices m cm)" "snd (route_prices n cm) \<le> snd (route_prices m cm)"
  using assms by (auto simp: route_prices_def rising_tiers_def Let_def)

lemma premium_part: "0 \<le> n \<Longrightarrow> n * x \<le> n * y + n * max 0 (x - y)" for n x y :: int
  by (simp add: distrib_left [symmetric] mult_left_mono)

lemma pico_cost_premium:
  assumes "well_clamped u"
  shows "pico_cost (text_parts u p) \<le> PromptTokens u * tp_Input p + CompletionTokens u * tp_Output p + cache_premium u p"
proof -
  have n: "0 \<le> CachedTokens u" "0 \<le> CacheWrite5mTokens u" "0 \<le> CacheWrite1hTokens u"
    using assms by (simp_all add: well_clamped_def)
  show ?thesis
    using premium_part [OF n(1), of "tp_Cached p" "tp_Input p"] premium_part [OF n(2), of "tp_Write5m p" "tp_Input p"]
      premium_part [OF n(3), of "tp_Write1h p" "tp_Input p"]
    by (simp add: text_parts_def standard_input [OF assms] non_reasoning [OF assms] cache_premium_def algebra_simps)
qed

lemma premium_nonneg: "well_clamped u \<Longrightarrow> 0 \<le> cache_premium u p"
  by (simp add: cache_premium_def well_clamped_def)

text \<open>C37: The hold covers the cost, up to the premium of caching. The estimate made before a request
  for \<open>i\<close> input and \<open>out\<close> output tokens (at most 4 * 10^12 each) is at least the raw cost, less the
  premium, of every request whose consistent counts stay within these, on whichever route of the
  model it is served, provided that the prices are valid and, unless the input was estimated
  exactly, that long contexts are not cheaper. The premium is what cached or written tokens
  cost above the fresh price; it is nothing when no cache is written and cached tokens are not
  dearer than fresh ones, and then the estimate covers the whole raw cost.\<close>

theorem hold_covers_cost:
  assumes "cm \<in> set rts" and "\<forall>r \<in> set rts. ValidateChannelModelPricing (Some r)"
    and "well_clamped u" and "PromptTokens u \<le> i" and "CompletionTokens u \<le> out"
    and "i \<le> 4000000000000" and "out \<le> 4000000000000"
    and "i = PromptTokens u \<or> rising_tiers cm"
    and "text_cost cm u = Some c"
  shows "c \<le> estimatePrecheckBalanceDelta rts i out + cdiv (cache_premium u (text_prices_of cm u)) 1000000000
    \<and> (CacheWriteTokens u = 0 \<longrightarrow> tp_Cached (text_prices_of cm u) \<le> tp_Input (text_prices_of cm u)
        \<longrightarrow> c \<le> estimatePrecheckBalanceDelta rts i out)"
proof -
  let ?i = "max_price (map (fst \<circ> route_prices i) rts)"
  let ?o = "max_price (map (snd \<circ> route_prices i) rts)"
  let ?ps = "[(i, ?i), (0, 0), (out, ?o), (0, 0), (0, 0), (0, 0)]"
  define p where "p = text_prices_of cm u"
  have n: "0 \<le> PromptTokens u" "0 \<le> CompletionTokens u" using assms(3) by (auto simp: well_clamped_def)
  have r: "0 \<le> ?i" "?i \<le> 1000000000000000" "0 \<le> ?o" "?o \<le> 1000000000000000"
    using max_price_range [of "map (fst \<circ> route_prices i) rts"]
      max_price_range [of "map (snd \<circ> route_prices i) rts"] Validate_prices assms(2)
    by (auto simp: MaxChannelModelPricePicoPerToken_def)
  have "fst (route_prices i cm) \<le> ?i" "snd (route_prices i cm) \<le> ?o" using assms(1) by (auto intro!: max_price_le)
  then have le: "tp_Input p \<le> ?i" "tp_Output p \<le> ?o"
    unfolding p_def text_prices_route using route_prices_rise [OF assms(4,8)] by (blast intro: order_trans)+
  have c: "c = cdiv (pico_cost (text_parts u p)) 1000000000"
    using assms(9) by (auto simp: text_cost_def p_def checkedCost_eq split: if_splits)
  have est: "PromptTokens u * tp_Input p \<le> i * ?i" "CompletionTokens u * tp_Output p \<le> out * ?o"
  proof -
    have "PromptTokens u * tp_Input p \<le> PromptTokens u * ?i" "CompletionTokens u * tp_Output p \<le> CompletionTokens u * ?o"
      using n le by (simp_all add: mult_left_mono)
    moreover have "PromptTokens u * ?i \<le> i * ?i" "CompletionTokens u * ?o \<le> out * ?o"
      using r assms(4,5) by (simp_all add: mult_right_mono)
    ultimately show "PromptTokens u * tp_Input p \<le> i * ?i" "CompletionTokens u * tp_Output p \<le> out * ?o" by linarith+
  qed
  have io: "0 \<le> i" "0 \<le> out" using n assms(4,5) by linarith+
  have ps: "pico_cost ?ps = i * ?i + out * ?o" by simp
  have ps0: "0 \<le> pico_cost ?ps" using io r by simp
  have "i * ?i \<le> 4000000000000 * 1000000000000000" "out * ?o \<le> 4000000000000 * 1000000000000000"
    by (rule mult_mono; use assms(6,7) io r in linarith)+
  then have "pico_cost ?ps \<le> 8000000000000000000 * 1000000000" by simp
  then have "cdiv (pico_cost ?ps) 1000000000 \<le> 8000000000000000000" by (intro cdiv_least) simp_all
  moreover have "0 \<le> cdiv (pico_cost ?ps) 1000000000" using ps0 by (simp add: cdiv_nonneg)
  ultimately have "checkedCostMicroUSD ?ps = Some (cdiv (pico_cost ?ps) 1000000000)"
    using io r by (simp add: checkedCost_eq valid_price_def MaxChannelModelPricePicoPerToken_def i64_defs)
  then have hold: "cdiv (pico_cost ?ps) 1000000000 \<le> estimatePrecheckBalanceDelta rts i out"
    by (simp add: estimatePrecheckBalanceDelta_def Let_def)
  have pr: "0 \<le> cache_premium u p" by (rule premium_nonneg [OF assms(3)])
  have "pico_cost (text_parts u p) \<le> pico_cost ?ps + cache_premium u p"
    using pico_cost_premium [OF assms(3), of p] est ps by linarith
  then have "c \<le> cdiv (pico_cost ?ps + cache_premium u p) 1000000000" unfolding c by (intro cdiv_mono) simp_all
  also have "\<dots> \<le> cdiv (pico_cost ?ps) 1000000000 + cdiv (cache_premium u p) 1000000000"
    by (rule cdiv_add_le) simp
  finally have all: "c \<le> estimatePrecheckBalanceDelta rts i out + cdiv (cache_premium u p) 1000000000" using hold by linarith
  moreover have "cache_premium u p = 0" if "CacheWriteTokens u = 0" "tp_Cached p \<le> tp_Input p"
  proof -
    have "CacheWrite5mTokens u = 0" "CacheWrite1hTokens u = 0" using that(1) assms(3) by (auto simp: well_clamped_def)
    then show ?thesis using that(2) by (simp add: cache_premium_def)
  qed
  ultimately show ?thesis unfolding p_def by (auto simp: cdiv_def)
qed

theorem hold_covers_cost_witness:
  "1 \<le> estimatePrecheckBalanceDelta [demo_route] 5 9"
proof -
  have "ValidateChannelModelPricing (Some demo_route)"
    by (simp add: ValidateChannelModelPricing_def demo_route_def MaxChannelModelPricePicoPerToken_def)
  moreover have "rising_tiers demo_route" by (simp add: rising_tiers_def demo_route_def)
  ultimately show ?thesis
    using hold_covers_cost [OF _ _ demo_usage_cost(1) _ _ _ _ _ demo_usage_cost(2), of "[demo_route]" 5 9]
    by (simp add: demo_usage_def no_usage_def text_prices_of_def tier_def Let_def demo_route_def)
qed

text \<open>C38: The vendor's dialect does not change the bill: the same traffic reported in Anthropic's and in
  OpenAI's way costs the same on every route, the parts priced as they were used: fresh input,
  cache reads and cache writes each at their own price, and all output at the output price.\<close>

theorem dialect_free_billing:
  assumes "0 \<le> i" "0 \<le> c" "0 \<le> w" "0 \<le> r" "r \<le> out" "sane_count (i + c + w)" "sane_count out"
  defines "a \<equiv> clamp_usage (extractUsageTokenCounts (anthropic_usage i c w out))"
  shows "text_cost cm (clamp_usage (extractUsageTokenCounts (openai_usage i c w out r))) = text_cost cm a
    \<and> text_parts a (text_prices_of cm a) =
       (let p = text_prices_of cm a in
        [(i, tp_Input p), (c, tp_Cached p), (w, tp_Write5m p), (0, tp_Write1h p), (out, tp_Output p), (0, tp_Output p)])"
proof -
  have i64: "in_i64 (c + w)" "in_i64 (i + (c + w))" using assms by (auto simp: sane_count_def i64_defs)
  let ?a = "extractUsageTokenCounts (anthropic_usage i c w out)"
  let ?b = "extractUsageTokenCounts (openai_usage i c w out r)"
  have wa: "well_clamped ?a" and wb: "well_clamped ?b"
    using assms(1-7) i64 by (simp_all add: anthropic_counts openai_counts well_clamped_def no_usage_def add.assoc)
  have ids: "clamp_usage ?a = ?a" "clamp_usage ?b = ?b" using wa wb by (simp_all add: clamp_id)
  have "text_cost cm ?b = text_cost cm ?a"
    by (rule text_cost_cong [OF wa wb]) (use i64 in \<open>simp_all add: anthropic_counts openai_counts no_usage_def\<close>)
  moreover have "text_parts ?a q = [(i, tp_Input q), (c, tp_Cached q), (w, tp_Write5m q), (0, tp_Write1h q),
      (out, tp_Output q), (0, tp_Output q)]" for q
    using i64 assms(1-7) wa
    by (simp add: text_parts_def standard_input non_reasoning) (simp add: anthropic_counts no_usage_def)
  ultimately show ?thesis by (simp add: a_def ids Let_def)
qed

theorem dialect_free_billing_witness:
  "text_cost demo_route (clamp_usage (extractUsageTokenCounts (openai_usage 10 200 30 50 20)))
    = text_cost demo_route (clamp_usage (extractUsageTokenCounts (anthropic_usage 10 200 30 50)))"
  using dialect_free_billing [of 10 200 30 20 50 demo_route] by (simp add: sane_count_def)

end
