(* ===== verification/ModelProvider.thy ===== *)
theory ModelProvider
  imports BillingRules
begin

section \<open>Models and what a route must have to be sold (\<^verbatim>\<open>database/model_provider.go\<close>)\<close>

text \<open>
  The names of models the runtime knows, the category and billing mode of a route, the endpoints
  it may serve, and the check an administrator's route must pass before it is switched on. The
  catalog of models and the table of official prices are lists in the order of their keys;
  \<open>mdb_fails\<close> says for which model id a query fails. A missing route (a nil pointer) is left
  out: the callers pass rows.
\<close>

record ModelCatalog =
  mc_ModelID :: string
  mc_ProviderKey :: string
  mc_Category :: string
  mc_BillingMode :: string
  mc_Supported :: bool

record ModelPricingRule =
  pr_ID :: nat
  pr_ModelID :: string
  pr_OfficialModelID :: string
  pr_Unit :: string
  pr_Direction :: string
  pr_Quality :: string
  pr_Size :: string
  pr_Resolution :: string
  pr_AspectRatio :: string
  pr_PriceMicroUSD :: int64

record model_db =
  mdb_catalog :: "ModelCatalog list"
  mdb_rules :: "ModelPricingRule list"
  mdb_fails :: "string \<Rightarrow> bool"

record media_route = channel_model +
  cm_ModelID :: string
  cm_DisplayName :: string
  cm_OfficialModelID :: string
  cm_ModelCategory :: string
  cm_BillingMode :: string
  cm_AllowedEndpoints :: string
  cm_Status :: int

subsection \<open>Names of models\<close>

text \<open>The part behind the last slash and the part before it; a slash at the end does not count.\<close>

definition provider_split :: "string \<Rightarrow> string \<times> string" where
  "provider_split raw =
     (let base = rev (takeWhile (\<lambda>c. c \<noteq> CHR ''/'') (rev raw)) in
      if CHR ''/'' \<in> set raw \<and> base \<noteq> '''' then (TrimSpace (take (length raw - length base - 1) raw), TrimSpace base)
      else ('''', raw))"

definition canonicalStaticImageModel :: "string \<Rightarrow> string option" where
  "canonicalStaticImageModel raw = (case provider_split raw of (pre, base) \<Rightarrow>
     if pre \<notin> {'''', ''xai'', ''x-ai'', ''grok'', ''openai''} then None
     else if base \<in> {''grok-imagine-image'', ''grok-imagine-image-quality''}
     then (if pre = ''openai'' then None else Some base)
     else if base = ''gpt-image-2''
     then (if pre \<noteq> '''' \<and> pre \<noteq> ''openai'' then None else Some base)
     else None)"

definition canonicalDBImageModel :: "model_db \<Rightarrow> string \<Rightarrow> string option" where
  "canonicalDBImageModel db raw =
     (let base = snd (provider_split raw) in
      find (\<lambda>cand. \<not> mdb_fails db cand \<and> list_ex (\<lambda>m. ToLower (mc_ModelID m) = cand \<and> mc_Category m = ''image''
              \<and> mc_Supported m) (mdb_catalog db))
        (if base \<noteq> raw then [raw, base] else [raw]))"

definition CanonicalRuntimeImageModel :: "model_db \<Rightarrow> string \<Rightarrow> string option" where
  "CanonicalRuntimeImageModel db modelID =
     (let raw = ToLower (TrimSpace modelID) in
      if raw = '''' then None
      else case canonicalStaticImageModel raw of Some c \<Rightarrow> Some c | None \<Rightarrow> canonicalDBImageModel db raw)"

definition IsRuntimeImageModelSupported :: "model_db \<Rightarrow> string \<Rightarrow> bool" where
  "IsRuntimeImageModelSupported db modelID \<longleftrightarrow> CanonicalRuntimeImageModel db modelID \<noteq> None"

definition IsRuntimeTokenBilledImageModel :: "model_db \<Rightarrow> string \<Rightarrow> bool" where
  "IsRuntimeTokenBilledImageModel db modelID = (case CanonicalRuntimeImageModel db modelID of
     None \<Rightarrow> False
   | Some canonical \<Rightarrow>
       if canonical = ''gpt-image-2'' then True
       else if mdb_fails db canonical then False
       else case find (\<lambda>m. ToLower (mc_ModelID m) = canonical \<and> mc_Category m = ''image'') (mdb_catalog db) of
           None \<Rightarrow> False | Some cat \<Rightarrow> mc_BillingMode cat = ''token'')"

definition CanonicalRuntimeVideoModel :: "string \<Rightarrow> string option" where
  "CanonicalRuntimeVideoModel modelID = (case provider_split (ToLower (TrimSpace modelID)) of (pre, base) \<Rightarrow>
     if pre \<notin> {'''', ''xai'', ''x-ai'', ''grok''} then None
     else if base = ''grok-imagine-video'' then Some base else None)"

definition IsRuntimeVideoModelSupported :: "string \<Rightarrow> bool" where
  "IsRuntimeVideoModelSupported modelID \<longleftrightarrow> CanonicalRuntimeVideoModel modelID \<noteq> None"

definition CanonicalRuntimeGeminiModel :: "model_db \<Rightarrow> string \<Rightarrow> string option" where
  "CanonicalRuntimeGeminiModel db modelID =
     (let raw = ToLower (TrimSpace modelID) in
      if raw = '''' then None
      else let base0 = (case find (\<lambda>p. prefix p raw) [''models/'', ''tunedmodels/''] of
                 None \<Rightarrow> raw | Some p \<Rightarrow> drop (length p) raw);
               base = snd (provider_split base0) in
        case List.map_filter (\<lambda>cand. if mdb_fails db cand then None
               else find (\<lambda>m. ToLower (mc_ModelID m) = cand \<and> mc_ProviderKey m = ''google'' \<and> mc_Supported m) (mdb_catalog db))
             (if raw \<noteq> base then [raw, base] else [base, raw]) of
          [] \<Rightarrow> None | m # _ \<Rightarrow> Some (mc_ModelID m))"

definition IsRuntimeGeminiModelSupported :: "model_db \<Rightarrow> string \<Rightarrow> bool" where
  "IsRuntimeGeminiModelSupported db modelID \<longleftrightarrow> CanonicalRuntimeGeminiModel db modelID \<noteq> None"

subsection \<open>The family of a model\<close>

text \<open>The pieces between separators, empty ones dropped.\<close>

fun fields_at :: "(char \<Rightarrow> bool) \<Rightarrow> string \<Rightarrow> string \<Rightarrow> string list" where
  "fields_at sep acc [] = (if acc = [] then [] else [acc])"
| "fields_at sep acc (c # cs) =
     (if sep c then (if acc = [] then [] else [acc]) @ fields_at sep [] cs else fields_at sep (acc @ [c]) cs)"

definition hasOpenAIGPTSegment :: "string \<Rightarrow> bool" where
  "hasOpenAIGPTSegment mid = list_ex (\<lambda>p. p = ''gpt'' \<or> prefix ''gpt-'' p \<or> prefix ''gpt_'' p)
     (fields_at (\<lambda>c. c \<in> {CHR ''/'', CHR '':'', CHR '' '', CHR 0x09}) [] mid)"

definition isOpenAIOSeriesModelID :: "string \<Rightarrow> bool" where
  "isOpenAIOSeriesModelID mid = (case mid of c # d # _ \<Rightarrow> c = CHR ''o'' \<and> is_digit d | _ \<Rightarrow> False)"

definition IsOpenAIGPTModelID :: "string \<Rightarrow> bool" where
  "IsOpenAIGPTModelID modelID =
     (let mid = ToLower (TrimSpace modelID) in hasOpenAIGPTSegment mid \<or> prefix ''chatgpt-'' mid)"

definition IsOpenAIGPTTextModelID :: "string \<Rightarrow> bool" where
  "IsOpenAIGPTTextModelID modelID =
     (let mid = ToLower (TrimSpace modelID) in
      if mid = '''' \<or> sublist ''image'' mid then False else IsOpenAIGPTModelID mid)"

definition IsOpenAIModelID :: "string \<Rightarrow> bool" where
  "IsOpenAIModelID modelID =
     (let mid = ToLower (TrimSpace modelID) in
      if mid = '''' then False
      else if sublist ''openai'' mid \<or> IsOpenAIGPTModelID mid then True
      else if prefix ''chatgpt-'' mid \<or> prefix ''codex-'' mid then True
      else isOpenAIOSeriesModelID mid)"

subsection \<open>Category, billing mode and endpoints of a route\<close>

definition InferModelCategory :: "string \<Rightarrow> string" where
  "InferModelCategory modelID =
     (let mid = ToLower (TrimSpace modelID) in
      if mid = '''' then ''text''
      else if sublist ''video'' mid then ''video''
      else if sublist ''image'' mid \<or> sublist ''imagine'' mid \<or> sublist ''imagen'' mid then ''image''
      else ''text'')"

definition NormalizeModelCategory :: "string \<Rightarrow> string \<Rightarrow> string" where
  "NormalizeModelCategory category modelID =
     (let c = ToLower (TrimSpace category) in
      if c \<in> {''text'', ''image'', ''video''} then c else InferModelCategory modelID)"

definition NormalizeBillingMode :: "string \<Rightarrow> string \<Rightarrow> string" where
  "NormalizeBillingMode mode category =
     (let m = ToLower (TrimSpace mode) in
      if m \<in> {''token'', ''image'', ''video_second''} then m
      else let c = NormalizeModelCategory category '''' in
        if c = ''image'' then ''image'' else if c = ''video'' then ''video_second'' else ''token'')"

definition quoted :: "string \<Rightarrow> string" where
  "quoted e = [CHR 0x22] @ e @ [CHR 0x22]"

definition DefaultAllowedEndpointsForCategory :: "string \<Rightarrow> string" where
  "DefaultAllowedEndpointsForCategory category =
     (let c = NormalizeModelCategory category '''' in
      if c = ''image'' then ''['' @ quoted ''/v1/images/generations'' @ '']''
      else if c = ''video'' then ''['' @ quoted ''/v1/videos/generations'' @ '']'' else '''')"

definition allowed_text :: "'a media_route_scheme \<Rightarrow> string" where
  "allowed_text cm =
     (let allowed = TrimSpace (cm_AllowedEndpoints cm) in
      if allowed = '''' then DefaultAllowedEndpointsForCategory (cm_ModelCategory cm) else allowed)"

definition ChannelModelAllowsEndpoint :: "'a media_route_scheme \<Rightarrow> string \<Rightarrow> bool" where
  "ChannelModelAllowsEndpoint cm endpoint \<longleftrightarrow> sublist (quoted endpoint) (allowed_text cm)"

text \<open>\<^verbatim>\<open>json.Unmarshal\<close> into a slice of strings.\<close>

definition unmarshal_strings :: "string \<Rightarrow> string list option" where
  "unmarshal_strings s = (case json_parse s of None \<Rightarrow> None | Some j \<Rightarrow> into_slice (\<lambda>e. into_string e '''') j)"

definition ChannelModelAllowsOnlyEndpoint :: "'a media_route_scheme \<Rightarrow> string \<Rightarrow> bool" where
  "ChannelModelAllowsOnlyEndpoint cm endpoint = (case unmarshal_strings (allowed_text cm) of
     Some es \<Rightarrow> (case es of [e] \<Rightarrow> TrimSpace e = endpoint | _ \<Rightarrow> False)
   | None \<Rightarrow> allowed_text cm = ''['' @ quoted endpoint @ '']'')"

definition ChannelModelAllowedEndpointsList :: "'a media_route_scheme \<Rightarrow> string list" where
  "ChannelModelAllowedEndpointsList cm =
     (if allowed_text cm = '''' then []
      else case unmarshal_strings (allowed_text cm) of None \<Rightarrow> []
        | Some es \<Rightarrow> filter (\<lambda>e. e \<noteq> '''') (map TrimSpace es))"

definition ChannelModelAllowsEndpointsSubset :: "'a media_route_scheme \<Rightarrow> string list \<Rightarrow> bool" where
  "ChannelModelAllowsEndpointsSubset cm allowed =
     (let eps = ChannelModelAllowedEndpointsList cm in
      if eps = [] then False else list_all (\<lambda>e. e \<in> set (map TrimSpace allowed)) eps)"

definition NormalizeChannelModelMetadata :: "model_db \<Rightarrow> media_route \<Rightarrow> media_route" where
  "NormalizeChannelModelMetadata db cm =
     (let id0 = TrimSpace (cm_ModelID cm);
          mid = (case CanonicalRuntimeImageModel db id0 of Some c \<Rightarrow> c
            | None \<Rightarrow> (case CanonicalRuntimeVideoModel id0 of Some c \<Rightarrow> c | None \<Rightarrow> id0));
          name = TrimSpace (cm_DisplayName cm);
          category = NormalizeModelCategory (cm_ModelCategory cm) mid
      in cm \<lparr> cm_ModelID := mid, cm_DisplayName := (if name = '''' then mid else name),
           cm_ModelCategory := category, cm_BillingMode := NormalizeBillingMode (cm_BillingMode cm) category,
           cm_OfficialModelID := (if TrimSpace (cm_OfficialModelID cm) = '''' then mid else cm_OfficialModelID cm),
           cm_AllowedEndpoints := (if TrimSpace (cm_AllowedEndpoints cm) = ''''
             then DefaultAllowedEndpointsForCategory category else cm_AllowedEndpoints cm) \<rparr>)"

subsection \<open>Switching a route on\<close>

definition ChannelModelHasTokenPricing :: "'a channel_model_scheme \<Rightarrow> bool" where
  "ChannelModelHasTokenPricing cm =
     (if cm_InputPricePicoPerToken cm \<le> 0 \<or> cm_OutputPricePicoPerToken cm \<le> 0 then False
      else if 0 < cm_ContextPriceThreshold cm
        \<and> (cm_HighInputPricePicoPerToken cm \<le> 0 \<or> cm_HighOutputPricePicoPerToken cm \<le> 0) then False
      else True)"

definition rules_for :: "model_db \<Rightarrow> string \<Rightarrow> string \<Rightarrow> string \<Rightarrow> ModelPricingRule list" where
  "rules_for db modelID unit direction = filter (\<lambda>r. (pr_ModelID r = modelID \<or> pr_OfficialModelID r = modelID)
     \<and> pr_Unit r = unit \<and> pr_Direction r = direction \<and> 0 < pr_PriceMicroUSD r) (mdb_rules db)"

definition ModelHasUsagePricingRule :: "model_db \<Rightarrow> string \<Rightarrow> string \<Rightarrow> bool" where
  "ModelHasUsagePricingRule db modelID unit \<longleftrightarrow> \<not> mdb_fails db modelID
     \<and> filter (\<lambda>r. (pr_ModelID r = modelID \<or> pr_OfficialModelID r = modelID) \<and> pr_Unit r = unit \<and> 0 < pr_PriceMicroUSD r)
         (mdb_rules db) \<noteq> []"

definition ModelHasUsagePricingRuleForDirection :: "model_db \<Rightarrow> string \<Rightarrow> string \<Rightarrow> string \<Rightarrow> bool" where
  "ModelHasUsagePricingRuleForDirection db modelID unit direction \<longleftrightarrow>
     \<not> mdb_fails db modelID \<and> rules_for db modelID unit direction \<noteq> []"

datatype activation_error = ErrImageGenerationUnsupported | ErrVideoGenerationUnsupported
  | ErrTextModelRequiresTokenBilling | ErrTextModelRequiresTokenPricing | ErrImageModelRequiresEndpoint
  | ErrImageModelRequiresPricing | ErrImageEditMissingInputPricing | ErrImageTokenBillingUnsupported
  | ErrVideoModelRequiresEndpoint | ErrVideoModelRequiresPricing | ErrVideoEditMissingInputPricing

definition check_video_route :: "model_db \<Rightarrow> media_route \<Rightarrow> activation_error option" where
  "check_video_route db cm =
     (if \<not> IsRuntimeVideoModelSupported (cm_ModelID cm) then Some ErrVideoGenerationUnsupported
      else if \<not> ChannelModelAllowsEndpointsSubset cm [''/v1/videos/generations'', ''/v1/videos/edits'', ''/v1/videos/extensions'']
      then Some ErrVideoModelRequiresEndpoint
      else if cm_BillingMode cm \<noteq> ''video_second'' then Some ErrVideoModelRequiresPricing
      else if \<not> ModelHasUsagePricingRuleForDirection db (cm_ModelID cm) ''video_second'' ''output''
      then Some ErrVideoModelRequiresPricing
      else if (ChannelModelAllowsEndpoint cm ''/v1/videos/edits'' \<or> ChannelModelAllowsEndpoint cm ''/v1/videos/extensions'')
        \<and> \<not> ModelHasUsagePricingRuleForDirection db (cm_ModelID cm) ''video_second'' ''input''
      then Some ErrVideoEditMissingInputPricing else None)"

definition check_image_route :: "model_db \<Rightarrow> media_route \<Rightarrow> activation_error option" where
  "check_image_route db cm =
     (if \<not> IsRuntimeImageModelSupported db (cm_ModelID cm) then Some ErrImageGenerationUnsupported
      else if \<not> ChannelModelAllowsEndpointsSubset cm [''/v1/images/generations'', ''/v1/images/edits'', ''/v1beta/models'']
      then Some ErrImageModelRequiresEndpoint
      else if cm_BillingMode cm = ''token''
      then (if \<not> IsRuntimeTokenBilledImageModel db (cm_ModelID cm) then Some ErrImageTokenBillingUnsupported
            else if \<not> ChannelModelHasTokenPricing cm then Some ErrImageModelRequiresPricing else None)
      else if cm_BillingMode cm = ''image''
      then (if IsRuntimeTokenBilledImageModel db (cm_ModelID cm) then Some ErrImageTokenBillingUnsupported
            else if \<not> ModelHasUsagePricingRuleForDirection db (cm_ModelID cm) ''image'' ''output''
            then Some ErrImageModelRequiresPricing
            else if ChannelModelAllowsEndpoint cm ''/v1/images/edits''
              \<and> \<not> ModelHasUsagePricingRuleForDirection db (cm_ModelID cm) ''image'' ''input''
            then Some ErrImageEditMissingInputPricing else None)
      else Some ErrImageModelRequiresPricing)"

definition check_text_route :: "media_route \<Rightarrow> activation_error option" where
  "check_text_route cm =
     (if cm_BillingMode cm \<noteq> ''token'' then Some ErrTextModelRequiresTokenBilling
      else if \<not> ChannelModelHasTokenPricing cm then Some ErrTextModelRequiresTokenPricing else None)"

text \<open>The verdict and the route as it is left.\<close>

definition ValidateChannelModelActivation :: "model_db \<Rightarrow> media_route \<Rightarrow> activation_error option \<times> media_route" where
  "ValidateChannelModelActivation db cm0 =
     (if cm_Status cm0 \<noteq> 1 then (None, cm0)
      else let cm = NormalizeChannelModelMetadata db cm0 in
        (if cm_ModelCategory cm = ''video'' then check_video_route db cm
         else if cm_ModelCategory cm = ''image'' then check_image_route db cm
         else if cm_ModelCategory cm = ''text'' then check_text_route cm else None, cm))"

end
