(* ===== verification/MediaPricing.thy ===== *)
theory MediaPricing
  imports TextPricing ModelProvider
begin

section \<open>Prices of images, videos and Gemini requests (\<^verbatim>\<open>proxy/image_pricing.go\<close>,
  \<^verbatim>\<open>proxy/video_pricing.go\<close>, \<^verbatim>\<open>proxy/gemini_pricing.go\<close>)\<close>

text \<open>
  A media request is priced before it is sent and again from what came back: by the cost the
  upstream reports in ticks, by the official price of an image or a second, or by tokens. A
  response is a value of \<open>gj_body\<close>, the queries on it. \<open>None\<close> is an error of the code; the one
  error the callers tell apart, missing usage, is \<open>UsageUnavailable\<close>.
\<close>

datatype price_error = UsageUnavailable | PriceFailed

record imageGenerationRequest =
  iq_Model :: string
  iq_Prompt :: string
  iq_N :: int
  iq_Size :: string
  iq_Quality :: string
  iq_Resolution :: string
  iq_AspectRatio :: string
  iq_InputImageCount :: int
  iq_Endpoint :: string

record imagePriceResolution =
  ip_BillingMode :: string
  ip_RuleID :: nat
  ip_UnitPriceMicro :: int64
  ip_Quantity :: int64
  ip_AmountMicroUSD :: int64
  ip_ResponseImages :: int
  ip_CostTicks :: int64
  ip_Usage :: usageTokenCounts
  ip_Prices :: text_prices
  ip_Resolution :: string
  ip_Size :: string
  ip_Quality :: string
  ip_AspectRatio :: string
  ip_CostSource :: string

text \<open>The token counts and prices of a resolution are grouped as they are used; the flags of
  the counts play no part.\<close>

definition no_image_price :: imagePriceResolution where
  "no_image_price = \<lparr> ip_BillingMode = '''', ip_RuleID = 0, ip_UnitPriceMicro = 0, ip_Quantity = 0,
     ip_AmountMicroUSD = 0, ip_ResponseImages = 0, ip_CostTicks = 0, ip_Usage = no_usage,
     ip_Prices = \<lparr> tp_Input = 0, tp_Cached = 0, tp_Write5m = 0, tp_Write1h = 0, tp_Output = 0 \<rparr>,
     ip_Resolution = '''', ip_Size = '''', ip_Quality = '''', ip_AspectRatio = '''', ip_CostSource = '''' \<rparr>"

subsection \<open>What a response says\<close>

definition countGeneratedImages :: "gj_body \<Rightarrow> int" where
  "countGeneratedImages body =
     (let data = body_get body ''data'' in
      if ResIsArray data then int (length (ResItems data))
      else if ResExists (body_get body ''b64_json'') \<or> ResExists (body_get body ''image_url'')
        \<or> ResExists (body_get body ''url'') then 1 else 0)"

definition tick_paths :: "string list" where
  "tick_paths = [''usage.cost_in_usd_ticks'', ''usage.costInUsdTicks'', ''cost_in_usd_ticks'']"

definition costTicksFromMediaResponse :: "gj_body \<Rightarrow> int64" where
  "costTicksFromMediaResponse body =
     (case find (\<lambda>p. ResExists (body_get body p) \<and> 0 < ResInt (body_get body p)) tick_paths of
        None \<Rightarrow> 0 | Some p \<Rightarrow> ResInt (body_get body p))"

definition costTicksFromImageResponse :: "gj_body \<Rightarrow> int64" where
  "costTicksFromImageResponse body =
     (case find (\<lambda>p. ResExists (body_get body p) \<and> 0 < ResInt (body_get body p)) tick_paths of
        None \<Rightarrow> 0 | Some p \<Rightarrow> ResInt (body_get body p))"

definition firstNonEmptyLocal :: "string list \<Rightarrow> string" where
  "firstNonEmptyLocal values = (case find (\<lambda>v. TrimSpace v \<noteq> '''') values of None \<Rightarrow> '''' | Some v \<Rightarrow> TrimSpace v)"

subsection \<open>Official prices\<close>

text \<open>The rule of the asked resolution, else the first one without a resolution.\<close>

definition select_rule :: "ModelPricingRule list \<Rightarrow> string \<Rightarrow> ModelPricingRule option" where
  "select_rule rules resolution =
     (case find (\<lambda>r. ToLower (TrimSpace (pr_Resolution r)) = ToLower resolution) rules of
        Some r \<Rightarrow> Some r | None \<Rightarrow> find (\<lambda>r. TrimSpace (pr_Resolution r) = '''') rules)"

text \<open>Ten thousand ticks of the upstream are a micro-dollar.\<close>

definition tick_amount :: "int64 \<Rightarrow> int64" where
  "tick_amount costTicks = wrap64 (costTicks + 9999) sdiv 10000"

definition tick_unit :: "int64 \<Rightarrow> int64 \<Rightarrow> int64" where
  "tick_unit amount qty = (if 0 < qty then wrap64 (amount + qty - 1) sdiv qty else amount)"

definition resolveImagePrice ::
  "model_db \<Rightarrow> imageGenerationRequest \<Rightarrow> int \<Rightarrow> int64 \<Rightarrow> price_error + imagePriceResolution" where
  "resolveImagePrice db req responseImages costTicks =
     (let qty0 = (if 0 < responseImages then responseImages else iq_N req); qty = (if qty0 \<le> 0 then 1 else qty0) in
      if 0 < costTicks
      then Inr (no_image_price
        \<lparr> ip_BillingMode := ''image'', ip_Quantity := qty, ip_UnitPriceMicro := tick_unit (tick_amount costTicks) qty,
          ip_AmountMicroUSD := tick_amount costTicks, ip_ResponseImages := responseImages, ip_CostTicks := costTicks,
          ip_Resolution := iq_Resolution req, ip_Size := iq_Size req, ip_Quality := iq_Quality req,
          ip_AspectRatio := iq_AspectRatio req, ip_CostSource := ''upstream_usage'' \<rparr>)
      else if mdb_fails db (iq_Model req) then Inl PriceFailed
      else (case select_rule (rules_for db (iq_Model req) ''image'' ''output'') (iq_Resolution req) of
          None \<Rightarrow> Inl PriceFailed
        | Some r \<Rightarrow> (case CheckedMulInt64 (pr_PriceMicroUSD r) qty of
              None \<Rightarrow> Inl PriceFailed
            | Some amount \<Rightarrow> if amount \<le> 0 then Inl PriceFailed
                else Inr (no_image_price
                  \<lparr> ip_BillingMode := ''image'', ip_RuleID := pr_ID r, ip_UnitPriceMicro := pr_PriceMicroUSD r,
                    ip_Quantity := qty, ip_AmountMicroUSD := amount, ip_ResponseImages := responseImages,
                    ip_Resolution := pr_Resolution r, ip_Size := pr_Size r, ip_Quality := pr_Quality r,
                    ip_AspectRatio := firstNonEmptyLocal [iq_AspectRatio req, pr_AspectRatio r],
                    ip_CostSource := ''official_matrix'' \<rparr>))))"

subsection \<open>Images billed by tokens\<close>

definition normalizeTokenImageUsage :: "usageTokenCounts \<Rightarrow> usageTokenCounts" where
  "normalizeTokenImageUsage u =
     (let prompt = zero_neg (PromptTokens u); completion = zero_neg (CompletionTokens u);
          w5 = zero_neg (CacheWrite5mTokens u); w1 = zero_neg (CacheWrite1hTokens u);
          reasoning = zero_neg (ReasoningTokens u);
          write0 = wrap64 (w5 + w1);
          cached0 = zero_neg (CachedTokens u);
          cached = (if prompt < cached0 then prompt else cached0);
          over = prompt < wrap64 (cached + write0);
          write = (if over then zero_neg (prompt - cached) else write0);
          cut = over \<and> write < wrap64 (w5 + w1)
      in u \<lparr> PromptTokens := prompt, CompletionTokens := completion, CachedTokens := cached,
             CacheWriteTokens := write, CacheWrite5mTokens := (if cut then write else w5),
             CacheWrite1hTokens := (if cut then 0 else w1),
             ReasoningTokens := (if completion < reasoning then completion else reasoning) \<rparr>)"

definition image_token_prices :: "'a channel_model_scheme \<Rightarrow> usageTokenCounts \<Rightarrow> text_prices" where
  "image_token_prices cm u =
     (let high = 0 < cm_ContextPriceThreshold cm \<and> cm_ContextPriceThreshold cm \<le> PromptTokens u;
          inputP = tier high (cm_HighInputPricePicoPerToken cm) (cm_InputPricePicoPerToken cm)
      in \<lparr> tp_Input = inputP,
           tp_Cached = tier high (cm_HighCachedInputPricePicoPerToken cm) (cm_CachedInputPricePicoPerToken cm),
           tp_Write5m = (if cm_CacheWriteInputPricePicoPerToken cm \<le> 0 then inputP
             else cm_CacheWriteInputPricePicoPerToken cm),
           tp_Write1h = (if cm_CacheWrite1hInputPricePicoPerToken cm \<le> 0 then wrap64 (inputP * 2)
             else cm_CacheWrite1hInputPricePicoPerToken cm),
           tp_Output = tier high (cm_HighOutputPricePicoPerToken cm) (cm_OutputPricePicoPerToken cm) \<rparr>)"

definition tokenImagePriceFromCounts ::
  "imageGenerationRequest \<Rightarrow> usageTokenCounts \<Rightarrow> 'a channel_model_scheme \<Rightarrow> price_error + imagePriceResolution" where
  "tokenImagePriceFromCounts req usage cm =
     (let u = normalizeTokenImageUsage usage; p = image_token_prices cm u in
      case checkedCostMicroUSD (text_parts u p) of
        None \<Rightarrow> Inl PriceFailed
      | Some cost \<Rightarrow> if cost \<le> 0 then Inl PriceFailed
          else Inr (no_image_price
            \<lparr> ip_BillingMode := ''token'', ip_Quantity := wrap64 (PromptTokens u + CompletionTokens u),
              ip_AmountMicroUSD := cost, ip_ResponseImages := max 1 (iq_N req), ip_Usage := u, ip_Prices := p,
              ip_Size := iq_Size req, ip_Quality := iq_Quality req, ip_CostSource := ''upstream_usage'' \<rparr>))"

definition estimateGPTImageOutputTokens :: "imageGenerationRequest \<Rightarrow> int" where
  "estimateGPTImageOutputTokens req =
     (let quality0 = ToLower (TrimSpace (iq_Quality req)); size0 = ToLower (TrimSpace (iq_Size req));
          quality = (if quality0 = '''' \<or> quality0 = ''auto'' then ''high'' else quality0);
          sz = (if size0 = '''' \<or> size0 = ''auto'' then ''1024x1024'' else size0);
          square = map_of [(''low'', 200), (''medium'', 1767), (''high'', 7034)];
          wideOrTall = map_of [(''low'', 167), (''medium'', 1367), (''high'', 5500)]
      in case (if sz = ''1536x1024'' \<or> sz = ''1024x1536'' then wideOrTall quality else square quality) of
           Some tokens \<Rightarrow> tokens | None \<Rightarrow> 7034)"

text \<open>The dearest token route; the first of equals.\<close>

definition dearest_route :: "media_route list \<Rightarrow> media_route option" where
  "dearest_route routes = fold (\<lambda>r sel. if cm_BillingMode r \<noteq> ''token'' then sel
      else case sel of None \<Rightarrow> Some r
        | Some s \<Rightarrow> if wrap64 (cm_InputPricePicoPerToken s + cm_OutputPricePicoPerToken s)
                      < wrap64 (cm_InputPricePicoPerToken r + cm_OutputPricePicoPerToken r) then Some r else sel) routes None"

definition estimated_usage :: "int \<Rightarrow> int \<Rightarrow> usageTokenCounts" where
  "estimated_usage inputTokens outputTokens = no_usage \<lparr> PromptTokens := inputTokens, CompletionTokens := outputTokens,
     HasPromptTokens := True, HasCompletionTokens := True \<rparr>"

definition estimateTokenImagePrecheckPrice ::
  "(string \<Rightarrow> bool) \<Rightarrow> imageGenerationRequest \<Rightarrow> media_route list \<Rightarrow> price_error + imagePriceResolution" where
  "estimateTokenImagePrecheckPrice cjk req routes =
     (let in0 = estimateTextPrecheckTokens cjk (iq_Prompt req); inputTokens = (if in0 \<le> 0 then 1 else in0);
          out0 = estimateGPTImageOutputTokens req; outputTokens = (if out0 \<le> 0 then 8192 else out0) in
      case dearest_route routes of None \<Rightarrow> Inl PriceFailed
      | Some r \<Rightarrow> (case tokenImagePriceFromCounts req (estimated_usage inputTokens outputTokens) r of
            Inl e \<Rightarrow> Inl e
          | Inr price \<Rightarrow> Inr (price \<lparr> ip_CostSource := ''precheck_estimate'' \<rparr>)))"

definition resolveTokenImagePrice ::
  "imageGenerationRequest \<Rightarrow> gj_body \<Rightarrow> media_route option \<Rightarrow> price_error + imagePriceResolution" where
  "resolveTokenImagePrice req body route =
     (case route of None \<Rightarrow> Inl PriceFailed
      | Some cm \<Rightarrow>
        if cm_BillingMode cm \<noteq> ''token'' \<or> \<not> ChannelModelHasTokenPricing cm then Inl PriceFailed
        else if countGeneratedImages body \<le> 0 then Inl UsageUnavailable
        else let block = body_get body ''usage''; usage = extractUsageTokenCounts block in
          if \<not> ResExists block then Inl UsageUnavailable
          else if \<not> HasAny usage \<or> \<not> HasBillableTokens usage then Inl UsageUnavailable
          else tokenImagePriceFromCounts req usage cm)"

definition resolveImagePrecheckPrice ::
  "(string \<Rightarrow> bool) \<Rightarrow> model_db \<Rightarrow> imageGenerationRequest \<Rightarrow> media_route list \<Rightarrow> price_error + imagePriceResolution" where
  "resolveImagePrecheckPrice cjk db req routes =
     (if IsRuntimeTokenBilledImageModel db (iq_Model req) then estimateTokenImagePrecheckPrice cjk req routes
      else resolveImagePrice db req 0 0)"

definition resolveImageActualPrice ::
  "model_db \<Rightarrow> imageGenerationRequest \<Rightarrow> gj_body \<Rightarrow> media_route option \<Rightarrow> price_error + imagePriceResolution" where
  "resolveImageActualPrice db req body route =
     (if IsRuntimeTokenBilledImageModel db (iq_Model req) then resolveTokenImagePrice req body route
      else resolveImagePrice db req (countGeneratedImages body) (costTicksFromImageResponse body))"

subsection \<open>Videos\<close>

record videoGenerationRequest =
  vq_Model :: string
  vq_Size :: string
  vq_AspectRatio :: string
  vq_Resolution :: string
  vq_DurationSeconds :: int64
  vq_Endpoint :: string

record videoPriceResolution =
  vp_RuleID :: nat
  vp_UnitPriceMicro :: int64
  vp_Quantity :: int64
  vp_AmountMicroUSD :: int64
  vp_CostTicks :: int64
  vp_Resolution :: string
  vp_Size :: string
  vp_AspectRatio :: string
  vp_CostSource :: string

definition defaultVideoDuration :: int64 where
  "defaultVideoDuration = 4"

definition filterVideoRoutes :: "model_db \<Rightarrow> media_route list \<Rightarrow> string \<Rightarrow> media_route list" where
  "filterVideoRoutes db routes endpoint = filter (\<lambda>r. cm_ModelCategory r = ''video'' \<and> cm_BillingMode r = ''video_second''
      \<and> ChannelModelAllowsEndpoint r endpoint) (map (NormalizeChannelModelMetadata db) routes)"

definition resolveVideoPrice :: "model_db \<Rightarrow> videoGenerationRequest \<Rightarrow> int64 \<Rightarrow> videoPriceResolution option" where
  "resolveVideoPrice db req costTicks =
     (let qty = (if vq_DurationSeconds req \<le> 0 then defaultVideoDuration else vq_DurationSeconds req) in
      if 0 < costTicks
      then Some \<lparr> vp_RuleID = 0, vp_UnitPriceMicro = tick_unit (tick_amount costTicks) qty, vp_Quantity = qty,
          vp_AmountMicroUSD = tick_amount costTicks, vp_CostTicks = costTicks, vp_Resolution = vq_Resolution req,
          vp_Size = vq_Size req, vp_AspectRatio = vq_AspectRatio req, vp_CostSource = ''upstream_usage'' \<rparr>
      else if mdb_fails db (vq_Model req) then None
      else (case select_rule (rules_for db (vq_Model req) ''video_second'' ''output'') (vq_Resolution req) of
          None \<Rightarrow> None
        | Some r \<Rightarrow> (case CheckedMulInt64 (pr_PriceMicroUSD r) qty of
              None \<Rightarrow> None
            | Some amount \<Rightarrow> if amount \<le> 0 then None
                else Some \<lparr> vp_RuleID = pr_ID r, vp_UnitPriceMicro = pr_PriceMicroUSD r, vp_Quantity = qty,
                    vp_AmountMicroUSD = amount, vp_CostTicks = 0, vp_Resolution = pr_Resolution r,
                    vp_Size = firstNonEmptyLocal [vq_Size req, pr_Size r],
                    vp_AspectRatio = firstNonEmptyLocal [vq_AspectRatio req, pr_AspectRatio r],
                    vp_CostSource = ''official_matrix'' \<rparr>)))"

subsection \<open>Gemini\<close>

record geminiPriceResolution =
  gp_BillingMode :: string
  gp_UnitPriceMicro :: int64
  gp_Quantity :: int64
  gp_AmountMicroUSD :: int64
  gp_PromptTokens :: int64
  gp_CompletionTokens :: int64
  gp_CachedTokens :: int64
  gp_ReasoningTokens :: int64
  gp_ImageCount :: int64
  gp_CostSource :: string

definition gemini_images :: "int64 \<Rightarrow> int64 \<Rightarrow> int64 \<Rightarrow> string \<Rightarrow> geminiPriceResolution" where
  "gemini_images unitPrice n amount source = \<lparr> gp_BillingMode = ''image'', gp_UnitPriceMicro = unitPrice, gp_Quantity = n,
     gp_AmountMicroUSD = amount, gp_PromptTokens = 0, gp_CompletionTokens = 0, gp_CachedTokens = 0,
     gp_ReasoningTokens = 0, gp_ImageCount = n, gp_CostSource = source \<rparr>"

definition gemini_tokens :: "int64 \<Rightarrow> int64 \<Rightarrow> int64 \<Rightarrow> int64 \<Rightarrow> int64 \<Rightarrow> string \<Rightarrow> geminiPriceResolution" where
  "gemini_tokens cost prompt candidates cached thinking source = \<lparr> gp_BillingMode = ''token'', gp_UnitPriceMicro = 0,
     gp_Quantity = wrap64 (prompt + candidates), gp_AmountMicroUSD = cost, gp_PromptTokens = prompt,
     gp_CompletionTokens = candidates, gp_CachedTokens = cached, gp_ReasoningTokens = thinking, gp_ImageCount = 0,
     gp_CostSource = source \<rparr>"

definition geminiBillingMode :: "model_db \<Rightarrow> string \<Rightarrow> media_route list \<Rightarrow> string" where
  "geminiBillingMode db model routes =
     (case find (\<lambda>r. cm_ModelID r = model \<and> cm_BillingMode r \<noteq> '''') routes of
        Some r \<Rightarrow> cm_BillingMode r
      | None \<Rightarrow> if mdb_fails db model then ''token''
          else (case find (\<lambda>m. ToLower (mc_ModelID m) = ToLower model) (mdb_catalog db) of
              Some cat \<Rightarrow> mc_BillingMode cat | None \<Rightarrow> ''token''))"

definition resolveGeminiPrecheckPrice ::
  "(string \<Rightarrow> bool) \<Rightarrow> model_db \<Rightarrow> string \<Rightarrow> gj_body \<Rightarrow> media_route list \<Rightarrow> geminiPriceResolution option" where
  "resolveGeminiPrecheckPrice cjk db model body routes =
     (if geminiBillingMode db model routes = ''image''
      then (if mdb_fails db model then None
            else case rules_for db model ''image'' ''output'' of [] \<Rightarrow> None
              | r # _ \<Rightarrow> Some (gemini_images (pr_PriceMicroUSD r) 1 (pr_PriceMicroUSD r) ''precheck_estimate''))
      else (case find (\<lambda>r. cm_BillingMode r = ''token'' \<and> ChannelModelHasTokenPricing r) routes of
          None \<Rightarrow> None
        | Some r \<Rightarrow>
            let estInput = estimatePrecheckTokens cjk body; half = estInput sdiv 2;
                estOutput = (if half < 128 then 128 else half) in
            (case checkedCostMicroUSD [(estInput, cm_InputPricePicoPerToken r), (0, 0), (0, 0), (0, 0),
                 (estOutput, cm_OutputPricePicoPerToken r), (0, 0)] of
               None \<Rightarrow> None
             | Some cost \<Rightarrow> Some (gemini_tokens cost estInput estOutput 0 0 ''precheck_estimate''))))"

definition countGeminiInlineImages :: "gj_body \<Rightarrow> int" where
  "countGeminiInlineImages body =
     (\<Sum>cand \<leftarrow> ResItems (body_get body ''candidates'').
        int (length (filter (\<lambda>part. ResExists (ResGet part ''inlineData.data'')) (ResItems (ResGet cand ''content.parts'')))))"

definition gemini_parts :: "'a channel_model_scheme \<Rightarrow> int64 \<Rightarrow> int64 \<Rightarrow> int64 \<Rightarrow> int64 \<Rightarrow> (int64 \<times> int64) list" where
  "gemini_parts cm prompt candidates cached thinking =
     (let high = 0 < cm_ContextPriceThreshold cm \<and> cm_ContextPriceThreshold cm \<le> prompt;
          inputP = tier high (cm_HighInputPricePicoPerToken cm) (cm_InputPricePicoPerToken cm);
          outputP = tier high (cm_HighOutputPricePicoPerToken cm) (cm_OutputPricePicoPerToken cm);
          cachedP = tier high (cm_HighCachedInputPricePicoPerToken cm) (cm_CachedInputPricePicoPerToken cm)
      in [(zero_neg (wrap64 (prompt - cached)), inputP), (cached, cachedP), (0, 0), (0, 0),
          (candidates, outputP), (thinking, outputP)])"

definition resolveGeminiActualPrice ::
  "model_db \<Rightarrow> string \<Rightarrow> gj_body \<Rightarrow> media_route option \<Rightarrow> geminiPriceResolution option" where
  "resolveGeminiActualPrice db model body route =
     (if (case route of None \<Rightarrow> ''token'' | Some cm \<Rightarrow> cm_BillingMode cm) = ''image''
      then let n = countGeminiInlineImages body in
        if n \<le> 0 \<or> mdb_fails db model then None
        else (case rules_for db model ''image'' ''output'' of [] \<Rightarrow> None
          | r # _ \<Rightarrow> (case CheckedMulInt64 (pr_PriceMicroUSD r) n of None \<Rightarrow> None
              | Some amount \<Rightarrow> if amount \<le> 0 then None
                  else Some (gemini_images (pr_PriceMicroUSD r) n amount ''upstream_usage'')))
      else (case route of None \<Rightarrow> None
        | Some cm \<Rightarrow>
          if \<not> ChannelModelHasTokenPricing cm then None
          else let count = \<lambda>p. ResInt (body_get body (''usageMetadata.'' @ p));
                   prompt = count ''promptTokenCount''; candidates = count ''candidatesTokenCount'';
                   cached = count ''cachedContentTokenCount''; thinking = count ''thoughtsTokenCount'' in
            if prompt = 0 \<and> candidates = 0 then None
            else (case checkedCostMicroUSD (gemini_parts cm prompt candidates cached thinking) of None \<Rightarrow> None
              | Some cost \<Rightarrow> if cost \<le> 0 then None
                  else Some (gemini_tokens cost prompt candidates cached thinking ''upstream_usage''))))"

end
