(* ===== verification/TextBilling.thy ===== *)
theory TextBilling
  imports TextPricing BalanceConsume Referral
begin

section \<open>Committing a text request (\<^verbatim>\<open>proxy/text_billing.go\<close>)\<close>

text \<open>
  The pipeline that every streamed or plain text request ends in: log it, price it, take it from
  a subscription or from the balance, or record it as a debt to reconcile, and book the
  revenue. A run is a database program that always returns; the statements it makes may fail as
  the schedule of faults says. \<open>commit_env\<close> is what the code reads from globals: the
  configuration, the clock, the route cache, the script tables of the token estimate, the
  clean-up of error texts by regular expressions (\<open>ce_sanitize\<close>) and the iteration order of maps.
  The in-memory caches of logged-in users are the returned effects. The revenue row, which the
  code writes in the background, is written where it is started. Log output and descriptions
  for display are left out.
\<close>

record commit_env =
  ce_cfg :: sysconfig
  ce_now :: nanos
  ce_routes :: "string \<Rightarrow> channel_model list"
  ce_cjk :: "string \<Rightarrow> bool"
  ce_sanitize :: "string \<Rightarrow> nat \<Rightarrow> string"
  ce_order :: "json_map \<Rightarrow> json_map"

text \<open>The user and the selected route may be missing (nil pointers). The user is the snapshot taken
  when the request came in. \<open>tc_SubToken\<close> is the id of the access token when the request uses
  one; \<open>tc_FallbackToBalance\<close> is the field of the decision made before the request.\<close>

record CommitTextContext =
  tc_User :: "(nat \<times> user) option"
  tc_Token :: string
  tc_SubToken :: "nat option"
  tc_ModelName :: string
  tc_Body :: gj_body
  tc_StartTime :: nanos
  tc_IsStream :: bool
  tc_FallbackUserOptIn :: bool
  tc_SelectedPath :: "channel_model option"
  tc_SelectedChan :: "string option"
  tc_FallbackToBalance :: bool
  tc_UpstreamHeaders :: "(string \<Rightarrow> string) option"

record ManualBillingStateInput =
  mb_BillingState :: string
  mb_Status :: int
  mb_Usage :: usageTokenCounts
  mb_DeliveredBytes :: int64
  mb_EstimatedInputTokens :: int64
  mb_EstimatedRawCostMicroUSD :: int64
  mb_EstimatedChargedCostMicroUSD :: int64

datatype cache_effect = RefreshUserAuth nat | AddUsedQuota string int64

definition channelTypeOfSelected :: "string option \<Rightarrow> string" where
  "channelTypeOfSelected ch = (case ch of None \<Rightarrow> '''' | Some t \<Rightarrow> t)"

definition UpstreamRequestID ::
  "(string \<Rightarrow> nat \<Rightarrow> string) \<Rightarrow> (string \<Rightarrow> string) option \<Rightarrow> nat \<Rightarrow> nat \<Rightarrow> nanos \<Rightarrow> string" where
  "UpstreamRequestID sanitize headers apiLogID userID startTime =
     (case (case headers of None \<Rightarrow> None
            | Some h \<Rightarrow> find (\<lambda>v. v \<noteq> '''') (map (\<lambda>k. TrimSpace (h k)) [''X-Request-Id'', ''X-Cpa-Request-Id'', ''Request-Id''])) of
        Some v \<Rightarrow> sanitize v 128
      | None \<Rightarrow> if 0 < apiLogID then ''api_log:'' @ show_nat apiLogID
                else ''local:'' @ show_nat userID @ '':'' @ show_int startTime)"

definition EstimateDeliveredCost :: "commit_env \<Rightarrow> CommitTextContext \<Rightarrow> int64 \<Rightarrow> int64 \<Rightarrow> int64 \<times> int64" where
  "EstimateDeliveredCost env ctx deliveredBytes reasoningTokens =
     (let outputTokens = (if 0 < deliveredBytes then wrap64 (deliveredBytes + 3) sdiv 4 else 0);
          rawCost = estimatePrecheckBalanceDelta (ce_routes env (tc_ModelName ctx))
            (estimatePrecheckTokens (ce_cjk env) (tc_Body ctx)) outputTokens;
          resolution = WithCosts (ResolveBillingRules (ce_cfg env) (tc_ModelName ctx) (tc_Body ctx) reasoningTokens
            (channelTypeOfSelected (tc_SelectedChan ctx)) (tc_FallbackUserOptIn ctx)) rawCost
      in (rawCost, ChargedCostMicroUSD resolution))"

subsection \<open>Statements that are allowed to fail\<close>

text \<open>A new row's id is its position.\<close>

definition create_api_log :: "api_log \<Rightarrow> nat tx" where
  "create_api_log l = stmt (\<lambda>t. (Suc (length (api_logs t)), t \<lparr> api_logs := api_logs t @ [l] \<rparr>))"

definition persisted_id :: "nat option \<Rightarrow> nat" where
  "persisted_id oid = (case oid of None \<Rightarrow> 0 | Some i \<Rightarrow> i)"

text \<open>A revenue row is unique per log; one attempt and three retries.\<close>

definition insert_revenue :: "api_revenue \<Rightarrow> unit tx" where
  "insert_revenue r = tx_bind
     (stmt (\<lambda>t. if list_ex (\<lambda>x. rv_ApiLogID x = rv_ApiLogID r) (revenues t) then (False, t)
                else (True, t \<lparr> revenues := revenues t @ [r] \<rparr>)))
     (\<lambda>ok. if ok then tx_return () else tx_throw DbError)"

fun revenue_attempts :: "nat \<Rightarrow> api_revenue \<Rightarrow> unit tx" where
  "revenue_attempts 0 r = tx_return ()"
| "revenue_attempts (Suc n) r = tx_catch (insert_revenue r) (\<lambda>_. revenue_attempts n r)"

definition recordApiLogRevenueAsyncBody :: "nat \<Rightarrow> string \<Rightarrow> int64 \<Rightarrow> nat \<Rightarrow> unit tx" where
  "recordApiLogRevenueAsyncBody apiLogID source effective subscriptionID = revenue_attempts 4
     \<lparr> rv_ApiLogID = apiLogID, rv_Source = source, rv_EffectiveMicroUSD = effective,
       rv_SubscriptionID = subscriptionID \<rparr>"

definition RecordApiLogRevenue :: "nat \<Rightarrow> string \<Rightarrow> int64 \<Rightarrow> nat \<Rightarrow> unit tx" where
  "RecordApiLogRevenue apiLogID source effective subscriptionID =
     (if apiLogID = 0 then tx_return ()
      else recordApiLogRevenueAsyncBody apiLogID source effective subscriptionID)"

subsection \<open>Debts to reconcile\<close>

definition api_log_of ::
  "nat \<Rightarrow> string \<Rightarrow> usageTokenCounts \<Rightarrow> int64 \<Rightarrow> int64 \<Rightarrow> int \<Rightarrow> api_log" where
  "api_log_of uid model u cost charged status =
     \<lparr> al_UserID = uid, al_ModelName = model, al_PromptTokens = PromptTokens u,
       al_CompletionTokens = CompletionTokens u, al_CachedTokens = CachedTokens u,
       al_CacheWriteTokens = CacheWriteTokens u, al_CacheWrite5mTokens = CacheWrite5mTokens u,
       al_CacheWrite1hTokens = CacheWrite1hTokens u, al_ReasoningTokens = ReasoningTokens u,
       al_Cost = cost, al_ChargedCost = charged, al_Status = status, al_PrecheckInputTokens = 0,
       al_PrecheckRawCost = 0, al_PrecheckChargedCost = 0 \<rparr>"

definition usage_entry :: "nat \<Rightarrow> string \<Rightarrow> usageTokenCounts \<Rightarrow> nat \<Rightarrow> string \<Rightarrow> int64 \<Rightarrow> billing_entry" where
  "usage_entry uid model u logID entryType balance = blank_entry
     \<lparr> be_UserID := uid, be_EntryType := entryType, be_BalanceAfterUSD := balance,
       be_RelatedType := (if 0 < logID then ''api_log'' else ''''), be_RelatedID := logID,
       be_ModelName := model, be_TokensTotal := wrap64 (PromptTokens u + CompletionTokens u) \<rparr>"

definition pending_entry ::
  "commit_env \<Rightarrow> CommitTextContext \<Rightarrow> nat \<Rightarrow> usageTokenCounts \<Rightarrow> nat \<Rightarrow> int64 \<Rightarrow> int64 \<Rightarrow> billing_entry" where
  "pending_entry env ctx uid u logID balance cost =
     (usage_entry uid (tc_ModelName ctx) u logID ''api_usage_pending_reconcile'' balance)
     \<lparr> be_BillingState := ''pending_reconcile'',
       be_RequestID := UpstreamRequestID (ce_sanitize env) (tc_UpstreamHeaders ctx) logID uid (tc_StartTime ctx),
       be_EstimatedInputTokens := PromptTokens u, be_EstimatedCostUSD := cost \<rparr>"

definition RecordManualBillingState :: "commit_env \<Rightarrow> CommitTextContext \<Rightarrow> ManualBillingStateInput \<Rightarrow> unit tx" where
  "RecordManualBillingState env ctx inp =
     (case tc_User ctx of None \<Rightarrow> tx_return ()
      | Some (uid, snapshot) \<Rightarrow>
        let estInput = (if mb_EstimatedInputTokens inp \<le> 0
              then estimatePrecheckTokens (ce_cjk env) (tc_Body ctx) else mb_EstimatedInputTokens inp);
            status = (if mb_Status inp = 0 then 200 else mb_Status inp);
            raw = zero_neg (mb_EstimatedRawCostMicroUSD inp);
            resolution = WithCosts (ResolveBillingRules (ce_cfg env) (tc_ModelName ctx) (tc_Body ctx)
              (ReasoningTokens (mb_Usage inp)) (channelTypeOfSelected (tc_SelectedChan ctx))
              (tc_FallbackUserOptIn ctx)) raw;
            charged = zero_neg (if mb_EstimatedChargedCostMicroUSD inp \<le> 0 \<and> 0 < raw
              then ChargedCostMicroUSD resolution else mb_EstimatedChargedCostMicroUSD inp);
            reconcile = (if \<not> tc_FallbackToBalance ctx then charged else raw);
            row = (api_log_of uid (tc_ModelName ctx) (mb_Usage inp) 0 0 status)
              \<lparr> al_PrecheckInputTokens := estInput, al_PrecheckRawCost := raw, al_PrecheckChargedCost := charged \<rparr>
        in tx_bind (try_tx (create_api_log row)) (\<lambda>log.
             tx_bind (try_tx (query_first (\<lambda>t. users t uid))) (\<lambda>fresh.
               let balance = (case fresh of None \<Rightarrow> u_Quota snapshot | Some f \<Rightarrow> u_Quota f);
                   e = (pending_entry env ctx uid (mb_Usage inp) (persisted_id log) balance reconcile)
                     \<lparr> be_BillingState := mb_BillingState inp, be_DeliveredBytes := mb_DeliveredBytes inp,
                       be_EstimatedInputTokens := estInput \<rparr>
               in tx_bind (writeBillingWithRetry (ce_now env) e) (\<lambda>_. tx_return ()))))"

subsection \<open>Taking the cost from the balance\<close>

definition debit :: "nat \<Rightarrow> int64 \<Rightarrow> nat tx" where
  "debit uid cost = stmt (update_user_if uid (\<lambda>u. cost \<le> u_Quota u) (\<lambda>u. u \<lparr> u_Quota := u_Quota u - cost \<rparr>))"

definition debt_for_reconcile ::
  "commit_env \<Rightarrow> CommitTextContext \<Rightarrow> nat \<Rightarrow> usageTokenCounts \<Rightarrow> nat \<Rightarrow> int64 \<Rightarrow> unit tx" where
  "debt_for_reconcile env ctx uid u logID cost =
     tx_bind (query_first (\<lambda>t. users t uid)) (\<lambda>cur.
       WriteBillingEntry (ce_now env) (pending_entry env ctx uid u logID (u_Quota cur) cost))"

definition consume_entry :: "CommitTextContext \<Rightarrow> nat \<Rightarrow> usageTokenCounts \<Rightarrow> nat \<Rightarrow> int64 \<Rightarrow> int64 \<Rightarrow> billing_entry" where
  "consume_entry ctx uid u logID balance cost =
     (usage_entry uid (tc_ModelName ctx) u logID ''api_consume_balance'' balance) \<lparr> be_AmountUSD := - cost \<rparr>"

definition book_charge ::
  "commit_env \<Rightarrow> CommitTextContext \<Rightarrow> nat \<Rightarrow> usageTokenCounts \<Rightarrow> nat \<Rightarrow> int64 \<Rightarrow> referral_result tx" where
  "book_charge env ctx uid u logID cost =
     tx_bind (query_first (\<lambda>t. users t uid)) (\<lambda>fresh.
       tx_bind (WriteBillingEntry (ce_now env) (consume_entry ctx uid u logID (u_Quota fresh) cost)) (\<lambda>_.
         ApplyReferralPaidSpendRewardTx (ce_now env) uid cost
           (fst (readReferralPaidSpendRewardConfig (ce_cfg env)))
           (snd (readReferralPaidSpendRewardConfig (ce_cfg env))) (ce_now env)
           (if 0 < logID then ''api_log'' else '''') logID))"

text \<open>The transaction: \<open>None\<close> when the balance does not suffice and the debt has been recorded.\<close>

definition balance_body ::
  "commit_env \<Rightarrow> CommitTextContext \<Rightarrow> nat \<Rightarrow> usageTokenCounts \<Rightarrow> nat \<Rightarrow> int64 \<Rightarrow> referral_result option tx" where
  "balance_body env ctx uid u logID cost =
     tx_bind (TryConsumeBalanceTx (ce_now env) uid cost True) (\<lambda>_.
       tx_bind (debit uid cost) (\<lambda>n.
         if n = 0 then tx_bind (debt_for_reconcile env ctx uid u logID cost) (\<lambda>_. tx_return None)
         else tx_bind (book_charge env ctx uid u logID cost) (\<lambda>reward. tx_return (Some reward))))"

definition commitTextBalanceTurn ::
  "commit_env \<Rightarrow> CommitTextContext \<Rightarrow> nat \<Rightarrow> usageTokenCounts \<Rightarrow> nat \<Rightarrow> int64 \<Rightarrow> (int64 \<times> cache_effect list) tx" where
  "commitTextBalanceTurn env ctx uid u logID cost =
     tx_bind (try_tx (transaction (balance_body env ctx uid u logID cost))) (\<lambda>res.
       case res of
         None \<Rightarrow> tx_return (0, [])
       | Some None \<Rightarrow> tx_return (0, [RefreshUserAuth uid])
       | Some (Some reward) \<Rightarrow>
           tx_bind (if 0 < logID then RecordApiLogRevenue logID ''balance'' cost 0 else tx_return ()) (\<lambda>_.
             tx_return (cost, RefreshUserAuth uid #
               (if rr_ReferrerID reward \<noteq> 0 \<and> 0 < rr_RewardMicroUSD reward
                then [RefreshUserAuth (rr_ReferrerID reward)] else []))))"

subsection \<open>The whole commit\<close>

definition failed_status :: "int \<Rightarrow> bool" where
  "failed_status status \<longleftrightarrow> status < 200 \<or> 400 \<le> status"

definition decide_tx :: "commit_env \<Rightarrow> cached_subscription list option \<Rightarrow> EngineRequest \<Rightarrow> EngineDecision tx" where
  "decide_tx env loaded req w = (case Decide (ce_order env) (ce_cfg env) (ce_now env) loaded req w of (d, w') \<Rightarrow> (Inr d, w'))"

definition subscription_hit :: "EngineDecision \<Rightarrow> bool" where
  "subscription_hit d \<longleftrightarrow> ed_Allowed d \<and> \<not> ed_FallbackToBalance d"

text \<open>Booking a request that a subscription paid; the result is the revenue.\<close>

definition commit_subscription ::
  "commit_env \<Rightarrow> CommitTextContext \<Rightarrow> nat \<Rightarrow> user \<Rightarrow> usageTokenCounts \<Rightarrow> nat \<Rightarrow> int64 \<Rightarrow> EngineDecision \<Rightarrow> int64 tx" where
  "commit_subscription env ctx uid snapshot u logID charged d =
     (let revenue = subscriptionRevenueMicroUSD charged (ed_SubscriptionIsGranted d) in
      tx_bind (writeBillingWithRetry (ce_now env)
          ((usage_entry uid (tc_ModelName ctx) u logID ''api_usage_sub'' (u_Quota snapshot))
            \<lparr> be_SourceSubscriptionID := Some (ed_SubscriptionID d) \<rparr>)) (\<lambda>_.
        tx_bind (if 0 < logID then RecordApiLogRevenue logID ''subscription'' revenue (ed_SubscriptionID d)
                 else tx_return ()) (\<lambda>_. tx_return revenue)))"

definition commit_unauthorized ::
  "commit_env \<Rightarrow> CommitTextContext \<Rightarrow> nat \<Rightarrow> user \<Rightarrow> usageTokenCounts \<Rightarrow> nat \<Rightarrow> int64 \<Rightarrow> unit tx" where
  "commit_unauthorized env ctx uid snapshot u logID cost =
     tx_bind (writeBillingWithRetry (ce_now env) (pending_entry env ctx uid u logID (u_Quota snapshot) cost))
       (\<lambda>_. tx_return ())"

text \<open>Who pays, once the request has been logged and the engine has decided.\<close>

definition settle_text ::
  "commit_env \<Rightarrow> CommitTextContext \<Rightarrow> nat \<Rightarrow> user \<Rightarrow> usageTokenCounts \<Rightarrow> nat \<Rightarrow> int64 \<Rightarrow> int64 \<Rightarrow> EngineDecision
    \<Rightarrow> (int64 \<times> cache_effect list) tx" where
  "settle_text env ctx uid snapshot u logID cost charged d =
     (if subscription_hit d
      then tx_bind (commit_subscription env ctx uid snapshot u logID charged d) (\<lambda>r. tx_return (r, []))
      else if 0 < charged
      then (if \<not> u_BalanceConsumeEnabled snapshot
            then tx_bind (commit_unauthorized env ctx uid snapshot u logID cost) (\<lambda>_. tx_return (0, []))
            else commitTextBalanceTurn env ctx uid u logID cost)
      else tx_return (0, []))"

text \<open>The access token's running total, in the table and then in the cache.\<close>

definition add_used_quota :: "CommitTextContext \<Rightarrow> int64 \<Rightarrow> int \<Rightarrow> cache_effect list tx" where
  "add_used_quota ctx revenue status =
     (case tc_SubToken ctx of None \<Rightarrow> tx_return []
      | Some tokenID \<Rightarrow>
        if \<not> (0 < revenue \<and> 200 \<le> status \<and> status < 400) then tx_return []
        else tx_bind (try_tx (stmt (\<lambda>t. case access_tokens t tokenID of
                 None \<Rightarrow> (False, t)
               | Some a \<Rightarrow> (True, t \<lparr> access_tokens := (access_tokens t)(tokenID \<mapsto>
                   a \<lparr> at_UsedQuota := at_UsedQuota a + revenue \<rparr>) \<rparr>)))) (\<lambda>r.
          tx_return (if r = Some True then [AddUsedQuota (tc_Token ctx) revenue] else [])))"

definition manual_input ::
  "usageTokenCounts \<Rightarrow> int64 \<Rightarrow> int64 \<times> int64 \<Rightarrow> ManualBillingStateInput" where
  "manual_input u deliveredBytes estimate =
     \<lparr> mb_BillingState = ''pending_reconcile'', mb_Status = 200, mb_Usage = u, mb_DeliveredBytes = deliveredBytes,
       mb_EstimatedInputTokens = PromptTokens u, mb_EstimatedRawCostMicroUSD = fst estimate,
       mb_EstimatedChargedCostMicroUSD = snd estimate \<rparr>"

definition has_tokens :: "usageTokenCounts \<Rightarrow> bool" where
  "has_tokens u \<longleftrightarrow> 0 < PromptTokens u \<or> 0 < CompletionTokens u"

definition engine_request :: "nat \<Rightarrow> string \<Rightarrow> usageTokenCounts \<Rightarrow> int64 \<Rightarrow> EngineRequest" where
  "engine_request uid model u charged =
     \<lparr> rq_UserID = uid, rq_ModelName = model, rq_InputTokens = PromptTokens u, rq_OutputTokens = CompletionTokens u,
       rq_CostMicroUSD = charged, rq_IsPrecheck = False \<rparr>"

text \<open>The request has been logged under \<open>logID\<close>: decide, settle, and add up the token's use.\<close>

definition decide_and_settle ::
  "commit_env \<Rightarrow> CommitTextContext \<Rightarrow> cached_subscription list option \<Rightarrow> nat \<Rightarrow> user \<Rightarrow> usageTokenCounts
    \<Rightarrow> int \<Rightarrow> nat \<Rightarrow> int64 \<Rightarrow> int64 \<Rightarrow> (bool \<times> cache_effect list) tx" where
  "decide_and_settle env ctx loaded uid snapshot u status logID cost charged =
     tx_bind (if failed_status status then tx_return no_decision
              else decide_tx env loaded (engine_request uid (tc_ModelName ctx) u charged)) (\<lambda>d.
       if \<not> failed_status status \<and> ed_NeedsRetry d
       then tx_bind (writeBillingWithRetry (ce_now env) (pending_entry env ctx uid u logID (u_Quota snapshot) cost))
              (\<lambda>_. tx_return (True, []))
       else tx_bind (settle_text env ctx uid snapshot u logID cost charged d) (\<lambda>(revenue, eff).
              tx_bind (add_used_quota ctx revenue status) (\<lambda>eff'. tx_return (True, eff @ eff'))))"

definition CommitTextTurn ::
  "commit_env \<Rightarrow> CommitTextContext \<Rightarrow> cached_subscription list option \<Rightarrow> usageTokenCounts \<Rightarrow> int \<Rightarrow> int64
    \<Rightarrow> (bool \<times> cache_effect list) tx" where
  "CommitTextTurn env ctx loaded usage status deliveredBytes =
     (case (tc_User ctx, tc_SelectedPath ctx) of
        (Some (uid, snapshot), Some cm) \<Rightarrow>
          (let u = clamp_usage usage; failed = failed_status status in
           case (if failed then Some 0 else text_cost cm u) of
             None \<Rightarrow>
               tx_bind (if tc_IsStream ctx
                   then RecordManualBillingState env ctx
                     (manual_input u deliveredBytes (EstimateDeliveredCost env ctx deliveredBytes (ReasoningTokens u)))
                   else tx_return ()) (\<lambda>_. tx_return (False, []))
           | Some cost \<Rightarrow>
               tx_bind (if \<not> failed \<and> cost = 0 \<and> has_tokens u \<and> tc_IsStream ctx
                   then RecordManualBillingState env ctx (manual_input u deliveredBytes (0, 0))
                   else tx_return ()) (\<lambda>_.
               let charged = ChargedCostMicroUSD (WithCosts (ResolveBillingRules (ce_cfg env) (tc_ModelName ctx)
                     (tc_Body ctx) (ReasoningTokens u) (channelTypeOfSelected (tc_SelectedChan ctx))
                     (tc_FallbackUserOptIn ctx)) cost) in
               tx_bind (try_tx (create_api_log (api_log_of uid (tc_ModelName ctx) u cost charged status))) (\<lambda>log.
               tx_bind (if 0 < persisted_id log \<and> \<not> failed \<and> has_tokens u
                   then writeTextUsageLines (persisted_id log) u (text_prices_of cm u) else tx_return ()) (\<lambda>_.
               decide_and_settle env ctx loaded uid snapshot u status (persisted_id log) cost charged))))
      | _ \<Rightarrow> tx_return (False, []))"

end
