(* ===== verification/MediaBilling.thy ===== *)
theory MediaBilling
  imports MediaPricing TextBilling
begin

section \<open>Committing media requests (\<^verbatim>\<open>proxy/media_billing.go\<close>, \<^verbatim>\<open>proxy/image_billing.go\<close>,
  \<^verbatim>\<open>proxy/video_billing.go\<close>, \<^verbatim>\<open>proxy/gemini_billing.go\<close>)\<close>

text \<open>
  What the handlers of images, videos and Gemini requests do once the upstream has answered:
  price the response, ask the engine, and book it to a subscription, to the balance, or as a
  debt to reconcile. The three kinds, with their streamed forms, run the same commit; they differ
  in the record \<open>media_turn\<close> they build from the request and its price. Unlike the commit of a
  text request, the log row of a charge is written in the transaction of the charge. The rest
  of the answer to the client, the row that remembers a video job, and the fields of a log row that
  are for display, are left out.
\<close>

record media_context =
  mx_UserID :: nat
  mx_User :: user
  mx_Token :: string
  mx_SubToken :: "nat option"
  mx_StartTime :: nanos
  mx_Status :: int

record media_turn =
  mt_ModelName :: string
  mt_Amount :: int64
  mt_Charged :: int64
  mt_Usage :: usageTokenCounts
  mt_TokensTotal :: int64
  mt_InputUnits :: int64
  mt_OutputUnits :: int64
  mt_Lines :: "nat \<Rightarrow> usage_line list"
  mt_RequestID :: "nat \<Rightarrow> string"

subsection \<open>The log row\<close>

definition create_lines :: "usage_line list \<Rightarrow> unit tx" where
  "create_lines ls = (if ls = [] then tx_return ()
     else stmt (\<lambda>t. ((), t \<lparr> usage_lines := usage_lines t @ ls \<rparr>)))"

definition media_log_row :: "media_context \<Rightarrow> media_turn \<Rightarrow> int64 \<Rightarrow> int64 \<Rightarrow> api_log" where
  "media_log_row mx mt cost charged = api_log_of (mx_UserID mx) (mt_ModelName mt) (mt_Usage mt) cost charged (mx_Status mx)"

definition media_log_body :: "media_context \<Rightarrow> media_turn \<Rightarrow> nat tx" where
  "media_log_body mx mt =
     tx_bind (create_api_log (media_log_row mx mt (mt_Amount mt) (mt_Charged mt))) (\<lambda>i.
       tx_bind (create_lines (mt_Lines mt i)) (\<lambda>_. tx_return i))"

text \<open>The id of the row, 0 when it could not be written.\<close>

definition createMediaApiLog :: "media_context \<Rightarrow> media_turn \<Rightarrow> nat tx" where
  "createMediaApiLog mx mt = tx_bind (try_tx (transaction (media_log_body mx mt))) (\<lambda>r. tx_return (persisted_id r))"

definition media_entry :: "media_context \<Rightarrow> media_turn \<Rightarrow> nat \<Rightarrow> string \<Rightarrow> int64 \<Rightarrow> billing_entry" where
  "media_entry mx mt logID entryType balance =
     (usage_entry (mx_UserID mx) (mt_ModelName mt) (mt_Usage mt) logID entryType balance) \<lparr> be_TokensTotal := mt_TokensTotal mt \<rparr>"

definition media_pending_entry :: "media_context \<Rightarrow> media_turn \<Rightarrow> nat \<Rightarrow> int64 \<Rightarrow> billing_entry" where
  "media_pending_entry mx mt logID balance =
     (media_entry mx mt logID ''api_usage_pending_reconcile'' balance)
     \<lparr> be_BillingState := ''pending_reconcile'', be_RequestID := mt_RequestID mt logID, be_EstimatedCostUSD := mt_Amount mt \<rparr>"

definition recordMediaPendingReconcile :: "commit_env \<Rightarrow> media_context \<Rightarrow> media_turn \<Rightarrow> nat tx" where
  "recordMediaPendingReconcile env mx mt =
     tx_bind (createMediaApiLog mx mt) (\<lambda>logID.
       tx_bind (writeBillingWithRetry (ce_now env) (media_pending_entry mx mt logID (u_Quota (mx_User mx)))) (\<lambda>_.
         tx_return logID))"

subsection \<open>The charge\<close>

definition media_consume_entry :: "media_context \<Rightarrow> media_turn \<Rightarrow> nat \<Rightarrow> int64 \<Rightarrow> billing_entry" where
  "media_consume_entry mx mt logID balance =
     (media_entry mx mt logID ''api_consume_balance'' balance) \<lparr> be_AmountUSD := - mt_Amount mt \<rparr>"

text \<open>Inside the transaction, after the debit: the log with its lines, then the entry. \<open>None\<close> when the
  balance did not suffice.\<close>

definition media_debt :: "commit_env \<Rightarrow> media_context \<Rightarrow> media_turn \<Rightarrow> nat \<Rightarrow> unit tx" where
  "media_debt env mx mt logID = tx_bind (query_first (\<lambda>t. users t (mx_UserID mx))) (\<lambda>cur.
     WriteBillingEntry (ce_now env) (media_pending_entry mx mt logID (u_Quota cur)))"

definition media_charge :: "commit_env \<Rightarrow> media_context \<Rightarrow> media_turn \<Rightarrow> nat \<Rightarrow> referral_result tx" where
  "media_charge env mx mt logID = tx_bind (query_first (\<lambda>t. users t (mx_UserID mx))) (\<lambda>fresh.
     tx_bind (WriteBillingEntry (ce_now env) (media_consume_entry mx mt logID (u_Quota fresh))) (\<lambda>_.
       ApplyReferralPaidSpendRewardTx (ce_now env) (mx_UserID mx) (mt_Amount mt)
         (fst (readReferralPaidSpendRewardConfig (ce_cfg env)))
         (snd (readReferralPaidSpendRewardConfig (ce_cfg env))) (ce_now env) ''api_log'' logID))"

definition media_balance_body :: "commit_env \<Rightarrow> media_context \<Rightarrow> media_turn \<Rightarrow> (nat \<times> referral_result option) tx" where
  "media_balance_body env mx mt =
     tx_bind (TryConsumeBalanceTx (ce_now env) (mx_UserID mx) (mt_Amount mt) True) (\<lambda>_.
       tx_bind (debit (mx_UserID mx) (mt_Amount mt)) (\<lambda>n.
         tx_bind (create_api_log (if n = 0 then media_log_row mx mt 0 0
             else media_log_row mx mt (mt_Amount mt) (mt_Charged mt))) (\<lambda>i.
           tx_bind (create_lines (mt_Lines mt i)) (\<lambda>_.
             if n = 0 then tx_bind (media_debt env mx mt i) (\<lambda>_. tx_return (i, None))
             else tx_bind (media_charge env mx mt i) (\<lambda>reward. tx_return (i, Some reward))))))"

text \<open>The log id, the revenue, the reward, and the user to refresh.\<close>

definition DeductMediaBalanceAndLog ::
  "commit_env \<Rightarrow> media_context \<Rightarrow> media_turn \<Rightarrow> (nat \<times> int64 \<times> referral_result option \<times> cache_effect list) tx" where
  "DeductMediaBalanceAndLog env mx mt =
     tx_bind (try_tx (transaction (media_balance_body env mx mt))) (\<lambda>res. case res of
         None \<Rightarrow> tx_bind (recordMediaPendingReconcile env mx mt) (\<lambda>i. tx_return (i, 0, None, []))
       | Some (i, None) \<Rightarrow> tx_return (i, 0, None, [RefreshUserAuth (mx_UserID mx)])
       | Some (i, Some reward) \<Rightarrow>
           tx_bind (if i \<noteq> 0 then RecordApiLogRevenue i ''balance'' (mt_Amount mt) 0 else tx_return ()) (\<lambda>_.
             tx_return (i, mt_Amount mt, Some reward, [RefreshUserAuth (mx_UserID mx)])))"

subsection \<open>The commit\<close>

text \<open>The running total of an access token; the cache follows unless the statement fails.\<close>

definition incrementSubTokenUsedQuota :: "string \<Rightarrow> nat option \<Rightarrow> int64 \<Rightarrow> cache_effect list tx" where
  "incrementSubTokenUsedQuota token subToken amount =
     (case subToken of None \<Rightarrow> tx_return []
      | Some tokenID \<Rightarrow> if amount \<le> 0 then tx_return []
          else tx_bind (try_tx (stmt (\<lambda>t. case access_tokens t tokenID of None \<Rightarrow> ((), t)
                 | Some a \<Rightarrow> ((), t \<lparr> access_tokens := (access_tokens t)(tokenID \<mapsto>
                     a \<lparr> at_UsedQuota := at_UsedQuota a + amount \<rparr>) \<rparr>)))) (\<lambda>r.
            tx_return (if r = None then [] else [AddUsedQuota token amount])))"

text \<open>A request that a subscription paid: one attempt at the entry.\<close>

definition media_subscription ::
  "commit_env \<Rightarrow> media_context \<Rightarrow> media_turn \<Rightarrow> EngineDecision
    \<Rightarrow> (nat \<times> int64 \<times> referral_result option \<times> cache_effect list) tx" where
  "media_subscription env mx mt d =
     (let revenue = subscriptionRevenueMicroUSD (mt_Charged mt) (ed_SubscriptionIsGranted d) in
      tx_bind (createMediaApiLog mx mt) (\<lambda>i.
        tx_bind (try_tx (WriteBillingEntryNonFatal (ce_now env)
            ((media_entry mx mt i ''api_usage_sub'' (u_Quota (mx_User mx)))
              \<lparr> be_SourceSubscriptionID := Some (ed_SubscriptionID d) \<rparr>))) (\<lambda>_.
          tx_bind (if i \<noteq> 0 then RecordApiLogRevenue i ''subscription'' revenue (ed_SubscriptionID d) else tx_return ())
            (\<lambda>_. tx_return (i, revenue, None, [])))))"

definition reward_refresh :: "referral_result option \<Rightarrow> cache_effect list" where
  "reward_refresh rew = (case rew of None \<Rightarrow> []
     | Some r \<Rightarrow> if rr_ReferrerID r \<noteq> 0 \<and> 0 < rr_RewardMicroUSD r then [RefreshUserAuth (rr_ReferrerID r)] else [])"

definition media_request :: "media_context \<Rightarrow> media_turn \<Rightarrow> EngineRequest" where
  "media_request mx mt = \<lparr> rq_UserID = mx_UserID mx, rq_ModelName = mt_ModelName mt, rq_InputTokens = mt_InputUnits mt,
     rq_OutputTokens = mt_OutputUnits mt, rq_CostMicroUSD = mt_Charged mt, rq_IsPrecheck = False \<rparr>"

definition media_commit ::
  "commit_env \<Rightarrow> media_context \<Rightarrow> cached_subscription list option \<Rightarrow> media_turn \<Rightarrow> (nat \<times> cache_effect list) tx" where
  "media_commit env mx loaded mt =
     tx_bind (decide_tx env loaded (media_request mx mt)) (\<lambda>d.
       if ed_NeedsRetry d \<or> (\<not> subscription_hit d \<and> \<not> u_BalanceConsumeEnabled (mx_User mx))
       then tx_bind (recordMediaPendingReconcile env mx mt) (\<lambda>i. tx_return (i, []))
       else tx_bind (if subscription_hit d then media_subscription env mx mt d else DeductMediaBalanceAndLog env mx mt)
         (\<lambda>(i, revenue, rew, eff). tx_bind (incrementSubTokenUsedQuota (mx_Token mx) (mx_SubToken mx) revenue)
           (\<lambda>eff'. tx_return (i, eff @ eff' @ reward_refresh rew))))"

subsection \<open>Images\<close>

definition media_charged :: "commit_env \<Rightarrow> string \<Rightarrow> gj_body \<Rightarrow> int64 \<Rightarrow> string option \<Rightarrow> bool \<Rightarrow> int64 \<Rightarrow> int64" where
  "media_charged env model body reasoning chan optIn amount = ChargedCostMicroUSD
     (WithCosts (ResolveBillingRules (ce_cfg env) model body reasoning (channelTypeOfSelected chan) optIn) amount)"

definition api_log_request_id :: "nat \<Rightarrow> nanos \<Rightarrow> nat \<Rightarrow> string" where
  "api_log_request_id uid startTime logID = (if 0 < logID then ''api_log:'' @ show_nat logID
     else ''local:'' @ show_nat uid @ '':'' @ show_int startTime)"

definition imageTokenTotal :: "imagePriceResolution \<Rightarrow> int64" where
  "imageTokenTotal p = (if ip_BillingMode p = ''token''
     then wrap64 (PromptTokens (ip_Usage p) + CompletionTokens (ip_Usage p)) else 0)"

definition imageDecisionInputUnits :: "imagePriceResolution \<Rightarrow> int64" where
  "imageDecisionInputUnits p = (if ip_BillingMode p = ''token'' then PromptTokens (ip_Usage p) else 0)"

definition imageDecisionOutputUnits :: "imagePriceResolution \<Rightarrow> int64" where
  "imageDecisionOutputUnits p = (if ip_BillingMode p = ''token'' then CompletionTokens (ip_Usage p) else ip_Quantity p)"

definition imageUsageLines :: "nat \<Rightarrow> imagePriceResolution \<Rightarrow> usage_line list" where
  "imageUsageLines logID p = (if ip_BillingMode p = ''token''
     then [\<lparr> ul_ApiLogID = logID, ul_Direction = ''total'', ul_Quantity = imageTokenTotal p, ul_UnitPriceMicro = 0,
             ul_AmountMicroUSD = ip_AmountMicroUSD p \<rparr>]
     else [\<lparr> ul_ApiLogID = logID, ul_Direction = ''output'', ul_Quantity = ip_Quantity p,
             ul_UnitPriceMicro = ip_UnitPriceMicro p, ul_AmountMicroUSD = ip_AmountMicroUSD p \<rparr>])"

definition image_turn :: "media_context \<Rightarrow> imageGenerationRequest \<Rightarrow> int64 \<Rightarrow> imagePriceResolution \<Rightarrow> media_turn" where
  "image_turn mx req charged p = \<lparr> mt_ModelName = iq_Model req, mt_Amount = ip_AmountMicroUSD p, mt_Charged = charged,
     mt_Usage = ip_Usage p, mt_TokensTotal = imageTokenTotal p, mt_InputUnits = imageDecisionInputUnits p,
     mt_OutputUnits = imageDecisionOutputUnits p, mt_Lines = (\<lambda>i. imageUsageLines i p),
     mt_RequestID = api_log_request_id (mx_UserID mx) (mx_StartTime mx) \<rparr>"

text \<open>\<open>body\<close> is the request, \<open>resp\<close> the response.\<close>

record media_exchange =
  me_Body :: gj_body
  me_Resp :: gj_body
  me_Route :: "media_route option"
  me_Chan :: "string option"
  me_OptIn :: bool

definition recordProxyApiLog :: "nat \<Rightarrow> string \<Rightarrow> int \<Rightarrow> unit tx" where
  "recordProxyApiLog uid model status =
     (let name = TrimSpace model in
      tx_bind (try_tx (create_api_log (api_log_of uid (if name = '''' then ''unknown'' else name) no_usage 0 0 status)))
        (\<lambda>_. tx_return ()))"

definition unknown_usage_price :: "imagePriceResolution \<Rightarrow> int \<Rightarrow> imagePriceResolution" where
  "unknown_usage_price pre images = no_image_price
     \<lparr> ip_BillingMode := ''token'', ip_Quantity := 1, ip_AmountMicroUSD := ip_AmountMicroUSD pre,
       ip_ResponseImages := images, ip_CostSource := ''pending_reconcile'' \<rparr>"

definition image_turn_of ::
  "commit_env \<Rightarrow> media_context \<Rightarrow> media_exchange \<Rightarrow> imageGenerationRequest \<Rightarrow> imagePriceResolution \<Rightarrow> media_turn" where
  "image_turn_of env mx me req p =
     image_turn mx req (media_charged env (iq_Model req) (me_Body me) 0 (me_Chan me) (me_OptIn me) (ip_AmountMicroUSD p)) p"

definition settle_image_response ::
  "commit_env \<Rightarrow> media_context \<Rightarrow> cached_subscription list option \<Rightarrow> model_db \<Rightarrow> media_exchange
    \<Rightarrow> imageGenerationRequest \<Rightarrow> media_route list \<Rightarrow> imagePriceResolution \<Rightarrow> (nat \<times> cache_effect list) tx" where
  "settle_image_response env mx loaded db me req routes pre =
     (case resolveImageActualPrice db req (me_Resp me) (me_Route me) of
        Inl UsageUnavailable \<Rightarrow>
          let p = (case resolveImagePrecheckPrice (ce_cjk env) db req routes of
                Inl _ \<Rightarrow> unknown_usage_price pre (countGeneratedImages (me_Resp me))
              | Inr p \<Rightarrow> p \<lparr> ip_CostSource := ''pending_reconcile'' \<rparr>)
          in tx_bind (recordMediaPendingReconcile env mx (image_turn_of env mx me req p)) (\<lambda>i. tx_return (i, []))
      | Inl PriceFailed \<Rightarrow> tx_bind (recordProxyApiLog (mx_UserID mx) (iq_Model req) 502) (\<lambda>_. tx_return (0, []))
      | Inr p \<Rightarrow> media_commit env mx loaded (image_turn_of env mx me req p))"

text \<open>A stream is priced from its final event; one that was cut off, or whose price fails, is a debt
  of the estimated amount.\<close>

definition performStreamingImageBilling ::
  "commit_env \<Rightarrow> media_context \<Rightarrow> cached_subscription list option \<Rightarrow> model_db \<Rightarrow> media_exchange
    \<Rightarrow> imageGenerationRequest \<Rightarrow> imagePriceResolution \<Rightarrow> bool \<Rightarrow> bool \<Rightarrow> (nat \<times> cache_effect list) tx" where
  "performStreamingImageBilling env mx loaded db me req pre sawCompleted clientDisconnected =
     (let price = (if clientDisconnected \<or> \<not> sawCompleted then Inl PriceFailed
            else resolveImageActualPrice db req (me_Resp me) (me_Route me)) in
      case price of
        Inl _ \<Rightarrow> tx_bind (recordMediaPendingReconcile env mx (image_turn_of env mx me req (unknown_usage_price pre 1)))
            (\<lambda>i. tx_return (i, []))
      | Inr p \<Rightarrow> media_commit env mx loaded (image_turn_of env mx me req p))"

subsection \<open>Videos\<close>

definition video_turn :: "media_context \<Rightarrow> videoGenerationRequest \<Rightarrow> int64 \<Rightarrow> videoPriceResolution \<Rightarrow> media_turn" where
  "video_turn mx req charged p = \<lparr> mt_ModelName = vq_Model req, mt_Amount = vp_AmountMicroUSD p, mt_Charged = charged,
     mt_Usage = no_usage, mt_TokensTotal = vp_Quantity p, mt_InputUnits = 0, mt_OutputUnits = vp_Quantity p,
     mt_Lines = (\<lambda>i. [\<lparr> ul_ApiLogID = i, ul_Direction = ''output'', ul_Quantity = vp_Quantity p,
        ul_UnitPriceMicro = vp_UnitPriceMicro p, ul_AmountMicroUSD = vp_AmountMicroUSD p \<rparr>]),
     mt_RequestID = api_log_request_id (mx_UserID mx) (mx_StartTime mx) \<rparr>"

definition settle_video_response ::
  "commit_env \<Rightarrow> media_context \<Rightarrow> cached_subscription list option \<Rightarrow> model_db \<Rightarrow> media_exchange
    \<Rightarrow> videoGenerationRequest \<Rightarrow> (nat \<times> cache_effect list) tx" where
  "settle_video_response env mx loaded db me req =
     (case resolveVideoPrice db req (costTicksFromMediaResponse (me_Resp me)) of
        None \<Rightarrow> tx_bind (recordProxyApiLog (mx_UserID mx) (vq_Model req) 502) (\<lambda>_. tx_return (0, []))
      | Some p \<Rightarrow> media_commit env mx loaded (video_turn mx req
          (media_charged env (vq_Model req) (me_Body me) 0 (me_Chan me) (me_OptIn me) (vp_AmountMicroUSD p)) p))"

subsection \<open>Gemini\<close>

definition gemini_usage :: "geminiPriceResolution \<Rightarrow> usageTokenCounts" where
  "gemini_usage p = no_usage \<lparr> PromptTokens := gp_PromptTokens p, CompletionTokens := gp_CompletionTokens p,
     CachedTokens := gp_CachedTokens p, ReasoningTokens := gp_ReasoningTokens p \<rparr>"

definition gemini_turn :: "string \<Rightarrow> int64 \<Rightarrow> geminiPriceResolution \<Rightarrow> media_turn" where
  "gemini_turn model charged p = \<lparr> mt_ModelName = model, mt_Amount = gp_AmountMicroUSD p, mt_Charged = charged,
     mt_Usage = gemini_usage p, mt_TokensTotal = wrap64 (gp_PromptTokens p + gp_CompletionTokens p),
     mt_InputUnits = gp_PromptTokens p, mt_OutputUnits = gp_CompletionTokens p,
     mt_Lines = (\<lambda>i. [\<lparr> ul_ApiLogID = i, ul_Direction = ''total'', ul_Quantity = gp_Quantity p,
        ul_UnitPriceMicro = gp_UnitPriceMicro p, ul_AmountMicroUSD = gp_AmountMicroUSD p \<rparr>]),
     mt_RequestID = (\<lambda>i. ''api_log:'' @ show_nat i) \<rparr>"

definition gemini_turn_of ::
  "commit_env \<Rightarrow> media_exchange \<Rightarrow> string \<Rightarrow> int64 \<Rightarrow> geminiPriceResolution \<Rightarrow> media_turn" where
  "gemini_turn_of env me model reasoning p =
     gemini_turn model (media_charged env model (me_Body me) reasoning (me_Chan me) (me_OptIn me) (gp_AmountMicroUSD p)) p"

definition settle_gemini_response ::
  "commit_env \<Rightarrow> media_context \<Rightarrow> cached_subscription list option \<Rightarrow> model_db \<Rightarrow> media_exchange
    \<Rightarrow> string \<Rightarrow> geminiPriceResolution \<Rightarrow> (nat \<times> cache_effect list) tx" where
  "settle_gemini_response env mx loaded db me model pre =
     (case resolveGeminiActualPrice db model (me_Resp me) (me_Route me) of
        None \<Rightarrow> tx_bind (recordMediaPendingReconcile env mx (gemini_turn_of env me model 0 pre)) (\<lambda>i. tx_return (i, []))
      | Some p \<Rightarrow> media_commit env mx loaded (gemini_turn_of env me model (gp_ReasoningTokens p) p))"

definition performStreamingGeminiBilling ::
  "commit_env \<Rightarrow> media_context \<Rightarrow> cached_subscription list option \<Rightarrow> model_db \<Rightarrow> media_exchange
    \<Rightarrow> string \<Rightarrow> geminiPriceResolution \<Rightarrow> bool \<Rightarrow> int \<Rightarrow> bool \<Rightarrow> (nat \<times> cache_effect list) tx" where
  "performStreamingGeminiBilling env mx loaded db me model pre sawUsage imageCount clientDisconnected =
     (let price = (if clientDisconnected \<or> (\<not> sawUsage \<and> imageCount = 0) then None
            else resolveGeminiActualPrice db model (me_Resp me) (me_Route me)) in
      case price of
        None \<Rightarrow> tx_bind (recordMediaPendingReconcile env mx (gemini_turn_of env me model 0 pre)) (\<lambda>i. tx_return (i, []))
      | Some p \<Rightarrow> media_commit env mx loaded (gemini_turn_of env me model (gp_ReasoningTokens p) p))"

end
