(* ===== verification/EngineFrames.thy ===== *)
theory EngineFrames
  imports SubscriptionEngine
begin

section \<open>What the subscription engine leaves alone\<close>

text \<open>
  Frames of \<^verbatim>\<open>proxy/subscription_engine.go\<close> for the components that call it: a decision changes
  the usage counters only, and nothing unless it allows the request from a subscription; and
  without faults in the schedule it meets none.
\<close>

subsection \<open>What the engine may change\<close>

definition usages_only :: "tables \<Rightarrow> tables \<Rightarrow> bool" where
  "usages_only t t' \<longleftrightarrow> t' = t \<lparr> usages := usages t' \<rparr>"

lemma usages_only_rt: "reflp usages_only" "transp usages_only"
proof -
  show "reflp usages_only" by (rule reflpI) (simp add: usages_only_def)
  show "transp usages_only"
  proof (rule transpI)
    fix a b c assume "usages_only a b" "usages_only b c"
    then show "usages_only a c" by (cases a; cases b; cases c) (simp add: usages_only_def)
  qed
qed

lemma usages_only_put: "usages_only t (put_usage k u t)"
  by (simp add: usages_only_def put_usage_def)

lemma usages_only_update: "usages_only t (snd (update_usage_if k c f t))"
  using usages_only_rt(1) by (auto simp: update_usage_if_def usages_only_put reflpD split: option.split)

lemmas usages_only_intros = keeps_intros usages_only_rt

lemma accumulate_frame: "keeps usages_only (accumulate_plan now userID spec pre u)"
  unfolding accumulate_plan_def Let_def by (intro usages_only_intros usages_only_update)

lemma existing_frame: "keeps usages_only (consume_existing now userID spec pre u)"
  unfolding consume_existing_def Let_def
  by (intro usages_only_intros usages_only_update accumulate_frame)

lemma consumePlan_frame: "keeps usages_only (consumePlanInTx now userID spec pre)"
  unfolding consumePlanInTx_def Let_def
  by (intro usages_only_intros existing_frame) (simp_all add: usages_only_put reflpD [OF usages_only_rt(1)])

lemma consume_specs_frame: "keeps usages_only (consume_specs now userID specs pre)"
proof (induction specs)
  case Nil
  show ?case unfolding consume_specs.simps by (intro usages_only_intros)
next
  case (Cons s ss)
  show ?case unfolding consume_specs.simps by (intro usages_only_intros consumePlan_frame Cons)
qed

lemma verify_frame: "keeps usages_only (verifySubStillActive now subID)"
  unfolding verifySubStillActive_def
  by (intro usages_only_intros) (simp add: reflpD [OF usages_only_rt(1)])

lemma consume_body_frame: "keeps usages_only (consume_body now subID userID specs pre)"
  unfolding consume_body_def by (intro usages_only_intros verify_frame consume_specs_frame)

lemma atomicConsume_frame:
  "atomicConsumeMany now subID userID specs pre (t, fs) = (r, (t', fs')) \<Longrightarrow> usages_only t t'"
proof -
  assume a: "atomicConsumeMany now subID userID specs pre (t, fs) = (r, (t', fs'))"
  have "usages_only t (fst (snd (transaction (consume_body now subID userID specs pre) (t, fs))))"
    using keeps_transaction [OF usages_only_rt(1) consume_body_frame] by (simp add: keeps_def)
  moreover have "t' = fst (snd (atomicConsumeMany now subID userID specs pre (t, fs)))" using a by simp
  ultimately show ?thesis using usages_only_rt(1) by (auto simp: atomicConsume_world reflpD)
qed

lemma Decide_frame:
  assumes "Decide ord cfg now loaded req (t, fs) = (d, (t', fs'))"
  shows "usages_only t t' \<and> (\<not> (ed_Allowed d \<and> \<not> ed_FallbackToBalance d) \<longrightarrow> t' = t)"
proof (cases loaded)
  case None
  then show ?thesis using assms usages_only_rt(1) by (auto simp: Decide_def reflpD)
next
  case (Some subs)
  obtain r t1 fs1 where s: "decide_subs ord now req (decide_sort subs) no_decision (t, fs) = (r, (t1, fs1))"
    by (metis prod.collapse)
  note c = decide_subs_cases [OF s]
  show ?thesis
  proof (cases r)
    case (Inl d')
    then have eq: "d' = d" "t1 = t'" "fs1 = fs'" using assms Some s by (auto simp: Decide_def)
    show ?thesis
    proof (cases "ed_Allowed d")
      case True
      with c Inl eq obtain i k fs2 specs ws where
        "atomicConsumeMany now i k specs (rq_IsPrecheck req) (t, fs2) = (Consumed ws, (t', fs'))"
        by auto
      then have "usages_only t t'" by (rule atomicConsume_frame)
      then show ?thesis using True c Inl eq by auto
    next
      case False
      then show ?thesis using c Inl eq usages_only_rt(1) by (auto simp: reflpD)
    qed
  next
    case (Inr l)
    then have "t' = t" using c assms Some s by (auto simp: Decide_def split: if_splits)
    then show ?thesis using usages_only_rt(1) by (auto simp: reflpD)
  qed
qed

subsection \<open>Without faults\<close>

lemma clean_engine: "clean (consumePlanInTx now userID spec pre)"
  unfolding consumePlanInTx_def consume_existing_def accumulate_plan_def Let_def by (intro clean_intros)

lemma clean_specs: "clean (consume_specs now userID specs pre)"
proof (induction specs)
  case (Cons s ss)
  show ?case unfolding consume_specs.simps by (intro clean_intros clean_engine Cons)
qed (unfold consume_specs.simps, intro clean_intros)

lemma clean_atomic: "atomicConsumeMany now subID userID specs pre (t, []) = (r, (t', fs')) \<Longrightarrow> fs' = []"
proof -
  assume a: "atomicConsumeMany now subID userID specs pre (t, []) = (r, (t', fs'))"
  have "clean (transaction (consume_body now subID userID specs pre))"
    unfolding consume_body_def verifySubStillActive_def
    by (intro clean_transaction clean_intros clean_specs)
  then have "snd (snd (transaction (consume_body now subID userID specs pre) (t, []))) = []"
    by (simp add: clean_def)
  moreover have "fs' = snd (snd (atomicConsumeMany now subID userID specs pre (t, [])))" using a by simp
  ultimately show ?thesis by (simp add: atomicConsume_world split: if_splits)
qed

lemma clean_trySharedQuota: "trySharedQuota ord now cs req (t, []) = (d, (t', fs')) \<Longrightarrow> fs' = []"
  by (auto simp: trySharedQuota_def Let_def dest!: clean_atomic
      split: if_splits option.splits list.splits prod.splits consume_outcome.splits)

lemma clean_decide_subs: "decide_subs ord now req css l (t, []) = (r, (t', fs')) \<Longrightarrow> fs' = []"
proof (induction css arbitrary: l t)
  case (Cons cs css)
  obtain d t1 fs1 where q: "trySharedQuota ord now cs req (t, []) = (d, (t1, fs1))"
    by (metis prod.collapse)
  then have "fs1 = []" by (rule clean_trySharedQuota)
  with Cons q show ?case by (auto split: if_splits)
qed simp

lemma clean_Decide: "Decide ord cfg now loaded req (t, []) = (d, (t', fs')) \<Longrightarrow> fs' = []"
  by (auto simp: Decide_def dest!: clean_decide_subs split: option.splits prod.splits sum.splits if_splits)

end
