(* ===== verification/TextAccounts.thy ===== *)
theory TextAccounts
  imports TextBilling EngineFrames
begin

section \<open>Accounting for text requests\<close>

text \<open>
  Proofs about \<open>TextBilling\<close>: which steps of a commit move no money, what a charge does to the
  books, that a commit always returns, that it charges at most once whatever fails, and that
  without failures every delivered request is accounted for.
\<close>

subsection \<open>Steps that move no money\<close>

definition zero_entries :: "billing_entry list \<Rightarrow> bool" where
  "zero_entries es \<longleftrightarrow> list_all (\<lambda>e. be_AmountUSD e = 0) es"

definition quiet :: "tables \<Rightarrow> tables \<Rightarrow> bool" where
  "quiet t t' \<longleftrightarrow> balance_of t' = balance_of t \<and> (\<exists>es. billing t' = billing t @ es \<and> zero_entries es)"

lemma quiet_rt: "reflp quiet" "transp quiet"
proof -
  show "reflp quiet" by (rule reflpI) (simp add: quiet_def zero_entries_def)
  show "transp quiet" by (rule transpI) (auto simp: quiet_def zero_entries_def)
qed

definition calm :: "tables \<Rightarrow> tables \<Rightarrow> bool" where
  "calm t t' \<longleftrightarrow> quiet t t' \<and> usages t' = usages t"

lemma calm_rt: "reflp calm" "transp calm"
proof -
  show "reflp calm" by (rule reflpI) (simp add: calm_def reflpD [OF quiet_rt(1)])
  show "transp calm" by (rule transpI) (auto simp: calm_def intro: transpD [OF quiet_rt(2)])
qed

lemmas calm_intros = keeps_intros calm_rt

lemma quietI: "users t' = users t \<Longrightarrow> billing t' = billing t \<Longrightarrow> quiet t t'"
  by (auto simp: quiet_def zero_entries_def balance_of_def)

lemma calmI: "users t' = users t \<Longrightarrow> billing t' = billing t \<Longrightarrow> usages t' = usages t \<Longrightarrow> calm t t'"
  by (auto simp: calm_def intro: quietI)

lemma usages_onlyD: "usages_only t t' \<Longrightarrow> users t' = users t \<and> billing t' = billing t"
  by (cases t; cases t') (simp add: usages_only_def)

lemma usages_only_quiet: "usages_only t t' \<Longrightarrow> quiet t t'"
  by (rule quietI) (simp_all add: usages_onlyD)

lemma keeps_case_option_quiet:
  "keeps R m \<Longrightarrow> (\<And>a. keeps R (f a)) \<Longrightarrow> keeps R (case x of None \<Rightarrow> m | Some a \<Rightarrow> f a)"
  by (cases x) auto

lemma try_quiet: "keeps calm m \<Longrightarrow> keeps calm (try_tx m)"
  unfolding try_tx_def by (intro calm_intros)

lemma retry_quiet: "be_AmountUSD e = 0 \<Longrightarrow> keeps calm (writeBillingWithRetry now e)"
  unfolding writeBillingWithRetry_def
  by (rule keepsI)
    (auto dest!: write_attempts_cases simp: calm_def quiet_def zero_entries_def balance_of_def)

lemma create_log_quiet: "keeps calm (create_api_log l)"
  unfolding create_api_log_def by (intro calm_intros calmI) simp_all

lemma lines_quiet: "keeps calm (write_lines ls)"
proof (induction ls)
  case (Cons l ls)
  show ?case unfolding write_lines.simps by (intro calm_intros calmI Cons) simp_all
qed (unfold write_lines.simps, intro calm_intros)

lemma revenue_quiet: "keeps calm (revenue_attempts n r)"
proof (induction n)
  case (Suc n)
  show ?case unfolding revenue_attempts.simps insert_revenue_def
    by (intro calm_intros calmI Suc) simp_all
qed (unfold revenue_attempts.simps, intro calm_intros)

lemma RecordApiLogRevenue_quiet: "keeps calm (RecordApiLogRevenue i s e sub)"
  unfolding RecordApiLogRevenue_def recordApiLogRevenueAsyncBody_def
  by (intro calm_intros revenue_quiet)

lemma used_quota_quiet: "keeps calm (add_used_quota ctx revenue status)"
  unfolding add_used_quota_def
  by (intro calm_intros keeps_case_option_quiet try_quiet calmI) (auto split: option.split)

lemma entry_amounts [simp]:
  "be_AmountUSD (usage_entry uid m u i ty bal) = 0" "be_AmountUSD (pending_entry env ctx uid u i bal c) = 0"
  "be_UserID (usage_entry uid m u i ty bal) = uid" "be_UserID (pending_entry env ctx uid u i bal c) = uid"
  "be_RelatedID (usage_entry uid m u i ty bal) = i" "be_RelatedID (pending_entry env ctx uid u i bal c) = i"
  "be_EntryType (usage_entry uid m u i ty bal) = ty"
  "be_EntryType (pending_entry env ctx uid u i bal c) = ''api_usage_pending_reconcile''"
  by (simp_all add: usage_entry_def pending_entry_def blank_entry_def)

lemma manual_quiet: "keeps calm (RecordManualBillingState env ctx inp)"
proof (cases "tc_User ctx")
  case None
  show ?thesis unfolding RecordManualBillingState_def None option.case by (intro calm_intros)
next
  case (Some p)
  obtain uid snapshot where p: "p = (uid, snapshot)" by (cases p)
  show ?thesis
    unfolding RecordManualBillingState_def Some p option.case prod.case Let_def
    by (intro calm_intros try_quiet create_log_quiet retry_quiet) simp
qed

subsection \<open>The charge\<close>

text \<open>The account after a charge of \<open>c\<close>: one entry books it, and at most one reward follows.\<close>

definition charged_from :: "nat \<Rightarrow> int64 \<Rightarrow> tables \<Rightarrow> tables \<Rightarrow> bool" where
  "charged_from uid c t t' \<longleftrightarrow> (\<exists>q e rewards. balance_of t uid = Some q \<and> c \<le> q \<and> balance_of t' uid = Some (q - c)
     \<and> usages t' = usages t \<and> billing t' = billing t @ e # rewards
     \<and> be_UserID e = uid \<and> be_EntryType e = ''api_consume_balance'' \<and> be_AmountUSD e = - c \<and> entry_ok e
     \<and> (rewards = [] \<or> (\<exists>r. rewards = [r] \<and> be_EntryType r = ''bonus_credit'' \<and> be_UserID r \<noteq> uid
          \<and> 0 < be_AmountUSD r \<and> be_AmountUSD r \<le> c)))"

lemma window_frame_calm: "window_frame uid t t' \<Longrightarrow> calm t t'"
proof -
  assume w: "window_frame uid t t'"
  have "balance_of t' k = balance_of t k" for k
  proof (cases "k = uid")
    case True
    then show ?thesis using w
      by (auto simp: window_frame_def balance_of_def rel_option_iff dest: same_but_window_eqs
          split: option.splits)
  qed (use w in \<open>simp add: window_frame_def balance_of_def\<close>)
  moreover have "billing t' = billing t \<and> usages t' = usages t" using w by (cases t; cases t') (simp add: window_frame_def)
  ultimately show ?thesis by (auto simp: calm_def quiet_def zero_entries_def)
qed

lemma debit_Inr:
  "debit uid cost (t, fs) = (Inr n, (t', fs')) \<Longrightarrow>
    (n = 0 \<and> t' = t) \<or> (0 < n \<and> (\<exists>u. users t uid = Some u \<and> cost \<le> u_Quota u
       \<and> t' = t \<lparr> users := (users t)(uid \<mapsto> u \<lparr> u_Quota := u_Quota u - cost \<rparr>) \<rparr>))"
  by (auto simp: debit_def stmt_Inr update_user_if_def split: option.splits if_splits)

lemma query_bindD:
  "tx_bind (query_first q) f (t, fs) = (Inr b, w) \<Longrightarrow> \<exists>a. q t = Some a \<and> f a (t, tl fs) = (Inr b, w)"
  by (auto simp: tx_bind_Inr query_first_Inr)

lemma write_bindD:
  "tx_bind (WriteBillingEntry now e) f (t, fs) = (Inr b, w) \<Longrightarrow>
    entry_ok (booked now e) \<and> f () (t \<lparr> billing := billing t @ [booked now e] \<rparr>, tl fs) = (Inr b, w)"
  by (auto simp: tx_bind_Inr WriteBillingEntry_Inr)

lemma balance_body_None:
  assumes "balance_body env ctx uid u logID cost (t, fs) = (Inr None, (t', fs'))"
  shows "calm t t'"
proof -
  from assms obtain b t1 fs1 t2 fs2 where
    1: "TryConsumeBalanceTx (ce_now env) uid cost True (t, fs) = (Inr b, (t1, fs1))"
    and 2: "debit uid cost (t1, fs1) = (Inr 0, (t2, fs2))"
    and d: "debt_for_reconcile env ctx uid u logID cost (t2, fs2) = (Inr (), (t', fs'))"
    by (auto simp: balance_body_def tx_bind_Inr split: if_splits)
  from query_bindD [OF d [unfolded debt_for_reconcile_def]] obtain cur :: user where
    "WriteBillingEntry (ce_now env) (pending_entry env ctx uid u logID (u_Quota cur) cost) (t2, tl fs2)
      = (Inr (), (t', fs'))" by blast
  then have 3: "t' = t2 \<lparr> billing := billing t2 @
       [booked (ce_now env) (pending_entry env ctx uid u logID (u_Quota cur) cost)] \<rparr>"
    by (simp add: WriteBillingEntry_Inr)
  have "calm t t1" using keepsD [OF TryConsume_keeps 1] by (rule window_frame_calm)
  moreover have "t2 = t1" using debit_Inr [OF 2] by simp
  moreover have "calm t2 t'" unfolding 3 by (auto simp: calm_def quiet_def zero_entries_def balance_of_def)
  ultimately show ?thesis using transpD [OF calm_rt(2)] by blast
qed

lemma balance_body_Some:
  assumes run: "balance_body env ctx uid u logID cost (t, fs) = (Inr (Some rew), (t', fs'))"
  obtains t1 v e t2 fs2 where "calm t t1" "users t1 uid = Some v" "cost \<le> u_Quota v"
    "be_UserID e = uid" "be_EntryType e = ''api_consume_balance''" "be_AmountUSD e = - cost" "entry_ok e"
    "t2 = t1 \<lparr> users := (users t1)(uid \<mapsto> v \<lparr> u_Quota := u_Quota v - cost \<rparr>), billing := billing t1 @ [e] \<rparr>"
    "ApplyReferralPaidSpendRewardTx (ce_now env) uid cost (fst (readReferralPaidSpendRewardConfig (ce_cfg env)))
        (snd (readReferralPaidSpendRewardConfig (ce_cfg env))) (ce_now env)
        (if 0 < logID then ''api_log'' else '''') logID (t2, fs2) = (Inr rew, (t', fs'))"
proof -
  from run obtain b t1 fs1 n t2 fs2 where
    1: "TryConsumeBalanceTx (ce_now env) uid cost True (t, fs) = (Inr b, (t1, fs1))"
    and 2: "debit uid cost (t1, fs1) = (Inr n, (t2, fs2))" and n: "0 < n"
    and b: "book_charge env ctx uid u logID cost (t2, fs2) = (Inr rew, (t', fs'))"
    by (auto simp: balance_body_def tx_bind_Inr split: if_splits)
  define en where "en f = booked (ce_now env) (consume_entry ctx uid u logID (u_Quota f) cost)" for f :: user
  define tb where "tb f = t2 \<lparr> billing := billing t2 @ [en f] \<rparr>" for f
  from query_bindD [OF b [unfolded book_charge_def]] obtain fresh :: user where
    w: "tx_bind (WriteBillingEntry (ce_now env) (consume_entry ctx uid u logID (u_Quota fresh) cost)) (\<lambda>_.
         ApplyReferralPaidSpendRewardTx (ce_now env) uid cost
           (fst (readReferralPaidSpendRewardConfig (ce_cfg env)))
           (snd (readReferralPaidSpendRewardConfig (ce_cfg env))) (ce_now env)
           (if 0 < logID then ''api_log'' else '''') logID) (t2, tl fs2) = (Inr rew, (t', fs'))" by blast
  from write_bindD [OF w] have e: "entry_ok (en fresh)"
    and 3: "ApplyReferralPaidSpendRewardTx (ce_now env) uid cost (fst (readReferralPaidSpendRewardConfig (ce_cfg env)))
        (snd (readReferralPaidSpendRewardConfig (ce_cfg env))) (ce_now env)
        (if 0 < logID then ''api_log'' else '''') logID (tb fresh, tl (tl fs2)) = (Inr rew, (t', fs'))"
    unfolding en_def tb_def by blast+
  have q: "calm t t1" using keepsD [OF TryConsume_keeps 1] by (rule window_frame_calm)
  from debit_Inr [OF 2] n obtain v where v: "users t1 uid = Some v" "cost \<le> u_Quota v"
    "t2 = t1 \<lparr> users := (users t1)(uid \<mapsto> v \<lparr> u_Quota := u_Quota v - cost \<rparr>) \<rparr>" by auto
  show thesis
    by (rule that [OF q v(1,2) _ _ _ e _ 3])
      (use v(3) in \<open>simp_all add: tb_def en_def consume_entry_def usage_entry_def blank_entry_def\<close>)
qed

text \<open>The debit, its entry and the reward, wherever they are run.\<close>

lemma referral_charges:
  assumes v: "users t1 uid = Some v" "cost \<le> u_Quota v"
    and e: "be_UserID e = uid" "be_EntryType e = ''api_consume_balance''" "be_AmountUSD e = - cost" "entry_ok e"
    and t2: "t2 = t1 \<lparr> users := (users t1)(uid \<mapsto> v \<lparr> u_Quota := u_Quota v - cost \<rparr>), billing := billing t1 @ [e] \<rparr>"
    and a: "ApplyReferralPaidSpendRewardTx now uid cost bps win occ rt ri (t2, fs2) = (Inr rew, (t', fs'))"
    and c: "0 < cost" "in_i64 cost" "uid \<noteq> 0"
  shows "charged_from uid cost t1 t'"
proof -
  have low: "balance_of (lower_floor k s) j = balance_of s j" for k s j
    by (auto simp: balance_of_def lower_floor_def split: option.split)
  have us: "usages (lower_floor k s) = usages s" "usages (book_reward k r s) = usages s" for k r s
    by (simp_all add: lower_floor_def book_reward_def split: option.split)
  show ?thesis
    using a c(1) c(3)
  proof (cases rule: referral_Inr)
    case (none w)
    have "balance_of t1 uid = Some (u_Quota v) \<and> balance_of t' uid = Some (u_Quota v - cost)"
      unfolding none(2) low using v by (simp add: t2 balance_of_def)
    moreover have "billing t' = billing t1 @ [e]" "usages t' = usages t1" by (simp_all add: none(2) t2 us)
    ultimately show ?thesis unfolding charged_from_def using v(2) e by blast
  next
    case (paid w x r)
    have "eligible_spend w cost \<le> cost" using eligible_bounds [of cost w] c(1) by simp
    moreover have "in_i64 (eligible_spend w cost)"
      using calculation paid(4) c(2) by (auto simp: i64_defs)
    ultimately have "rr_RewardMicroUSD rew \<le> cost"
      using BasisPoints_le [of "eligible_spend w cost" "NormalizeReferralRewardBPS bps"]
        NormalizeBPS_range paid(4,6) by fastforce
    moreover have "balance_of t' uid = balance_of (lower_floor uid t2) uid"
      using paid(3) by (simp add: paid(15) book_reward_def balance_of_def split: option.split)
    moreover have "balance_of t2 uid = Some (u_Quota v - cost)" by (simp add: t2 balance_of_def)
    moreover have "billing t' = billing t2 @ [r]"
      using paid(3,7) by (simp add: paid(15) book_reward_def lower_floor_other)
    ultimately show ?thesis
      unfolding charged_from_def low
      by (intro exI [of _ "u_Quota v"] exI [of _ e] exI [of _ "[r]"])
        (use v e paid in \<open>auto simp: balance_of_def t2 us\<close>)
  qed
qed

lemma balance_body_charges:
  assumes run: "balance_body env ctx uid u logID cost (t, fs) = (Inr (Some rew), (t', fs'))"
    and c: "0 < cost" "in_i64 cost" "uid \<noteq> 0"
  shows "\<exists>t1. calm t t1 \<and> charged_from uid cost t1 t'"
  using run by (rule balance_body_Some) (use referral_charges [OF _ _ _ _ _ _ _ _ c] in blast)

text \<open>The accounting law holds across both.\<close>

lemma quiet_reconciled: "quiet t t' \<Longrightarrow> reconciled opening t \<Longrightarrow> reconciled opening t'"
proof -
  assume q: "quiet t t'" and r: "reconciled opening t"
  from q obtain es where es: "billing t' = billing t @ es" "zero_entries es" by (auto simp: quiet_def)
  have "booked_sum uid (billing t') = booked_sum uid (billing t)" for uid
    using es(2) unfolding es(1) by (induction es rule: rev_induct) (simp_all add: zero_entries_def flip: append_assoc)
  moreover have "\<exists>v. users t uid = Some v \<and> u_Quota v = u_Quota w" if "users t' uid = Some w" for uid w
  proof -
    have "balance_of t uid = balance_of t' uid" using q by (simp add: quiet_def)
    then show ?thesis using that by (auto simp: balance_of_def)
  qed
  ultimately show ?thesis using r unfolding reconciled_def by metis
qed

lemma balance_body_reconciled:
  assumes run: "balance_body env ctx uid u logID cost (t, fs) = (Inr r, (t', fs'))"
    and rec: "reconciled opening t"
  shows "reconciled opening t'"
proof (cases r)
  case None
  then show ?thesis using balance_body_None quiet_reconciled rec run by (metis calm_def)
next
  case (Some rew)
  from run [unfolded Some] show ?thesis
  proof (rule balance_body_Some)
    fix t1 v e t2 fs2
    assume q: "calm t t1" and v: "users t1 uid = Some v" "cost \<le> u_Quota v"
      and e: "be_UserID e = uid" "be_EntryType e = ''api_consume_balance''" "be_AmountUSD e = - cost" "entry_ok e"
      and t2: "t2 = t1 \<lparr> users := (users t1)(uid \<mapsto> v \<lparr> u_Quota := u_Quota v - cost \<rparr>), billing := billing t1 @ [e] \<rparr>"
      and a: "ApplyReferralPaidSpendRewardTx (ce_now env) uid cost (fst (readReferralPaidSpendRewardConfig (ce_cfg env)))
        (snd (readReferralPaidSpendRewardConfig (ce_cfg env))) (ce_now env)
        (if 0 < logID then ''api_log'' else '''') logID (t2, fs2) = (Inr rew, (t', fs'))"
    have r1: "reconciled opening t1" using q rec quiet_reconciled by (auto simp: calm_def)
    have v': "users t1 (be_UserID e) = Some v" using v e by simp
    have "reconciled opening t2"
      by (rule reconciled_post [OF r1 v']) (auto simp: t2 e v split: if_splits)
    with a show ?thesis by (rule referral_reconciled)
  qed
qed

subsection \<open>Programs that always return\<close>

lemma returns_write_attempts: "returns (write_billing_attempts n now e)"
proof (induction n)
  case (Suc n)
  show ?case unfolding write_billing_attempts.simps by (intro returns_intros Suc)
qed (unfold write_billing_attempts.simps, intro returns_intros)

lemma returns_retry [returns_intros]: "returns (writeBillingWithRetry now e)"
  unfolding writeBillingWithRetry_def by (rule returns_write_attempts)

lemma returns_revenue_attempts: "returns (revenue_attempts n r)"
proof (induction n)
  case (Suc n)
  show ?case unfolding revenue_attempts.simps by (intro returns_intros Suc)
qed (unfold revenue_attempts.simps, intro returns_intros)

lemma returns_revenue [returns_intros]: "returns (RecordApiLogRevenue i s e sub)"
  unfolding RecordApiLogRevenue_def recordApiLogRevenueAsyncBody_def
  by (intro returns_intros returns_revenue_attempts)

lemma returns_lines [returns_intros]: "returns (writeTextUsageLines i u p)"
proof -
  have "returns (write_lines ls)" for ls
  proof (induction ls)
    case (Cons l ls)
    show ?case unfolding write_lines.simps by (intro returns_intros Cons)
  qed (unfold write_lines.simps, intro returns_intros)
  then show ?thesis by (simp add: writeTextUsageLines_def)
qed

lemma returns_manual [returns_intros]: "returns (RecordManualBillingState env ctx inp)"
proof (cases "tc_User ctx")
  case None
  show ?thesis unfolding RecordManualBillingState_def None option.case by (intro returns_intros)
next
  case (Some p)
  obtain uid snapshot where p: "p = (uid, snapshot)" by (cases p)
  show ?thesis
    unfolding RecordManualBillingState_def Some p option.case prod.case Let_def by (intro returns_intros)
qed

lemma returns_balance [returns_intros]: "returns (commitTextBalanceTurn env ctx uid u logID cost)"
  unfolding commitTextBalanceTurn_def
  by (intro returns_intros)

lemma returns_decide [returns_intros]: "returns (decide_tx env loaded req)"
  by (rule returnsI) (simp add: decide_tx_def split: prod.split)

lemma returns_settle [returns_intros]: "returns (settle_text env ctx uid snapshot u logID cost c d)"
  unfolding settle_text_def commit_subscription_def commit_unauthorized_def Let_def
  by (intro returns_intros)

lemma returns_used [returns_intros]: "returns (add_used_quota ctx revenue status)"
  unfolding add_used_quota_def by (intro returns_intros)

lemma returns_bind_prod [returns_intros]:
  "returns m \<Longrightarrow> (\<And>a b. returns (f a b)) \<Longrightarrow> returns (tx_bind m (\<lambda>(a, b). f a b))"
  by (rule returns_bind) (auto split: prod.split)

lemma returns_decide_settle [returns_intros]:
  "returns (decide_and_settle env ctx loaded uid snapshot u status logID cost c)"
  unfolding decide_and_settle_def
  by (intro returns_bind returns_bind_prod returns_if returns_return returns_decide returns_retry returns_settle returns_used)

lemma CommitTextTurn_returns: "returns (CommitTextTurn env ctx loaded usage status bytes)"
proof (cases "tc_User ctx = None \<or> tc_SelectedPath ctx = None")
  case True
  then show ?thesis
    by (auto simp: CommitTextTurn_def returns_def split: option.split)
next
  case False
  then obtain uid snapshot cm where u: "tc_User ctx = Some (uid, snapshot)" "tc_SelectedPath ctx = Some cm" by auto
  show ?thesis
    unfolding CommitTextTurn_def u prod.case option.case Let_def by (intro returns_intros)
qed

subsection \<open>One charge per turn\<close>

definition charged :: "nat \<Rightarrow> int64 \<Rightarrow> tables \<Rightarrow> tables \<Rightarrow> bool" where
  "charged uid c t t' \<longleftrightarrow> (\<exists>t1 t2. calm t t1 \<and> charged_from uid c t1 t2 \<and> calm t2 t')"

lemma calm_charged: "calm t t1 \<Longrightarrow> charged uid c t1 t' \<Longrightarrow> charged uid c t t'"
  unfolding charged_def using transpD [OF calm_rt(2)] by blast

lemma charged_calm: "charged uid c t t1 \<Longrightarrow> calm t1 t' \<Longrightarrow> charged uid c t t'"
  unfolding charged_def using transpD [OF calm_rt(2)] by blast

lemma calm_reconciled: "calm t t' \<Longrightarrow> reconciled opening t \<Longrightarrow> reconciled opening t'"
  using quiet_reconciled by (auto simp: calm_def)

lemma try_tx_Inr: "try_tx m w = (Inr x, w') \<longleftrightarrow>
    (\<exists>a. x = Some a \<and> m w = (Inr a, w')) \<or> (x = None \<and> (\<exists>e. m w = (Inl e, w')))"
  by (auto simp: try_tx_def tx_catch_def tx_bind_def split: prod.splits sum.splits)

lemma commitBalance_effect:
  assumes run: "commitTextBalanceTurn env ctx uid u logID cost (t, fs) = (r, (t', fs'))"
    and c: "0 < cost" "in_i64 cost" "uid \<noteq> 0"
  shows "(calm t t' \<or> charged uid cost t t') \<and> (reconciled opening t \<longrightarrow> reconciled opening t')"
proof -
  obtain a where r: "r = Inr a" using returns_balance run by (metis returns_def prod.inject)
  from run r obtain res t1 fs1 where
    1: "try_tx (transaction (balance_body env ctx uid u logID cost)) (t, fs) = (Inr res, (t1, fs1))"
    and 2: "(case res of None \<Rightarrow> tx_return (0, []) | Some None \<Rightarrow> tx_return (0, [RefreshUserAuth uid])
       | Some (Some reward) \<Rightarrow>
           tx_bind (if 0 < logID then RecordApiLogRevenue logID ''balance'' cost 0 else tx_return ()) (\<lambda>_.
             tx_return (cost, RefreshUserAuth uid #
               (if rr_ReferrerID reward \<noteq> 0 \<and> 0 < rr_RewardMicroUSD reward
                then [RefreshUserAuth (rr_ReferrerID reward)] else [])))) (t1, fs1) = (Inr a, (t', fs'))"
    by (auto simp: commitTextBalanceTurn_def tx_bind_Inr)
  show ?thesis
  proof (cases res)
    case None
    then have "t1 = t" using 1 transaction_rollback by (auto simp: try_tx_Inr)
    then have "t' = t" using 2 None by simp
    then show ?thesis using calm_rt(1) by (auto simp: reflpD)
  next
    case (Some o1)
    then obtain fs2 where b: "balance_body env ctx uid u logID cost (t, fs) = (Inr o1, (t1, fs2))"
      using 1 by (auto simp: try_tx_Inr transaction_Inr)
    have rec: "reconciled opening t \<longrightarrow> reconciled opening t1" using balance_body_reconciled [OF b] by blast
    show ?thesis
    proof (cases o1)
      case None
      then have "t' = t1" using 2 Some by simp
      then show ?thesis using balance_body_None [OF b [unfolded None]] rec by simp
    next
      case s: (Some rew)
      have k: "keeps calm (tx_bind (if 0 < logID then RecordApiLogRevenue logID ''balance'' cost 0 else tx_return ()) (\<lambda>_.
             tx_return (cost, RefreshUserAuth uid #
               (if rr_ReferrerID rew \<noteq> 0 \<and> 0 < rr_RewardMicroUSD rew
                then [RefreshUserAuth (rr_ReferrerID rew)] else []))))"
        by (intro calm_intros RecordApiLogRevenue_quiet)
      have "calm t1 t'" using keepsD [OF k] 2 Some s by simp
      moreover have "\<exists>t0. calm t t0 \<and> charged_from uid cost t0 t1"
        using balance_body_charges [OF b [unfolded s] c] .
      ultimately show ?thesis using rec calm_reconciled unfolding charged_def by blast
    qed
  qed
qed

definition turn_effect :: "nat \<Rightarrow> int64 \<Rightarrow> bool \<Rightarrow> tables \<Rightarrow> tables \<Rightarrow> bool" where
  "turn_effect uid c may t t' \<longleftrightarrow> quiet t t' \<or> (may \<and> usages t' = usages t \<and> charged uid c t t')"

lemma charged_usages: "charged uid c t t' \<Longrightarrow> usages t' = usages t"
  by (auto simp: charged_def charged_from_def calm_def)

lemma subscription_calm: "keeps calm (commit_subscription env ctx uid snapshot u logID c d)"
  unfolding commit_subscription_def Let_def
  by (intro calm_intros retry_quiet RecordApiLogRevenue_quiet) simp

lemma unauthorized_calm: "keeps calm (commit_unauthorized env ctx uid snapshot u logID c)"
  unfolding commit_unauthorized_def by (intro calm_intros retry_quiet) simp

lemma settle_effect:
  assumes run: "settle_text env ctx uid snapshot u logID cost ch d (t, fs) = (Inr a, (t', fs'))"
    and c: "0 < ch \<longrightarrow> 0 < cost" "in_i64 cost" "uid \<noteq> 0"
  shows "(calm t t' \<or> (\<not> subscription_hit d \<and> 0 < ch \<and> u_BalanceConsumeEnabled snapshot \<and> charged uid cost t t'))
    \<and> (reconciled opening t \<longrightarrow> reconciled opening t')"
proof (cases "\<not> subscription_hit d \<and> 0 < ch \<and> u_BalanceConsumeEnabled snapshot")
  case True
  then have "commitTextBalanceTurn env ctx uid u logID cost (t, fs) = (Inr a, (t', fs'))"
    using run by (simp add: settle_text_def)
  from commitBalance_effect [OF this] c True show ?thesis by blast
next
  case False
  have k: "keeps calm (tx_bind (commit_subscription env ctx uid snapshot u logID ch d) (\<lambda>r. tx_return (r, [] :: cache_effect list)))"
    "keeps calm (tx_bind (commit_unauthorized env ctx uid snapshot u logID cost) (\<lambda>_. tx_return (0 :: int, [] :: cache_effect list)))"
    "keeps calm (tx_return (0 :: int, [] :: cache_effect list))"
    by (intro calm_intros subscription_calm unauthorized_calm)+
  have "calm t t'"
    using run False keepsD [OF k(1)] keepsD [OF k(2)] keepsD [OF k(3)]
    by (auto simp: settle_text_def split: if_splits)
  then show ?thesis using calm_reconciled by blast
qed

lemma decide_settle_effect:
  assumes run: "decide_and_settle env ctx loaded uid snapshot u status logID cost ch (t, fs) = (Inr a, (t', fs'))"
    and c: "0 < ch \<longrightarrow> 0 < cost" "in_i64 cost" "uid \<noteq> 0"
  shows "turn_effect uid cost (0 < ch \<and> u_BalanceConsumeEnabled snapshot) t t'
    \<and> (reconciled opening t \<longrightarrow> reconciled opening t')"
proof -
  from run obtain d t1 fs1 where
    d: "(if failed_status status then tx_return no_decision
              else decide_tx env loaded (engine_request uid (tc_ModelName ctx) u ch)) (t, fs) = (Inr d, (t1, fs1))"
    and rest: "(if \<not> failed_status status \<and> ed_NeedsRetry d
       then tx_bind (writeBillingWithRetry (ce_now env) (pending_entry env ctx uid u logID (u_Quota snapshot) cost))
              (\<lambda>_. tx_return (True, []))
       else tx_bind (settle_text env ctx uid snapshot u logID cost ch d) (\<lambda>(revenue, eff).
              tx_bind (add_used_quota ctx revenue status) (\<lambda>eff'. tx_return (True, eff @ eff')))) (t1, fs1) = (Inr a, (t', fs'))"
    unfolding decide_and_settle_def tx_bind_Inr by auto
  have u1: "usages_only t t1 \<and> (\<not> subscription_hit d \<longrightarrow> t1 = t)"
  proof (cases "failed_status status")
    case True
    then show ?thesis using d usages_only_rt(1) by (simp add: reflpD)
  next
    case False
    then have "Decide (ce_order env) (ce_cfg env) (ce_now env) loaded
        (engine_request uid (tc_ModelName ctx) u ch) (t, fs) = (d, (t1, fs1))"
      using d by (simp add: decide_tx_def split: prod.splits)
    from Decide_frame [OF this] show ?thesis by (auto simp: subscription_hit_def)
  qed
  then have q1: "quiet t t1" by (auto intro: usages_only_quiet)
  show ?thesis
  proof (cases "\<not> failed_status status \<and> ed_NeedsRetry d")
    case True
    have k: "keeps calm (tx_bind (writeBillingWithRetry (ce_now env) (pending_entry env ctx uid u logID (u_Quota snapshot) cost))
              (\<lambda>_. tx_return (True, [] :: cache_effect list)))"
      by (intro calm_intros retry_quiet) simp
    have "calm t1 t'" using keepsD [OF k] rest True by (simp split: if_splits)
    then have "quiet t t'" using q1 transpD [OF quiet_rt(2)] by (auto simp: calm_def)
    then show ?thesis using quiet_reconciled by (auto simp: turn_effect_def)
  next
    case False
    with rest obtain rv eff t2 fs2 where
      s: "settle_text env ctx uid snapshot u logID cost ch d (t1, fs1) = (Inr (rv, eff), (t2, fs2))"
      and m: "tx_bind (add_used_quota ctx rv status) (\<lambda>eff'. tx_return (True, eff @ eff')) (t2, fs2) = (Inr a, (t', fs'))"
      by (auto simp: tx_bind_Inr [of "settle_text env ctx uid snapshot u logID cost ch d"] split: if_splits)
    have k: "keeps calm (tx_bind (add_used_quota ctx rv status) (\<lambda>eff'. tx_return (True, eff @ eff')))"
      by (intro calm_intros used_quota_quiet)
    have c2: "calm t2 t'" using keepsD [OF k m] .
    note e = settle_effect [OF s c]
    show ?thesis
    proof (cases "calm t1 t2")
      case True
      then have "quiet t t'" using q1 c2 transpD [OF quiet_rt(2)] by (metis calm_def)
      then show ?thesis using quiet_reconciled by (auto simp: turn_effect_def)
    next
      case False
      then have h: "\<not> subscription_hit d" "0 < ch" "u_BalanceConsumeEnabled snapshot" "charged uid cost t1 t2"
        using e by blast+
      then have "t1 = t" using u1 by blast
      then have "charged uid cost t t'" using h charged_calm c2 by blast
      moreover have "reconciled opening t \<longrightarrow> reconciled opening t'"
        using e \<open>t1 = t\<close> c2 calm_reconciled by blast
      ultimately show ?thesis using h by (auto simp: turn_effect_def charged_usages)
    qed
  qed
qed

subsection \<open>Without failures nothing is lost\<close>

text \<open>No entry refers to the log row \<open>i\<close> yet.\<close>

definition unbilled :: "nat \<Rightarrow> tables \<Rightarrow> bool" where
  "unbilled i t \<longleftrightarrow> list_all (\<lambda>e. \<not> (be_RelatedType e = ''api_log'' \<and> be_RelatedID e = i)) (billing t)"

lemma unbilled_cong: "billing t' = billing t \<Longrightarrow> unbilled i t' \<longleftrightarrow> unbilled i t"
  by (simp add: unbilled_def)

lemma unbilled_not_taken:
  assumes "unbilled i t"
  shows "\<not> related_taken (pending_entry env ctx uid u i bal c) t"
    "\<not> related_taken (consume_entry ctx uid u i bal c) t"
    "\<not> related_taken ((usage_entry uid m u i ty bal) \<lparr> be_SourceSubscriptionID := s \<rparr>) t"
    "\<not> related_taken (reward_entry ref occ rew bal (if 0 < i then ''api_log'' else '''') i) t"
  using assms by (auto simp: related_taken_def unbilled_def pending_entry_def consume_entry_def usage_entry_def
      reward_entry_def list_ex_iff list_all_iff)

lemma pay_reward_succeeds:
  assumes "ref \<noteq> 0" and "\<And>b. \<not> related_taken (reward_entry ref occ rew b rt ri) t"
  shows "\<exists>p t'. pay_reward now ref rew occ rt ri (t, []) = (Inr p, (t', []))"
proof -
  have ok: "entry_ok (booked now (reward_entry ref occ rew b rt ri))" for b
    using assms(1) by (simp add: entry_ok_def booked_def reward_entry_def blank_entry_def IsKnownBillingType_def
        IsKnownBillingState_def known_states_def IsZeroAmountBillingType_def)
  show ?thesis
    by (auto simp: pay_reward_def tx_bind_def update_user_if_def WriteBillingEntry_ok [OF ok] assms(2) split: option.split)
qed

lemma referral_succeeds:
  assumes "users t uid = Some v" and "\<And>ref rew b. \<not> related_taken (reward_entry ref (if occ = 0 then now else occ) rew b rt ri) t"
  shows "\<exists>r t'. ApplyReferralPaidSpendRewardTx now uid spend bps win occ rt ri (t, []) = (Inr r, (t', []))"
proof -
  have cp: "\<exists>t1. consume_paid uid v (t, []) = (Inr (), (t1, []))"
    by (simp add: consume_paid_def tx_bind_def)
  obtain t1 where t1: "consume_paid uid v (t, []) = (Inr (), (t1, []))" using cp by blast
  then have "billing t1 = billing t" by (auto simp: consume_paid_def tx_Inr update_user_if_def split: option.splits if_splits)
  then have nt: "\<not> related_taken (reward_entry ref (if occ = 0 then now else occ) rew b rt ri) t1" for ref rew b
    using assms(2) by (simp add: related_taken_def)
  define due where "due = reward_due uid v (eligible_spend v spend) (NormalizeReferralRewardBPS bps)
    (NormalizeReferralRewardWindowSeconds win) (if occ = 0 then now else occ)"
  have "snd due \<noteq> 0 \<longrightarrow> u_ReferredByUserID v \<noteq> 0"
    by (simp add: due_def reward_due_def Let_def)
  then have pay: "snd due \<noteq> 0 \<longrightarrow> (\<exists>p t2. pay_reward now (u_ReferredByUserID v) (snd due)
      (if occ = 0 then now else occ) rt ri (t1, []) = (Inr p, (t2, [])))"
    using pay_reward_succeeds [OF _ nt] by blast
  show ?thesis
    using pay by (auto simp: ApplyReferralPaidSpendRewardTx_def Let_def tx_bind_def assms(1) t1 due_def [symmetric])
qed

definition accounted :: "(billing_entry \<Rightarrow> bool) \<Rightarrow> tables \<Rightarrow> tables \<Rightarrow> bool" where
  "accounted P t t' \<longleftrightarrow> (\<exists>es1 e es2. billing t' = billing t @ es1 @ e # es2 \<and> P e)"

lemma calm_accounted: "calm t t1 \<Longrightarrow> accounted P t1 t' \<Longrightarrow> accounted P t t'"
  by (auto simp: calm_def quiet_def accounted_def) (metis append.assoc)

lemma accounted_calm: "accounted P t t1 \<Longrightarrow> calm t1 t' \<Longrightarrow> accounted P t t'"
  by (auto simp: calm_def quiet_def accounted_def) blast

lemma accounted_mono: "accounted P t t' \<Longrightarrow> (\<And>e. P e \<Longrightarrow> Q e) \<Longrightarrow> accounted Q t t'"
  by (auto simp: accounted_def)

lemma retry_clean:
  assumes "entry_ok (booked now e)" and "\<not> related_taken e t"
  shows "\<exists>t'. writeBillingWithRetry now e (t, []) = (Inr True, (t', [])) \<and> t' = t \<lparr> billing := billing t @ [booked now e] \<rparr>"
  using assms by (simp add: writeBillingWithRetry_def numeral_3_eq_3 tx_catch_def tx_bind_def
      WriteBillingEntryNonFatal_def WriteBillingEntry_ok)

lemma pending_ok: "uid \<noteq> 0 \<Longrightarrow> entry_ok (booked now (pending_entry env ctx uid u i bal c))"
  by (simp add: entry_ok_def booked_def pending_entry_def usage_entry_def blank_entry_def IsKnownBillingType_def
      IsKnownBillingState_def known_states_def IsZeroAmountBillingType_def)

lemma sub_entry_ok: "uid \<noteq> 0 \<Longrightarrow> entry_ok (booked now ((usage_entry uid m u i ''api_usage_sub'' bal)
    \<lparr> be_SourceSubscriptionID := Some s \<rparr>))"
  by (simp add: entry_ok_def booked_def usage_entry_def blank_entry_def IsKnownBillingType_def
      IsKnownBillingState_def known_states_def IsZeroAmountBillingType_def)

lemma consume_entry_ok: "uid \<noteq> 0 \<Longrightarrow> entry_ok (booked now (consume_entry ctx uid u i bal c))"
  by (simp add: entry_ok_def booked_def consume_entry_def usage_entry_def blank_entry_def IsKnownBillingType_def
      IsKnownBillingState_def known_states_def IsZeroAmountBillingType_def)

text \<open>What the entry of a request of user \<open>uid\<close>, logged as \<open>i\<close> with raw cost \<open>c\<close>, says.\<close>

definition accounts_for :: "nat \<Rightarrow> nat \<Rightarrow> int64 \<Rightarrow> billing_entry \<Rightarrow> bool" where
  "accounts_for uid i c e \<longleftrightarrow> be_UserID e = uid \<and> be_RelatedID e = i
     \<and> (be_EntryType e = ''api_usage_sub'' \<and> be_AmountUSD e = 0 \<and> be_SourceSubscriptionID e \<noteq> None
        \<or> be_EntryType e = ''api_consume_balance'' \<and> be_AmountUSD e = - c
        \<or> be_EntryType e = ''api_usage_pending_reconcile'' \<and> be_AmountUSD e = 0 \<and> be_EstimatedCostUSD e = c)"

lemma accounts_for_entries:
  "accounts_for uid i c (booked now (pending_entry env ctx uid u i bal c))"
  "accounts_for uid i c (booked now (consume_entry ctx uid u i bal c))"
  "accounts_for uid i c (booked now ((usage_entry uid m u i ''api_usage_sub'' bal) \<lparr> be_SourceSubscriptionID := Some s \<rparr>))"
  by (simp_all add: accounts_for_def booked_def pending_entry_def consume_entry_def usage_entry_def blank_entry_def)

lemma accounted_append: "P e \<Longrightarrow> accounted P t (t \<lparr> billing := billing t @ [e] \<rparr>)"
  by (auto simp: accounted_def intro: exI [of _ "[]"])

lemma clean_TryConsume: "clean (TryConsumeBalanceTx now uid delta force)"
  unfolding TryConsumeBalanceTx_def accumulate_def reset_window_def roll_window_def by (intro clean_intros)

lemma balance_body_accounts:
  assumes u: "users t uid \<noteq> None" and uid: "uid \<noteq> 0" and ub: "unbilled logID t"
  shows "\<exists>r t'. balance_body env ctx uid u logID cost (t, []) = (Inr r, (t', []))
    \<and> accounted (accounts_for uid logID cost) t t'"
proof -
  obtain b t1 where 1: "TryConsumeBalanceTx (ce_now env) uid cost True (t, []) = (Inr b, (t1, []))"
    using TryConsume_total [of "ce_now env" uid cost True "(t, [])"] cleanD [OF clean_TryConsume]
    by (metis surj_pair)
  have f: "window_frame uid t t1" using keepsD [OF TryConsume_keeps 1] .
  then obtain v where v: "users t1 uid = Some v"
    using u by (auto simp: window_frame_def rel_option_iff split: option.splits)
  note c1 = window_frame_calm [OF f]
  have "billing t1 = billing t" using f by (simp add: window_frame_def) (metis tables.select_convs(2) tables.surjective tables.update_convs(1))
  then have ub1: "unbilled logID t1" using ub by (simp add: unbilled_def)
  show ?thesis
  proof (cases "cost \<le> u_Quota v")
    case True
    let ?t2 = "t1 \<lparr> users := (users t1)(uid \<mapsto> v \<lparr> u_Quota := u_Quota v - cost \<rparr>) \<rparr>"
    let ?e = "booked (ce_now env) (consume_entry ctx uid u logID (u_Quota v - cost) cost)"
    let ?t3 = "?t2 \<lparr> billing := billing ?t2 @ [?e] \<rparr>"
    obtain r t' where r: "ApplyReferralPaidSpendRewardTx (ce_now env) uid cost
         (fst (readReferralPaidSpendRewardConfig (ce_cfg env)))
         (snd (readReferralPaidSpendRewardConfig (ce_cfg env))) (ce_now env)
         (if 0 < logID then ''api_log'' else '''') logID (?t3, []) = (Inr r, (t', []))"
    proof -
      have "unbilled logID ?t2" using ub1 by (simp add: unbilled_def)
      then have nt: "\<not> related_taken (reward_entry ref occ rew b (if 0 < logID then ''api_log'' else '''') logID) ?t3"
        for ref occ rew b
        using unbilled_not_taken(4) [of logID ?t2]
        by (simp add: reward_entry_def consume_entry_def usage_entry_def booked_def related_taken_def)
      have "users ?t3 uid = Some (v \<lparr> u_Quota := u_Quota v - cost \<rparr>)" by simp
      from referral_succeeds [OF this nt] that show thesis by blast
    qed
    have run: "balance_body env ctx uid u logID cost (t, []) = (Inr (Some r), (t', []))"
      using True v r uid unbilled_not_taken(2) [OF ub1]
      by (simp add: balance_body_def tx_bind_def 1 debit_def update_user_if_def book_charge_def
          WriteBillingEntry_ok consume_entry_ok)
    have "\<exists>es. billing t' = billing ?t3 @ es"
    proof (cases "0 < cost")
      case c: True
      from r c uid show ?thesis
        by (cases rule: referral_Inr) (auto simp: book_reward_def split: option.split)
    next
      case False
      then show ?thesis using r by (simp add: ApplyReferralPaidSpendRewardTx_def Let_def)
    qed
    then have "accounted (accounts_for uid logID cost) t1 t'"
      using accounts_for_entries(2) by (fastforce simp: accounted_def)
    with run c1 show ?thesis using calm_accounted by blast
  next
    case False
    let ?e = "booked (ce_now env) (pending_entry env ctx uid u logID (u_Quota v) cost)"
    have run: "balance_body env ctx uid u logID cost (t, []) = (Inr None, (t1 \<lparr> billing := billing t1 @ [?e] \<rparr>, []))"
      using False v uid unbilled_not_taken(1) [OF ub1]
      by (simp add: balance_body_def tx_bind_def 1 debit_def update_user_if_def debt_for_reconcile_def
          WriteBillingEntry_ok pending_ok)
    have "accounted (accounts_for uid logID cost) t1 (t1 \<lparr> billing := billing t1 @ [?e] \<rparr>)"
      by (rule accounted_append) (rule accounts_for_entries)
    then show ?thesis using run calm_accounted [OF c1] by blast
  qed
qed

lemma clean_revenue: "clean (RecordApiLogRevenue i s e sub)"
proof -
  have "clean (revenue_attempts n r)" for n r
  proof (induction n)
    case (Suc n)
    show ?case unfolding revenue_attempts.simps insert_revenue_def by (intro clean_intros Suc)
  qed (unfold revenue_attempts.simps, intro clean_intros)
  then show ?thesis unfolding RecordApiLogRevenue_def recordApiLogRevenueAsyncBody_def by (intro clean_intros)
qed

lemma clean_try: "clean m \<Longrightarrow> clean (try_tx m)"
  unfolding try_tx_def by (intro clean_intros)

lemma clean_used: "clean (add_used_quota ctx revenue status)"
  unfolding add_used_quota_def by (intro clean_intros clean_try)

lemma clean_lines: "clean (writeTextUsageLines i u p)"
proof -
  have "clean (write_lines ls)" for ls
  proof (induction ls)
    case (Cons l ls)
    show ?case unfolding write_lines.simps by (intro clean_intros Cons)
  qed (unfold write_lines.simps, intro clean_intros)
  then show ?thesis by (simp add: writeTextUsageLines_def)
qed

text \<open>A calm program that always returns and meets no fault.\<close>

lemma calm_run:
  assumes "returns m" "clean m" "keeps calm m"
  obtains a t' where "m (t, []) = (Inr a, (t', []))" "calm t t'"
proof -
  from assms(1) obtain a t' fs' where m: "m (t, []) = (Inr a, (t', fs'))" unfolding returns_def by (metis surj_pair)
  with cleanD [OF assms(2)] keepsD [OF assms(3)] that show thesis by blast
qed

lemma accounted_then:
  assumes "m (t, []) = (Inr a, (t1, []))" "accounted P t t1" "returns (f a)" "clean (f a)" "keeps calm (f a)"
  shows "\<exists>b t'. tx_bind m f (t, []) = (Inr b, (t', [])) \<and> accounted P t t'"
proof -
  obtain b t' where "f a (t1, []) = (Inr b, (t', []))" "calm t1 t'" by (rule calm_run [OF assms(3-5)])
  then show ?thesis using assms(1,2) accounted_calm by (auto simp: tx_bind_def)
qed

lemma settle_accounts:
  assumes u: "users t uid \<noteq> None" and uid: "uid \<noteq> 0" and ch: "0 < ch" and ub: "unbilled logID t"
  shows "\<exists>a t'. settle_text env ctx uid snapshot u logID cost ch d (t, []) = (Inr a, (t', []))
    \<and> accounted (accounts_for uid logID cost) t t'"
proof -
  have acc: "accounted (accounts_for uid logID cost) t (t \<lparr> billing := billing t @ [e] \<rparr>)"
    if "accounts_for uid logID cost e" for e using that by (rule accounted_append)
  consider (hit) "subscription_hit d" | (debt) "\<not> subscription_hit d" "\<not> u_BalanceConsumeEnabled snapshot"
    | (balance) "\<not> subscription_hit d" "u_BalanceConsumeEnabled snapshot" by blast
  then show ?thesis
  proof cases
    case hit
    let ?e = "(usage_entry uid (tc_ModelName ctx) u logID ''api_usage_sub'' (u_Quota snapshot))
      \<lparr> be_SourceSubscriptionID := Some (ed_SubscriptionID d) \<rparr>"
    let ?rv = "subscriptionRevenueMicroUSD ch (ed_SubscriptionIsGranted d)"
    obtain t1 where w: "writeBillingWithRetry (ce_now env) ?e (t, []) = (Inr True, (t1, []))"
      and t1: "t1 = t \<lparr> billing := billing t @ [booked (ce_now env) ?e] \<rparr>"
      using retry_clean [OF sub_entry_ok [OF uid] unbilled_not_taken(3) [OF ub]] by blast
    have a1: "accounted (accounts_for uid logID cost) t t1" unfolding t1 by (rule acc) (rule accounts_for_entries)
    let ?k = "tx_bind (if 0 < logID then RecordApiLogRevenue logID ''subscription'' ?rv (ed_SubscriptionID d)
                 else tx_return ()) (\<lambda>_. tx_return ?rv)"
    obtain b t2 where 2: "?k (t1, []) = (Inr b, (t2, []))" "calm t1 t2"
      by (rule calm_run [of ?k t1]) (intro returns_intros clean_intros clean_revenue calm_intros RecordApiLogRevenue_quiet)+
    have "settle_text env ctx uid snapshot u logID cost ch d (t, []) = (Inr (b, []), (t2, []))"
      using hit w 2(1) by (simp add: settle_text_def commit_subscription_def Let_def tx_bind_def)
    then show ?thesis using accounted_calm [OF a1 2(2)] by blast
  next
    case debt
    have "settle_text env ctx uid snapshot u logID cost ch d (t, []) =
      (Inr (0, []), (t \<lparr> billing := billing t @ [booked (ce_now env) (pending_entry env ctx uid u logID (u_Quota snapshot) cost)] \<rparr>, []))"
      using debt ch retry_clean [OF pending_ok [OF uid] unbilled_not_taken(1) [OF ub],
          of "ce_now env" env ctx u "u_Quota snapshot" cost]
      by (auto simp: settle_text_def commit_unauthorized_def tx_bind_def)
    then show ?thesis using acc accounts_for_entries(1) by blast
  next
    case balance
    obtain r t1 where b: "balance_body env ctx uid u logID cost (t, []) = (Inr r, (t1, []))"
      and a: "accounted (accounts_for uid logID cost) t t1"
      using balance_body_accounts [OF u uid ub] by blast
    have tr: "try_tx (transaction (balance_body env ctx uid u logID cost)) (t, []) = (Inr (Some r), (t1, []))"
      using b by (simp add: try_tx_def tx_catch_def tx_bind_def transaction_def)
    let ?f = "\<lambda>res. case res of None \<Rightarrow> tx_return (0, []) | Some None \<Rightarrow> tx_return (0, [RefreshUserAuth uid])
       | Some (Some reward) \<Rightarrow>
           tx_bind (if 0 < logID then RecordApiLogRevenue logID ''balance'' cost 0 else tx_return ()) (\<lambda>_.
             tx_return (cost, RefreshUserAuth uid #
               (if rr_ReferrerID reward \<noteq> 0 \<and> 0 < rr_RewardMicroUSD reward
                then [RefreshUserAuth (rr_ReferrerID reward)] else [])))"
    have "returns (?f (Some r))" "clean (?f (Some r))" "keeps calm (?f (Some r))"
      unfolding option.case
      by (intro returns_intros clean_intros clean_revenue keeps_case_option_quiet calm_intros RecordApiLogRevenue_quiet)+
    from accounted_then [where f = ?f and t = t and m = "try_tx (transaction (balance_body env ctx uid u logID cost))", OF tr a this] show ?thesis
      using balance ch by (simp add: settle_text_def commitTextBalanceTurn_def)
  qed
qed

lemma decide_settle_accounts:
  assumes u: "users t uid \<noteq> None" and uid: "uid \<noteq> 0" and ch: "0 < ch" and st: "\<not> failed_status status"
    and ub: "unbilled logID t"
  shows "\<exists>eff t'. decide_and_settle env ctx loaded uid snapshot u status logID cost ch (t, []) = (Inr (True, eff), (t', []))
    \<and> accounted (accounts_for uid logID cost) t t'"
proof -
  obtain d t1 fs1 where D: "Decide (ce_order env) (ce_cfg env) (ce_now env) loaded
      (engine_request uid (tc_ModelName ctx) u ch) (t, []) = (d, (t1, fs1))" by (metis prod.collapse)
  then have fs1: "fs1 = []" by (rule clean_Decide)
  have uo: "users t1 = users t" "billing t1 = billing t" using Decide_frame [OF D] usages_onlyD by blast+
  have acc: "accounted P t1 t' \<Longrightarrow> accounted P t t'" for P t' by (simp add: accounted_def uo)
  have ub1: "unbilled logID t1" using ub unbilled_cong [OF uo(2)] by blast
  have dt: "decide_tx env loaded (engine_request uid (tc_ModelName ctx) u ch) (t, []) = (Inr d, (t1, []))"
    by (simp add: decide_tx_def D fs1)
  show ?thesis
  proof (cases "ed_NeedsRetry d")
    case True
    have "decide_and_settle env ctx loaded uid snapshot u status logID cost ch (t, [])
      = (Inr (True, []), (t1 \<lparr> billing := billing t1 @ [booked (ce_now env) (pending_entry env ctx uid u logID (u_Quota snapshot) cost)] \<rparr>, []))"
      using True st dt retry_clean [OF pending_ok [OF uid] unbilled_not_taken(1) [OF ub1],
          of "ce_now env" env ctx u "u_Quota snapshot" cost]
      by (auto simp: decide_and_settle_def tx_bind_def)
    then show ?thesis using acc [OF accounted_append [of "accounts_for uid logID cost"]] accounts_for_entries(1) by blast
  next
    case False
    obtain rv eff t2 where s: "settle_text env ctx uid snapshot u logID cost ch d (t1, []) = (Inr (rv, eff), (t2, []))"
      and a: "accounted (accounts_for uid logID cost) t1 t2"
      using settle_accounts [OF _ uid ch ub1] u uo by (metis surj_pair)
    obtain eff' t3 where m: "add_used_quota ctx rv status (t2, []) = (Inr eff', (t3, []))" "calm t2 t3"
      by (rule calm_run [OF returns_used clean_used used_quota_quiet])
    have "decide_and_settle env ctx loaded uid snapshot u status logID cost ch (t, []) = (Inr (True, eff @ eff'), (t3, []))"
      using False st dt s m by (simp add: decide_and_settle_def tx_bind_def)
    then show ?thesis using acc [OF accounted_calm [OF a m(2)]] by blast
  qed
qed

subsection \<open>Properties\<close>

text \<open>C1: A text request is paid at most once, and the books stay balanced. Whatever statements fail, a
  commit returns; whoever's opening balances the ledger accounted for before, it accounts for
  after; and one of two things has happened. Either no balance has moved and only zero entries
  were booked (the request was paid by a subscription, recorded as a debt, or free). Or the
  user had opted in, no subscription counter has moved, and exactly the raw cost, which the
  balance covered, has been taken from the user and booked by exactly one entry, beside at
  most one referral reward to someone else of no more than the cost.\<close>

theorem text_turn_pays_once:
  assumes "CommitTextTurn env ctx loaded usage status bytes (t, fs) = (r, (t', fs'))"
    and "tc_User ctx = Some (uid, snapshot)" and "uid \<noteq> 0"
  shows "(\<exists>ok eff. r = Inr (ok, eff)) \<and> (reconciled opening t \<longrightarrow> reconciled opening t')
    \<and> (quiet t t' \<or> (u_BalanceConsumeEnabled snapshot \<and> \<not> failed_status status \<and> usages t' = usages t
        \<and> (\<exists>cm c. tc_SelectedPath ctx = Some cm \<and> text_cost cm (clamp_usage usage) = Some c \<and> 0 < c
            \<and> charged uid c t t')))"
proof -
  obtain ok eff where r: "r = Inr (ok, eff)"
    using CommitTextTurn_returns [of env ctx loaded usage status bytes] assms(1)
    by (metis returns_def prod.inject prod.collapse)
  define u where "u = clamp_usage usage"
  define failed where "failed = failed_status status"
  have "(reconciled opening t \<longrightarrow> reconciled opening t')
    \<and> (quiet t t' \<or> (u_BalanceConsumeEnabled snapshot \<and> \<not> failed \<and> usages t' = usages t
        \<and> (\<exists>cm c. tc_SelectedPath ctx = Some cm \<and> text_cost cm u = Some c \<and> 0 < c \<and> charged uid c t t')))"
  proof (cases "tc_SelectedPath ctx")
    case None
    then have "t' = t" using assms by (simp add: CommitTextTurn_def)
    then show ?thesis using quiet_rt(1) by (simp add: reflpD)
  next
    case (Some cm)
    note run = assms(1) [unfolded CommitTextTurn_def assms(2) Some option.case prod.case Let_def u_def [symmetric]
        failed_def [symmetric] r]
    show ?thesis
    proof (cases "if failed then Some 0 else text_cost cm u")
      case None
      have k: "keeps calm (tx_bind (if tc_IsStream ctx
                   then RecordManualBillingState env ctx
                     (manual_input u bytes (EstimateDeliveredCost env ctx bytes (ReasoningTokens u)))
                   else tx_return ()) (\<lambda>_. tx_return (False, [] :: cache_effect list)))"
        by (intro calm_intros manual_quiet)
      have "calm t t'" using keepsD [OF k] run None by simp
      then show ?thesis using calm_reconciled by (auto simp: calm_def)
    next
      case c: (Some cost)
      define ch where "ch = ChargedCostMicroUSD (WithCosts (ResolveBillingRules (ce_cfg env) (tc_ModelName ctx)
                     (tc_Body ctx) (ReasoningTokens u) (channelTypeOfSelected (tc_SelectedChan ctx))
                     (tc_FallbackUserOptIn ctx)) cost)"
      have ch: "0 < ch \<longrightarrow> 0 < cost" by (auto simp: ch_def WithCosts_def applyBillingMultiplier_def)
      have ci: "in_i64 cost" using c by (auto simp: text_cost_def checkedCost_eq split: if_splits)
      from run [unfolded c option.case] ch_def [symmetric] obtain t1 fs1 t2 fs2 log t3 fs3 where
        1: "(if \<not> failed \<and> cost = 0 \<and> has_tokens u \<and> tc_IsStream ctx
                   then RecordManualBillingState env ctx (manual_input u bytes (0, 0))
                   else tx_return ()) (t, fs) = (Inr (), (t1, fs1))"
        and 2: "try_tx (create_api_log (api_log_of uid (tc_ModelName ctx) u cost ch status)) (t1, fs1) = (Inr log, (t2, fs2))"
        and 3: "(if 0 < persisted_id log \<and> \<not> failed \<and> has_tokens u
                   then writeTextUsageLines (persisted_id log) u (text_prices_of cm u) else tx_return ()) (t2, fs2)
             = (Inr (), (t3, fs3))"
        and 4: "decide_and_settle env ctx loaded uid snapshot u status (persisted_id log) cost ch (t3, fs3)
             = (Inr (ok, eff), (t', fs'))"
        unfolding tx_bind_Inr by auto
      have k1: "keeps calm (if \<not> failed \<and> cost = 0 \<and> has_tokens u \<and> tc_IsStream ctx
                   then RecordManualBillingState env ctx (manual_input u bytes (0, 0)) else tx_return ())"
        and k2: "keeps calm (try_tx (create_api_log (api_log_of uid (tc_ModelName ctx) u cost ch status)))"
        and k3: "keeps calm (if 0 < persisted_id log \<and> \<not> failed \<and> has_tokens u
                   then writeTextUsageLines (persisted_id log) u (text_prices_of cm u) else tx_return ())"
        unfolding writeTextUsageLines_def
        by (intro calm_intros manual_quiet try_quiet create_log_quiet lines_quiet)+
      have c3: "calm t t3"
        using keepsD [OF k1 1] keepsD [OF k2 2] keepsD [OF k3 3] transpD [OF calm_rt(2)] by blast
      from decide_settle_effect [OF 4 ch ci assms(3)]
      have e: "turn_effect uid cost (0 < ch \<and> u_BalanceConsumeEnabled snapshot) t3 t'"
        "reconciled opening t3 \<longrightarrow> reconciled opening t'" by blast+
      have rec: "reconciled opening t \<longrightarrow> reconciled opening t'" using e(2) calm_reconciled [OF c3] by blast
      show ?thesis
      proof (cases "quiet t3 t'")
        case True
        then have "quiet t t'" using c3 transpD [OF quiet_rt(2)] by (metis calm_def)
        then show ?thesis using rec by simp
      next
        case False
        then have h: "0 < ch" "u_BalanceConsumeEnabled snapshot" "charged uid cost t3 t'"
          using e(1) by (auto simp: turn_effect_def)
        then have "charged uid cost t t'" using calm_charged [OF c3] by blast
        moreover have "\<not> failed" using h(1) ch c by (auto split: if_splits)
        ultimately show ?thesis using h ch c rec Some charged_usages by auto
      qed
    qed
  qed
  then show ?thesis using r unfolding u_def failed_def by blast
qed

theorem text_turn_pays_once_witness:
  "\<forall>env. \<exists>ok eff t' fs'. CommitTextTurn env
      \<lparr> tc_User = Some (3, demo_user), tc_Token = ''k'', tc_SubToken = None, tc_ModelName = ''gpt-5'',
        tc_Body = None, tc_StartTime = 7, tc_IsStream = False, tc_FallbackUserOptIn = False,
        tc_SelectedPath = Some demo_route, tc_SelectedChan = Some ''openai'', tc_FallbackToBalance = True,
        tc_UpstreamHeaders = None \<rparr> (Some []) demo_usage 200 90 (demo_tables, [False, True, False])
      = (Inr (ok, eff), (t', fs'))
    \<and> reconciled (bal_col demo_tables) t'"
proof
  fix env :: commit_env
  let ?ctx = "\<lparr> tc_User = Some (3, demo_user), tc_Token = ''k'', tc_SubToken = None, tc_ModelName = ''gpt-5'',
        tc_Body = None, tc_StartTime = 7, tc_IsStream = False, tc_FallbackUserOptIn = False,
        tc_SelectedPath = Some demo_route, tc_SelectedChan = Some ''openai'', tc_FallbackToBalance = True,
        tc_UpstreamHeaders = None \<rparr>"
  obtain r t' fs' where g: "CommitTextTurn env ?ctx (Some []) demo_usage 200 90 (demo_tables, [False, True, False])
      = (r, (t', fs'))" by (metis prod.collapse)
  have "reconciled (bal_col demo_tables) demo_tables" by (auto simp: reconciled_def bal_col_def)
  then show "\<exists>ok eff t' fs'. CommitTextTurn env ?ctx (Some []) demo_usage 200 90 (demo_tables, [False, True, False])
      = (Inr (ok, eff), (t', fs')) \<and> reconciled (bal_col demo_tables) t'"
    using text_turn_pays_once [OF g, of 3 demo_user "bal_col demo_tables"] g by auto
qed

text \<open>C2: No delivered request is lost: when the database does not fail, every commit of a successful
  request with a positive cost returns success and leaves an entry in the ledger that names the
  user and the request's log row and says who pays: a subscription, the balance for exactly the
  raw cost, or nobody yet, with the raw cost on record to be reconciled. This holds whatever the
  engine decides, also when the subscriptions could not be loaded. No entry may refer yet to the
  log row the commit is about to write, as the ledger refuses a second one.\<close>

theorem delivered_request_accounted:
  assumes "tc_User ctx = Some (uid, snapshot)" and "uid \<noteq> 0" and "users t uid \<noteq> None"
    and "tc_SelectedPath ctx = Some cm" and "\<not> failed_status status"
    and "text_cost cm (clamp_usage usage) = Some c" and "0 < c" and "unbilled (Suc (length (api_logs t))) t"
  shows "\<exists>eff t' es1 e es2. CommitTextTurn env ctx loaded usage status bytes (t, []) = (Inr (True, eff), (t', []))
    \<and> billing t' = billing t @ es1 @ e # es2 \<and> accounts_for uid (Suc (length (api_logs t))) c e"
proof -
  define u where "u = clamp_usage usage"
  define ch where "ch = ChargedCostMicroUSD (WithCosts (ResolveBillingRules (ce_cfg env) (tc_ModelName ctx)
                     (tc_Body ctx) (ReasoningTokens u) (channelTypeOfSelected (tc_SelectedChan ctx))
                     (tc_FallbackUserOptIn ctx)) c)"
  have "in_i64 c" using assms(6) by (auto simp: text_cost_def checkedCost_eq split: if_splits)
  then have "1 \<le> applyBillingMultiplier c m" for m using applyBillingMultiplier_bounds [OF assms(7)] by simp
  then have ch: "0 < ch" by (simp add: ch_def WithCosts_def int_one_le_iff_zero_less)
  define i where "i = Suc (length (api_logs t))"
  define t1 where "t1 = t \<lparr> api_logs := api_logs t @ [api_log_of uid (tc_ModelName ctx) u c ch status] \<rparr>"
  have log: "try_tx (create_api_log (api_log_of uid (tc_ModelName ctx) u c ch status)) (t, []) = (Inr (Some i), (t1, []))"
    by (simp add: try_tx_def create_api_log_def tx_catch_def tx_bind_def i_def t1_def)
  let ?l = "if 0 < persisted_id (Some i) \<and> \<not> failed_status status \<and> has_tokens u
     then writeTextUsageLines (persisted_id (Some i)) u (text_prices_of cm u) else tx_return ()"
  obtain b t2 where l: "?l (t1, []) = (Inr b, (t2, []))"
    by (rule calm_run [of ?l t1])
      ((unfold writeTextUsageLines_def)?, intro returns_intros clean_intros clean_lines calm_intros lines_quiet
        returns_lines [unfolded writeTextUsageLines_def] clean_lines [unfolded writeTextUsageLines_def])+
  have k: "keeps (\<lambda>a b. users b = users a \<and> billing b = billing a) ?l"
  proof -
    have "keeps (\<lambda>a b. users b = users a \<and> billing b = billing a) (write_lines ls)" for ls
    proof (induction ls)
      case (Cons x xs)
      show ?case unfolding write_lines.simps by (intro keeps_intros Cons) (auto simp: reflp_def transp_def)
    qed (unfold write_lines.simps, intro keeps_intros, simp add: reflp_def)
    then show ?thesis unfolding writeTextUsageLines_def by (intro keeps_intros) (auto simp: reflp_def)
  qed
  have t2: "users t2 = users t" "billing t2 = billing t" using keepsD [OF k l] by (simp_all add: t1_def)
  obtain eff t' where fin: "decide_and_settle env ctx loaded uid snapshot u status i c ch (t2, []) = (Inr (True, eff), (t', []))"
    and acc: "accounted (accounts_for uid i c) t2 t'"
    using decide_settle_accounts [OF _ assms(2) ch assms(5), of t2] assms(3,8) t2 unbilled_cong [OF t2(2)]
    unfolding i_def by metis
  have "CommitTextTurn env ctx loaded usage status bytes (t, []) = (Inr (True, eff), (t', []))"
    using assms(1,4,5,6,7) log l fin
    by (simp add: CommitTextTurn_def u_def [symmetric] Let_def ch_def [symmetric] tx_bind_def persisted_id_def)
  with acc t2 show ?thesis unfolding accounted_def i_def by auto
qed

theorem delivered_request_accounted_witness:
  "\<forall>env. \<exists>eff t' es1 e es2. CommitTextTurn env
      \<lparr> tc_User = Some (3, demo_user), tc_Token = ''k'', tc_SubToken = None, tc_ModelName = ''gpt-5'',
        tc_Body = None, tc_StartTime = 7, tc_IsStream = False, tc_FallbackUserOptIn = False,
        tc_SelectedPath = Some demo_route, tc_SelectedChan = Some ''openai'', tc_FallbackToBalance = True,
        tc_UpstreamHeaders = None \<rparr> None demo_usage 200 90 (demo_tables, []) = (Inr (True, eff), (t', []))
    \<and> billing t' = es1 @ e # es2 \<and> be_UserID e = 3 \<and> be_RelatedID e = 1"
proof
  fix env :: commit_env
  have "well_clamped demo_usage" by (rule demo_usage_cost)
  then have "clamp_usage demo_usage = demo_usage" by (rule clamp_id)
  then show "\<exists>eff t' es1 e es2. CommitTextTurn env
      \<lparr> tc_User = Some (3, demo_user), tc_Token = ''k'', tc_SubToken = None, tc_ModelName = ''gpt-5'',
        tc_Body = None, tc_StartTime = 7, tc_IsStream = False, tc_FallbackUserOptIn = False,
        tc_SelectedPath = Some demo_route, tc_SelectedChan = Some ''openai'', tc_FallbackToBalance = True,
        tc_UpstreamHeaders = None \<rparr> None demo_usage 200 90 (demo_tables, []) = (Inr (True, eff), (t', []))
    \<and> billing t' = es1 @ e # es2 \<and> be_UserID e = 3 \<and> be_RelatedID e = 1"
    using delivered_request_accounted [of "\<lparr> tc_User = Some (3, demo_user), tc_Token = ''k'', tc_SubToken = None, tc_ModelName = ''gpt-5'',
        tc_Body = None, tc_StartTime = 7, tc_IsStream = False, tc_FallbackUserOptIn = False,
        tc_SelectedPath = Some demo_route, tc_SelectedChan = Some ''openai'', tc_FallbackToBalance = True,
        tc_UpstreamHeaders = None \<rparr>" 3 demo_user demo_tables demo_route 200 demo_usage 1 env None 90]
      demo_usage_cost(2)
    by (fastforce simp: failed_status_def accounts_for_def demo_tables_def empty_tables_def unbilled_def)
qed

end
