(* ===== verification/MediaAccounts.thy ===== *)
theory MediaAccounts
  imports MediaBilling TextAccounts
begin

section \<open>Accounting for media requests\<close>

text \<open>
  Proofs about \<open>MediaPricing\<close> and \<open>MediaBilling\<close>, on top of those about text requests: a commit
  returns, charges at most once and keeps the books, and without failures leaves an entry for
  everything delivered; what a price is made of; and where the code bills less, or other, than
  it means to.
\<close>

subsection \<open>Steps that move no money\<close>

lemma media_entry_simps [simp]:
  "be_AmountUSD (media_entry mx mt i ty bal) = 0" "be_AmountUSD (media_pending_entry mx mt i bal) = 0"
  "be_UserID (media_entry mx mt i ty bal) = mx_UserID mx" "be_UserID (media_pending_entry mx mt i bal) = mx_UserID mx"
  "be_RelatedID (media_entry mx mt i ty bal) = i" "be_RelatedID (media_pending_entry mx mt i bal) = i"
  "be_EntryType (media_entry mx mt i ty bal) = ty"
  "be_EntryType (media_pending_entry mx mt i bal) = ''api_usage_pending_reconcile''"
  by (simp_all add: media_entry_def media_pending_entry_def)

lemma create_lines_calm: "keeps calm (create_lines ls)"
  unfolding create_lines_def by (intro calm_intros calmI) simp_all

lemma transaction_calm: "keeps calm m \<Longrightarrow> keeps calm (transaction m)"
  by (rule keeps_transaction) (auto intro: calm_rt)

lemma media_log_calm: "keeps calm (createMediaApiLog mx mt)"
  unfolding createMediaApiLog_def media_log_body_def
  by (intro calm_intros try_quiet transaction_calm create_log_quiet create_lines_calm)

lemma media_pending_calm: "keeps calm (recordMediaPendingReconcile env mx mt)"
  unfolding recordMediaPendingReconcile_def by (intro calm_intros media_log_calm retry_quiet) simp

lemma increment_calm: "keeps calm (incrementSubTokenUsedQuota token st amount)"
  unfolding incrementSubTokenUsedQuota_def
  by (intro calm_intros keeps_case_option_quiet try_quiet calmI) (auto split: option.split)

lemma write_zero_calm: "be_AmountUSD e = 0 \<Longrightarrow> keeps calm (WriteBillingEntry now e)"
proof (rule keepsI)
  fix t fs x t' fs' assume z: "be_AmountUSD e = 0" and w: "WriteBillingEntry now e (t, fs) = (x, (t', fs'))"
  show "calm t t'"
  proof (cases x)
    case (Inl err)
    then have "t' = t" using w WriteBillingEntry_Inl by blast
    then show ?thesis by (simp add: reflpD [OF calm_rt(1)])
  next
    case (Inr u)
    then have "t' = t \<lparr> billing := billing t @ [booked now e] \<rparr>" using w by (simp add: WriteBillingEntry_Inr)
    moreover have "be_AmountUSD (booked now e) = 0" using z by (simp add: booked_def)
    ultimately show ?thesis by (auto simp: calm_def quiet_def zero_entries_def balance_of_def)
  qed
qed

lemma media_subscription_calm: "keeps calm (media_subscription env mx mt d)"
  unfolding media_subscription_def Let_def WriteBillingEntryNonFatal_def
  by (intro calm_intros media_log_calm try_quiet write_zero_calm RecordApiLogRevenue_quiet) simp

lemma proxy_log_calm: "keeps calm (recordProxyApiLog uid m s)"
  unfolding recordProxyApiLog_def Let_def by (intro calm_intros try_quiet create_log_quiet)

subsection \<open>Programs that always return\<close>

lemma returns_media_log [returns_intros]: "returns (createMediaApiLog mx mt)"
  unfolding createMediaApiLog_def by (intro returns_intros)

lemma returns_media_pending [returns_intros]: "returns (recordMediaPendingReconcile env mx mt)"
  unfolding recordMediaPendingReconcile_def by (intro returns_intros)

lemma returns_increment [returns_intros]: "returns (incrementSubTokenUsedQuota token st amount)"
  unfolding incrementSubTokenUsedQuota_def by (intro returns_intros)

lemma returns_media_sub [returns_intros]: "returns (media_subscription env mx mt d)"
  unfolding media_subscription_def Let_def by (intro returns_intros)

lemma deduct_cases:
  obtains "res = None" | i where "res = Some (i, None)" | i r where "res = Some (i, Some r)"
  by (cases res) force+

lemma returns_case4: "(\<And>i r w e. returns (f i r w e)) \<Longrightarrow> returns (case x of (i, r, w, e) \<Rightarrow> f i r w e)"
  by (cases x) auto

lemma returns_deduct [returns_intros]: "returns (DeductMediaBalanceAndLog env mx mt)"
proof -
  have "returns (case res of None \<Rightarrow> tx_bind (recordMediaPendingReconcile env mx mt) (\<lambda>i. tx_return (i, 0, None, []))
       | Some (i, None) \<Rightarrow> tx_return (i, 0, None, [RefreshUserAuth (mx_UserID mx)])
       | Some (i, Some reward) \<Rightarrow>
           tx_bind (if i \<noteq> 0 then RecordApiLogRevenue i ''balance'' (mt_Amount mt) 0 else tx_return ()) (\<lambda>_.
             tx_return (i, mt_Amount mt, Some reward, [RefreshUserAuth (mx_UserID mx)])))" for res
    by (cases res rule: deduct_cases; hypsubst; unfold option.case prod.case; intro returns_intros)
  then show ?thesis unfolding DeductMediaBalanceAndLog_def by (intro returns_bind returns_try)
qed

lemma returns_commit [returns_intros]: "returns (media_commit env mx loaded mt)"
  unfolding media_commit_def by (intro returns_intros returns_case4)

lemma returns_proxy_log [returns_intros]: "returns (recordProxyApiLog uid m s)"
  unfolding recordProxyApiLog_def Let_def by (intro returns_intros)

subsection \<open>One charge per response\<close>

lemma create_lines_Inr: "create_lines ls (t, fs) = (Inr a, (t', fs')) \<Longrightarrow> users t' = users t \<and> billing t' = billing t \<and> usages t' = usages t"
  by (auto simp: create_lines_def stmt_Inr split: if_splits)

lemma create_log_Inr: "create_api_log l (t, fs) = (Inr i, (t', fs')) \<Longrightarrow>
    i = Suc (length (api_logs t)) \<and> t' = t \<lparr> api_logs := api_logs t @ [l] \<rparr>"
  by (auto simp: create_api_log_def stmt_Inr)

lemma media_body_steps:
  assumes "media_balance_body env mx mt (t, fs) = (Inr (i, o1), (t', fs'))"
  obtains t1 n t2 fs2 t3 fs3 where "calm t t1" "debit (mx_UserID mx) (mt_Amount mt) (t1, fs2) = (Inr n, (t2, fs3))"
    "users t3 = users t2" "billing t3 = billing t2" "usages t3 = usages t2" "0 < i"
    "n = 0 \<Longrightarrow> o1 = None \<and> (\<exists>f. media_debt env mx mt i (t3, f) = (Inr (), (t', fs')))"
    "n \<noteq> 0 \<Longrightarrow> \<exists>r f. o1 = Some r \<and> media_charge env mx mt i (t3, f) = (Inr r, (t', fs'))"
proof -
  from assms obtain b t1 fs1 n t2 fs2 j t3 fs3 t4 fs4 where
    1: "TryConsumeBalanceTx (ce_now env) (mx_UserID mx) (mt_Amount mt) True (t, fs) = (Inr b, (t1, fs1))"
    and 2: "debit (mx_UserID mx) (mt_Amount mt) (t1, fs1) = (Inr n, (t2, fs2))"
    and 3: "create_api_log (if n = 0 then media_log_row mx mt 0 0
             else media_log_row mx mt (mt_Amount mt) (mt_Charged mt)) (t2, fs2) = (Inr j, (t3, fs3))"
    and 4: "create_lines (mt_Lines mt j) (t3, fs3) = (Inr (), (t4, fs4))"
    and 5: "(if n = 0 then tx_bind (media_debt env mx mt j) (\<lambda>_. tx_return (j, None))
             else tx_bind (media_charge env mx mt j) (\<lambda>reward. tx_return (j, Some reward))) (t4, fs4)
           = (Inr (i, o1), (t', fs'))"
    unfolding media_balance_body_def tx_bind_Inr by auto
  have q: "calm t t1" using keepsD [OF TryConsume_keeps 1] by (rule window_frame_calm)
  have t4: "users t4 = users t2" "billing t4 = billing t2" "usages t4 = usages t2"
    using create_lines_Inr [OF 4] create_log_Inr [OF 3] by auto
  have j: "j = i" using 5 by (auto simp: tx_bind_Inr split: if_splits)
  have "0 < i" using create_log_Inr [OF 3] j by simp
  with that [OF q 2 t4] 5 j show thesis by (auto simp: tx_bind_Inr split: if_splits)
qed

lemma media_body_None:
  assumes "media_balance_body env mx mt (t, fs) = (Inr (i, None), (t', fs'))"
  shows "calm t t'"
  using assms
proof (rule media_body_steps)
  fix t1 n t2 fs2 t3 fs3
  assume q: "calm t t1" and d: "debit (mx_UserID mx) (mt_Amount mt) (t1, fs2) = (Inr n, (t2, fs3))"
    and same: "users t3 = users t2" "billing t3 = billing t2" "usages t3 = usages t2"
    and 0: "n = 0 \<Longrightarrow> None = (None :: referral_result option) \<and> (\<exists>f. media_debt env mx mt i (t3, f) = (Inr (), (t', fs')))"
    and 1: "n \<noteq> 0 \<Longrightarrow> \<exists>r f. None = Some r \<and> media_charge env mx mt i (t3, f) = (Inr r, (t', fs'))"
  from 1 have n: "n = 0" by auto
  then have "t2 = t1" using debit_Inr [OF d] by simp
  then have c: "calm t1 t3" using same by (intro calmI) simp_all
  have k: "keeps calm (media_debt env mx mt i)"
    unfolding media_debt_def by (intro calm_intros write_zero_calm) simp
  from 0 [OF n] have "calm t3 t'" using keepsD [OF k] by blast
  with q c show ?thesis using transpD [OF calm_rt(2)] by blast
qed

lemma media_body_Some:
  assumes "media_balance_body env mx mt (t, fs) = (Inr (i, Some rew), (t', fs'))"
  obtains t1 v e t2 fs2 where "calm t t1" "users t1 (mx_UserID mx) = Some v" "mt_Amount mt \<le> u_Quota v"
    "be_UserID e = mx_UserID mx" "be_EntryType e = ''api_consume_balance''" "be_AmountUSD e = - mt_Amount mt" "entry_ok e"
    "t2 = t1 \<lparr> users := (users t1)(mx_UserID mx \<mapsto> v \<lparr> u_Quota := u_Quota v - mt_Amount mt \<rparr>), billing := billing t1 @ [e] \<rparr>"
    "ApplyReferralPaidSpendRewardTx (ce_now env) (mx_UserID mx) (mt_Amount mt)
        (fst (readReferralPaidSpendRewardConfig (ce_cfg env)))
        (snd (readReferralPaidSpendRewardConfig (ce_cfg env))) (ce_now env) ''api_log'' i (t2, fs2) = (Inr rew, (t', fs'))"
  using assms
proof (rule media_body_steps)
  fix t1 n t2 fs2 t3 fs3
  assume q: "calm t t1" and d: "debit (mx_UserID mx) (mt_Amount mt) (t1, fs2) = (Inr n, (t2, fs3))"
    and same: "users t3 = users t2" "billing t3 = billing t2" "usages t3 = usages t2"
    and 0: "n = 0 \<Longrightarrow> Some rew = None \<and> (\<exists>f. media_debt env mx mt i (t3, f) = (Inr (), (t', fs')))"
    and 1: "n \<noteq> 0 \<Longrightarrow> \<exists>r f. Some rew = Some r \<and> media_charge env mx mt i (t3, f) = (Inr r, (t', fs'))"
  from 0 have n: "n \<noteq> 0" by auto
  with debit_Inr [OF d] obtain v where v: "users t1 (mx_UserID mx) = Some v" "mt_Amount mt \<le> u_Quota v"
    and t2: "t2 = t1 \<lparr> users := (users t1)(mx_UserID mx \<mapsto> v \<lparr> u_Quota := u_Quota v - mt_Amount mt \<rparr>) \<rparr>" by auto
  from 1 [OF n] obtain f where c: "media_charge env mx mt i (t3, f) = (Inr rew, (t', fs'))" by auto
  define en where "en w = booked (ce_now env) (media_consume_entry mx mt i (u_Quota w))" for w :: user
  from query_bindD [OF c [unfolded media_charge_def]] obtain fresh :: user where
    w: "tx_bind (WriteBillingEntry (ce_now env) (media_consume_entry mx mt i (u_Quota fresh))) (\<lambda>_.
       ApplyReferralPaidSpendRewardTx (ce_now env) (mx_UserID mx) (mt_Amount mt)
         (fst (readReferralPaidSpendRewardConfig (ce_cfg env)))
         (snd (readReferralPaidSpendRewardConfig (ce_cfg env))) (ce_now env) ''api_log'' i) (t3, tl f) = (Inr rew, (t', fs'))"
    by blast
  note wb = write_bindD [OF w]
  define t0 where "t0 = t3 \<lparr> users := users t1 \<rparr>"
  have q0: "calm t t0"
    by (rule transpD [OF calm_rt(2) q]) (rule calmI; simp add: t0_def same t2)
  have t3: "t3 \<lparr> billing := billing t3 @ [en fresh] \<rparr>
    = t0 \<lparr> users := (users t0)(mx_UserID mx \<mapsto> v \<lparr> u_Quota := u_Quota v - mt_Amount mt \<rparr>), billing := billing t0 @ [en fresh] \<rparr>"
    using same t2 by (cases t3) (simp add: t0_def)
  have e: "be_UserID (en fresh) = mx_UserID mx" "be_EntryType (en fresh) = ''api_consume_balance''"
    "be_AmountUSD (en fresh) = - mt_Amount mt"
    by (simp_all add: en_def media_consume_entry_def media_entry_def booked_def)
  have ok: "entry_ok (en fresh)" using conjunct1 [OF wb] unfolding en_def .
  have v0: "users t0 (mx_UserID mx) = Some v" using v(1) by (simp add: t0_def)
  show thesis
    by (rule that [OF q0 v0 v(2) e ok t3]) (rule conjunct2 [OF wb, folded en_def])
qed

lemma media_body_reconciled:
  assumes "media_balance_body env mx mt (t, fs) = (Inr (i, o1), (t', fs'))" and rec: "reconciled opening t"
  shows "reconciled opening t'"
proof (cases o1)
  case None
  then show ?thesis using media_body_None assms calm_reconciled by blast
next
  case (Some rew)
  from assms(1) [unfolded Some] show ?thesis
  proof (rule media_body_Some)
    fix t1 v e t2 fs2
    assume q: "calm t t1" and v: "users t1 (mx_UserID mx) = Some v"
      and e: "be_UserID e = mx_UserID mx" "be_AmountUSD e = - mt_Amount mt"
      and t2: "t2 = t1 \<lparr> users := (users t1)(mx_UserID mx \<mapsto> v \<lparr> u_Quota := u_Quota v - mt_Amount mt \<rparr>), billing := billing t1 @ [e] \<rparr>"
      and a: "ApplyReferralPaidSpendRewardTx (ce_now env) (mx_UserID mx) (mt_Amount mt)
        (fst (readReferralPaidSpendRewardConfig (ce_cfg env)))
        (snd (readReferralPaidSpendRewardConfig (ce_cfg env))) (ce_now env) ''api_log'' i (t2, fs2) = (Inr rew, (t', fs'))"
    have r1: "reconciled opening t1" using q rec calm_reconciled by blast
    have "reconciled opening t2"
      by (rule reconciled_post [OF r1, of e]) (use v in \<open>auto simp: t2 e split: if_splits\<close>)
    with a show ?thesis by (rule referral_reconciled)
  qed
qed

lemma deduct_effect:
  assumes run: "DeductMediaBalanceAndLog env mx mt (t, fs) = (Inr a, (t', fs'))"
    and c: "0 < mt_Amount mt \<longrightarrow> in_i64 (mt_Amount mt) \<and> mx_UserID mx \<noteq> 0"
  shows "(calm t t' \<or> 0 < mt_Amount mt \<longrightarrow> calm t t' \<or> charged (mx_UserID mx) (mt_Amount mt) t t')
    \<and> (reconciled opening t \<longrightarrow> reconciled opening t')"
proof -
  from run obtain res t1 fs1 where 1: "try_tx (transaction (media_balance_body env mx mt)) (t, fs) = (Inr res, (t1, fs1))"
    and 2: "(case res of
         None \<Rightarrow> tx_bind (recordMediaPendingReconcile env mx mt) (\<lambda>i. tx_return (i, 0, None, []))
       | Some (i, None) \<Rightarrow> tx_return (i, 0, None, [RefreshUserAuth (mx_UserID mx)])
       | Some (i, Some reward) \<Rightarrow>
           tx_bind (if i \<noteq> 0 then RecordApiLogRevenue i ''balance'' (mt_Amount mt) 0 else tx_return ()) (\<lambda>_.
             tx_return (i, mt_Amount mt, Some reward, [RefreshUserAuth (mx_UserID mx)]))) (t1, fs1) = (Inr a, (t', fs'))"
    unfolding DeductMediaBalanceAndLog_def tx_bind_Inr by auto
  show ?thesis
  proof (cases res rule: deduct_cases)
    case 1
    then have "t1 = t" using \<open>try_tx _ _ = _\<close> transaction_rollback by (auto simp: try_tx_Inr)
    moreover have "calm t1 t'" using 2 1 keepsD [OF media_pending_calm]
      by (auto simp: tx_bind_Inr)
    ultimately show ?thesis using calm_reconciled by blast
  next
    case (2 i)
    then obtain f where b: "media_balance_body env mx mt (t, fs) = (Inr (i, None), (t1, f))"
      using \<open>try_tx _ _ = _\<close> by (auto simp: try_tx_Inr transaction_Inr)
    have "t' = t1" using \<open>(case res of None \<Rightarrow> _ | Some _ \<Rightarrow> _) _ = _\<close> 2 by simp
    then show ?thesis using media_body_None [OF b] calm_reconciled by blast
  next
    case (3 i rew)
    then obtain f where b: "media_balance_body env mx mt (t, fs) = (Inr (i, Some rew), (t1, f))"
      using \<open>try_tx _ _ = _\<close> by (auto simp: try_tx_Inr transaction_Inr)
    have k: "keeps calm (tx_bind (if i \<noteq> 0 then RecordApiLogRevenue i ''balance'' (mt_Amount mt) 0 else tx_return ()) (\<lambda>_.
             tx_return (i, mt_Amount mt, Some rew, [RefreshUserAuth (mx_UserID mx)])))"
      by (intro calm_intros RecordApiLogRevenue_quiet)
    have q: "calm t1 t'" using keepsD [OF k] \<open>(case res of None \<Rightarrow> _ | Some _ \<Rightarrow> _) _ = _\<close> 3 by simp
    have "\<exists>t0. calm t t0 \<and> charged_from (mx_UserID mx) (mt_Amount mt) t0 t1" if "0 < mt_Amount mt"
      using b by (rule media_body_Some) (use referral_charges that c in blast)
    with q media_body_reconciled [OF b] show ?thesis
      unfolding charged_def using calm_reconciled by blast
  qed
qed

subsection \<open>One charge per request\<close>

lemma media_commit_effect:
  assumes run: "media_commit env mx loaded mt (t, fs) = (Inr a, (t', fs'))"
    and c: "0 < mt_Amount mt" "in_i64 (mt_Amount mt)" "mx_UserID mx \<noteq> 0"
  shows "(reconciled opening t \<longrightarrow> reconciled opening t')
    \<and> (quiet t t' \<or> (u_BalanceConsumeEnabled (mx_User mx) \<and> charged (mx_UserID mx) (mt_Amount mt) t t'))"
proof -
  from run obtain d t1 fs1 where
    d: "decide_tx env loaded (media_request mx mt) (t, fs) = (Inr d, (t1, fs1))"
    and rest: "(if ed_NeedsRetry d \<or> (\<not> subscription_hit d \<and> \<not> u_BalanceConsumeEnabled (mx_User mx))
       then tx_bind (recordMediaPendingReconcile env mx mt) (\<lambda>i. tx_return (i, []))
       else tx_bind (if subscription_hit d then media_subscription env mx mt d else DeductMediaBalanceAndLog env mx mt)
         (\<lambda>(i, revenue, rew, eff). tx_bind (incrementSubTokenUsedQuota (mx_Token mx) (mx_SubToken mx) revenue)
           (\<lambda>eff'. tx_return (i, eff @ eff' @ reward_refresh rew)))) (t1, fs1) = (Inr a, (t', fs'))"
    unfolding media_commit_def tx_bind_Inr by auto
  have "Decide (ce_order env) (ce_cfg env) (ce_now env) loaded (media_request mx mt) (t, fs) = (d, (t1, fs1))"
    using d by (simp add: decide_tx_def split: prod.splits)
  from Decide_frame [OF this] have u1: "usages_only t t1 \<and> (\<not> subscription_hit d \<longrightarrow> t1 = t)"
    by (auto simp: subscription_hit_def)
  then have q1: "quiet t t1" by (auto intro: usages_only_quiet)
  have still: ?thesis if "calm t1 t'"
    using that q1 quiet_reconciled calm_reconciled transpD [OF quiet_rt(2)] by (metis calm_def)
  show ?thesis
  proof (cases "ed_NeedsRetry d \<or> (\<not> subscription_hit d \<and> \<not> u_BalanceConsumeEnabled (mx_User mx))")
    case True
    have k: "keeps calm (tx_bind (recordMediaPendingReconcile env mx mt) (\<lambda>i. tx_return (i, [] :: cache_effect list)))"
      by (intro calm_intros media_pending_calm)
    show ?thesis using keepsD [OF k] rest True by (intro still) simp
  next
    case False
    then obtain i revenue rew eff t2 fs2 where
      2: "(if subscription_hit d then media_subscription env mx mt d else DeductMediaBalanceAndLog env mx mt) (t1, fs1)
        = (Inr (i, revenue, rew, eff), (t2, fs2))"
      and 3: "tx_bind (incrementSubTokenUsedQuota (mx_Token mx) (mx_SubToken mx) revenue)
           (\<lambda>eff'. tx_return (i, eff @ eff' @ reward_refresh rew)) (t2, fs2) = (Inr a, (t', fs'))"
      using rest by (auto simp: tx_bind_Inr)
    have k3: "keeps calm (tx_bind (incrementSubTokenUsedQuota (mx_Token mx) (mx_SubToken mx) revenue)
           (\<lambda>eff'. tx_return (i, eff @ eff' @ reward_refresh rew)))"
      by (intro calm_intros increment_calm)
    have c3: "calm t2 t'" by (rule keepsD [OF k3 3])
    show ?thesis
    proof (cases "subscription_hit d")
      case True
      then have "calm t1 t2" using 2 keepsD [OF media_subscription_calm] by simp
      then show ?thesis using c3 transpD [OF calm_rt(2)] still by blast
    next
      case sub: False
      then have t1: "t1 = t" using u1 by blast
      have D: "DeductMediaBalanceAndLog env mx mt (t, fs1) = (Inr (i, revenue, rew, eff), (t2, fs2))"
        using 2 sub t1 by simp
      have "reconciled opening t \<longrightarrow> reconciled opening t2"
        using deduct_effect [OF D] c by blast
      moreover have "calm t t2 \<or> charged (mx_UserID mx) (mt_Amount mt) t t2" using deduct_effect [OF D] c by blast
      moreover have "u_BalanceConsumeEnabled (mx_User mx)" using False sub by blast
      ultimately show ?thesis
        using c3 transpD [OF calm_rt(2)] charged_calm calm_reconciled by (metis calm_def)
    qed
  qed
qed

subsection \<open>Properties\<close>

text \<open>A media request is paid at most once, and the books stay balanced. Whatever statements fail, the
  commit of a priced response with a positive amount returns and keeps the books; and either no
  balance has moved and only zero entries were booked, or the user had opted in and exactly the
  amount, which the balance covered, was taken by exactly one entry, beside at most one reward to
  somebody else.\<close>

theorem media_turn_pays_once:
  assumes "media_commit env mx loaded mt (t, fs) = (r, (t', fs'))"
    and "0 < mt_Amount mt" and "in_i64 (mt_Amount mt)" and "mx_UserID mx \<noteq> 0"
  shows "(\<exists>i eff. r = Inr (i, eff)) \<and> (reconciled opening t \<longrightarrow> reconciled opening t')
    \<and> (quiet t t' \<or> (u_BalanceConsumeEnabled (mx_User mx) \<and> charged (mx_UserID mx) (mt_Amount mt) t t'))"
proof -
  obtain i eff where r: "r = Inr (i, eff)"
    using returns_commit [of env mx loaded mt] assms(1) by (metis returns_def prod.inject prod.collapse)
  with media_commit_effect [OF assms(1) [unfolded r] assms(2-4)] show ?thesis by blast
qed

text \<open>The cost that an upstream reports in ticks is rounded up on 64 bits. Close to the greatest integer
  the sum wraps around and the amount is negative.\<close>

theorem huge_ticks_negative:
  assumes "in_i64 ticks" and "i64_max < ticks + 9999"
  shows "tick_amount ticks < 0"
proof -
  have "in_i64 (ticks + 9999 + 18446744073709551616 * (- 1))" using assms by (simp add: i64_defs)
  then have "wrap64 (ticks + 9999) = ticks + 9999 - 18446744073709551616"
    using wrap64_period [of "ticks + 9999" "- 1"] by simp
  then show ?thesis using assms by (simp add: tick_amount_def i64_defs signed_divide_int_def sgn_if)
qed

text \<open>The debit takes such an amount without a check: a run of the charge that succeeds then raises the
  balance of the user, and books the increase as a consumption.\<close>

theorem negative_amount_credits:
  assumes "media_balance_body env mx mt (t, fs) = (Inr (i, Some rew), (t', fs'))" and "mt_Amount mt < 0"
  shows "\<exists>u u'. users t (mx_UserID mx) = Some u \<and> users t' (mx_UserID mx) = Some u'
    \<and> u_Quota u' = u_Quota u - mt_Amount mt \<and> u_Quota u < u_Quota u'"
  using assms(1)
proof (rule media_body_Some)
  fix t1 v e t2 fs2
  assume q: "calm t t1" and v: "users t1 (mx_UserID mx) = Some v"
    and t2: "t2 = t1 \<lparr> users := (users t1)(mx_UserID mx \<mapsto> v \<lparr> u_Quota := u_Quota v - mt_Amount mt \<rparr>), billing := billing t1 @ [e] \<rparr>"
    and a: "ApplyReferralPaidSpendRewardTx (ce_now env) (mx_UserID mx) (mt_Amount mt)
        (fst (readReferralPaidSpendRewardConfig (ce_cfg env)))
        (snd (readReferralPaidSpendRewardConfig (ce_cfg env))) (ce_now env) ''api_log'' i (t2, fs2) = (Inr rew, (t', fs'))"
  have "t' = t2" using a assms(2) by (simp add: ApplyReferralPaidSpendRewardTx_def)
  moreover have "\<exists>u. users t (mx_UserID mx) = Some u \<and> u_Quota u = u_Quota v"
  proof -
    have "balance_of t1 (mx_UserID mx) = balance_of t (mx_UserID mx)" using q by (simp add: calm_def quiet_def)
    then show ?thesis using v by (cases "users t (mx_UserID mx)") (simp_all add: balance_of_def)
  qed
  ultimately show ?thesis using assms(2) by (auto simp: t2)
qed

text \<open>The images that an edit sends in are not priced: the price does not depend on their number.\<close>

theorem input_images_free: "resolveImagePrice db (req \<lparr> iq_InputImageCount := n \<rparr>) images ticks = resolveImagePrice db req images ticks"
  by (simp add: resolveImagePrice_def Let_def split: option.split)

end
