(* ===== verification/Spec2Isabelle.thy ===== *)
theory Spec2Isabelle
  imports PaymentWebhook SubscriptionRequests ChannelRoutes BalanceConsume Referral DistributedLock SubscriptionCache MediaAccounts
begin

text \<open>
  A verification development for DAOF-CPA, a gateway that resells access to language and media
  models. Users top up a balance or buy subscriptions; each request is priced from the usage the
  upstream reports and is paid by a subscription or by the balance; channels to the upstreams are
  opened and closed by circuit breakers; everything that moves money leaves an entry in a ledger.
  The development models this money-carrying core of \<^verbatim>\<open>src/proxy\<close>, \<^verbatim>\<open>src/controller\<close>
  and \<^verbatim>\<open>src/database\<close>.
\<close>

section \<open>The parts and how they interact\<close>

text \<open>
  A text request runs through these parts. \<^verbatim>\<open>proxy/stream_precheck.go\<close> estimates its size and holds that
  amount against the balance. The subscription engine asks, without writing, whether a
  subscription will serve it. The relay picks a channel whose circuit is closed and copies the
  response (not modelled). The usage object of the response is normalised
  (\<^verbatim>\<open>proxy/stream_usage.go\<close>), priced (\<^verbatim>\<open>proxy/billing_rules.go\<close>, \<^verbatim>\<open>proxy/text_billing.go\<close>), and
  committed: the engine consumes plans of a subscription, or the balance is debited within the
  user's spending window, the referrer is paid a share, and the ledger gets one entry. An image,
  video or Gemini request is priced by ticks, official prices or tokens (\<^verbatim>\<open>proxy/image_pricing.go\<close> and
  its siblings) and runs a commit of its own (\<^verbatim>\<open>proxy/media_billing.go\<close>).

  Money comes in through orders (\<^verbatim>\<open>controller/topup.go\<close>): the callback of a gateway is verified
  (\<^verbatim>\<open>controller/payment_provider_yifut.go\<close>, \<^verbatim>\<open>controller/payment_provider_epusdt.go\<close>) and credits its
  order, an administrator credits or refunds one (\<^verbatim>\<open>controller/topup_admin.go\<close>), each time in one
  transaction with its ledger entry; a sweep cancels what waited too long. Subscriptions are bought
  with the balance, perhaps with a coupon (\<^verbatim>\<open>controller/subscription_purchase.go\<close>,
  \<^verbatim>\<open>controller/coupon.go\<close>), granted (\<^verbatim>\<open>controller/subscription_grant.go\<close>), canceled or refunded
  (\<^verbatim>\<open>controller/subscription_admin.go\<close>); each keeps a snapshot of its package as JSON text, from which the cache
  and the engine read the plans. Background sweeps (\<^verbatim>\<open>proxy/subscription_cron.go\<close>) run under leases of
  \<^verbatim>\<open>database/distributed_lock_helper.go\<close>.
\<close>

section \<open>The theories\<close>

text \<open>
  The library beneath the components:

  \<^item> \<open>Prelude\<close>: Go's \<^verbatim>\<open>int64\<close> and the 64-bit words it wraps in, string keyed maps, and the locale
    \<open>transition_system\<close> (an initial state predicate, a step relation and an invariant kept by
    every step give the invariant of every reachable state).
  \<^item> \<open>GoStr\<close>: byte strings, the helpers of \<^verbatim>\<open>strings\<close> and \<^verbatim>\<open>strconv\<close> the code calls.
  \<^item> \<open>GoFloat\<close>: binary64 with exact rounding, conversion to \<^verbatim>\<open>int64\<close>, parsing of decimals.
  \<^item> \<open>GoJson\<close>, \<open>GoJsonPrint\<close>: \<^verbatim>\<open>encoding/json\<close>, a parser and a printer, with the round trip between
    them. \<open>GoNet\<close>: IP addresses and address ranges.
  \<^item> \<open>Store\<close>: the tables, with rows as records of the columns the code uses
    (\<^verbatim>\<open>database/schema.go\<close> and the other schema files), and the error monad of database programs with its toolkit.

  The components:

  \<^item> \<open>Money\<close>: \<^verbatim>\<open>database/money.go\<close>, units and checked arithmetic. \<open>TopupMoney\<close>: the pure
    helpers of recharge orders (\<^verbatim>\<open>controller/topup_money.go\<close>).
  \<^item> \<open>SysConfig\<close>: the readers of configuration values in \<^verbatim>\<open>proxy\<close>.
  \<^item> \<open>Ledger\<close>: \<^verbatim>\<open>database/billing_helper.go\<close>, the only writer of billing entries, with its retry, its unique
    index and the locale \<open>account_book\<close>.
  \<^item> \<open>BalanceConsume\<close>: the spending window. \<open>Referral\<close>: rewards for referred users and the floor of
    paid-in money. \<open>DistributedLock\<close>: leases. \<open>ChannelCircuit\<close>: circuit breakers, rate-limit and
    per-model cooldowns of channels. \<open>ChannelRoutes\<close>: how the handlers filter routes by them, select
    one and report on it.
  \<^item> \<open>BillingRules\<close>, \<open>Usage\<close>, \<open>TextPricing\<close>, \<open>Precheck\<close>: price rules and their selection, the usage
    dialects, the price of a request, the estimate beforehand.
  \<^item> \<open>PlanMatching\<close>, \<open>SubscriptionEngine\<close>, \<open>EngineFrames\<close>, \<open>SubscriptionCache\<close>: which plan covers a
    model, decisions and consumption, their frames, the cache of active subscriptions.
  \<^item> \<open>Served\<close>: programs over the steps of a machine, and the locale \<open>server\<close> (a \<open>transition_system\<close>
    whose steps keep the books and that may idle), interpreted by the machine of the orders and by
    the machine of the sales.
  \<^item> \<open>TextBilling\<close>: the commit of a text request; \<open>TextAccounts\<close>: proofs about it.
  \<^item> \<open>ModelProvider\<close>: names of models and what a route must have to be sold. \<open>MediaPricing\<close>,
    \<open>MediaBilling\<close>: prices of images, videos and Gemini requests, and one commit for the three
    kinds, which differ in the record \<open>media_turn\<close>; \<open>MediaAccounts\<close>: proofs about it.
  \<^item> \<open>TopupOrders\<close>: the transactions of recharge orders; \<open>TopupAccounts\<close>: the order machine
    \<open>topup_step\<close> and its invariant. \<open>PaymentGateways\<close>: signatures and events of yifut and
    epusdt. \<open>PaymentWebhook\<close>: the handlers around the orders, shown to be runs of the machine.
  \<^item> \<open>Packages\<close>, \<open>Coupons\<close>, \<open>Subscriptions\<close>: what is sold, coupons and the handlers that create and
    change subscriptions; \<open>SubscriptionAccounts\<close>: the step relation \<open>sub_step\<close> and its invariant;
    \<open>SubscriptionRequests\<close>: the handlers are runs of it, and the expiry sweep drains
    its backlog.

  Definitions keep the names of the Go functions, a method after its receiver where two clash. A
  field of a table is a field of the record, prefixed by its table (\<open>u_Quota\<close> is the column
  \<^verbatim>\<open>quota\<close> of \<^verbatim>\<open>users\<close>).
\<close>

section \<open>Conventions of the model\<close>

text \<open>
  A database program maps the tables and a schedule of faults to an error or a result, the new
  tables and the remaining schedule. The schedule has one Boolean per statement; where it is
  true the statement fails. So a theorem without a hypothesis on the schedule holds whatever
  fails, and one about success states that no fault occurs. A transaction restores the tables on
  an error. An exhausted schedule means no more faults. The conditional updates
  (\<^verbatim>\<open>UPDATE ... WHERE status = ?\<close> with a check of \<^verbatim>\<open>RowsAffected\<close>) are the guards of the code and
  are kept as such.

  Concurrency is interleaving of transactions: \<open>topup_step\<close> and \<open>sub_step\<close> have one rule per
  transaction of the code, with arbitrary parameters and faults, and rules for what the rest of
  the program may do to the same tables. The handlers are shown to decompose into such steps,
  so the invariants hold for any number of requests in flight. The operations of the channel
  breaker and of the leases are single steps in the same way; those of the breaker use several
  atomic variables in the code, so two of them at the same instant could interleave more finely
  than the model lets them. A load of the subscription cache and the storing of its rows are one
  step. The expiry sweep reads its clock once, as the code does. Letter case is folded on ASCII
  only. Integer columns of the tables carry no width; ranges that matter are hypotheses. A transaction is one step because
  SQLite in WAL mode has one writer, and refuses the writes of a transaction whose reads are
  outdated.

  Machine integers: amounts are integers with the range of \<^verbatim>\<open>int64\<close>; sums that the code checks are
  checked in the model and sums that wrap are reduced by \<open>wrap64\<close>. Counters of tokens, prices and
  multipliers as floats are values of \<open>GoFloat\<close>.

  Loops: list recursion, or fuel where the source loops on a condition. The parser of JSON gets
  twice the length of its input plus two, and every nested call consumes a byte or leaves a
  level, so the round trip of \<open>GoJsonPrint\<close> shows that printed values never exhaust it. The
  retried ledger write has three attempts, acquiring a lease five, as in the source. An expiry
  sweep takes at most 200 rows; a theorem of \<open>SubscriptionRequests\<close> shows what it does under any
  faults and how many sweeps without faults empty the backlog. The shortest decimal of a float is searched up to 17
  digits, which \<open>decimal_17\<close> shows to be enough for every positive binary64 value.

  Parameters (not defined here): RSA, MD5 and PEM keys, Go's Unicode tables, the queries on
  a usage object, the calls to a gateway, random bytes, the clock, the order in which a Go map is
  walked. Where a theorem needs something of them it is a hypothesis of the theorem with a
  witness.
\<close>

section \<open>What the lemmas show\<close>

text \<open>
  \<^item> Money and prices: checked operations are exact or report overflow; printed amounts parse back;
    the raw cost is the rounded-up sum of tokens times price; a charge lies between one micro-dollar and
    the cap; the same traffic costs the same in every dialect; the hold covers the cost up to the premium
    of caching.
  \<^item> Media: a commit returns, keeps the books and charges at most once (\<open>media_turn_pays_once\<close>);
    a huge reported cost wraps to a negative amount, which a charge then credits to the user, and
    the input images of an edit are never priced.
  \<^item> Ledger: exactly the valid entries are booked, a retried write books once. The law
    \<open>reconciled\<close> relates balances and entries, and every component that moves money is shown to keep it.
  \<^item> Subscriptions: consumption is all or nothing and implements the abstract update of the
    counters; a request is paid by one source; the cache answers with what the tables
    said less than a time to live ago.
  \<^item> Orders: each order is credited at most once, refunds add up and never pass what was paid;
    every request to the handlers is a run of the machine. The error theorems show where the
    code loses or blocks a payment: they are findings about the code, each with its theorem.
  \<^item> Sales: in every reachable state a bought subscription has one purchase entry and at most one
    refund entry, a coupon pays for one subscription, a batch grant is all or nothing.
  \<^item> Channels and leases: an open period is bounded, and after it exactly one probe is admitted,
    until somebody reports on it; no two owners hold a live lease. \<open>ChannelRoutes\<close> shows that the
    handlers claim probes they never report, so that a channel can stay shut out.
\<close>

section \<open>Not modelled\<close>

text \<open>
  Parsing and rendering of HTTP requests (the handlers start from decoded fields), the relays that
  stream responses and translate between dialects, the credentials and clients of third
  parties, the rows that remember video jobs, moderation, notifications, mail, lists for display,
  statistics, the comparison with bills of the upstreams, the seeds and the migration of the
  schema, and refreshing caches after a write. These are input and output or call services, and
  do not decide who pays what. Administrative edits of packages, plans and users
  appear as steps of the environment only. A process crash between two transactions is a run
  that stops, which the step relations contain; a crash within a transaction is a fault.
\<close>

end
